(* ===== verification/Eva_Text.thy ===== *)
theory Eva_Text
  imports Eva_Prelude
begin

section \<open>Text operations of the Rust standard library\<close>

text \<open>
  Splitting, joining, trimming and decimal rendering of byte strings, with the round trips
  the parsers and codecs of the components rest on.
\<close>

subsection \<open>Characters\<close>

abbreviation byte :: "char \<Rightarrow> nat" where
  "byte c \<equiv> of_char c"

definition is_ascii_digit :: "char \<Rightarrow> bool" where
  "is_ascii_digit c \<longleftrightarrow> 48 \<le> byte c \<and> byte c \<le> 57"

definition is_ascii_alphanumeric :: "char \<Rightarrow> bool" where
  "is_ascii_alphanumeric c \<longleftrightarrow>
     is_ascii_digit c \<or> 65 \<le> byte c \<and> byte c \<le> 90 \<or> 97 \<le> byte c \<and> byte c \<le> 122"

definition is_graphic :: "char \<Rightarrow> bool" where
  "is_graphic c \<longleftrightarrow> 33 \<le> byte c \<and> byte c \<le> 126"

lemma alphanumeric_graphic: "is_ascii_alphanumeric c \<Longrightarrow> is_graphic c"
  by (auto simp: is_ascii_alphanumeric_def is_ascii_digit_def is_graphic_def)

lemma digit_alphanumeric: "is_ascii_digit c \<Longrightarrow> is_ascii_alphanumeric c"
  by (simp add: is_ascii_alphanumeric_def)

subsection \<open>Whitespace and trimming\<close>

text \<open>
  The UTF-8 encodings of U+0009--U+000D, U+0020, U+0085, U+00A0, U+1680, U+2000--U+200A,
  U+2028, U+2029, U+202F, U+205F and U+3000.
\<close>

definition ws_seqs :: "string list" where
  "ws_seqs = map (map char_of)
     ([[9], [10], [11], [12], [13], [32], [194, 133], [194, 160], [225, 154, 128],
       [226, 128, 128], [226, 128, 129], [226, 128, 130], [226, 128, 131], [226, 128, 132],
       [226, 128, 133], [226, 128, 134], [226, 128, 135], [226, 128, 136], [226, 128, 137],
       [226, 128, 138], [226, 128, 168], [226, 128, 169], [226, 128, 175], [226, 129, 159],
       [227, 128, 128]] :: nat list list)"

definition leading_ws :: "string list \<Rightarrow> string \<Rightarrow> string option" where
  "leading_ws ws s = find (\<lambda>w. w \<noteq> [] \<and> take (length w) s = w) ws"

function strip_start :: "string list \<Rightarrow> string \<Rightarrow> string" where
  "strip_start ws s = (case leading_ws ws s of
     None \<Rightarrow> s
   | Some w \<Rightarrow> strip_start ws (drop (length w) s))"
  by pat_completeness auto
termination
proof (relation "measure (\<lambda>(ws, s). length s)")
  fix ws s w
  assume "leading_ws ws s = Some w"
  then have "w \<noteq> []" and "take (length w) s = w"
    by (auto simp: leading_ws_def find_Some_iff)
  then have "s \<noteq> []" by auto
  with \<open>w \<noteq> []\<close> show "((ws, drop (length w) s), ws, s) \<in> measure (\<lambda>(ws, s). length s)"
    by simp
qed simp

declare strip_start.simps [simp del]

definition trim_start :: "string \<Rightarrow> string" where
  "trim_start s = strip_start ws_seqs s"

definition trim_end :: "string \<Rightarrow> string" where
  "trim_end s = rev (strip_start (map rev ws_seqs) (rev s))"

definition trim :: "string \<Rightarrow> string" where
  "trim s = trim_end (trim_start s)"

fun has_whitespace :: "string \<Rightarrow> bool" where
  "has_whitespace [] = False"
| "has_whitespace (c # s) = (leading_ws ws_seqs (c # s) \<noteq> None \<or> has_whitespace s)"

lemma leading_ws_None: "leading_ws ws s = None \<longleftrightarrow> (\<forall>w \<in> set ws. w = [] \<or> take (length w) s \<noteq> w)"
  by (auto simp: leading_ws_def find_None_iff)

lemma strip_start_None [simp]: "leading_ws ws s = None \<Longrightarrow> strip_start ws s = s"
  by (simp add: strip_start.simps)

lemma leading_ws_strip_start: "leading_ws ws (strip_start ws s) = None"
  by (induction ws s rule: strip_start.induct)
    (subst strip_start.simps, auto split: option.splits)

lemma suffix_strip_start: "\<exists>p. s = p @ strip_start ws s"
proof (induction ws s rule: strip_start.induct)
  case (1 ws s)
  show ?case
  proof (cases "leading_ws ws s")
    case None
    then show ?thesis by simp
  next
    case (Some w)
    then obtain p where "drop (length w) s = p @ strip_start ws (drop (length w) s)"
      using 1 by blast
    then have "s = (take (length w) s @ p) @ strip_start ws (drop (length w) s)"
      by (metis append.assoc append_take_drop_id)
    moreover have "strip_start ws s = strip_start ws (drop (length w) s)"
      using Some by (simp add: strip_start.simps [of ws s])
    ultimately show ?thesis by metis
  qed
qed

lemma prefix_trim_end: "\<exists>p. s = trim_end s @ p"
proof -
  obtain p where "rev s = p @ strip_start (map rev ws_seqs) (rev s)"
    using suffix_strip_start by blast
  then have "s = rev (strip_start (map rev ws_seqs) (rev s)) @ rev p"
    by (metis rev_append rev_rev_ident)
  then show ?thesis unfolding trim_end_def by blast
qed

lemma leading_ws_prefix: "leading_ws ws (s @ t) = None \<Longrightarrow> leading_ws ws s = None"
  by (fastforce simp: leading_ws_None)

lemma trim_idem [simp]: "trim (trim s) = trim s"
proof -
  obtain p where "trim_start s = trim s @ p"
    using prefix_trim_end [of "trim_start s"] by (auto simp: trim_def)
  moreover have "leading_ws ws_seqs (trim_start s) = None"
    by (simp add: trim_start_def leading_ws_strip_start)
  ultimately have "leading_ws ws_seqs (trim s) = None"
    by (metis leading_ws_prefix)
  then have "trim_start (trim s) = trim s"
    by (simp add: trim_start_def)
  moreover have "trim_end (trim s) = trim s"
    by (simp add: trim_def trim_end_def leading_ws_strip_start)
  ultimately show ?thesis
    by (simp add: trim_def [of "trim s"])
qed

lemma trim_Nil [simp]: "trim [] = []"
proof -
  have *: "strip_start ws [] = []" for ws
    using suffix_strip_start [of "[]" ws] by simp
  show ?thesis by (simp add: trim_def trim_start_def trim_end_def *)
qed

text \<open>Graphic ASCII characters start and end no whitespace encoding.\<close>

lemma ws_seqs_graphic:
  "\<forall>w \<in> set ws_seqs. w \<noteq> [] \<and> \<not> is_graphic (hd w) \<and> \<not> is_graphic (last w)"
  by (simp add: ws_seqs_def is_graphic_def)

lemma leading_ws_graphic: "is_graphic c \<Longrightarrow> leading_ws ws_seqs (c # s) = None"
proof -
  assume c: "is_graphic c"
  have "take (length w) (c # s) \<noteq> w" if "w \<in> set ws_seqs" for w
  proof
    assume "take (length w) (c # s) = w"
    moreover from that have "w \<noteq> []" and "\<not> is_graphic (hd w)" using ws_seqs_graphic by auto
    ultimately have "hd w = c" by (cases w) auto
    with c \<open>\<not> is_graphic (hd w)\<close> show False by simp
  qed
  then show ?thesis by (simp add: leading_ws_None)
qed

lemma leading_ws_rev_graphic: "is_graphic c \<Longrightarrow> leading_ws (map rev ws_seqs) (c # s) = None"
proof -
  assume c: "is_graphic c"
  have "take (length w) (c # s) \<noteq> w" if "w \<in> set (map rev ws_seqs)" for w
  proof
    assume "take (length w) (c # s) = w"
    moreover from that have "w \<noteq> []" and "\<not> is_graphic (hd w)"
      using ws_seqs_graphic by (auto simp: hd_rev)
    ultimately have "hd w = c" by (cases w) auto
    with c \<open>\<not> is_graphic (hd w)\<close> show False by simp
  qed
  then show ?thesis by (simp only: leading_ws_None) blast
qed

lemma leading_ws_Nil [simp]: "leading_ws ws [] = None"
  by (auto simp: leading_ws_None)

lemma strip_start_keeps:
  assumes "\<forall>w \<in> set ws. \<forall>x \<in> set w. \<not> is_graphic x" and "is_graphic c" and "c \<in> set s"
  shows "c \<in> set (strip_start ws s)"
  using assms
proof (induction ws s rule: strip_start.induct)
  case (1 ws s)
  show ?case
  proof (cases "leading_ws ws s")
    case None
    then show ?thesis using 1 by simp
  next
    case (Some w)
    then have "w \<in> set ws" and "take (length w) s = w" by (auto simp: leading_ws_def find_Some_iff)
    then have "c \<notin> set (take (length w) s)" using "1.prems" by auto
    then have "c \<in> set (drop (length w) s)" using "1.prems"(3) by (metis Un_iff append_take_drop_id set_append)
    then have "c \<in> set (strip_start ws (drop (length w) s))" using 1 Some by blast
    then show ?thesis using Some by (simp add: strip_start.simps [of ws s])
  qed
qed

lemma trim_keeps_graphic: "is_graphic c \<Longrightarrow> c \<in> set s \<Longrightarrow> c \<in> set (trim s)"
proof -
  have "\<forall>w \<in> set ws_seqs. \<forall>x \<in> set w. \<not> is_graphic x" by (simp add: ws_seqs_def is_graphic_def)
  then show "is_graphic c \<Longrightarrow> c \<in> set s \<Longrightarrow> c \<in> set (trim s)"
    using strip_start_keeps [of ws_seqs c s] strip_start_keeps [of "map rev ws_seqs" c "rev (trim_start s)"]
    by (auto simp: trim_def trim_end_def trim_start_def)
qed

lemma trim_graphic [text_simps]: "\<forall>c \<in> set s. is_graphic c \<Longrightarrow> trim s = s"
proof -
  assume s: "\<forall>c \<in> set s. is_graphic c"
  then have "leading_ws ws_seqs s = None"
    by (cases s) (auto simp: leading_ws_graphic)
  moreover have "leading_ws (map rev ws_seqs) (rev s) = None"
  proof (cases "rev s")
    case (Cons c t)
    then have "c \<in> set s" by (metis list.set_intros(1) set_rev)
    with s Cons show ?thesis by (simp add: leading_ws_rev_graphic)
  qed simp
  ultimately show ?thesis by (simp add: trim_def trim_start_def trim_end_def)
qed

lemma has_whitespace_graphic [text_simps]: "\<forall>c \<in> set s. is_graphic c \<Longrightarrow> \<not> has_whitespace s"
  by (induction s) (auto simp: leading_ws_graphic)

subsection \<open>Splitting and joining\<close>

fun split_on :: "char \<Rightarrow> string \<Rightarrow> string list" where
  "split_on d [] = [[]]"
| "split_on d (c # s) =
     (if c = d then [] # split_on d s
      else (case split_on d s of [] \<Rightarrow> [[c]] | y # ys \<Rightarrow> (c # y) # ys))"

fun join :: "string \<Rightarrow> string list \<Rightarrow> string" where
  "join sep [] = []"
| "join sep [x] = x"
| "join sep (x # y # ys) = x @ sep @ join sep (y # ys)"

lemma split_on_not_Nil [simp]: "split_on d s \<noteq> []"
  by (induction s) (auto split: list.splits)

lemma join_split_on [simp]: "join [d] (split_on d s) = s"
proof (induction s)
  case (Cons c s)
  obtain y ys where *: "split_on d s = y # ys" by (metis list.exhaust split_on_not_Nil)
  show ?case using Cons * by (cases ys) auto
qed simp

lemma split_on_segment: "x \<in> set (split_on d s) \<Longrightarrow> d \<notin> set x"
proof (induction s arbitrary: x)
  case (Cons c s)
  obtain y ys where *: "split_on d s = y # ys" by (metis list.exhaust split_on_not_Nil)
  show ?case using Cons * by (auto split: if_splits)
qed simp

lemma split_on_chars: "x \<in> set (split_on d s) \<Longrightarrow> set x \<subseteq> set s"
proof (induction s arbitrary: x)
  case (Cons c s)
  obtain y ys where *: "split_on d s = y # ys" by (metis list.exhaust split_on_not_Nil)
  show ?case using Cons * by (fastforce split: if_splits)
qed simp

lemma set_split_on: "set s \<subseteq> insert d (\<Union>x \<in> set (split_on d s). set x)"
proof (induction s)
  case (Cons c s)
  obtain y ys where *: "split_on d s = y # ys" by (metis list.exhaust split_on_not_Nil)
  show ?case using Cons * by auto
qed simp

lemma split_on_no_sep: "d \<notin> set s \<Longrightarrow> split_on d s = [s]"
  by (induction s) auto

lemma split_on_append: "d \<notin> set s \<Longrightarrow> split_on d (s @ d # t) = s # split_on d t"
  by (induction s) auto

lemma split_on_join:
  "xs \<noteq> [] \<Longrightarrow> \<forall>x \<in> set xs. d \<notin> set x \<Longrightarrow> split_on d (join [d] xs) = xs"
  by (induction "[d]" xs rule: join.induct) (auto simp: split_on_no_sep split_on_append)

lemma set_join: "set (join d xs) \<subseteq> set d \<union> (\<Union>x \<in> set xs. set x)"
  by (induction d xs rule: join.induct) auto

text \<open>\<^verbatim>\<open>str::split_once\<close> with a character separator: the first occurrence splits.\<close>

fun split_once :: "char \<Rightarrow> string \<Rightarrow> (string \<times> string) option" where
  "split_once d [] = None"
| "split_once d (c # s) =
     (if c = d then Some ([], s) else map_option (\<lambda>(k, v). (c # k, v)) (split_once d s))"

lemma split_once_append: "d \<notin> set k \<Longrightarrow> split_once d (k @ d # v) = Some (k, v)"
  by (induction k) auto

text \<open>
  \<^verbatim>\<open>str::lines\<close>: the text is cut after every newline; a line loses its newline and, then, one
  carriage return before it; a last line with no newline is kept as it is.
\<close>

definition strip_cr :: "string \<Rightarrow> string" where
  "strip_cr l = (if l \<noteq> [] \<and> last l = CHR 0x0D then butlast l else l)"

definition lines :: "string \<Rightarrow> string list" where
  "lines s = (let ps = split_on CHR 0x0A s in
     map strip_cr (butlast ps) @ (if last ps = [] then [] else [last ps]))"

lemma lines_Nil [simp]: "lines [] = []"
  by (simp add: lines_def)

lemma lines_append_line:
  "CHR 0x0A \<notin> set l \<Longrightarrow> lines (l @ CHR 0x0A # s) = strip_cr l # lines s"
  by (simp add: lines_def split_on_append Let_def)

lemma strip_cr_id: "CHR 0x0D \<notin> set l \<Longrightarrow> strip_cr l = l"
  by (metis last_in_set strip_cr_def)

text \<open>\<^verbatim>\<open>str::contains\<close> with a string needle.\<close>

fun str_contains :: "string \<Rightarrow> string \<Rightarrow> bool" where
  "str_contains needle [] = (needle = [])"
| "str_contains needle (c # s) = (take (length needle) (c # s) = needle \<or> str_contains needle s)"

subsection \<open>Decimal numbers\<close>

definition digit_char :: "nat \<Rightarrow> char" where
  "digit_char d = char_of (48 + d)"

fun nat_str :: "nat \<Rightarrow> string" where
  "nat_str n = (if n < 10 then [digit_char n] else nat_str (n div 10) @ [digit_char (n mod 10)])"

declare nat_str.simps [simp del]

text \<open>
  \<^verbatim>\<open>parse\<close> of an unsigned integer type with the given number of values: an optional plus sign,
  at least one digit, and no value beyond the type.
\<close>

fun dec_value :: "nat \<Rightarrow> string \<Rightarrow> nat option" where
  "dec_value n [] = Some n"
| "dec_value n (c # s) =
     (if is_ascii_digit c then dec_value (10 * n + (byte c - 48)) s else None)"

definition parse_unsigned :: "nat \<Rightarrow> string \<Rightarrow> nat option" where
  "parse_unsigned bound s =
     (let ds = (if s \<noteq> [] \<and> hd s = CHR ''+'' then tl s else s) in
      if ds = [] then None
      else (case dec_value 0 ds of None \<Rightarrow> None | Some n \<Rightarrow> if n < bound then Some n else None))"

lemma byte_digit_char: "d < 10 \<Longrightarrow> byte (digit_char d) = 48 + d"
  by (simp add: digit_char_def)

lemma nat_str_digits: "c \<in> set (nat_str n) \<Longrightarrow> is_ascii_digit c"
proof (induction n rule: nat_str.induct)
  case (1 n)
  then show ?case
    by (cases "n < 10") (auto simp: nat_str.simps [of n] is_ascii_digit_def byte_digit_char)
qed

lemma nat_str_not_Nil [simp]: "nat_str n \<noteq> []"
  by (subst nat_str.simps) simp

lemma nat_str_graphic: "\<forall>c \<in> set (nat_str n). is_graphic c"
  using nat_str_digits by (blast intro: alphanumeric_graphic digit_alphanumeric)

lemma dec_value_append:
  "dec_value k (s @ t) = (case dec_value k s of None \<Rightarrow> None | Some m \<Rightarrow> dec_value m t)"
  by (induction s arbitrary: k) auto

lemma dec_value_nat_str: "dec_value 0 (nat_str n) = Some n"
proof (induction n rule: nat_str.induct)
  case (1 n)
  show ?case
  proof (cases "n < 10")
    case True
    then show ?thesis by (simp add: nat_str.simps [of n] is_ascii_digit_def byte_digit_char)
  next
    case False
    then have "dec_value 0 (nat_str (n div 10)) = Some (n div 10)" using 1 by blast
    then show ?thesis using False
      by (simp add: nat_str.simps [of n] dec_value_append is_ascii_digit_def byte_digit_char)
  qed
qed

lemma nat_str_inj [simp]: "nat_str m = nat_str n \<longleftrightarrow> m = n"
  using dec_value_nat_str by (metis option.inject)

lemma parse_unsigned_nat_str: "n < bound \<Longrightarrow> parse_unsigned bound (nat_str n) = Some n"
proof -
  assume n: "n < bound"
  have "is_ascii_digit (hd (nat_str n))" by (rule nat_str_digits [of _ n]) simp
  then have "hd (nat_str n) \<noteq> CHR ''+''" by (auto simp: is_ascii_digit_def)
  then show ?thesis using n by (simp add: parse_unsigned_def dec_value_nat_str)
qed

text \<open>The method \<open>strip_prefix\<close> of a string.\<close>

definition strip_prefix :: "string \<Rightarrow> string \<Rightarrow> string option" where
  "strip_prefix p s = (if take (length p) s = p then Some (drop (length p) s) else None)"

lemma strip_prefix_append [simp]: "strip_prefix p (p @ s) = Some s"
  by (simp add: strip_prefix_def)

end
