(* ===== verification/Core_Error.thy ===== *)
theory Core_Error
  imports Eva_Text
begin

section \<open>Structured errors (eva-core, error.rs)\<close>

text \<open>
  \<^verbatim>\<open>ErrorKind\<close>, \<^verbatim>\<open>ProviderCode\<close>, \<^verbatim>\<open>ErrorContext\<close> and \<^verbatim>\<open>EvaError\<close>. Every fallible operation of the
  development returns \<open>'a res\<close>, with the full error value on the left: kind, message, retry
  classification, provider code and context, as the crates build them.
\<close>

datatype error_kind =
    InvalidArgument
  | NotFound
  | Conflict
  | PermissionDenied
  | Timeout
  | Unavailable
  | Internal
  | Unsupported

definition default_retryable :: "error_kind \<Rightarrow> bool" where
  "default_retryable k = (k = Timeout \<or> k = Unavailable)"

fun error_kind_as_str :: "error_kind \<Rightarrow> string" where
  "error_kind_as_str InvalidArgument = ''invalid_argument''"
| "error_kind_as_str NotFound = ''not_found''"
| "error_kind_as_str Conflict = ''conflict''"
| "error_kind_as_str PermissionDenied = ''permission_denied''"
| "error_kind_as_str Timeout = ''timeout''"
| "error_kind_as_str Unavailable = ''unavailable''"
| "error_kind_as_str Internal = ''internal''"
| "error_kind_as_str Unsupported = ''unsupported''"

datatype provider_code = ProviderCode (provider_code_str: string)

definition provider_code_new :: "string \<Rightarrow> provider_code option" where
  "provider_code_new value = (let trimmed = trim value in
     if trimmed = [] then None else Some (ProviderCode trimmed))"

record error_context =
  ctx_entries :: "(string \<times> string) list"

definition error_context_new :: error_context where
  "error_context_new = \<lparr>ctx_entries = []\<rparr>"

definition error_context_push :: "error_context \<Rightarrow> string \<Rightarrow> string \<Rightarrow> error_context" where
  "error_context_push c key value =
     (if trim key \<noteq> [] then c\<lparr>ctx_entries := ctx_entries c @ [(key, value)]\<rparr> else c)"

record eva_error =
  err_kind :: error_kind
  err_message :: string
  err_retryable :: bool
  err_provider_code :: "provider_code option"
  err_context :: error_context

type_synonym 'a res = "eva_error + 'a"

definition eva_error_new :: "error_kind \<Rightarrow> string \<Rightarrow> eva_error" where
  "eva_error_new k message =
     \<lparr>err_kind = k, err_message = message, err_retryable = default_retryable k,
      err_provider_code = None, err_context = error_context_new\<rparr>"

definition err_invalid_argument :: "string \<Rightarrow> eva_error" where
  "err_invalid_argument message = eva_error_new InvalidArgument message"

definition err_not_found :: "string \<Rightarrow> eva_error" where
  "err_not_found message = eva_error_new NotFound message"

definition err_conflict :: "string \<Rightarrow> eva_error" where
  "err_conflict message = eva_error_new Conflict message"

definition err_permission_denied :: "string \<Rightarrow> eva_error" where
  "err_permission_denied message = eva_error_new PermissionDenied message"

definition err_timeout :: "string \<Rightarrow> eva_error" where
  "err_timeout message = eva_error_new Timeout message"

definition err_unavailable :: "string \<Rightarrow> eva_error" where
  "err_unavailable message = eva_error_new Unavailable message"

definition err_internal :: "string \<Rightarrow> eva_error" where
  "err_internal message = eva_error_new Internal message"

definition err_unsupported :: "string \<Rightarrow> eva_error" where
  "err_unsupported message = eva_error_new Unsupported message"

definition with_retryable :: "eva_error \<Rightarrow> bool \<Rightarrow> eva_error" where
  "with_retryable e retryable = e\<lparr>err_retryable := retryable\<rparr>"

definition with_provider_code :: "eva_error \<Rightarrow> string \<Rightarrow> eva_error" where
  "with_provider_code e code = e\<lparr>err_provider_code := provider_code_new code\<rparr>"

definition with_context :: "eva_error \<Rightarrow> string \<Rightarrow> string \<Rightarrow> eva_error" where
  "with_context e key value = e\<lparr>err_context := error_context_push (err_context e) key value\<rparr>"

subsection \<open>What the builders keep\<close>

lemma error_kinds [simp]:
  "err_kind (eva_error_new k m) = k"
  "err_kind (err_invalid_argument m) = InvalidArgument"
  "err_kind (err_not_found m) = NotFound"
  "err_kind (err_conflict m) = Conflict"
  "err_kind (err_permission_denied m) = PermissionDenied"
  "err_kind (err_timeout m) = Timeout"
  "err_kind (err_unavailable m) = Unavailable"
  "err_kind (err_internal m) = Internal"
  "err_kind (err_unsupported m) = Unsupported"
  by (simp_all add: eva_error_new_def err_invalid_argument_def err_not_found_def err_conflict_def
      err_permission_denied_def err_timeout_def err_unavailable_def err_internal_def
      err_unsupported_def)

lemma error_retryable [simp]:
  "err_retryable (eva_error_new k m) = default_retryable k"
  "\<not> err_retryable (err_invalid_argument m)"
  "\<not> err_retryable (err_not_found m)"
  "\<not> err_retryable (err_conflict m)"
  "\<not> err_retryable (err_permission_denied m)"
  "err_retryable (err_timeout m)"
  "err_retryable (err_unavailable m)"
  "\<not> err_retryable (err_internal m)"
  "\<not> err_retryable (err_unsupported m)"
  by (simp_all add: eva_error_new_def err_invalid_argument_def err_not_found_def err_conflict_def
      err_permission_denied_def err_timeout_def err_unavailable_def err_internal_def
      err_unsupported_def default_retryable_def)

lemma error_messages [simp]:
  "err_message (eva_error_new k m) = m"
  "err_message (err_invalid_argument m) = m"
  "err_message (err_not_found m) = m"
  "err_message (err_conflict m) = m"
  "err_message (err_permission_denied m) = m"
  "err_message (err_timeout m) = m"
  "err_message (err_unavailable m) = m"
  "err_message (err_internal m) = m"
  "err_message (err_unsupported m) = m"
  by (simp_all add: eva_error_new_def err_invalid_argument_def err_not_found_def err_conflict_def
      err_permission_denied_def err_timeout_def err_unavailable_def err_internal_def
      err_unsupported_def)

lemma with_context_keeps [simp]:
  "err_kind (with_context e k v) = err_kind e"
  "err_message (with_context e k v) = err_message e"
  "err_retryable (with_context e k v) = err_retryable e"
  "err_provider_code (with_context e k v) = err_provider_code e"
  by (simp_all add: with_context_def)

lemma with_retryable_keeps [simp]:
  "err_kind (with_retryable e b) = err_kind e"
  "err_message (with_retryable e b) = err_message e"
  "err_retryable (with_retryable e b) = b"
  by (simp_all add: with_retryable_def)

text \<open>
  The well-formed errors are the ones the public constructors can build: context keys are never
  blank, and a provider code is a non-empty trimmed text.
\<close>

definition error_wf :: "eva_error \<Rightarrow> bool" where
  "error_wf e \<longleftrightarrow>
     (\<forall>(k, v) \<in> set (ctx_entries (err_context e)). trim k \<noteq> []) \<and>
     (\<forall>c. err_provider_code e = Some c \<longrightarrow> provider_code_new (provider_code_str c) = Some c)"

lemma provider_code_new_stable:
  "provider_code_new s = Some c \<Longrightarrow> provider_code_new (provider_code_str c) = Some c"
  by (auto simp: provider_code_new_def Let_def split: if_splits)

lemma error_wf_new [simp]: "error_wf (eva_error_new k m)"
  by (simp add: error_wf_def eva_error_new_def error_context_new_def)

lemma error_wf_with_context [simp]: "error_wf e \<Longrightarrow> error_wf (with_context e k v)"
  by (auto simp: error_wf_def with_context_def error_context_push_def)

lemma error_wf_with_retryable [simp]: "error_wf (with_retryable e b) = error_wf e"
  by (simp add: error_wf_def with_retryable_def)

lemma error_wf_with_provider_code [simp]: "error_wf e \<Longrightarrow> error_wf (with_provider_code e c)"
  by (auto simp: error_wf_def with_provider_code_def intro: provider_code_new_stable)

lemma error_kind_as_str_inj [simp]: "error_kind_as_str a = error_kind_as_str b \<longleftrightarrow> a = b"
  by (cases a; cases b) simp_all

end
