(* ===== verification/Core_Ids.thy ===== *)
theory Core_Ids
  imports Core_Error
begin

section \<open>Strongly typed identifiers (eva-core, ids.rs)\<close>

text \<open>
  The macro \<^verbatim>\<open>define_id!\<close> makes six types with one validation rule. They are six datatypes here as
  well, so that the model cannot mix them up either; \<open>validate_id\<close> is shared. Identifiers that
  key a \<^verbatim>\<open>BTreeMap\<close> carry the derived order.
\<close>

definition MAX_ID_LEN :: nat where
  "MAX_ID_LEN = 128"

definition is_stable_id_char :: "char \<Rightarrow> bool" where
  "is_stable_id_char c \<longleftrightarrow> is_ascii_alphanumeric c \<or> c \<in> {CHR ''.'', CHR ''_'', CHR ''-'', CHR '':''}"

definition id_error :: "string \<Rightarrow> string \<Rightarrow> string \<Rightarrow> eva_error" where
  "id_error label value message =
     with_context (with_context (err_invalid_argument message) ''id_type'' label) ''id'' value"

definition validate_id :: "string \<Rightarrow> string \<Rightarrow> unit res" where
  "validate_id label value =
     (if value = [] then Inl (id_error label value ''identifier cannot be empty'')
      else if trim value \<noteq> value then
        Inl (id_error label value ''identifier cannot contain leading or trailing whitespace'')
      else if length value > MAX_ID_LEN then
        Inl (id_error label value ''identifier is too long'')
      else if CHR ''/'' \<in> set value \<or> CHR 0x5C \<in> set value then
        Inl (id_error label value ''identifier cannot contain path separators'')
      else if \<not> (\<forall>c \<in> set value. is_stable_id_char c) then
        Inl (id_error label value
          (''identifier may only contain ASCII letters, digits, '.', '_', '-', and ':'' @ [CHR 0x27]))
      else Inr ())"

datatype agent_id = AgentId (agent_id_str: string)
datatype adapter_id = AdapterId (adapter_id_str: string)
datatype capability_id = CapabilityId (capability_id_str: string)
datatype request_id = RequestId (request_id_str: string)
datatype event_id = EventId (event_id_str: string)
datatype generation_id = GenerationId (generation_id_str: string)

definition agent_id_parse :: "string \<Rightarrow> agent_id res" where
  "agent_id_parse v = res_bind (validate_id ''agent'' v) (\<lambda>_. Inr (AgentId v))"

definition adapter_id_parse :: "string \<Rightarrow> adapter_id res" where
  "adapter_id_parse v = res_bind (validate_id ''adapter'' v) (\<lambda>_. Inr (AdapterId v))"

definition capability_id_parse :: "string \<Rightarrow> capability_id res" where
  "capability_id_parse v = res_bind (validate_id ''capability'' v) (\<lambda>_. Inr (CapabilityId v))"

definition request_id_parse :: "string \<Rightarrow> request_id res" where
  "request_id_parse v = res_bind (validate_id ''request'' v) (\<lambda>_. Inr (RequestId v))"

definition event_id_parse :: "string \<Rightarrow> event_id res" where
  "event_id_parse v = res_bind (validate_id ''event'' v) (\<lambda>_. Inr (EventId v))"

definition generation_id_parse :: "string \<Rightarrow> generation_id res" where
  "generation_id_parse v = res_bind (validate_id ''generation'' v) (\<lambda>_. Inr (GenerationId v))"

instantiation agent_id :: linorder
begin

definition less_eq_agent_id :: "agent_id \<Rightarrow> agent_id \<Rightarrow> bool" where
  "less_eq_agent_id a b \<longleftrightarrow> agent_id_str a \<le> agent_id_str b"

definition less_agent_id :: "agent_id \<Rightarrow> agent_id \<Rightarrow> bool" where
  "less_agent_id a b \<longleftrightarrow> agent_id_str a < agent_id_str b"

instance
  by standard (auto simp: less_eq_agent_id_def less_agent_id_def intro: agent_id.expand)

end

instantiation adapter_id :: linorder
begin

definition less_eq_adapter_id :: "adapter_id \<Rightarrow> adapter_id \<Rightarrow> bool" where
  "less_eq_adapter_id a b \<longleftrightarrow> adapter_id_str a \<le> adapter_id_str b"

definition less_adapter_id :: "adapter_id \<Rightarrow> adapter_id \<Rightarrow> bool" where
  "less_adapter_id a b \<longleftrightarrow> adapter_id_str a < adapter_id_str b"

instance
  by standard (auto simp: less_eq_adapter_id_def less_adapter_id_def intro: adapter_id.expand)

end

subsection \<open>The accepted identifiers\<close>

definition stable_id :: "string \<Rightarrow> bool" where
  "stable_id v \<longleftrightarrow> v \<noteq> [] \<and> length v \<le> MAX_ID_LEN \<and> (\<forall>c \<in> set v. is_stable_id_char c)"

lemma stable_id_char_graphic: "is_stable_id_char c \<Longrightarrow> is_graphic c"
  by (auto simp: is_stable_id_char_def alphanumeric_graphic) (simp_all add: is_graphic_def)

lemma stable_id_char_no_sep:
  "is_stable_id_char c \<Longrightarrow> c \<noteq> CHR ''/'' \<and> c \<noteq> CHR 0x5C"
  by (auto simp: is_stable_id_char_def is_ascii_alphanumeric_def is_ascii_digit_def)

lemma validate_id_iff: "validate_id label v = Inr () \<longleftrightarrow> stable_id v"
proof
  assume "validate_id label v = Inr ()"
  then show "stable_id v"
    by (auto simp: validate_id_def stable_id_def split: if_splits)
next
  assume v: "stable_id v"
  then have "\<forall>c \<in> set v. is_graphic c"
    by (auto simp: stable_id_def stable_id_char_graphic)
  then have "trim v = v" by (rule trim_graphic)
  moreover have "CHR ''/'' \<notin> set v" and "CHR 0x5C \<notin> set v"
    using v stable_id_char_no_sep by (auto simp: stable_id_def)
  ultimately show "validate_id label v = Inr ()"
    using v by (auto simp: validate_id_def stable_id_def)
qed

lemma validate_id_kind: "validate_id label v = Inl e \<Longrightarrow> err_kind e = InvalidArgument"
  by (auto simp: validate_id_def id_error_def split: if_splits)

lemma id_parse_iff:
  "agent_id_parse v = Inr a \<longleftrightarrow> stable_id v \<and> a = AgentId v"
  "adapter_id_parse v = Inr b \<longleftrightarrow> stable_id v \<and> b = AdapterId v"
  "capability_id_parse v = Inr c \<longleftrightarrow> stable_id v \<and> c = CapabilityId v"
  "request_id_parse v = Inr d \<longleftrightarrow> stable_id v \<and> d = RequestId v"
  "event_id_parse v = Inr f \<longleftrightarrow> stable_id v \<and> f = EventId v"
  "generation_id_parse v = Inr g \<longleftrightarrow> stable_id v \<and> g = GenerationId v"
  by (auto simp: agent_id_parse_def adapter_id_parse_def capability_id_parse_def
      request_id_parse_def event_id_parse_def generation_id_parse_def res_simps validate_id_iff)

lemma stable_id_graphic: "stable_id v \<Longrightarrow> \<forall>c \<in> set v. is_graphic c"
  by (auto simp: stable_id_def stable_id_char_graphic)

end
