(* ===== verification/Core_Topic.thy ===== *)
theory Core_Topic
  imports Core_Ids
begin

section \<open>Topics and topic patterns (eva-core, topic.rs)\<close>

text \<open>
  Parsing and validation of concrete topics and of subscription patterns, and the linear
  wildcard matcher. The language a pattern denotes, \<open>denotes\<close>, is the specification the matcher
  is compared with.
\<close>

record topic =
  topic_path :: string
  topic_segments :: "string list"

datatype topic_pattern_segment =
    Exact string
  | SingleWildcard
  | TailWildcard

record topic_pattern =
  pattern_text :: string
  pattern_segments :: "topic_pattern_segment list"

fun pattern_segment_as_str :: "topic_pattern_segment \<Rightarrow> string" where
  "pattern_segment_as_str (Exact segment) = segment"
| "pattern_segment_as_str SingleWildcard = ''*''"
| "pattern_segment_as_str TailWildcard = ''**''"

fun is_wildcard :: "topic_pattern_segment \<Rightarrow> bool" where
  "is_wildcard (Exact _) = False"
| "is_wildcard SingleWildcard = True"
| "is_wildcard TailWildcard = True"

datatype segment_mode = TopicMode | PatternMode

definition topic_error :: "string \<Rightarrow> string \<Rightarrow> eva_error" where
  "topic_error t message = with_context (err_invalid_argument message) ''topic'' t"

definition validate_plain_segment :: "string \<Rightarrow> string \<Rightarrow> unit res" where
  "validate_plain_segment t segment =
     (if has_whitespace segment
      then Inl (topic_error t ''topic segments cannot contain whitespace'')
      else Inr ())"

definition validate_topic_segment :: "string \<Rightarrow> string \<Rightarrow> unit res" where
  "validate_topic_segment t segment =
     (if segment = ''*'' \<or> segment = ''**'' \<or> CHR ''*'' \<in> set segment
      then Inl (topic_error t ''concrete topic segments cannot contain wildcards'')
      else validate_plain_segment t segment)"

definition validate_pattern_segment :: "string \<Rightarrow> string \<Rightarrow> unit res" where
  "validate_pattern_segment pat segment =
     (if segment = ''*'' \<or> segment = ''**'' then Inr ()
      else if CHR ''*'' \<in> set segment
      then Inl (topic_error pat ''wildcards must occupy an entire pattern segment'')
      else validate_plain_segment pat segment)"

fun parse_segment_loop :: "string \<Rightarrow> segment_mode \<Rightarrow> string list \<Rightarrow> string list \<Rightarrow> string list res" where
  "parse_segment_loop value mode [] acc = Inr acc"
| "parse_segment_loop value mode (segment # rest) acc =
     (if segment = []
      then Inl (topic_error value ''topic path must not contain empty segments'')
      else res_bind
        (case mode of
           TopicMode \<Rightarrow> validate_topic_segment value segment
         | PatternMode \<Rightarrow> validate_pattern_segment value segment)
        (\<lambda>_. parse_segment_loop value mode rest (acc @ [segment])))"

definition parse_segments :: "string \<Rightarrow> segment_mode \<Rightarrow> string list res" where
  "parse_segments value mode =
     (if value = [] then Inl (topic_error value ''topic path cannot be empty'')
      else if hd value \<noteq> CHR ''/'' then Inl (topic_error value
        (''topic path must start with '' @ [CHR 0x27] @ ''/'' @ [CHR 0x27]))
      else if length value = 1 then
        Inl (topic_error value ''topic path must contain at least one segment'')
      else if last value = CHR ''/'' then Inl (topic_error value
        (''topic path must not end with '' @ [CHR 0x27] @ ''/'' @ [CHR 0x27]))
      else parse_segment_loop value mode (split_on CHR ''/'' (tl value)) [])"

definition topic_parse :: "string \<Rightarrow> topic res" where
  "topic_parse value = res_bind (parse_segments value TopicMode)
     (\<lambda>segments. Inr \<lparr>topic_path = value, topic_segments = segments\<rparr>)"

fun pattern_segment_loop ::
  "string \<Rightarrow> nat \<Rightarrow> nat \<Rightarrow> string list \<Rightarrow> topic_pattern_segment list \<Rightarrow> topic_pattern_segment list res" where
  "pattern_segment_loop value last_index index [] acc = Inr acc"
| "pattern_segment_loop value last_index index (segment # rest) acc =
     (if segment = ''*'' then
        pattern_segment_loop value last_index (index + 1) rest (acc @ [SingleWildcard])
      else if segment = ''**'' \<and> index = last_index then
        pattern_segment_loop value last_index (index + 1) rest (acc @ [TailWildcard])
      else if segment = ''**'' then
        Inl (topic_error value
          ''tail wildcard '**' is only allowed as the final segment'')
      else pattern_segment_loop value last_index (index + 1) rest (acc @ [Exact segment]))"

definition topic_pattern_parse :: "string \<Rightarrow> topic_pattern res" where
  "topic_pattern_parse value = res_bind (parse_segments value PatternMode)
     (\<lambda>raw. res_bind (pattern_segment_loop value (length raw - 1) 0 raw [])
       (\<lambda>segments. Inr \<lparr>pattern_text = value, pattern_segments = segments\<rparr>))"

definition is_exact :: "topic_pattern \<Rightarrow> bool" where
  "is_exact p = (\<forall>s \<in> set (pattern_segments p). \<not> is_wildcard s)"

fun matches_loop :: "topic_pattern_segment list \<Rightarrow> string list \<Rightarrow> nat \<Rightarrow> bool" where
  "matches_loop [] ts topic_index = (topic_index = length ts)"
| "matches_loop (Exact expected # ps) ts topic_index =
     (if topic_index < length ts \<and> ts ! topic_index = expected
      then matches_loop ps ts (topic_index + 1) else False)"
| "matches_loop (SingleWildcard # ps) ts topic_index =
     (if topic_index \<ge> length ts then False else matches_loop ps ts (topic_index + 1))"
| "matches_loop (TailWildcard # ps) ts topic_index = True"

definition pattern_matches :: "topic_pattern \<Rightarrow> topic \<Rightarrow> bool" where
  "pattern_matches p t = matches_loop (pattern_segments p) (topic_segments t) 0"

subsection \<open>The accepted paths\<close>

definition plain_segment :: "string \<Rightarrow> bool" where
  "plain_segment s \<longleftrightarrow> s \<noteq> [] \<and> CHR ''/'' \<notin> set s \<and> CHR ''*'' \<notin> set s \<and> \<not> has_whitespace s"

definition segment_valid :: "segment_mode \<Rightarrow> string \<Rightarrow> bool" where
  "segment_valid mode s \<longleftrightarrow> plain_segment s \<or> mode = PatternMode \<and> s \<in> {''*'', ''**''}"

definition path_of :: "string list \<Rightarrow> string" where
  "path_of segs = concat (map ((#) CHR ''/'') segs)"

lemma path_of_join: "segs \<noteq> [] \<Longrightarrow> path_of segs = CHR ''/'' # join ''/'' segs"
  by (induction "''/''" segs rule: join.induct) (auto simp: path_of_def)

lemma validate_segment_iff:
  "CHR ''/'' \<notin> set s \<Longrightarrow> s \<noteq> [] \<Longrightarrow>
   (case mode of TopicMode \<Rightarrow> validate_topic_segment v s
     | PatternMode \<Rightarrow> validate_pattern_segment v s) = Inr () \<longleftrightarrow> segment_valid mode s"
  by (auto simp: validate_topic_segment_def validate_pattern_segment_def validate_plain_segment_def
      segment_valid_def plain_segment_def split: segment_mode.splits)

lemma segment_validD: "segment_valid mode s \<Longrightarrow> s \<noteq> [] \<and> CHR ''/'' \<notin> set s"
  by (auto simp: segment_valid_def plain_segment_def)

lemma parse_segment_loop_ok:
  "\<forall>s \<in> set segs. CHR ''/'' \<notin> set s \<Longrightarrow>
   parse_segment_loop v mode segs acc = Inr out \<longleftrightarrow>
     (\<forall>s \<in> set segs. segment_valid mode s) \<and> out = acc @ segs"
proof (induction segs arbitrary: acc)
  case (Cons s segs)
  show ?case
    using Cons validate_segment_iff [where s = s and mode = mode and v = v]
      segment_validD [of mode s] by (auto simp: res_simps)
qed auto

lemma parse_segments_ok:
  "parse_segments v mode = Inr segs \<longleftrightarrow>
     segs \<noteq> [] \<and> (\<forall>s \<in> set segs. segment_valid mode s) \<and> v = path_of segs"
    (is "?l \<longleftrightarrow> ?r")
proof
  assume ?l
  then have v: "v \<noteq> []" "hd v = CHR ''/''"
    and loop: "parse_segment_loop v mode (split_on CHR ''/'' (tl v)) [] = Inr segs"
    by (auto simp: parse_segments_def split: if_splits)
  from loop have segs: "segs = split_on CHR ''/'' (tl v)"
    and valid: "\<forall>s \<in> set segs. segment_valid mode s"
    using split_on_segment by (auto simp: parse_segment_loop_ok)
  have "path_of segs = CHR ''/'' # tl v" by (simp add: segs path_of_join)
  also have "\<dots> = v" using v by (cases v) auto
  finally have "v = path_of segs" by (rule sym)
  moreover have "segs \<noteq> []" unfolding segs by (rule split_on_not_Nil)
  ultimately show ?r using valid by blast
next
  assume r: ?r
  then have ne: "segs \<noteq> []" and valid: "\<forall>s \<in> set segs. segment_valid mode s" by auto
  then have sep: "\<forall>s \<in> set segs. s \<noteq> [] \<and> CHR ''/'' \<notin> set s"
    using segment_validD by blast
  have v: "v = CHR ''/'' # join ''/'' segs" using r ne path_of_join by metis
  have split: "split_on CHR ''/'' (tl v) = segs" using ne sep by (simp add: v split_on_join)
  have "last v \<noteq> CHR ''/'' \<and> length v \<noteq> 1"
  proof -
    obtain init s where segs: "segs = init @ [s]" using ne by (metis rev_exhaust)
    then have "v = path_of init @ CHR ''/'' # s" using r by (simp add: path_of_def)
    moreover have "s \<noteq> []" and "last s \<noteq> CHR ''/''" using sep segs by (auto dest: last_in_set)
    ultimately show ?thesis by simp
  qed
  moreover have "v \<noteq> []" and "hd v = CHR ''/''" by (simp_all add: v)
  ultimately show ?l
    using valid sep by (simp add: parse_segments_def split parse_segment_loop_ok)
qed

lemma topic_parse_iff:
  "topic_parse v = Inr t \<longleftrightarrow>
     topic_segments t \<noteq> [] \<and> (\<forall>s \<in> set (topic_segments t). plain_segment s) \<and>
     v = path_of (topic_segments t) \<and> topic_path t = v"
  by (auto simp: topic_parse_def res_simps parse_segments_ok segment_valid_def)

subsection \<open>Parsed patterns\<close>

definition segment_of_text :: "string \<Rightarrow> topic_pattern_segment" where
  "segment_of_text s =
     (if s = ''*'' then SingleWildcard else if s = ''**'' then TailWildcard else Exact s)"

definition pattern_wf :: "topic_pattern \<Rightarrow> bool" where
  "pattern_wf p \<longleftrightarrow>
     pattern_segments p \<noteq> [] \<and> TailWildcard \<notin> set (butlast (pattern_segments p)) \<and>
     (\<forall>s. Exact s \<in> set (pattern_segments p) \<longrightarrow> plain_segment s) \<and>
     pattern_text p = path_of (map pattern_segment_as_str (pattern_segments p))"

lemma pattern_segment_loop_ok:
  "pattern_segment_loop v l i segs acc = Inr out \<longleftrightarrow>
     (\<forall>j < length segs. segs ! j = ''**'' \<longrightarrow> i + j = l) \<and> out = acc @ map segment_of_text segs"
  by (induction segs arbitrary: i acc) (auto simp: All_less_Suc2 segment_of_text_def)

lemma as_str_segment_of_text [simp]: "pattern_segment_as_str (segment_of_text s) = s"
  by (simp add: segment_of_text_def)

lemma segment_of_text_eq:
  "segment_of_text s = TailWildcard \<longleftrightarrow> s = ''**''"
  "segment_of_text s = SingleWildcard \<longleftrightarrow> s = ''*''"
  "segment_of_text s = Exact u \<longleftrightarrow> s = u \<and> u \<notin> {''*'', ''**''}"
  by (auto simp: segment_of_text_def)

lemma topic_pattern_parse_wf: "topic_pattern_parse v = Inr p \<Longrightarrow> pattern_wf p \<and> pattern_text p = v"
proof -
  assume "topic_pattern_parse v = Inr p"
  then obtain raw where raw: "parse_segments v PatternMode = Inr raw"
    and tail: "\<forall>j < length raw. raw ! j = ''**'' \<longrightarrow> j = length raw - 1"
    and p: "p = \<lparr>pattern_text = v, pattern_segments = map segment_of_text raw\<rparr>"
    by (auto simp: topic_pattern_parse_def res_simps pattern_segment_loop_ok)
  from raw have ne: "raw \<noteq> []" and valid: "\<forall>s \<in> set raw. segment_valid PatternMode s"
    and v: "v = path_of raw" by (auto simp: parse_segments_ok)
  have "''**'' \<notin> set (butlast raw)"
  proof
    assume "''**'' \<in> set (butlast raw)"
    then obtain j where "j < length (butlast raw)" and "butlast raw ! j = ''**''"
      unfolding in_set_conv_nth by blast
    then have "j < length raw" and "j \<noteq> length raw - 1" and "raw ! j = ''**''"
      by (simp_all add: nth_butlast)
    with tail show False by blast
  qed
  then have "TailWildcard \<notin> set (butlast (map segment_of_text raw))"
    by (auto simp: map_butlast [symmetric] segment_of_text_eq dest: sym)
  moreover have "plain_segment s" if "Exact s \<in> set (map segment_of_text raw)" for s
  proof -
    from that obtain u where u: "u \<in> set raw" "segment_of_text u = Exact s" by auto
    then have "s = u" and "s \<notin> {''*'', ''**''}"
      using segment_of_text_eq(3) [of u s] by auto
    with u valid show ?thesis by (auto simp: segment_valid_def)
  qed
  ultimately show ?thesis using ne v by (simp add: p pattern_wf_def comp_def)
qed

subsection \<open>The language of a pattern\<close>

fun denotes :: "topic_pattern_segment list \<Rightarrow> string list set" where
  "denotes [] = {[]}"
| "denotes (Exact s # ps) = {s # ts |ts. ts \<in> denotes ps}"
| "denotes (SingleWildcard # ps) = {x # ts |x ts. ts \<in> denotes ps}"
| "denotes (TailWildcard # ps) = {us @ ts |us ts. ts \<in> denotes ps}"

lemma matches_loop_denotes:
  "TailWildcard \<notin> set (butlast ps) \<Longrightarrow> i \<le> length ts \<Longrightarrow>
   matches_loop ps ts i \<longleftrightarrow> drop i ts \<in> denotes ps"
proof (induction ps ts i rule: matches_loop.induct)
  case (2 s ps ts i)
  have "drop i ts = ts ! i # drop (Suc i) ts" if "i < length ts"
    using that by (simp add: Cons_nth_drop_Suc)
  with 2 show ?case by (cases "i < length ts") (auto split: if_splits)
next
  case (3 ps ts i)
  have "drop i ts = ts ! i # drop (Suc i) ts" if "i < length ts"
    using that by (simp add: Cons_nth_drop_Suc)
  with 3 show ?case by (cases "i < length ts") (auto split: if_splits)
next
  case (4 ps ts i)
  then show ?case by (cases ps) auto
qed auto

lemma pattern_matches_denotes:
  "pattern_wf p \<Longrightarrow> pattern_matches p t \<longleftrightarrow> topic_segments t \<in> denotes (pattern_segments p)"
  by (simp add: pattern_matches_def pattern_wf_def matches_loop_denotes)

lemma denotes_exact:
  "\<forall>s \<in> set ps. \<not> is_wildcard s \<Longrightarrow> denotes ps = {map pattern_segment_as_str ps}"
proof (induction ps)
  case (Cons p ps)
  then show ?case by (cases p) auto
qed simp

lemma path_of_inj:
  "\<forall>s \<in> set xs. plain_segment s \<Longrightarrow> \<forall>s \<in> set ys. plain_segment s \<Longrightarrow>
   path_of xs = path_of ys \<longleftrightarrow> xs = ys"
proof (cases "xs = [] \<or> ys = []")
  case True
  then show ?thesis by (cases xs; cases ys) (auto simp: path_of_def)
next
  case False
  assume "\<forall>s \<in> set xs. plain_segment s" and "\<forall>s \<in> set ys. plain_segment s"
  then have "split_on CHR ''/'' (join ''/'' xs) = xs" and "split_on CHR ''/'' (join ''/'' ys) = ys"
    using False by (simp_all add: split_on_join plain_segment_def)
  moreover have "path_of xs = CHR ''/'' # join ''/'' xs" and "path_of ys = CHR ''/'' # join ''/'' ys"
    using False path_of_join by blast+
  ultimately show ?thesis by (metis list.inject)
qed

lemma exact_pattern_matches:
  assumes p: "topic_pattern_parse v = Inr p" and t: "topic_parse u = Inr t" and e: "is_exact p"
  shows "pattern_matches p t \<longleftrightarrow> u = v"
proof -
  let ?ss = "map pattern_segment_as_str (pattern_segments p)"
  have wf: "pattern_wf p" and v: "pattern_text p = v" using topic_pattern_parse_wf [OF p] by auto
  have "\<forall>s \<in> set ?ss. plain_segment s"
  proof
    fix s assume "s \<in> set ?ss"
    then obtain q where "q \<in> set (pattern_segments p)" and "s = pattern_segment_as_str q" by auto
    with e wf show "plain_segment s" by (cases q) (auto simp: is_exact_def pattern_wf_def)
  qed
  moreover have "\<forall>s \<in> set (topic_segments t). plain_segment s" and "u = path_of (topic_segments t)"
    using t by (auto simp: topic_parse_iff)
  moreover have "v = path_of ?ss" using wf v by (simp add: pattern_wf_def)
  moreover have "pattern_matches p t \<longleftrightarrow> topic_segments t = ?ss"
    using wf e by (auto simp: pattern_matches_denotes denotes_exact is_exact_def)
  ultimately show ?thesis using path_of_inj by metis
qed

subsection \<open>Properties\<close>

text \<open>
  C34. The linear wildcard matcher is correct: for every pattern that parses, \<^verbatim>\<open>matches\<close> accepts a
  topic exactly when its segments belong to the language the pattern denotes, where \<open>*\<close> stands
  for one segment and a final \<open>**\<close> for any number of segments, zero included.
\<close>
theorem matches_is_language:
  assumes "topic_pattern_parse v = Inr p"
  shows "pattern_matches p t \<longleftrightarrow> topic_segments t \<in> denotes (pattern_segments p)"
  using topic_pattern_parse_wf [OF assms] by (simp add: pattern_matches_denotes)

theorem matches_is_language_witness:
  "pattern_matches \<lparr>pattern_text = ''/a/**'', pattern_segments = [Exact ''a'', TailWildcard]\<rparr>
     \<lparr>topic_path = ''/a'', topic_segments = [''a'']\<rparr> \<longleftrightarrow>
   [''a''] \<in> denotes [Exact ''a'', TailWildcard]"
proof -
  have "topic_pattern_parse ''/a/**'' =
    Inr \<lparr>pattern_text = ''/a/**'', pattern_segments = [Exact ''a'', TailWildcard]\<rparr>" by code_simp
  from matches_is_language [OF this, of "\<lparr>topic_path = ''/a'', topic_segments = [''a'']\<rparr>"]
  show ?thesis by simp
qed

text \<open>
  Topic parsing accepts exactly the absolute paths of plain segments, and what it returns
  renders back to the input: a text parses to \<open>t\<close> if and only if \<open>t\<close> has at least one segment,
  every segment is non-empty and free of slashes, wildcards and whitespace, and the text is the
  segments joined by slashes, which is also the stored path.
\<close>
theorem topic_parse_roundtrip:
  "topic_parse v = Inr t \<longleftrightarrow>
     topic_segments t \<noteq> [] \<and>
     list_all (\<lambda>s. s \<noteq> [] \<and> CHR ''/'' \<notin> set s \<and> CHR ''*'' \<notin> set s \<and> \<not> has_whitespace s) (topic_segments t) \<and>
     v = concat (map (\<lambda>s. CHR ''/'' # s) (topic_segments t)) \<and> topic_path t = v"
  by (auto simp: topic_parse_iff plain_segment_def path_of_def list_all_iff)

end
