(* ===== verification/Core_Capability.thy ===== *)
theory Core_Capability
  imports Core_Topic
begin

section \<open>Capability names and provider hints (eva-core, capability.rs)\<close>

text \<open>
  Dot-separated capability names with their parsed segments. A capability name keys the capability
  registry, so it carries the derived order: by name, then by segments.
\<close>

datatype capability_name = CapabilityName (cap_name: string) (cap_segments: "string list")

definition capability_error :: "string \<Rightarrow> string \<Rightarrow> eva_error" where
  "capability_error value message =
     with_context (err_invalid_argument message) ''capability'' value"

definition is_capability_char :: "char \<Rightarrow> bool" where
  "is_capability_char c \<longleftrightarrow> is_ascii_alphanumeric c \<or> c \<in> {CHR ''_'', CHR ''-''}"

definition validate_capability_segment :: "string \<Rightarrow> string \<Rightarrow> unit res" where
  "validate_capability_segment full_name segment =
     (if segment = []
      then Inl (capability_error full_name ''capability name cannot contain empty segments'')
      else if \<not> (\<forall>c \<in> set segment. is_capability_char c)
      then Inl (capability_error full_name
        (''capability segments may only contain ASCII letters, digits, '_', and '-'' @ [CHR 0x27]))
      else Inr ())"

definition validate_capability_name :: "string \<Rightarrow> unit res" where
  "validate_capability_name value =
     (if value = [] then Inl (capability_error value ''capability name cannot be empty'')
      else if trim value \<noteq> value
      then Inl (capability_error value
        ''capability name cannot contain leading or trailing whitespace'')
      else res_all (validate_capability_segment value) (split_on CHR ''.'' value))"

definition capability_name_parse :: "string \<Rightarrow> capability_name res" where
  "capability_name_parse value =
     res_bind (validate_capability_name value)
       (\<lambda>_. Inr (CapabilityName value (split_on CHR ''.'' value)))"

instantiation capability_name :: linorder
begin

definition less_eq_capability_name :: "capability_name \<Rightarrow> capability_name \<Rightarrow> bool" where
  "less_eq_capability_name a b \<longleftrightarrow>
     cap_name a < cap_name b \<or> cap_name a = cap_name b \<and> cap_segments a \<le> cap_segments b"

definition less_capability_name :: "capability_name \<Rightarrow> capability_name \<Rightarrow> bool" where
  "less_capability_name a b \<longleftrightarrow>
     cap_name a < cap_name b \<or> cap_name a = cap_name b \<and> cap_segments a < cap_segments b"

instance
  by standard (auto simp: less_eq_capability_name_def less_capability_name_def
      intro: capability_name.expand)

end

subsection \<open>The accepted names\<close>

definition capability_segment :: "string \<Rightarrow> bool" where
  "capability_segment s \<longleftrightarrow> s \<noteq> [] \<and> (\<forall>c \<in> set s. is_capability_char c)"

definition capability_wf :: "capability_name \<Rightarrow> bool" where
  "capability_wf c \<longleftrightarrow>
     cap_segments c \<noteq> [] \<and> (\<forall>s \<in> set (cap_segments c). capability_segment s) \<and>
     cap_name c = join ''.'' (cap_segments c)"

lemma validate_capability_segment_ok:
  "validate_capability_segment v s = Inr () \<longleftrightarrow> capability_segment s"
  by (simp add: validate_capability_segment_def capability_segment_def)

lemma capability_char_graphic: "is_capability_char c \<Longrightarrow> is_graphic c"
  by (auto simp: is_capability_char_def alphanumeric_graphic) (simp_all add: is_graphic_def)

lemma capability_char_no_dot: "is_capability_char c \<Longrightarrow> c \<noteq> CHR ''.''"
  by (auto simp: is_capability_char_def is_ascii_alphanumeric_def is_ascii_digit_def)

lemma capability_segments_graphic:
  assumes "\<forall>s \<in> set (split_on CHR ''.'' v). capability_segment s"
  shows "\<forall>c \<in> set v. is_graphic c"
proof
  fix c assume "c \<in> set v"
  with set_split_on have "c = CHR ''.'' \<or> (\<exists>s \<in> set (split_on CHR ''.'' v). c \<in> set s)" by blast
  with assms show "is_graphic c"
    by (auto simp: capability_segment_def capability_char_graphic) (simp add: is_graphic_def)
qed

lemma validate_capability_name_ok:
  "validate_capability_name v = Inr () \<longleftrightarrow> (\<forall>s \<in> set (split_on CHR ''.'' v). capability_segment s)"
proof
  assume "validate_capability_name v = Inr ()"
  then show "\<forall>s \<in> set (split_on CHR ''.'' v). capability_segment s"
    by (auto simp: validate_capability_name_def res_all_ok validate_capability_segment_ok split: if_splits)
next
  assume segs: "\<forall>s \<in> set (split_on CHR ''.'' v). capability_segment s"
  then have "trim v = v" by (intro trim_graphic capability_segments_graphic)
  moreover have "v \<noteq> []" using segs by (auto simp: capability_segment_def)
  ultimately show "validate_capability_name v = Inr ()"
    using segs by (simp add: validate_capability_name_def res_all_ok validate_capability_segment_ok)
qed

lemma capability_name_parse_iff:
  "capability_name_parse v = Inr c \<longleftrightarrow> capability_wf c \<and> v = cap_name c"
proof
  assume "capability_name_parse v = Inr c"
  then show "capability_wf c \<and> v = cap_name c"
    by (auto simp: capability_name_parse_def res_simps validate_capability_name_ok capability_wf_def)
next
  assume c: "capability_wf c \<and> v = cap_name c"
  then have "\<forall>s \<in> set (cap_segments c). CHR ''.'' \<notin> set s"
    using capability_char_no_dot by (auto simp: capability_wf_def capability_segment_def)
  with c have "split_on CHR ''.'' v = cap_segments c"
    by (simp add: capability_wf_def split_on_join)
  with c show "capability_name_parse v = Inr c"
    by (cases c) (simp add: capability_name_parse_def res_simps validate_capability_name_ok capability_wf_def)
qed

lemma capability_wf_eq:
  "capability_wf c \<Longrightarrow> capability_wf d \<Longrightarrow> cap_name c = cap_name d \<longleftrightarrow> c = d"
  by (metis capability_name_parse_iff sum.inject(2))

subsection \<open>Properties\<close>

text \<open>
  Capability names round trip: a text parses to \<open>c\<close> if and only if \<open>c\<close> consists of at least
  one non-empty segment over ASCII letters, digits, underscore and hyphen, and its name, which is
  the text, is those segments joined by dots; so rendering and parsing are inverse to each other.
\<close>
theorem capability_name_roundtrip:
  "capability_name_parse v = Inr c \<longleftrightarrow>
     cap_segments c \<noteq> [] \<and>
     list_all (\<lambda>s. s \<noteq> [] \<and> list_all is_capability_char s) (cap_segments c) \<and>
     cap_name c = join ''.'' (cap_segments c) \<and> v = cap_name c"
  by (auto simp: capability_name_parse_iff capability_wf_def capability_segment_def list_all_iff)

end
