(* ===== verification/Core_Digest.thy ===== *)
theory Core_Digest
  imports Eva_Hex
begin

section \<open>SHA-256 digests (eva-core, digest.rs)\<close>

text \<open>
  The dependency-free SHA-256 of the crate at its machine widths: \<^verbatim>\<open>u32\<close> words with wrapping
  addition, the padding loop, the message schedule filled in place, and the round loop over the
  eight working variables.
\<close>

unbundle bit_operations_syntax

type_synonym sha_state = "u32 \<times> u32 \<times> u32 \<times> u32 \<times> u32 \<times> u32 \<times> u32 \<times> u32"

definition INITIAL :: sha_state where
  "INITIAL = (0x6a09e667, 0xbb67ae85, 0x3c6ef372, 0xa54ff53a,
              0x510e527f, 0x9b05688c, 0x1f83d9ab, 0x5be0cd19)"

definition ROUND :: "u32 list" where
  "ROUND = concat [
    [0x428a2f98, 0x71374491, 0xb5c0fbcf, 0xe9b5dba5, 0x3956c25b, 0x59f111f1, 0x923f82a4, 0xab1c5ed5],
    [0xd807aa98, 0x12835b01, 0x243185be, 0x550c7dc3, 0x72be5d74, 0x80deb1fe, 0x9bdc06a7, 0xc19bf174],
    [0xe49b69c1, 0xefbe4786, 0x0fc19dc6, 0x240ca1cc, 0x2de92c6f, 0x4a7484aa, 0x5cb0a9dc, 0x76f988da],
    [0x983e5152, 0xa831c66d, 0xb00327c8, 0xbf597fc7, 0xc6e00bf3, 0xd5a79147, 0x06ca6351, 0x14292967],
    [0x27b70a85, 0x2e1b2138, 0x4d2c6dfc, 0x53380d13, 0x650a7354, 0x766a0abb, 0x81c2c92e, 0x92722c85],
    [0xa2bfe8a1, 0xa81a664b, 0xc24b8b70, 0xc76c51a3, 0xd192e819, 0xd6990624, 0xf40e3585, 0x106aa070],
    [0x19a4c116, 0x1e376c08, 0x2748774c, 0x34b0bcb5, 0x391c0cb3, 0x4ed8aa4a, 0x5b9cca4f, 0x682e6ff3],
    [0x748f82ee, 0x78a5636f, 0x84c87814, 0x8cc70208, 0x90befffa, 0xa4506ceb, 0xbef9a3f7, 0xc67178f2]]"

definition rotate_right :: "u32 \<Rightarrow> nat \<Rightarrow> u32" where
  "rotate_right x n = drop_bit n x OR push_bit (32 - n) x"

definition from_be_bytes :: "u8 list \<Rightarrow> u32" where
  "from_be_bytes bs = fold (\<lambda>b acc. push_bit 8 acc OR ucast b) bs 0"

definition to_be_bytes :: "u64 \<Rightarrow> u8 list" where
  "to_be_bytes x = map (\<lambda>i. ucast (drop_bit (8 * (7 - i)) x)) [0..<8]"

function pad_zeros :: "u8 list \<Rightarrow> u8 list" where
  "pad_zeros padded = (if length padded mod 64 \<noteq> 56 then pad_zeros (padded @ [0]) else padded)"
  by auto

termination
  by (relation "measure (\<lambda>p. if length p mod 64 \<le> 56 then 56 - length p mod 64 else 120 - length p mod 64)")
    (auto simp: mod_Suc)

declare pad_zeros.simps [simp del]

function chunks_exact :: "nat \<Rightarrow> 'a list \<Rightarrow> 'a list list" where
  "chunks_exact n xs =
     (if n = 0 \<or> length xs < n then [] else take n xs # chunks_exact n (drop n xs))"
  by auto

termination
  by (relation "measure (\<lambda>(n, xs). length xs)") auto

declare chunks_exact.simps [simp del]

definition schedule_step :: "nat \<Rightarrow> u32 list \<Rightarrow> u32 list" where
  "schedule_step index w =
     (let s0 = rotate_right (w ! (index - 15)) 7 XOR rotate_right (w ! (index - 15)) 18
                 XOR drop_bit 3 (w ! (index - 15));
          s1 = rotate_right (w ! (index - 2)) 17 XOR rotate_right (w ! (index - 2)) 19
                 XOR drop_bit 10 (w ! (index - 2))
      in w[index := w ! (index - 16) + s0 + w ! (index - 7) + s1])"

definition message_schedule :: "u8 list \<Rightarrow> u32 list" where
  "message_schedule chunk =
     (let w = map from_be_bytes (chunks_exact 4 chunk) @ replicate 48 0
      in fold schedule_step [16..<64] w)"

fun compress_round :: "u32 list \<Rightarrow> nat \<Rightarrow> sha_state \<Rightarrow> sha_state" where
  "compress_round w index (a, b, c, d, e, f, g, h) =
     (let s1 = rotate_right e 6 XOR rotate_right e 11 XOR rotate_right e 25;
          ch = (e AND f) XOR (NOT e AND g);
          t1 = h + s1 + ch + ROUND ! index + w ! index;
          s0 = rotate_right a 2 XOR rotate_right a 13 XOR rotate_right a 22;
          maj = (a AND b) XOR (a AND c) XOR (b AND c);
          t2 = s0 + maj
      in (t1 + t2, a, b, c, d + t1, e, f, g))"

fun add_state :: "sha_state \<Rightarrow> sha_state \<Rightarrow> sha_state" where
  "add_state (a, b, c, d, e, f, g, h) (a', b', c', d', e', f', g', h') =
     (a + a', b + b', c + c', d + d', e + e', f + f', g + g', h + h')"

definition compress :: "u8 list \<Rightarrow> sha_state \<Rightarrow> sha_state" where
  "compress chunk state =
     add_state state (fold (compress_round (message_schedule chunk)) [0..<64] state)"

definition sha256_pad :: "u8 list \<Rightarrow> u8 list" where
  "sha256_pad bytes =
     (let bit_len = (of_nat (length bytes) :: u64) * 8
      in pad_zeros (bytes @ [0x80]) @ to_be_bytes bit_len)"

fun state_words :: "sha_state \<Rightarrow> u32 list" where
  "state_words (a, b, c, d, e, f, g, h) = [a, b, c, d, e, f, g, h]"

definition sha256_digest :: "u8 list \<Rightarrow> string" where
  "sha256_digest bytes =
     (let state = fold compress (chunks_exact 64 (sha256_pad bytes)) INITIAL
      in ''sha256:'' @ concat (map (\<lambda>x. hex_fixed 8 (unat x)) (state_words state)))"

subsection \<open>Padding and the shape of a digest\<close>

lemma pad_zeros_form:
  "\<exists>k < 64. pad_zeros p = p @ replicate k 0 \<and> (length p + k) mod 64 = 56"
proof (induction p rule: pad_zeros.induct)
  case (1 p)
  show ?case
  proof (cases "length p mod 64 = 56")
    case True
    then show ?thesis by (intro exI [of _ 0]) (simp add: pad_zeros.simps)
  next
    case False
    then obtain k where k: "k < 64" "pad_zeros (p @ [0]) = p @ 0 # replicate k 0"
      "Suc (length p + k) mod 64 = 56"
      using 1 by auto
    have "Suc k < 64"
    proof (rule ccontr)
      assume "\<not> Suc k < 64"
      then have "k = 63" using k(1) by simp
      then have "length p mod 64 = Suc (length p + k) mod 64" by simp
      then show False using False k(3) by simp
    qed
    with k False show ?thesis by (intro exI [of _ "Suc k"]) (simp add: pad_zeros.simps [of p])
  qed
qed

lemma length_to_be_bytes [simp]: "length (to_be_bytes x) = 8"
  by (simp add: to_be_bytes_def)

lemma to_be_bytes_inj: "to_be_bytes x = to_be_bytes y \<longleftrightarrow> x = y"
proof
  assume eq: "to_be_bytes x = to_be_bytes y"
  show "x = y"
  proof (rule bit_word_eqI)
    fix n assume n: "n < LENGTH(64)"
    obtain i where i: "i < 8" "8 * (7 - i) + n mod 8 = n"
    proof
      show "7 - n div 8 < 8" and "8 * (7 - (7 - n div 8)) + n mod 8 = n" using n by simp_all
    qed
    with eq have "to_be_bytes x ! i = to_be_bytes y ! i" by simp
    then have "(ucast (drop_bit (8 * (7 - i)) x) :: u8) = ucast (drop_bit (8 * (7 - i)) y)"
      using i nth_upt [of 0 i 8] by (simp add: to_be_bytes_def del: upt_Suc)
    then have "bit (ucast (drop_bit (8 * (7 - i)) x) :: u8) (n mod 8) =
               bit (ucast (drop_bit (8 * (7 - i)) y) :: u8) (n mod 8)" by simp
    then show "bit x n = bit y n" using i(2) by (simp add: bit_simps del: diff_mult_distrib2 right_diff_distrib')
  qed
qed simp

lemma length_sha256_pad: "64 dvd length (sha256_pad bs)"
proof -
  let ?p = "bs @ [0x80 :: u8]"
  obtain k where k: "pad_zeros ?p = ?p @ replicate k 0" "(length ?p + k) mod 64 = 56"
    using pad_zeros_form by blast
  have "(length ?p + k + 8) mod 64 = ((length ?p + k) mod 64 + 8) mod 64" by (rule mod_add_left_eq [symmetric])
  also have "\<dots> = 0" unfolding k(2) by simp
  finally have "64 dvd length ?p + k + 8" by (rule mod_0_imp_dvd)
  moreover have "length (sha256_pad bs) = length ?p + k + 8"
    unfolding sha256_pad_def Let_def k(1) by simp
  ultimately show ?thesis by simp
qed

lemma sha256_pad_inj:
  assumes "length a < 2 ^ 61" and "length b < 2 ^ 61" and eq: "sha256_pad a = sha256_pad b"
  shows "a = b"
proof -
  obtain i j where pads: "pad_zeros (a @ [0x80]) = (a @ [0x80]) @ replicate i 0"
    "pad_zeros (b @ [0x80]) = (b @ [0x80]) @ replicate j 0"
    using pad_zeros_form by blast
  from eq have body: "pad_zeros (a @ [0x80]) = pad_zeros (b @ [0x80])"
    and "to_be_bytes ((of_nat (length a) :: u64) * 8) = to_be_bytes ((of_nat (length b) :: u64) * 8)"
    by (simp_all add: sha256_pad_def Let_def)
  then have "(of_nat (length a * 8) :: u64) = of_nat (length b * 8)" by (simp add: to_be_bytes_inj)
  then have "unat (of_nat (length a * 8) :: u64) = unat (of_nat (length b * 8) :: u64)" by simp
  then have "length a = length b" using assms(1,2) by (simp only: unat_of_nat) simp
  with body pads show ?thesis by simp
qed

lemma concat_chunks_exact: "n > 0 \<Longrightarrow> n dvd length xs \<Longrightarrow> concat (chunks_exact n xs) = xs"
proof (induction n xs rule: chunks_exact.induct)
  case (1 n xs)
  show ?case
  proof (cases "length xs < n")
    case True
    with "1.prems" have "xs = []" by (auto dest: nat_dvd_not_less)
    then show ?thesis by (simp add: chunks_exact.simps)
  next
    case False
    then have "n dvd length (drop n xs)" using "1.prems" by (simp add: dvd_diff_nat)
    with 1 False show ?thesis by (simp add: chunks_exact.simps [of n xs])
  qed
qed

lemma sha256_digest_shape:
  "length (sha256_digest bs) = 71 \<and> take 7 (sha256_digest bs) = ''sha256:'' \<and>
   (\<forall>c \<in> set (drop 7 (sha256_digest bs)). is_lower_hex c)"
proof -
  obtain st where st: "sha256_digest bs = ''sha256:'' @ concat (map (\<lambda>x. hex_fixed 8 (unat x)) (state_words st))"
    by (auto simp: sha256_digest_def Let_def)
  show ?thesis unfolding st
    by (cases st) (auto dest: set_hex_fixed)
qed

subsection \<open>The message schedule\<close>

text \<open>
  The schedule of the standard, as a recurrence on the index; the code fills an array in place.
\<close>

definition small_sigma0 :: "u32 \<Rightarrow> u32" where
  "small_sigma0 x = rotate_right x 7 XOR rotate_right x 18 XOR drop_bit 3 x"

definition small_sigma1 :: "u32 \<Rightarrow> u32" where
  "small_sigma1 x = rotate_right x 17 XOR rotate_right x 19 XOR drop_bit 10 x"

fun schedule_word :: "u8 list \<Rightarrow> nat \<Rightarrow> u32" where
  "schedule_word m t =
     (if t < 16 then from_be_bytes (take 4 (drop (4 * t) m))
      else small_sigma1 (schedule_word m (t - 2)) + schedule_word m (t - 7) +
           small_sigma0 (schedule_word m (t - 15)) + schedule_word m (t - 16))"

declare schedule_word.simps [simp del]

lemma length_chunks_exact: "n > 0 \<Longrightarrow> length (chunks_exact n xs) = length xs div n"
proof (induction n xs rule: chunks_exact.induct)
  case (1 n xs)
  then show ?case by (simp add: chunks_exact.simps [of n xs] le_div_geq)
qed

lemma nth_chunks_exact:
  "n > 0 \<Longrightarrow> i < length xs div n \<Longrightarrow> chunks_exact n xs ! i = take n (drop (n * i) xs)"
proof (induction n xs arbitrary: i rule: chunks_exact.induct)
  case (1 n xs)
  then have "n \<le> length xs" by (cases "length xs < n") auto
  with 1 show ?case
    by (cases i) (simp_all add: chunks_exact.simps [of n xs] le_div_geq add.commute)
qed

lemma schedule_fold:
  assumes "length w = 64" and "\<forall>t < 16. w ! t = schedule_word m t" and "16 \<le> n" and "n \<le> 64"
  shows "length (fold schedule_step [16..<n] w) = 64 \<and>
         (\<forall>t < n. fold schedule_step [16..<n] w ! t = schedule_word m t)"
  using assms(3,4)
proof (induction n rule: dec_induct)
  case base
  then show ?case using assms(1,2) by simp
next
  case (step n)
  let ?w = "fold schedule_step [16..<n] w"
  from step have IH: "length ?w = 64" "\<forall>t < n. ?w ! t = schedule_word m t" by auto
  have "fold schedule_step [16..<Suc n] w = schedule_step n ?w" using step(1) by simp
  moreover have "schedule_step n ?w ! t = schedule_word m t" if "t < Suc n" for t
    using IH that step(1,4)
    by (cases "t = n")
      (simp_all add: schedule_step_def small_sigma0_def small_sigma1_def schedule_word.simps [of m n]
        ac_simps)
  moreover have "length (schedule_step n ?w) = 64" using IH by (simp add: schedule_step_def)
  ultimately show ?case by simp
qed

lemma message_schedule_eq:
  assumes "length chunk = 64" and "t < 64"
  shows "message_schedule chunk ! t = schedule_word chunk t"
proof -
  let ?w = "map from_be_bytes (chunks_exact 4 chunk) @ replicate 48 0"
  have "length ?w = 64" using assms(1) by (simp add: length_chunks_exact)
  moreover have "\<forall>t < 16. ?w ! t = schedule_word chunk t"
    using assms(1)
    by (simp add: nth_append length_chunks_exact nth_chunks_exact schedule_word.simps)
  ultimately show ?thesis
    using schedule_fold [of ?w chunk 64] assms(2) by (simp add: message_schedule_def)
qed

subsection \<open>Properties\<close>

text \<open>
  The in-place message schedule of the SHA-256 compression function equals the recurrence of
  the standard: for a 64-byte block, every one of the 64 words the array holds at the end is the
  word the recurrence defines.
\<close>
theorem schedule_is_standard:
  assumes "length chunk = 64" and "t < 64"
  shows "message_schedule chunk ! t = schedule_word chunk t"
  using assms by (rule message_schedule_eq)

theorem schedule_is_standard_witness:
  "message_schedule (replicate 64 7) ! 20 = schedule_word (replicate 64 7) 20"
  by (rule schedule_is_standard) simp_all

text \<open>
  The padding is sound: the padded message is a whole number of 64-byte blocks, cutting it
  into blocks loses nothing, and two different messages shorter than 2^61 bytes have different
  padded forms, so no collision can come from the padding.
\<close>
theorem padding_injective:
  assumes "length a < 2 ^ 61" and "length b < 2 ^ 61" and "a \<noteq> b"
  shows "sha256_pad a \<noteq> sha256_pad b \<and> 64 dvd length (sha256_pad a) \<and>
         concat (chunks_exact 64 (sha256_pad a)) = sha256_pad a"
  using assms sha256_pad_inj [of a b] length_sha256_pad [of a]
    concat_chunks_exact [of 64 "sha256_pad a"] by auto

theorem padding_injective_witness:
  "sha256_pad [1] \<noteq> sha256_pad [] \<and> 64 dvd length (sha256_pad [1]) \<and>
   concat (chunks_exact 64 (sha256_pad [1])) = sha256_pad [1]"
  by (rule padding_injective) simp_all

text \<open>
  Every digest is the text \<open>sha256:\<close> followed by exactly 64 lower-case hexadecimal digits.
\<close>
theorem digest_format:
  "length (sha256_digest bs) = 71 \<and> take 7 (sha256_digest bs) = ''sha256:'' \<and>
   list_all is_lower_hex (drop 7 (sha256_digest bs))"
  using sha256_digest_shape [of bs] by (simp add: list_all_iff)

end
