(* ===== verification/Core_Event.thy ===== *)
theory Core_Event
  imports Core_Capability
begin

section \<open>Events and their traces (eva-core, event.rs)\<close>

text \<open>
  The event value with payload, target and metadata. \<^verbatim>\<open>SystemTime\<close> is the signed number of
  nanoseconds from the Unix epoch; \<^verbatim>\<open>SystemTime::now()\<close> is the argument \<open>now\<close> of the constructors
  that call it.
\<close>

type_synonym system_time = int

datatype event_payload =
    PayloadEmpty
  | PayloadText string
  | PayloadBytes "u8 list"

fun payload_as_text :: "event_payload \<Rightarrow> string option" where
  "payload_as_text (PayloadText value) = Some value"
| "payload_as_text _ = None"

datatype event_target =
    Broadcast
  | TargetAgent agent_id
  | TargetCapability capability_name
  | TargetAdapter adapter_id

record trace_context =
  correlation_id :: "event_id option"
  causation_id :: "event_id option"

definition trace_context_default :: trace_context where
  "trace_context_default = \<lparr>correlation_id = None, causation_id = None\<rparr>"

definition trace_child_of :: "trace_context \<Rightarrow> event_id \<Rightarrow> trace_context" where
  "trace_child_of t parent =
     \<lparr>correlation_id = (case correlation_id t of None \<Rightarrow> Some parent | Some i \<Rightarrow> Some i),
      causation_id = Some parent\<rparr>"

record event_metadata =
  md_created_at :: system_time
  md_request_id :: "request_id option"
  md_trace :: trace_context
  md_generation_id :: "generation_id option"

definition event_metadata_new :: "system_time \<Rightarrow> event_metadata" where
  "event_metadata_new now =
     \<lparr>md_created_at = now, md_request_id = None, md_trace = trace_context_default,
      md_generation_id = None\<rparr>"

definition md_with_created_at :: "event_metadata \<Rightarrow> system_time \<Rightarrow> event_metadata" where
  "md_with_created_at m t = m\<lparr>md_created_at := t\<rparr>"

definition md_with_request_id :: "event_metadata \<Rightarrow> request_id \<Rightarrow> event_metadata" where
  "md_with_request_id m r = m\<lparr>md_request_id := Some r\<rparr>"

definition md_with_trace :: "event_metadata \<Rightarrow> trace_context \<Rightarrow> event_metadata" where
  "md_with_trace m t = m\<lparr>md_trace := t\<rparr>"

definition md_with_generation_id :: "event_metadata \<Rightarrow> generation_id \<Rightarrow> event_metadata" where
  "md_with_generation_id m g = m\<lparr>md_generation_id := Some g\<rparr>"

record event =
  ev_id :: event_id
  ev_topic :: topic
  ev_target :: event_target
  ev_payload :: event_payload
  ev_metadata :: event_metadata

definition event_new :: "system_time \<Rightarrow> event_id \<Rightarrow> topic \<Rightarrow> event_payload \<Rightarrow> event" where
  "event_new now i t payload =
     \<lparr>ev_id = i, ev_topic = t, ev_target = Broadcast, ev_payload = payload,
      ev_metadata = event_metadata_new now\<rparr>"

definition event_with_target :: "event \<Rightarrow> event_target \<Rightarrow> event" where
  "event_with_target e t = e\<lparr>ev_target := t\<rparr>"

definition event_with_request_id :: "event \<Rightarrow> request_id \<Rightarrow> event" where
  "event_with_request_id e r = e\<lparr>ev_metadata := md_with_request_id (ev_metadata e) r\<rparr>"

definition event_with_trace :: "event \<Rightarrow> trace_context \<Rightarrow> event" where
  "event_with_trace e t = e\<lparr>ev_metadata := md_with_trace (ev_metadata e) t\<rparr>"

definition event_with_generation_id :: "event \<Rightarrow> generation_id \<Rightarrow> event" where
  "event_with_generation_id e g = e\<lparr>ev_metadata := md_with_generation_id (ev_metadata e) g\<rparr>"

definition event_with_metadata :: "event \<Rightarrow> event_metadata \<Rightarrow> event" where
  "event_with_metadata e m = e\<lparr>ev_metadata := m\<rparr>"

definition child_event ::
  "system_time \<Rightarrow> event \<Rightarrow> event_id \<Rightarrow> topic \<Rightarrow> event_payload \<Rightarrow> event" where
  "child_event now e i t payload =
     event_with_trace (event_new now i t payload)
       (trace_child_of (md_trace (ev_metadata e)) (ev_id e))"

subsection \<open>Event chains\<close>

text \<open>
  A chain of events, each created from its predecessor by \<^verbatim>\<open>child_event\<close>: the arguments of the
  successive calls, and the events they build.
\<close>

fun event_chain :: "event \<Rightarrow> (system_time \<times> event_id \<times> topic \<times> event_payload) list \<Rightarrow> event list" where
  "event_chain e [] = [e]"
| "event_chain e ((now, i, t, p) # steps) = e # event_chain (child_event now e i t p) steps"

definition root_id :: "event \<Rightarrow> event_id" where
  "root_id e = (case correlation_id (md_trace (ev_metadata e)) of None \<Rightarrow> ev_id e | Some i \<Rightarrow> i)"

lemma child_event_fields [simp]:
  "ev_id (child_event now e i t p) = i"
  "ev_topic (child_event now e i t p) = t"
  "ev_payload (child_event now e i t p) = p"
  "ev_target (child_event now e i t p) = Broadcast"
  "causation_id (md_trace (ev_metadata (child_event now e i t p))) = Some (ev_id e)"
  "correlation_id (md_trace (ev_metadata (child_event now e i t p))) = Some (root_id e)"
  by (simp_all add: child_event_def event_with_trace_def event_new_def md_with_trace_def
      trace_child_of_def root_id_def split: option.splits)

lemma root_id_child [simp]: "root_id (child_event now e i t p) = root_id e"
  by (simp add: root_id_def [of "child_event now e i t p"])

lemma length_event_chain [simp]: "length (event_chain e steps) = Suc (length steps)"
  by (induction e steps rule: event_chain.induct) auto

lemma event_chain_0 [simp]: "event_chain e steps ! 0 = e"
  by (induction e steps rule: event_chain.induct) auto

lemma event_chain_trace:
  "k < length steps \<Longrightarrow>
   causation_id (md_trace (ev_metadata (event_chain e steps ! Suc k))) = Some (ev_id (event_chain e steps ! k)) \<and>
   correlation_id (md_trace (ev_metadata (event_chain e steps ! Suc k))) = Some (root_id e)"
proof (induction e steps arbitrary: k rule: event_chain.induct)
  case (2 e now i t p steps)
  then show ?case by (cases k) auto
qed simp

subsection \<open>Properties\<close>

text \<open>
  Causality of event chains: in every chain built by successive \<^verbatim>\<open>child_event\<close> calls, each event
  names its direct predecessor as its cause, and all of them share one correlation id, the one
  of the first event or, if it has none, the id of the first event.
\<close>
theorem chain_causality:
  assumes "k < length steps"
  shows "causation_id (md_trace (ev_metadata (event_chain e steps ! Suc k))) =
           Some (ev_id (event_chain e steps ! k)) \<and>
         correlation_id (md_trace (ev_metadata (event_chain e steps ! Suc k))) =
           Some (case correlation_id (md_trace (ev_metadata e)) of None \<Rightarrow> ev_id e | Some i \<Rightarrow> i)"
  using event_chain_trace [OF assms, of e] by (simp add: root_id_def)

theorem chain_causality_witness:
  "let t = \<lparr>topic_path = ''/a'', topic_segments = [''a'']\<rparr>;
       e = event_new 0 (EventId ''r'') t PayloadEmpty;
       c = event_chain e [(1, EventId ''x'', t, PayloadEmpty), (2, EventId ''y'', t, PayloadEmpty)]
   in causation_id (md_trace (ev_metadata (c ! Suc 1))) = Some (ev_id (c ! 1)) \<and>
      correlation_id (md_trace (ev_metadata (c ! Suc 1))) = Some (EventId ''r'')"
  unfolding Let_def
  by (subst chain_causality, simp_all)
    (simp add: event_new_def event_metadata_new_def trace_context_default_def)

end
