(* ===== verification/Core_Invoke.thy ===== *)
theory Core_Invoke
  imports Core_Event
begin

section \<open>Invoke requests and responses (eva-core, invoke.rs)\<close>

text \<open>
  The request and response values of the invoke channel. A \<^verbatim>\<open>Duration\<close> is its number of
  nanoseconds. The response constructors are the only way to build a response, so the invariant
  \<open>response_wf\<close>, which ties output and error to the status, holds of every response.
\<close>

type_synonym duration = nat

datatype invoke_target =
    InvokeAgent agent_id
  | InvokeCapability capability_name
  | InvokeAdapter adapter_id

type_synonym invoke_input = event_payload
type_synonym invoke_output = event_payload

record invoke_metadata =
  im_timeout :: "duration option"
  im_trace :: trace_context
  im_generation_id :: "generation_id option"
  im_caller :: "agent_id option"

definition invoke_metadata_new :: invoke_metadata where
  "invoke_metadata_new =
     \<lparr>im_timeout = None, im_trace = trace_context_default, im_generation_id = None, im_caller = None\<rparr>"

record invoke_request =
  rq_request_id :: request_id
  rq_target :: invoke_target
  rq_input :: invoke_input
  rq_metadata :: invoke_metadata

definition invoke_request_new :: "request_id \<Rightarrow> invoke_target \<Rightarrow> invoke_input \<Rightarrow> invoke_request" where
  "invoke_request_new r t i =
     \<lparr>rq_request_id = r, rq_target = t, rq_input = i, rq_metadata = invoke_metadata_new\<rparr>"

datatype invoke_status =
    AcceptedStatus
  | CompletedStatus
  | FailedStatus
  | CancelledStatus
  | TimeoutStatus

definition status_is_terminal :: "invoke_status \<Rightarrow> bool" where
  "status_is_terminal s \<longleftrightarrow>
     s = CompletedStatus \<or> s = FailedStatus \<or> s = CancelledStatus \<or> s = TimeoutStatus"

record invoke_response =
  rs_request_id :: request_id
  rs_status :: invoke_status
  rs_output :: "invoke_output option"
  rs_error :: "eva_error option"
  rs_metadata :: invoke_metadata

definition response_new ::
  "request_id \<Rightarrow> invoke_status \<Rightarrow> invoke_output option \<Rightarrow> eva_error option \<Rightarrow> invoke_response" where
  "response_new r s out err =
     \<lparr>rs_request_id = r, rs_status = s, rs_output = out, rs_error = err,
      rs_metadata = invoke_metadata_new\<rparr>"

definition response_accepted :: "request_id \<Rightarrow> invoke_response" where
  "response_accepted r = response_new r AcceptedStatus None None"

definition response_completed :: "request_id \<Rightarrow> invoke_output \<Rightarrow> invoke_response" where
  "response_completed r out = response_new r CompletedStatus (Some out) None"

definition response_failed :: "request_id \<Rightarrow> eva_error \<Rightarrow> invoke_response" where
  "response_failed r e = response_new r FailedStatus None (Some e)"

definition response_cancelled :: "request_id \<Rightarrow> eva_error option \<Rightarrow> invoke_response" where
  "response_cancelled r reason = response_new r CancelledStatus None
     (case reason of None \<Rightarrow> Some (err_conflict ''invoke request was cancelled'') | Some e \<Rightarrow> Some e)"

definition response_timeout :: "request_id \<Rightarrow> string \<Rightarrow> invoke_response" where
  "response_timeout r message = response_new r TimeoutStatus None (Some (err_timeout message))"

definition response_timeout_with_error :: "request_id \<Rightarrow> eva_error \<Rightarrow> invoke_response" where
  "response_timeout_with_error r e = response_new r TimeoutStatus None (Some e)"

definition response_with_metadata :: "invoke_response \<Rightarrow> invoke_metadata \<Rightarrow> invoke_response" where
  "response_with_metadata r m = r\<lparr>rs_metadata := m\<rparr>"

definition response_is_success :: "invoke_response \<Rightarrow> bool" where
  "response_is_success r \<longleftrightarrow> rs_status r = CompletedStatus"

subsection \<open>Every response is well formed\<close>

inductive built_response :: "invoke_response \<Rightarrow> bool" where
  built_accepted: "built_response (response_accepted r)"
| built_completed: "built_response (response_completed r out)"
| built_failed: "built_response (response_failed r e)"
| built_cancelled: "built_response (response_cancelled r reason)"
| built_timeout: "built_response (response_timeout r m)"
| built_timeout_with_error: "built_response (response_timeout_with_error r e)"
| built_with_metadata: "built_response x \<Longrightarrow> built_response (response_with_metadata x m)"

definition response_wf :: "invoke_response \<Rightarrow> bool" where
  "response_wf r \<longleftrightarrow>
     (rs_output r \<noteq> None \<longleftrightarrow> response_is_success r) \<and>
     (rs_error r \<noteq> None \<longleftrightarrow> status_is_terminal (rs_status r) \<and> \<not> response_is_success r)"

lemmas response_defs = response_accepted_def response_completed_def response_failed_def
  response_cancelled_def response_timeout_def response_timeout_with_error_def
  response_with_metadata_def response_new_def response_is_success_def status_is_terminal_def

lemma built_response_wf: "built_response r \<Longrightarrow> response_wf r"
  by (induction rule: built_response.induct) (auto simp: response_wf_def response_defs split: option.splits)

end
