(* ===== verification/Sched_Generation.thy ===== *)
theory Sched_Generation
  imports Core_Invoke
begin

section \<open>The generation route gate (eva-scheduler, generation.rs)\<close>

text \<open>
  The gate that decides which generation new work is bound to. Its operations are modelled with
  the state each error path leaves; a client of the gate is a sequence of operations, and
  \<open>gate_history\<close> relates the state of the gate to that sequence.
\<close>

record route_candidate =
  rc_generation_id :: generation_id
  rc_shadow_healthy :: bool

record route_gate =
  active_generation :: generation_id
  gate_candidate :: "route_candidate option"
  gate_audit :: "string list"

definition candidate_shadowing :: "generation_id \<Rightarrow> route_candidate" where
  "candidate_shadowing g = \<lparr>rc_generation_id = g, rc_shadow_healthy = False\<rparr>"

definition gate_new :: "generation_id \<Rightarrow> route_gate" where
  "gate_new g = \<lparr>active_generation = g, gate_candidate = None,
     gate_audit = [''generation_route:'' @ generation_id_str g @ '':active'']\<rparr>"

definition start_candidate :: "route_gate \<Rightarrow> generation_id \<Rightarrow> unit res \<times> route_gate" where
  "start_candidate s g =
     (if g = active_generation s then
        (Inl (with_context
           (err_conflict ''candidate generation must differ from active generation'')
           ''generation'' (generation_id_str g)), s)
      else if gate_candidate s \<noteq> None then
        (Inl (err_conflict ''candidate generation route already exists''), s)
      else
        (Inr (), s\<lparr>gate_audit := gate_audit s @
                     [''generation_route:'' @ generation_id_str g @ '':shadowing''],
                   gate_candidate := Some (candidate_shadowing g)\<rparr>))"

definition candidate_missing :: "generation_id \<Rightarrow> eva_error" where
  "candidate_missing g = with_context (err_not_found ''candidate generation route does not exist'')
     ''generation'' (generation_id_str g)"

definition mark_candidate_shadow_healthy :: "route_gate \<Rightarrow> generation_id \<Rightarrow> unit res \<times> route_gate" where
  "mark_candidate_shadow_healthy s g = (case gate_candidate s of
     None \<Rightarrow> (Inl (candidate_missing g), s)
   | Some c \<Rightarrow>
       (if rc_generation_id c \<noteq> g then
          (Inl (with_context (with_context
             (err_conflict ''shadow health does not match candidate generation'')
             ''candidate'' (generation_id_str (rc_generation_id c)))
             ''health'' (generation_id_str g)), s)
        else
          (Inr (), s\<lparr>gate_candidate := Some (c\<lparr>rc_shadow_healthy := True\<rparr>),
                     gate_audit := gate_audit s @
                       [''generation_route:'' @ generation_id_str g @ '':shadow_healthy'']\<rparr>)))"

definition reject_candidate_shadow ::
  "route_gate \<Rightarrow> generation_id \<Rightarrow> string \<Rightarrow> route_candidate res \<times> route_gate" where
  "reject_candidate_shadow s g reason = (case gate_candidate s of
     None \<Rightarrow> (Inl (candidate_missing g), s\<lparr>gate_candidate := None\<rparr>)
   | Some c \<Rightarrow>
       (if rc_generation_id c \<noteq> g then
          (Inl (with_context (with_context
             (err_conflict ''shadow rejection does not match candidate generation'')
             ''candidate'' (generation_id_str (rc_generation_id c)))
             ''rejected'' (generation_id_str g)), s\<lparr>gate_candidate := Some c\<rparr>)
        else
          (Inr c, s\<lparr>gate_candidate := None,
                    gate_audit := gate_audit s @
                      [''generation_route:'' @ generation_id_str g @ '':shadow_rejected:'' @ reason]\<rparr>)))"

definition selected_generation_for_new_work :: "route_gate \<Rightarrow> generation_id" where
  "selected_generation_for_new_work s = (case gate_candidate s of
     Some c \<Rightarrow> if rc_shadow_healthy c then rc_generation_id c else active_generation s
   | None \<Rightarrow> active_generation s)"

definition stamp_new_work :: "route_gate \<Rightarrow> event \<Rightarrow> event" where
  "stamp_new_work s e = event_with_generation_id e (selected_generation_for_new_work s)"

subsection \<open>Runs of the gate\<close>

datatype gate_op =
    StartCandidate generation_id
  | MarkHealthy generation_id
  | RejectCandidate generation_id string

fun gate_step :: "route_gate \<Rightarrow> gate_op \<Rightarrow> route_gate" where
  "gate_step s (StartCandidate g) = snd (start_candidate s g)"
| "gate_step s (MarkHealthy g) = snd (mark_candidate_shadow_healthy s g)"
| "gate_step s (RejectCandidate g reason) = snd (reject_candidate_shadow s g reason)"

definition gate_run :: "generation_id \<Rightarrow> gate_op list \<Rightarrow> route_gate" where
  "gate_run a ops = foldl gate_step (gate_new a) ops"

lemma gate_run_Nil [simp]: "gate_run a [] = gate_new a"
  by (simp add: gate_run_def)

lemma gate_run_snoc [simp]: "gate_run a (ops @ [x]) = gate_step (gate_run a ops) x"
  by (simp add: gate_run_def)

text \<open>
  \<open>started ops g\<close>: the sequence starts a candidate \<open>g\<close> and does not reject it afterwards;
  \<open>approved ops g\<close>: in addition \<open>g\<close> is reported healthy after that start.
\<close>

definition no_reject :: "generation_id \<Rightarrow> gate_op list \<Rightarrow> bool" where
  "no_reject g ops \<longleftrightarrow> (\<forall>reason. RejectCandidate g reason \<notin> set ops)"

definition started :: "gate_op list \<Rightarrow> generation_id \<Rightarrow> bool" where
  "started ops g \<longleftrightarrow> (\<exists>pre mid. ops = pre @ StartCandidate g # mid \<and> no_reject g mid)"

definition approved :: "gate_op list \<Rightarrow> generation_id \<Rightarrow> bool" where
  "approved ops g \<longleftrightarrow> (\<exists>pre mid post.
     ops = pre @ StartCandidate g # mid @ MarkHealthy g # post \<and> no_reject g mid \<and> no_reject g post)"

lemma started_snoc: "started ops g \<Longrightarrow> \<forall>reason. x \<noteq> RejectCandidate g reason \<Longrightarrow> started (ops @ [x]) g"
  unfolding started_def no_reject_def by (elim exE conjE) (rule exI, rule exI [of _ "_ @ [x]"], auto)

lemma approved_snoc: "approved ops g \<Longrightarrow> \<forall>reason. x \<noteq> RejectCandidate g reason \<Longrightarrow> approved (ops @ [x]) g"
  unfolding approved_def no_reject_def
  by (elim exE conjE) (rule exI, rule exI, rule exI [of _ "_ @ [x]"], auto)

lemma started_start: "started (ops @ [StartCandidate g]) g"
  unfolding started_def no_reject_def by (intro exI [of _ ops] exI [of _ "[]"]) simp

lemma started_approved: "started ops g \<Longrightarrow> approved (ops @ [MarkHealthy g]) g"
  unfolding started_def approved_def no_reject_def
  by (elim exE conjE) (rule exI, rule exI, rule exI [of _ "[]"], auto)

definition gate_history :: "generation_id \<Rightarrow> gate_op list \<Rightarrow> route_gate \<Rightarrow> bool" where
  "gate_history a ops s \<longleftrightarrow> active_generation s = a \<and>
     (\<forall>c. gate_candidate s = Some c \<longrightarrow>
        rc_generation_id c \<noteq> a \<and> started ops (rc_generation_id c) \<and>
        (rc_shadow_healthy c \<longrightarrow> approved ops (rc_generation_id c)))"

lemma gate_history_step:
  assumes h: "gate_history a ops s"
  shows "gate_history a (ops @ [x]) (gate_step s x)"
proof (cases x)
  case (StartCandidate g)
  then have "gate_history a (ops @ [x]) s"
    using h started_snoc approved_snoc by (auto simp: gate_history_def)
  then show ?thesis
    using h StartCandidate started_start
    by (auto simp: start_candidate_def gate_history_def candidate_shadowing_def)
next
  case (MarkHealthy g)
  then have h': "gate_history a (ops @ [x]) s"
    using h started_snoc approved_snoc by (auto simp: gate_history_def)
  then show ?thesis
    using h MarkHealthy started_approved
    by (auto simp: mark_candidate_shadow_healthy_def gate_history_def split: option.splits)
next
  case (RejectCandidate g reason)
  then show ?thesis
    using h started_snoc approved_snoc
    by (auto simp: reject_candidate_shadow_def gate_history_def split: option.splits)
qed

lemma gate_run_history: "gate_history a ops (gate_run a ops)"
proof (induction ops rule: rev_induct)
  case Nil
  then show ?case by (simp add: gate_history_def gate_new_def)
next
  case (snoc x ops)
  then show ?case using gate_history_step by simp
qed

lemma selected_history:
  "gate_history a ops s \<Longrightarrow>
   selected_generation_for_new_work s = a \<or> approved ops (selected_generation_for_new_work s)"
  by (auto simp: gate_history_def selected_generation_for_new_work_def split: option.splits)

lemma stamp_new_work_generation:
  "md_generation_id (ev_metadata (stamp_new_work s e)) = Some (selected_generation_for_new_work s)"
  by (simp add: stamp_new_work_def event_with_generation_id_def md_with_generation_id_def)

subsection \<open>Properties\<close>

text \<open>
  C18. No unvetted generation receives work: whatever sequence of operations a gate has seen since
  its creation for generation \<open>a\<close>, an event it stamps as new work carries either \<open>a\<close>, or a
  generation that was started as a candidate, then reported healthy, and not rejected since it
  was started.
\<close>
theorem stamped_generation_vetted:
  "\<exists>g. md_generation_id (ev_metadata (stamp_new_work (gate_run a ops) e)) = Some g \<and>
     (g = a \<or>
      (\<exists>pre mid post. ops = pre @ StartCandidate g # mid @ MarkHealthy g # post \<and>
         (\<forall>reason. RejectCandidate g reason \<notin> set mid \<union> set post)))"
proof (intro exI conjI)
  let ?g = "selected_generation_for_new_work (gate_run a ops)"
  show "md_generation_id (ev_metadata (stamp_new_work (gate_run a ops) e)) = Some ?g"
    by (rule stamp_new_work_generation)
  have "approved ops ?g \<longleftrightarrow> (\<exists>pre mid post. ops = pre @ StartCandidate ?g # mid @ MarkHealthy ?g # post \<and>
      (\<forall>reason. RejectCandidate ?g reason \<notin> set mid \<union> set post))"
    unfolding approved_def no_reject_def Un_iff by blast
  then show "?g = a \<or> (\<exists>pre mid post. ops = pre @ StartCandidate ?g # mid @ MarkHealthy ?g # post \<and>
      (\<forall>reason. RejectCandidate ?g reason \<notin> set mid \<union> set post))"
    using selected_history [OF gate_run_history] by blast
qed

end
