(* ===== verification/Eva_Interfaces.thy ===== *)
theory Eva_Interfaces
  imports Eva_Prelude
begin

section \<open>Contracts shared by several components\<close>

text \<open>
  Two interfaces that the crates implement more than once.

  \<^item> \<open>bounded_fifo\<close>: a queue with a fixed capacity that rejects, and does not drop, what does not
    fit. \<^verbatim>\<open>AgentMailbox\<close> of eva-scheduler and \<^verbatim>\<open>AgentQueue\<close> of eva-agent provide it.
  \<^item> \<open>unique_registry\<close>: a keyed registry in which the first admissible registration of a key wins
    and a later one is an error that changes nothing. The mailbox registry of eva-scheduler, the
    capability registry of eva-capability, the device registry of eva-hardware and the in-memory
    upgrade lock of eva-lifecycle provide it.

  A mutating method is a function from the old state to the result and the new state, so that
  what an error path leaves behind is part of every statement.
\<close>

subsection \<open>Bounded first-in-first-out queues\<close>

datatype 'e fifo_op = Push 'e | Pop

datatype 'e fifo_obs = Accepted 'e | Rejected | Popped 'e | Nothing

text \<open>
  A client of a queue: a sequence of operations, and what each of them showed. \<open>accepted\<close> and
  \<open>popped\<close> are the elements that entered and left, in order.
\<close>

fun fifo_step :: "('q \<Rightarrow> 'e \<Rightarrow> ('err + unit) \<times> 'q) \<Rightarrow> ('q \<Rightarrow> 'e option \<times> 'q) \<Rightarrow>
    'q \<Rightarrow> 'e fifo_op \<Rightarrow> 'e fifo_obs \<times> 'q" where
  "fifo_step push pop q (Push e) =
     (if is_err (fst (push q e)) then Rejected else Accepted e, snd (push q e))"
| "fifo_step push pop q Pop =
     (case fst (pop q) of None \<Rightarrow> Nothing | Some e \<Rightarrow> Popped e, snd (pop q))"

fun fifo_run :: "('q \<Rightarrow> 'e \<Rightarrow> ('err + unit) \<times> 'q) \<Rightarrow> ('q \<Rightarrow> 'e option \<times> 'q) \<Rightarrow>
    'q \<Rightarrow> 'e fifo_op list \<Rightarrow> 'e fifo_obs list \<times> 'q" where
  "fifo_run push pop q [] = ([], q)"
| "fifo_run push pop q (x # xs) =
     (fst (fifo_step push pop q x) # fst (fifo_run push pop (snd (fifo_step push pop q x)) xs),
      snd (fifo_run push pop (snd (fifo_step push pop q x)) xs))"

fun accepted :: "'e fifo_obs list \<Rightarrow> 'e list" where
  "accepted [] = []"
| "accepted (b # bs) = (case b of Accepted e \<Rightarrow> [e] | _ \<Rightarrow> []) @ accepted bs"

fun popped :: "'e fifo_obs list \<Rightarrow> 'e list" where
  "popped [] = []"
| "popped (b # bs) = (case b of Popped e \<Rightarrow> [e] | _ \<Rightarrow> []) @ popped bs"

locale bounded_fifo =
  fixes contents :: "'q \<Rightarrow> 'e list"
    and cap :: "'q \<Rightarrow> nat"
    and push :: "'q \<Rightarrow> 'e \<Rightarrow> ('err + unit) \<times> 'q"
    and pop :: "'q \<Rightarrow> 'e option \<times> 'q"
  assumes push_room: "length (contents q) < cap q \<Longrightarrow> \<not> is_err (fst (push q e))"
    and push_contents: "length (contents q) < cap q \<Longrightarrow> contents (snd (push q e)) = contents q @ [e]"
    and push_cap: "cap (snd (push q e)) = cap q"
    and push_full: "cap q \<le> length (contents q) \<Longrightarrow> is_err (fst (push q e)) \<and> snd (push q e) = q"
    and pop_head: "fst (pop q) = (case contents q of [] \<Rightarrow> None | e # _ \<Rightarrow> Some e)"
    and pop_tail: "contents (snd (pop q)) = tl (contents q)"
    and pop_cap: "cap (snd (pop q)) = cap q"
begin

lemma step_Push:
  "fifo_step push pop q (Push e) =
     (if length (contents q) < cap q then (Accepted e, snd (push q e)) else (Rejected, q))"
  using push_room [of q e] push_full [of q e] by (auto simp: not_less)

lemma step_Pop:
  "fifo_step push pop q Pop =
     (case contents q of [] \<Rightarrow> Nothing | e # _ \<Rightarrow> Popped e, snd (pop q))"
  using pop_head [of q] by (auto split: list.splits)

lemma step_cap: "cap (snd (fifo_step push pop q x)) = cap q"
  by (cases x) (auto simp: push_cap pop_cap)

lemma step_within:
  "length (contents q) \<le> cap q \<Longrightarrow> length (contents (snd (fifo_step push pop q x))) \<le> cap q"
proof (cases x)
  case (Push e)
  assume "length (contents q) \<le> cap q"
  with Push show ?thesis
    unfolding Push step_Push by (auto simp: push_contents)
next
  case Pop
  assume "length (contents q) \<le> cap q"
  with Pop show ?thesis unfolding Pop step_Pop by (simp add: pop_tail)
qed

lemma step_fifo:
  "popped [fst (fifo_step push pop q x)] @ contents (snd (fifo_step push pop q x)) =
   contents q @ accepted [fst (fifo_step push pop q x)]"
proof (cases x)
  case (Push e)
  show ?thesis unfolding Push step_Push by (simp add: push_contents)
next
  case Pop
  show ?thesis unfolding Pop step_Pop by (simp add: pop_tail split: list.splits)
qed

lemma run_cap: "cap (snd (fifo_run push pop q xs)) = cap q"
  by (induction xs arbitrary: q) (simp_all add: step_cap)

lemma run_within:
  "length (contents q) \<le> cap q \<Longrightarrow> length (contents (snd (fifo_run push pop q xs))) \<le> cap q"
proof (induction xs arbitrary: q)
  case (Cons x xs)
  show ?case using Cons.IH [of "snd (fifo_step push pop q x)"] step_within [OF Cons.prems, of x]
    by (simp add: step_cap)
qed simp

lemma run_fifo:
  "popped (fst (fifo_run push pop q xs)) @ contents (snd (fifo_run push pop q xs)) =
   contents q @ accepted (fst (fifo_run push pop q xs))"
proof (induction xs arbitrary: q)
  case (Cons x xs)
  show ?case
    using Cons.IH [of "snd (fifo_step push pop q x)"] step_fifo [of q x]
    by (simp add: append_assoc [symmetric] del: append_assoc) (simp add: append_assoc)
qed simp

end

subsection \<open>Registries in which a key is registered once\<close>

text \<open>
  Registering a sequence of items, one after the other, as start-up code does. The errors are
  reported by each call; the run goes on with the state that call left.
\<close>

fun register_run :: "('r \<Rightarrow> 'a \<Rightarrow> ('err + unit) \<times> 'r) \<Rightarrow> 'r \<Rightarrow> 'a list \<Rightarrow> 'r" where
  "register_run register r [] = r"
| "register_run register r (a # as) = register_run register (snd (register r a)) as"

locale unique_registry =
  fixes lookup :: "'r \<Rightarrow> 'k \<Rightarrow> 'v option"
    and register :: "'r \<Rightarrow> 'a \<Rightarrow> ('err + unit) \<times> 'r"
    and admissible :: "'a \<Rightarrow> bool"
    and key :: "'a \<Rightarrow> 'k"
    and entry :: "'a \<Rightarrow> 'v"
  assumes register_fresh: "admissible a \<Longrightarrow> lookup r (key a) = None \<Longrightarrow> \<not> is_err (fst (register r a))"
    and register_lookup: "admissible a \<Longrightarrow> lookup r (key a) = None \<Longrightarrow>
      lookup (snd (register r a)) = (lookup r)(key a \<mapsto> entry a)"
    and register_refused: "\<not> admissible a \<or> lookup r (key a) \<noteq> None \<Longrightarrow>
      is_err (fst (register r a)) \<and> snd (register r a) = r"
begin

lemma register_ok_iff: "\<not> is_err (fst (register r a)) \<longleftrightarrow> admissible a \<and> lookup r (key a) = None"
  using register_fresh register_refused by blast

lemma register_keeps: "lookup r k = Some v \<Longrightarrow> lookup (snd (register r a)) k = Some v"
  using register_lookup [of a r] register_refused [of a r] by (cases "admissible a \<and> lookup r (key a) = None") auto

lemma first_registration_wins:
  "lookup (register_run register r as) k =
     (case lookup r k of
        Some v \<Rightarrow> Some v
      | None \<Rightarrow> map_option entry (find (\<lambda>a. admissible a \<and> key a = k) as))"
proof (induction as arbitrary: r)
  case Nil
  then show ?case by (simp split: option.splits)
next
  case (Cons a as)
  show ?case
  proof (cases "admissible a \<and> lookup r (key a) = None")
    case True
    then show ?thesis using Cons.IH [of "snd (register r a)"] register_lookup [of a r]
      by (auto split: option.splits)
  next
    case False
    then have "snd (register r a) = r" using register_refused by blast
    then show ?thesis using Cons.IH [of r] False by (auto split: option.splits)
  qed
qed

end

end
