(* ===== verification/Sched_Mailbox.thy ===== *)
theory Sched_Mailbox
  imports Core_Invoke Eva_Map Eva_Interfaces
begin

section \<open>Agent mailboxes and their registry (eva-scheduler, mailbox.rs and registry.rs)\<close>

text \<open>
  The bounded mailbox of an agent, and the registry that owns one mailbox per agent. The mailbox
  provides the interface \<open>bounded_fifo\<close>, the registry provides \<open>unique_registry\<close>.
\<close>

record agent_mailbox =
  mb_capacity :: nat
  mb_events :: "event list"

definition mailbox_new :: "nat \<Rightarrow> agent_mailbox res" where
  "mailbox_new capacity =
     (if capacity = 0
      then Inl (err_invalid_argument ''mailbox capacity must be greater than zero'')
      else Inr \<lparr>mb_capacity = capacity, mb_events = []\<rparr>)"

definition mailbox_push :: "agent_mailbox \<Rightarrow> event \<Rightarrow> unit res \<times> agent_mailbox" where
  "mailbox_push m e =
     (if length (mb_events m) \<ge> mb_capacity m
      then (Inl (with_context (err_unavailable ''agent mailbox is full'')
              ''capacity'' (nat_str (mb_capacity m))), m)
      else (Inr (), m\<lparr>mb_events := mb_events m @ [e]\<rparr>))"

definition mailbox_pop :: "agent_mailbox \<Rightarrow> event option \<times> agent_mailbox" where
  "mailbox_pop m = (case mb_events m of
     [] \<Rightarrow> (None, m)
   | e # es \<Rightarrow> (Some e, m\<lparr>mb_events := es\<rparr>))"

record mailbox_registry =
  mailboxes :: "(agent_id, agent_mailbox) btree_map"

definition mailbox_registry_new :: mailbox_registry where
  "mailbox_registry_new = \<lparr>mailboxes = []\<rparr>"

definition registry_mailbox :: "mailbox_registry \<Rightarrow> agent_id \<Rightarrow> agent_mailbox option" where
  "registry_mailbox r a = bt_get (mailboxes r) a"

definition mailbox_register ::
  "mailbox_registry \<Rightarrow> agent_id \<Rightarrow> nat \<Rightarrow> unit res \<times> mailbox_registry" where
  "mailbox_register r a capacity =
     (if bt_get (mailboxes r) a \<noteq> None
      then (Inl (with_context (err_conflict ''agent mailbox already registered'')
              ''agent_id'' (agent_id_str a)), r)
      else (case mailbox_new capacity of
          Inl e \<Rightarrow> (Inl e, r)
        | Inr m \<Rightarrow> (Inr (), r\<lparr>mailboxes := bt_insert a m (mailboxes r)\<rparr>)))"

definition mailbox_missing :: "agent_id \<Rightarrow> eva_error" where
  "mailbox_missing a =
     with_context (err_not_found ''agent mailbox is not registered'') ''agent_id'' (agent_id_str a)"

definition registry_deliver ::
  "mailbox_registry \<Rightarrow> agent_id \<Rightarrow> event \<Rightarrow> unit res \<times> mailbox_registry" where
  "registry_deliver r a e = (case bt_get (mailboxes r) a of
     None \<Rightarrow> (Inl (mailbox_missing a), r)
   | Some m \<Rightarrow> (let (res, m') = mailbox_push m e
                in (res, r\<lparr>mailboxes := bt_insert a m' (mailboxes r)\<rparr>)))"

definition registry_drain_one ::
  "mailbox_registry \<Rightarrow> agent_id \<Rightarrow> event option res \<times> mailbox_registry" where
  "registry_drain_one r a = (case bt_get (mailboxes r) a of
     None \<Rightarrow> (Inl (mailbox_missing a), r)
   | Some m \<Rightarrow> (let (x, m') = mailbox_pop m
                in (Inr x, r\<lparr>mailboxes := bt_insert a m' (mailboxes r)\<rparr>)))"

subsection \<open>The mailbox is a bounded queue\<close>

interpretation mailbox: bounded_fifo mb_events mb_capacity mailbox_push mailbox_pop
  by unfold_locales (auto simp: mailbox_push_def mailbox_pop_def split: list.splits)

definition mailbox_wf :: "agent_mailbox \<Rightarrow> bool" where
  "mailbox_wf m \<longleftrightarrow> 0 < mb_capacity m \<and> length (mb_events m) \<le> mb_capacity m"

lemma mailbox_new_wf: "mailbox_new c = Inr m \<Longrightarrow> mailbox_wf m \<and> mb_capacity m = c \<and> mb_events m = []"
  by (auto simp: mailbox_new_def mailbox_wf_def split: if_splits)

lemma mailbox_push_wf [simp]: "mailbox_wf m \<Longrightarrow> mailbox_wf (snd (mailbox_push m e))"
  by (auto simp: mailbox_push_def mailbox_wf_def)

lemma mailbox_pop_wf [simp]: "mailbox_wf m \<Longrightarrow> mailbox_wf (snd (mailbox_pop m))"
  by (auto simp: mailbox_pop_def mailbox_wf_def split: list.splits)

subsection \<open>The registry\<close>

interpretation mailbox_reg: unique_registry registry_mailbox
  "\<lambda>r (a, c). mailbox_register r a c" "\<lambda>(a, c). 0 < c" fst "\<lambda>(a, c). \<lparr>mb_capacity = c, mb_events = []\<rparr>"
  by unfold_locales
    (auto simp: registry_mailbox_def mailbox_register_def mailbox_new_def fun_eq_iff)

definition registry_wf :: "mailbox_registry \<Rightarrow> bool" where
  "registry_wf r \<longleftrightarrow> bt_wf (mailboxes r) \<and> (\<forall>a m. registry_mailbox r a = Some m \<longrightarrow> mailbox_wf m)"

lemma registry_wf_new: "registry_wf mailbox_registry_new"
  by (simp add: registry_wf_def mailbox_registry_new_def registry_mailbox_def)

lemma registry_wf_update:
  "registry_wf r \<Longrightarrow> mailbox_wf m \<Longrightarrow> registry_wf (r\<lparr>mailboxes := bt_insert a m (mailboxes r)\<rparr>)"
  by (auto simp: registry_wf_def registry_mailbox_def)

lemma mailbox_register_wf: "registry_wf r \<Longrightarrow> registry_wf (snd (mailbox_register r a c))"
  by (auto simp: mailbox_register_def registry_wf_update dest: mailbox_new_wf split: sum.splits)

lemma registry_deliver_wf: "registry_wf r \<Longrightarrow> registry_wf (snd (registry_deliver r a e))"
  using mailbox_push_wf
  by (auto simp: registry_deliver_def Let_def case_prod_beta registry_mailbox_def registry_wf_def
      split: option.splits)

lemma registry_drain_one_wf: "registry_wf r \<Longrightarrow> registry_wf (snd (registry_drain_one r a))"
  using mailbox_pop_wf
  by (auto simp: registry_drain_one_def Let_def case_prod_beta registry_mailbox_def registry_wf_def
      split: option.splits)

definition can_accept :: "mailbox_registry \<Rightarrow> agent_id \<Rightarrow> bool" where
  "can_accept r a = (case registry_mailbox r a of
     None \<Rightarrow> False | Some m \<Rightarrow> length (mb_events m) < mb_capacity m)"

lemma registry_deliver_ok:
  "can_accept r a \<Longrightarrow>
   fst (registry_deliver r a e) = Inr () \<and>
   registry_mailbox (snd (registry_deliver r a e)) =
     (registry_mailbox r)(a := map_option (\<lambda>m. m\<lparr>mb_events := mb_events m @ [e]\<rparr>) (registry_mailbox r a))"
  by (auto simp: can_accept_def registry_deliver_def registry_mailbox_def mailbox_push_def fun_eq_iff
      split: option.splits)

lemma registry_deliver_refused:
  "registry_wf r \<Longrightarrow> \<not> can_accept r a \<Longrightarrow>
   is_err (fst (registry_deliver r a e)) \<and> snd (registry_deliver r a e) = r"
  by (auto simp: can_accept_def registry_deliver_def registry_mailbox_def mailbox_push_def
      registry_wf_def bt_insert_same split: option.splits)

subsection \<open>Properties\<close>

text \<open>
  A mailbox is a lossless bounded queue: for every mailbox that \<^verbatim>\<open>new\<close> returns and every sequence
  of pushes and pops, the events popped so far followed by the events still waiting are exactly
  the events whose push was accepted, in the order of acceptance, and the mailbox never holds
  more events than its capacity.
\<close>
theorem mailbox_is_bounded_fifo:
  assumes "mailbox_new c = Inr m"
  shows "popped (fst (fifo_run mailbox_push mailbox_pop m ops)) @
           mb_events (snd (fifo_run mailbox_push mailbox_pop m ops)) =
         accepted (fst (fifo_run mailbox_push mailbox_pop m ops)) \<and>
         length (mb_events (snd (fifo_run mailbox_push mailbox_pop m ops))) \<le> c"
  using mailbox.run_fifo [of m ops] mailbox.run_within [of m ops] mailbox_new_wf [OF assms]
  by (simp add: mailbox_wf_def)

theorem mailbox_is_bounded_fifo_witness:
  "let t = \<lparr>topic_path = ''/a'', topic_segments = [''a'']\<rparr>;
       e = event_new 0 (EventId ''e'') t PayloadEmpty;
       m = \<lparr>mb_capacity = 1, mb_events = []\<rparr>;
       run = fifo_run mailbox_push mailbox_pop m [Push e, Push e, Pop]
   in popped (fst run) @ mb_events (snd run) = accepted (fst run) \<and> length (mb_events (snd run)) \<le> 1"
  unfolding Let_def by (rule mailbox_is_bounded_fifo) (simp add: mailbox_new_def)

text \<open>
  Registration is first come, first served: after any sequence of registrations from an empty
  registry, the mailbox of an agent is the one of the first registration of that agent with a
  non-zero capacity; later ones, and zero capacities, change nothing.
\<close>
theorem first_mailbox_wins:
  "registry_mailbox (register_run (\<lambda>r (a, c). mailbox_register r a c) mailbox_registry_new regs) a =
     map_option (\<lambda>(b, c). \<lparr>mb_capacity = c, mb_events = []\<rparr>) (find (\<lambda>(b, c). 0 < c \<and> b = a) regs)"
proof -
  have "(\<lambda>x. (case x of (b, c) \<Rightarrow> 0 < c) \<and> fst x = a) = (\<lambda>(b, c). 0 < c \<and> b = a)" by auto
  then have "find (\<lambda>x. (case x of (b, c) \<Rightarrow> 0 < c) \<and> fst x = a) regs = find (\<lambda>(b, c). 0 < c \<and> b = a) regs"
    by (rule arg_cong)
  then show ?thesis
    using mailbox_reg.first_registration_wins [of mailbox_registry_new regs a]
    by (simp add: registry_mailbox_def mailbox_registry_new_def)
qed

end
