(* ===== verification/Sched_Routing.thy ===== *)
theory Sched_Routing
  imports Sched_Mailbox
begin

section \<open>Routing, delivery and retry (eva-scheduler, routing.rs, matcher.rs, subscription.rs, retry.rs)\<close>

text \<open>
  Routing rules, the resolution of an event into delivery plans, the delivery of a plan list into
  the mailboxes, and the retry decision. Delivery stops at the first mailbox that refuses and does
  not take back earlier deliveries; \<open>deliver_loop_prefix\<close> says exactly what it leaves behind.
\<close>

datatype delivery_mode = Fanout | Compete

record routing_rule =
  rule_pattern :: topic_pattern
  rule_delivery :: delivery_mode
  rule_agents :: "agent_id list"

definition matching_rules :: "routing_rule list \<Rightarrow> topic \<Rightarrow> routing_rule list" where
  "matching_rules rules t = filter (\<lambda>rule. pattern_matches (rule_pattern rule) t) rules"

record delivery_plan =
  plan_agent_id :: agent_id
  plan_delivery :: delivery_mode

record subscription_table =
  table_rules :: "routing_rule list"

definition rule_plans :: "routing_rule \<Rightarrow> delivery_plan list" where
  "rule_plans rule = (case rule_delivery rule of
     Fanout \<Rightarrow> map (\<lambda>a. \<lparr>plan_agent_id = a, plan_delivery = Fanout\<rparr>) (rule_agents rule)
   | Compete \<Rightarrow> (case rule_agents rule of
         [] \<Rightarrow> []
       | a # _ \<Rightarrow> [\<lparr>plan_agent_id = a, plan_delivery = Compete\<rparr>]))"

fun expand_rules :: "routing_rule list \<Rightarrow> delivery_plan list \<Rightarrow> delivery_plan list" where
  "expand_rules [] plans = plans"
| "expand_rules (rule # rules) plans = expand_rules rules (plans @ rule_plans rule)"

definition route :: "subscription_table \<Rightarrow> event \<Rightarrow> delivery_plan list res" where
  "route tbl e = (case ev_target e of
     TargetAgent a \<Rightarrow> Inr [\<lparr>plan_agent_id = a, plan_delivery = Fanout\<rparr>]
   | _ \<Rightarrow> (let plans = expand_rules (matching_rules (table_rules tbl) (ev_topic e)) []
      in if plans = []
         then Inl (with_context (err_not_found ''no scheduler route matched event topic'')
                ''topic'' (topic_path (ev_topic e)))
         else Inr plans))"

fun deliver_loop ::
  "mailbox_registry \<Rightarrow> delivery_plan list \<Rightarrow> event \<Rightarrow> unit res \<times> mailbox_registry" where
  "deliver_loop r [] e = (Inr (), r)"
| "deliver_loop r (plan # plans) e = (case registry_deliver r (plan_agent_id plan) e of
     (Inl err, r') \<Rightarrow> (Inl err, r')
   | (Inr _, r') \<Rightarrow> deliver_loop r' plans e)"

definition deliver ::
  "subscription_table \<Rightarrow> mailbox_registry \<Rightarrow> event \<Rightarrow> delivery_plan list res \<times> mailbox_registry" where
  "deliver tbl r e = (case route tbl e of
     Inl err \<Rightarrow> (Inl err, r)
   | Inr plans \<Rightarrow> (case deliver_loop r plans e of
         (Inl err, r') \<Rightarrow> (Inl err, r')
       | (Inr _, r') \<Rightarrow> (Inr plans, r')))"

record retry_dispatch_report =
  deliveries :: "delivery_plan list"

definition dispatch_retry_event ::
  "subscription_table \<Rightarrow> mailbox_registry \<Rightarrow> event \<Rightarrow> retry_dispatch_report res \<times> mailbox_registry" where
  "dispatch_retry_event tbl r e = (case deliver tbl r e of
     (Inl err, r') \<Rightarrow> (Inl err, r')
   | (Inr plans, r') \<Rightarrow> (Inr \<lparr>deliveries = plans\<rparr>, r'))"

record retry_backoff_policy =
  max_attempts :: u32
  backoff_ms :: u64

record retry_backoff_decision =
  rd_enqueue :: bool
  rd_next_attempt :: u32
  rd_due_after_ms :: "u64 option"
  rd_reason :: string

definition decide_retry_backoff ::
  "bool \<Rightarrow> u32 \<Rightarrow> retry_backoff_policy \<Rightarrow> retry_backoff_decision" where
  "decide_retry_backoff retryable attempts_made policy =
     (if \<not> retryable then
        \<lparr>rd_enqueue = False, rd_next_attempt = attempts_made, rd_due_after_ms = None,
         rd_reason = ''failure is not retryable''\<rparr>
      else if attempts_made \<ge> max_attempts policy then
        \<lparr>rd_enqueue = False, rd_next_attempt = attempts_made, rd_due_after_ms = None,
         rd_reason = ''retry attempts exhausted''\<rparr>
      else
        \<lparr>rd_enqueue = True, rd_next_attempt = sat_add attempts_made 1,
         rd_due_after_ms = Some (backoff_ms policy),
         rd_reason = ''retryable failure scheduled with backoff''\<rparr>)"

subsection \<open>Which agents an event is planned for\<close>

lemma expand_rules_concat: "expand_rules rules plans = plans @ concat (map rule_plans rules)"
  by (induction rules plans rule: expand_rules.induct) auto

lemma rule_plans_agents:
  "map plan_agent_id (rule_plans rule) =
     (if rule_delivery rule = Fanout then rule_agents rule else take 1 (rule_agents rule))"
  by (auto simp: rule_plans_def comp_def split: delivery_mode.splits list.splits)

lemma route_directed: "ev_target e = TargetAgent a \<Longrightarrow> route tbl e = Inr [\<lparr>plan_agent_id = a, plan_delivery = Fanout\<rparr>]"
  by (simp add: route_def)

lemma route_by_topic:
  assumes "\<forall>a. ev_target e \<noteq> TargetAgent a"
  shows "route tbl e =
    (let plans = concat (map rule_plans (matching_rules (table_rules tbl) (ev_topic e)))
     in if plans = []
        then Inl (with_context (err_not_found ''no scheduler route matched event topic'')
               ''topic'' (topic_path (ev_topic e)))
        else Inr plans)"
  using assms by (simp add: route_def expand_rules_concat split: event_target.splits)

subsection \<open>What delivery leaves behind\<close>

definition put_all :: "(agent_id \<rightharpoonup> agent_mailbox) \<Rightarrow> agent_id list \<Rightarrow> event \<Rightarrow> agent_id \<rightharpoonup> agent_mailbox" where
  "put_all boxes as e =
     (\<lambda>a. map_option (\<lambda>m. m\<lparr>mb_events := mb_events m @ replicate (count_list as a) e\<rparr>) (boxes a))"

lemma put_all_Nil [simp]: "put_all boxes [] e = boxes"
  by (rule ext) (simp add: put_all_def option.map_ident)

lemma put_all_Cons:
  "put_all boxes (a # as) e =
   put_all (boxes(a := map_option (\<lambda>m. m\<lparr>mb_events := mb_events m @ [e]\<rparr>) (boxes a))) as e"
  by (rule ext) (auto simp: put_all_def option.map_comp comp_def)

lemma deliver_loop_prefix:
  assumes "registry_wf r"
  shows "\<exists>k \<le> length plans.
    registry_mailbox (snd (deliver_loop r plans e)) =
      put_all (registry_mailbox r) (map plan_agent_id (take k plans)) e \<and>
    (is_err (fst (deliver_loop r plans e)) \<longleftrightarrow> k < length plans) \<and>
    (k < length plans \<longrightarrow> \<not> can_accept (snd (deliver_loop r plans e)) (plan_agent_id (plans ! k)))"
  using assms
proof (induction r plans e rule: deliver_loop.induct)
  case (1 r e)
  then show ?case by simp
next
  case (2 r plan plans e)
  let ?a = "plan_agent_id plan"
  show ?case
  proof (cases "can_accept r ?a")
    case True
    then obtain r' where r': "registry_deliver r ?a e = (Inr (), r')"
      using registry_deliver_ok [of r ?a e] by (cases "registry_deliver r ?a e") auto
    then have wf: "registry_wf r'" using registry_deliver_wf [OF "2.prems", of ?a e] by simp
    obtain k where k: "k \<le> length plans"
      "registry_mailbox (snd (deliver_loop r' plans e)) =
         put_all (registry_mailbox r') (map plan_agent_id (take k plans)) e"
      "is_err (fst (deliver_loop r' plans e)) \<longleftrightarrow> k < length plans"
      "k < length plans \<longrightarrow> \<not> can_accept (snd (deliver_loop r' plans e)) (plan_agent_id (plans ! k))"
      using "2.IH" [OF r' [symmetric] refl wf] by blast
    then show ?thesis
      using r' registry_deliver_ok [OF True, of e]
      by (intro exI [of _ "Suc k"]) (simp add: put_all_Cons)
  next
    case False
    then have "is_err (fst (registry_deliver r ?a e))" and "snd (registry_deliver r ?a e) = r"
      using registry_deliver_refused [OF "2.prems"] by auto
    then obtain err where "registry_deliver r ?a e = (Inl err, r)"
      by (cases "registry_deliver r ?a e"; cases "fst (registry_deliver r ?a e)") auto
    then show ?thesis using False by (intro exI [of _ 0]) simp
  qed
qed

lemma deliver_loop_wf: "registry_wf r \<Longrightarrow> registry_wf (snd (deliver_loop r plans e))"
proof (induction r plans e rule: deliver_loop.induct)
  case (2 r plan plans e)
  then show ?case
    using registry_deliver_wf [OF "2.prems", of "plan_agent_id plan" e]
    by (auto split: prod.splits sum.splits)
qed simp

lemma deliver_wf: "registry_wf r \<Longrightarrow> registry_wf (snd (deliver tbl r e))"
  using deliver_loop_wf [of r _ e]
  by (auto simp: deliver_def split: sum.splits prod.splits) (metis snd_conv)+

subsection \<open>Retry decisions\<close>

text \<open>Repeated decisions for one failing event, as long as each of them enqueues another attempt.\<close>

fun retry_attempts :: "nat \<Rightarrow> u32 \<Rightarrow> retry_backoff_policy \<Rightarrow> u32 list" where
  "retry_attempts 0 n policy = []"
| "retry_attempts (Suc fuel) n policy =
     (let d = decide_retry_backoff True n policy
      in if rd_enqueue d then rd_next_attempt d # retry_attempts fuel (rd_next_attempt d) policy
         else [])"

lemma decide_enqueue_iff:
  "rd_enqueue (decide_retry_backoff retryable n policy) \<longleftrightarrow> retryable \<and> n < max_attempts policy"
  by (auto simp: decide_retry_backoff_def not_le)

lemma decide_next_attempt:
  "rd_enqueue (decide_retry_backoff retryable n policy) \<Longrightarrow>
   unat (rd_next_attempt (decide_retry_backoff retryable n policy)) = unat n + 1"
proof -
  assume e: "rd_enqueue (decide_retry_backoff retryable n policy)"
  then have "n < max_attempts policy" and "retryable" by (simp_all add: decide_enqueue_iff)
  then have "unat n < unat (max_attempts policy)" by (simp add: word_less_nat_alt)
  then have "unat n + 1 < 2 ^ 32" using unat_bound [of "max_attempts policy"] by simp
  then show ?thesis using e \<open>retryable\<close>
    by (simp add: decide_retry_backoff_def unat_sat_add split: if_splits)
qed

lemma retry_attempts_exact:
  "unat (max_attempts policy) - unat n \<le> fuel \<Longrightarrow>
   map unat (retry_attempts fuel n policy) = [Suc (unat n)..<Suc (unat (max_attempts policy))]"
proof (induction fuel arbitrary: n)
  case 0
  then show ?case by simp
next
  case (Suc fuel)
  show ?case
  proof (cases "n < max_attempts policy")
    case True
    let ?d = "decide_retry_backoff True n policy"
    have e: "rd_enqueue ?d" using True by (simp add: decide_enqueue_iff)
    have "unat n < unat (max_attempts policy)" using True by (simp add: word_less_nat_alt)
    moreover have "unat (rd_next_attempt ?d) = unat n + 1" using decide_next_attempt [OF e] .
    ultimately show ?thesis using Suc e by (simp add: Let_def upt_conv_Cons)
  next
    case False
    then have "unat (max_attempts policy) \<le> unat n" by (simp add: word_le_nat_alt not_less)
    then show ?thesis using False by (simp add: Let_def decide_enqueue_iff)
  qed
qed

subsection \<open>Properties\<close>

text \<open>
  C16. Partial delivery is exact: \<^verbatim>\<open>deliver\<close> either fails to route and changes nothing, or there is a
  prefix of the planned deliveries such that every mailbox has received one copy of the event for
  each of its occurrences in that prefix and nothing else has changed; the call succeeds exactly
  when the prefix is the whole plan, and otherwise the next planned mailbox is missing or full.
\<close>
theorem deliver_exact:
  assumes "registry_wf r"
  shows "(\<exists>err. route tbl e = Inl err \<and> deliver tbl r e = (Inl err, r)) \<or>
    (\<exists>plans k. route tbl e = Inr plans \<and> k \<le> length plans \<and>
       registry_mailbox (snd (deliver tbl r e)) =
         put_all (registry_mailbox r) (map plan_agent_id (take k plans)) e \<and>
       (is_err (fst (deliver tbl r e)) \<longleftrightarrow> k < length plans) \<and>
       (k < length plans \<longrightarrow> \<not> can_accept (snd (deliver tbl r e)) (plan_agent_id (plans ! k))))"
proof (cases "route tbl e")
  case (Inl err)
  then show ?thesis by (simp add: deliver_def)
next
  case (Inr plans)
  have "fst (deliver tbl r e) = res_bind (fst (deliver_loop r plans e)) (\<lambda>_. Inr plans)"
    and "snd (deliver tbl r e) = snd (deliver_loop r plans e)"
    using Inr by (auto simp: deliver_def split: prod.splits sum.splits)
  moreover have "is_err (res_bind x (\<lambda>_. Inr plans)) = is_err x" for x :: "unit res"
    by (cases x) auto
  ultimately show ?thesis using deliver_loop_prefix [OF assms, of plans e] Inr by auto
qed

definition example_event :: event where
  "example_event = event_new 0 (EventId ''e'') \<lparr>topic_path = ''/a'', topic_segments = [''a'']\<rparr> PayloadEmpty"

theorem deliver_exact_witness:
  "(\<exists>err. route \<lparr>table_rules = []\<rparr> example_event = Inl err \<and>
      deliver \<lparr>table_rules = []\<rparr> mailbox_registry_new example_event = (Inl err, mailbox_registry_new)) \<or>
   (\<exists>plans k. route \<lparr>table_rules = []\<rparr> example_event = Inr plans \<and> k \<le> length plans \<and>
      registry_mailbox (snd (deliver \<lparr>table_rules = []\<rparr> mailbox_registry_new example_event)) =
        put_all (registry_mailbox mailbox_registry_new) (map plan_agent_id (take k plans)) example_event \<and>
      (is_err (fst (deliver \<lparr>table_rules = []\<rparr> mailbox_registry_new example_event)) \<longleftrightarrow> k < length plans) \<and>
      (k < length plans \<longrightarrow>
         \<not> can_accept (snd (deliver \<lparr>table_rules = []\<rparr> mailbox_registry_new example_event))
             (plan_agent_id (plans ! k))))"
  by (rule deliver_exact) (rule registry_wf_new)

text \<open>
  Bounded retry: if every failure is retryable, following the retry decisions from an attempt
  count \<open>n\<close> schedules exactly the attempts \<open>n + 1\<close> up to the limit of the policy, each once and in
  order, and then stops; the 32-bit counter never wraps on the way.
\<close>
theorem retry_is_bounded:
  assumes "unat (max_attempts policy) - unat n \<le> fuel"
  shows "map unat (retry_attempts fuel n policy) = [Suc (unat n)..<Suc (unat (max_attempts policy))]"
  using assms by (rule retry_attempts_exact)

theorem retry_is_bounded_witness:
  "map unat (retry_attempts 5 1 \<lparr>max_attempts = 3, backoff_ms = 10\<rparr>) =
   [Suc (unat (1 :: u32))..<Suc (unat (max_attempts \<lparr>max_attempts = 3, backoff_ms = 10\<rparr>))]"
  by (rule retry_is_bounded) simp

end
