(* ===== verification/Storage_EventLog.thy ===== *)
theory Storage_EventLog
  imports Core_Invoke
begin

section \<open>The event log (eva-storage, event_log.rs)\<close>

text \<open>
  Event log records with their consumption state, the two state transitions, and the in-memory log.
  The trait \<^verbatim>\<open>EventLog\<close> is the locale \<open>event_log\<close>: its laws say what one call does to the record
  list, and its lemmas say what every sequence of calls does. Sequence numbers are \<^verbatim>\<open>u64\<close> with
  the wrap-around of a release build.
\<close>

datatype event_log_status = Appended | Acked | FailedLog

record event_log_record =
  lr_sequence :: u64
  lr_event :: event
  lr_status :: event_log_status
  lr_consumer :: "agent_id option"
  lr_error :: "eva_error option"

fun log_status_as_str :: "event_log_status \<Rightarrow> string" where
  "log_status_as_str Appended = ''appended''"
| "log_status_as_str Acked = ''acked''"
| "log_status_as_str FailedLog = ''failed''"

definition log_status_from_storage :: "string \<Rightarrow> event_log_status res" where
  "log_status_from_storage value =
     (if value = ''appended'' then Inr Appended
      else if value = ''acked'' then Inr Acked
      else if value = ''failed'' then Inr FailedLog
      else Inl (with_context (err_conflict ''event log status is invalid'') ''status'' value))"

definition record_appended :: "u64 \<Rightarrow> event \<Rightarrow> event_log_record" where
  "record_appended sequence e =
     \<lparr>lr_sequence = sequence, lr_event = e, lr_status = Appended, lr_consumer = None, lr_error = None\<rparr>"

abbreviation record_id :: "event_log_record \<Rightarrow> event_id" where
  "record_id r \<equiv> ev_id (lr_event r)"

definition transition_to_acked ::
  "event_log_record \<Rightarrow> agent_id \<Rightarrow> bool res \<times> event_log_record" where
  "transition_to_acked r consumer =
     (if lr_status r = Acked then
        (if lr_consumer r = Some consumer then (Inr False, r)
         else (Inl (with_context (with_context
                 (err_conflict ''acked event cannot be reassigned to another consumer'')
                 ''event_id'' (event_id_str (record_id r)))
                 ''consumer'' (agent_id_str consumer)), r))
      else (Inr True, r\<lparr>lr_status := Acked, lr_consumer := Some consumer, lr_error := None\<rparr>))"

definition transition_to_failed ::
  "event_log_record \<Rightarrow> agent_id \<Rightarrow> eva_error \<Rightarrow> unit res \<times> event_log_record" where
  "transition_to_failed r consumer err =
     (if lr_status r = Acked then
        (Inl (with_context (with_context
           (err_conflict ''acked event cannot transition to failed'')
           ''event_id'' (event_id_str (record_id r)))
           ''consumer'' (agent_id_str consumer)), r)
      else (Inr (), r\<lparr>lr_status := FailedLog, lr_consumer := Some consumer, lr_error := Some err\<rparr>))"

record in_memory_event_log =
  im_next_sequence :: u64
  im_records :: "event_log_record list"

definition in_memory_log_new :: in_memory_event_log where
  "in_memory_log_new = \<lparr>im_next_sequence = 0, im_records = []\<rparr>"

fun find_position :: "event_log_record list \<Rightarrow> event_id \<Rightarrow> nat option" where
  "find_position [] i = None"
| "find_position (r # rs) i = (if record_id r = i then Some 0 else map_option Suc (find_position rs i))"

definition log_missing :: "event_id \<Rightarrow> eva_error" where
  "log_missing i =
     with_context (err_not_found ''event log record does not exist'') ''event_id'' (event_id_str i)"

definition log_duplicate :: "event_id \<Rightarrow> eva_error" where
  "log_duplicate i =
     with_context (err_conflict ''event already exists in log'') ''event_id'' (event_id_str i)"

definition contains_event :: "event_log_record list \<Rightarrow> event_id \<Rightarrow> bool" where
  "contains_event rs i = (\<exists>r \<in> set rs. record_id r = i)"

definition im_append ::
  "in_memory_event_log \<Rightarrow> event \<Rightarrow> event_log_record res \<times> in_memory_event_log" where
  "im_append s e =
     (if contains_event (im_records s) (ev_id e) then (Inl (log_duplicate (ev_id e)), s)
      else (let next = im_next_sequence s + 1; r = record_appended next e
            in (Inr r, s\<lparr>im_next_sequence := next, im_records := im_records s @ [r]\<rparr>)))"

definition im_ack ::
  "in_memory_event_log \<Rightarrow> event_id \<Rightarrow> agent_id \<Rightarrow> event_log_record res \<times> in_memory_event_log" where
  "im_ack s i consumer = (case find_position (im_records s) i of
     None \<Rightarrow> (Inl (log_missing i), s)
   | Some k \<Rightarrow>
       (let (res, r) = transition_to_acked (im_records s ! k) consumer;
            s' = s\<lparr>im_records := (im_records s)[k := r]\<rparr>
        in case res of Inl err \<Rightarrow> (Inl err, s') | Inr _ \<Rightarrow> (Inr r, s')))"

definition im_fail ::
  "in_memory_event_log \<Rightarrow> event_id \<Rightarrow> agent_id \<Rightarrow> eva_error \<Rightarrow>
     event_log_record res \<times> in_memory_event_log" where
  "im_fail s i consumer err = (case find_position (im_records s) i of
     None \<Rightarrow> (Inl (log_missing i), s)
   | Some k \<Rightarrow>
       (let (res, r) = transition_to_failed (im_records s ! k) consumer err;
            s' = s\<lparr>im_records := (im_records s)[k := r]\<rparr>
        in case res of Inl e \<Rightarrow> (Inl e, s') | Inr _ \<Rightarrow> (Inr r, s')))"

definition replay_records :: "event_log_record list \<Rightarrow> u64 \<Rightarrow> event_log_record list" where
  "replay_records rs sequence = filter (\<lambda>r. lr_sequence r \<ge> sequence) rs"

definition im_replay_from :: "in_memory_event_log \<Rightarrow> u64 \<Rightarrow> event_log_record list" where
  "im_replay_from s sequence = replay_records (im_records s) sequence"

definition im_watermark :: "in_memory_event_log \<Rightarrow> u64" where
  "im_watermark s = im_next_sequence s"

subsection \<open>Clients of a log\<close>

datatype log_op =
    LogAppend event
  | LogAck event_id agent_id
  | LogFail event_id agent_id eva_error

text \<open>The error type is a parameter: reading a file can panic as well as fail.\<close>

type_synonym ('x, 's) log_append = "'s \<Rightarrow> event \<Rightarrow> ('x + event_log_record) \<times> 's"
type_synonym ('x, 's) log_ack = "'s \<Rightarrow> event_id \<Rightarrow> agent_id \<Rightarrow> ('x + event_log_record) \<times> 's"
type_synonym ('x, 's) log_fail =
  "'s \<Rightarrow> event_id \<Rightarrow> agent_id \<Rightarrow> eva_error \<Rightarrow> ('x + event_log_record) \<times> 's"

fun log_step :: "('x, 's) log_append \<Rightarrow> ('x, 's) log_ack \<Rightarrow> ('x, 's) log_fail \<Rightarrow> 's \<Rightarrow> log_op \<Rightarrow> 's" where
  "log_step app ack fail s (LogAppend e) = snd (app s e)"
| "log_step app ack fail s (LogAck i c) = snd (ack s i c)"
| "log_step app ack fail s (LogFail i c err) = snd (fail s i c err)"

definition log_run :: "('x, 's) log_append \<Rightarrow> ('x, 's) log_ack \<Rightarrow> ('x, 's) log_fail \<Rightarrow> 's \<Rightarrow> log_op list \<Rightarrow> 's" where
  "log_run app ack fail s ops = foldl (log_step app ack fail) s ops"

text \<open>
  How one record may change: not at all, or out of a state that is not \<^const>\<open>Acked\<close>, keeping its
  sequence number and its event.
\<close>

definition record_evolves :: "event_log_record \<Rightarrow> event_log_record \<Rightarrow> bool" where
  "record_evolves r r' \<longleftrightarrow>
     r' = r \<or>
     lr_status r \<noteq> Acked \<and> lr_status r' \<noteq> Appended \<and> lr_sequence r' = lr_sequence r \<and> lr_event r' = lr_event r"

lemma record_evolves_refl [simp]: "record_evolves r r"
  by (simp add: record_evolves_def)

lemma record_evolves_trans: "record_evolves a b \<Longrightarrow> record_evolves b c \<Longrightarrow> record_evolves a c"
  by (auto simp: record_evolves_def)

lemma record_evolves_keeps:
  "record_evolves r r' \<Longrightarrow> lr_event r' = lr_event r \<and> lr_sequence r' = lr_sequence r"
  by (auto simp: record_evolves_def)

lemma transition_to_acked_evolves: "record_evolves r (snd (transition_to_acked r c))"
  by (auto simp: transition_to_acked_def record_evolves_def)

lemma transition_to_failed_evolves: "record_evolves r (snd (transition_to_failed r c err))"
  by (auto simp: transition_to_failed_def record_evolves_def)

lemma transition_err_keeps:
  "is_err (fst (transition_to_acked r c)) \<Longrightarrow> snd (transition_to_acked r c) = r"
  "is_err (fst (transition_to_failed r c err)) \<Longrightarrow> snd (transition_to_failed r c err) = r"
  by (auto simp: transition_to_acked_def transition_to_failed_def split: if_splits)

lemma find_position_Some:
  "find_position rs i = Some k \<Longrightarrow> k < length rs \<and> record_id (rs ! k) = i"
  by (induction rs arbitrary: k) (auto split: if_splits)

lemma find_position_None: "find_position rs i = None \<longleftrightarrow> \<not> contains_event rs i"
  by (induction rs) (auto simp: contains_event_def)

text \<open>
  How the whole log may change: records evolve in place, new ones follow with the next sequence
  numbers, and no event id is used twice.
\<close>

definition log_extends ::
  "u64 \<Rightarrow> event_log_record list \<Rightarrow> u64 \<Rightarrow> event_log_record list \<Rightarrow> bool" where
  "log_extends w rs w' rs' \<longleftrightarrow>
     length rs \<le> length rs' \<and>
     (\<forall>k < length rs. record_evolves (rs ! k) (rs' ! k)) \<and>
     (\<forall>k. length rs \<le> k \<and> k < length rs' \<longrightarrow> lr_sequence (rs' ! k) = w + of_nat (Suc k - length rs)) \<and>
     w' = w + of_nat (length rs' - length rs) \<and>
     (distinct (map record_id rs) \<longrightarrow> distinct (map record_id rs'))"

lemma log_extends_refl: "log_extends w rs w rs"
  by (auto simp: log_extends_def)

lemma log_extends_trans:
  assumes a: "log_extends w rs w' rs'" and b: "log_extends w' rs' w'' rs''"
  shows "log_extends w rs w'' rs''"
proof -
  have "lr_sequence (rs'' ! k) = w + of_nat (Suc k - length rs)"
    if k: "length rs \<le> k" "k < length rs''" for k
  proof (cases "k < length rs'")
    case True
    then have "record_evolves (rs' ! k) (rs'' ! k)" and
      "lr_sequence (rs' ! k) = w + of_nat (Suc k - length rs)"
      using a b k by (simp_all add: log_extends_def)
    then show ?thesis using record_evolves_keeps by simp
  next
    case False
    then have "lr_sequence (rs'' ! k) = w + of_nat ((length rs' - length rs) + (Suc k - length rs'))"
      using a b k by (simp add: log_extends_def)
    then show ?thesis using False a by (simp add: log_extends_def)
  qed
  moreover have "w'' = w + of_nat ((length rs' - length rs) + (length rs'' - length rs'))"
    using a b by (simp add: log_extends_def)
  moreover have "\<forall>k < length rs. record_evolves (rs ! k) (rs'' ! k)"
  proof (intro allI impI)
    fix k assume "k < length rs"
    then have "record_evolves (rs ! k) (rs' ! k)" and "record_evolves (rs' ! k) (rs'' ! k)"
      using a b by (simp_all add: log_extends_def)
    then show "record_evolves (rs ! k) (rs'' ! k)" by (rule record_evolves_trans)
  qed
  ultimately show ?thesis using a b by (simp add: log_extends_def)
qed

lemma log_extends_append:
  "\<not> contains_event rs (ev_id e) \<Longrightarrow> log_extends w rs (w + 1) (rs @ [record_appended (w + 1) e])"
  by (auto simp: log_extends_def nth_append record_appended_def contains_event_def less_Suc_eq)

lemma log_extends_update:
  assumes "k < length rs" and "record_evolves (rs ! k) r"
  shows "log_extends w rs w (rs[k := r])"
proof -
  have "map record_id (rs[k := r]) = map record_id rs"
    using assms record_evolves_keeps by (intro nth_equalityI) (auto simp: nth_list_update)
  then show ?thesis using assms by (auto simp: log_extends_def nth_list_update simp del: map_update)
qed

text \<open>A log that starts empty is numbered from 1 without gaps.\<close>

definition numbered :: "u64 \<Rightarrow> event_log_record list \<Rightarrow> bool" where
  "numbered w rs \<longleftrightarrow> w = of_nat (length rs) \<and> (\<forall>k < length rs. lr_sequence (rs ! k) = of_nat (Suc k))"

lemma log_extends_numbered: "log_extends w rs w' rs' \<Longrightarrow> numbered w rs \<Longrightarrow> numbered w' rs'"
proof -
  assume e: "log_extends w rs w' rs'" and n: "numbered w rs"
  have "lr_sequence (rs' ! k) = of_nat (Suc k)" if k: "k < length rs'" for k
  proof (cases "k < length rs")
    case True
    then have "record_evolves (rs ! k) (rs' ! k)" using e by (simp add: log_extends_def)
    then show ?thesis using n True record_evolves_keeps by (simp add: numbered_def)
  next
    case False
    then have "lr_sequence (rs' ! k) = of_nat (length rs + (Suc k - length rs))"
      using e n k by (simp add: log_extends_def numbered_def)
    then show ?thesis using False by simp
  qed
  moreover have "w' = of_nat (length rs + (length rs' - length rs))"
    using e n by (simp add: log_extends_def numbered_def)
  ultimately show "numbered w' rs'" using e by (simp add: numbered_def log_extends_def)
qed

lemma unat_of_nat_u64: "k < 2 ^ 64 \<Longrightarrow> unat (of_nat k :: u64) = k"
  by (simp only: unat_of_nat) simp

lemma replay_new:
  assumes e: "log_extends w rs w' rs'" and n: "numbered w rs" and short: "Suc (length rs') < 2 ^ 64"
  shows "replay_records rs' (w + 1) = drop (length rs) rs'"
proof -
  have len: "length rs \<le> length rs'" using e by (simp add: log_extends_def)
  have weq: "w + 1 = of_nat (Suc (length rs))" using n by (simp add: numbered_def)
  have w: "unat (w + 1) = Suc (length rs)"
    unfolding weq by (rule unat_of_nat_u64) (use len short in simp)
  have seq: "w + 1 \<le> lr_sequence (rs' ! k) \<longleftrightarrow> length rs \<le> k" if k: "k < length rs'" for k
  proof -
    have sk: "lr_sequence (rs' ! k) = of_nat (Suc k)"
      using log_extends_numbered [OF e n] k unfolding numbered_def by blast
    have "unat (lr_sequence (rs' ! k)) = Suc k"
      unfolding sk by (rule unat_of_nat_u64) (use k short in simp)
    then show ?thesis using w by (simp add: word_le_nat_alt)
  qed
  have "filter (\<lambda>r. w + 1 \<le> lr_sequence r) (take (length rs) rs') = []"
    using seq len by (auto simp: filter_empty_conv in_set_conv_nth)
  moreover have "filter (\<lambda>r. w + 1 \<le> lr_sequence r) (drop (length rs) rs') = drop (length rs) rs'"
    using seq by (auto simp: filter_id_conv in_set_conv_nth)
  ultimately show ?thesis
    unfolding replay_records_def
    by (metis append_take_drop_id filter_append self_append_conv2)
qed

text \<open>
  The contract of the trait. \<open>ok\<close> is the set of states the contract is about, which every call
  keeps; an implementation that needs no such restriction takes all of them.
\<close>

locale event_log =
  fixes ok :: "'s \<Rightarrow> bool"
    and records :: "'s \<Rightarrow> event_log_record list"
    and watermark :: "'s \<Rightarrow> u64"
    and app :: "('x, 's) log_append"
    and ack :: "('x, 's) log_ack"
    and fail :: "('x, 's) log_fail"
  assumes append_keeps: "ok s \<Longrightarrow> ok (snd (app s e))"
    and ack_keeps: "ok s \<Longrightarrow> ok (snd (ack s i c))"
    and fail_keeps: "ok s \<Longrightarrow> ok (snd (fail s i c x))"
    and append_ok: "ok s \<Longrightarrow> app s e = (Inr r, s') \<Longrightarrow>
      \<not> contains_event (records s) (ev_id e) \<and> r = record_appended (watermark s + 1) e \<and>
      records s' = records s @ [r] \<and> watermark s' = watermark s + 1"
    and append_err: "ok s \<Longrightarrow> app s e = (Inl err, s') \<Longrightarrow> records s' = records s \<and> watermark s' = watermark s"
    and ack_ok: "ok s \<Longrightarrow> ack s i c = (Inr r, s') \<Longrightarrow>
      \<exists>k. find_position (records s) i = Some k \<and> r = snd (transition_to_acked (records s ! k) c) \<and>
        \<not> is_err (fst (transition_to_acked (records s ! k) c)) \<and>
        records s' = (records s)[k := r] \<and> watermark s' = watermark s"
    and ack_err: "ok s \<Longrightarrow> ack s i c = (Inl err, s') \<Longrightarrow> records s' = records s \<and> watermark s' = watermark s"
    and fail_ok: "ok s \<Longrightarrow> fail s i c x = (Inr r, s') \<Longrightarrow>
      \<exists>k. find_position (records s) i = Some k \<and> r = snd (transition_to_failed (records s ! k) c x) \<and>
        \<not> is_err (fst (transition_to_failed (records s ! k) c x)) \<and>
        records s' = (records s)[k := r] \<and> watermark s' = watermark s"
    and fail_err: "ok s \<Longrightarrow> fail s i c x = (Inl err, s') \<Longrightarrow> records s' = records s \<and> watermark s' = watermark s"
begin

lemma append_extends:
  assumes "ok s"
  shows "log_extends (watermark s) (records s) (watermark (snd (app s e))) (records (snd (app s e)))"
proof (cases "app s e")
  case (Pair res s')
  show ?thesis
  proof (cases res)
    case (Inl err)
    then show ?thesis using append_err [of s e err s'] Pair assms by (simp add: log_extends_refl)
  next
    case (Inr r)
    then show ?thesis using append_ok [of s e r s'] Pair assms by (auto simp: log_extends_append)
  qed
qed

lemma ack_extends:
  assumes "ok s"
  shows "log_extends (watermark s) (records s) (watermark (snd (ack s i c))) (records (snd (ack s i c)))"
proof (cases "ack s i c")
  case (Pair res s')
  show ?thesis
  proof (cases res)
    case (Inl err)
    then show ?thesis using ack_err [of s i c err s'] Pair assms by (simp add: log_extends_refl)
  next
    case (Inr r)
    then show ?thesis
      using ack_ok [of s i c r s'] Pair assms find_position_Some transition_to_acked_evolves
      by (auto intro!: log_extends_update)
  qed
qed

lemma fail_extends:
  assumes "ok s"
  shows "log_extends (watermark s) (records s) (watermark (snd (fail s i c x))) (records (snd (fail s i c x)))"
proof (cases "fail s i c x")
  case (Pair res s')
  show ?thesis
  proof (cases res)
    case (Inl err)
    then show ?thesis using fail_err [of s i c x err s'] Pair assms by (simp add: log_extends_refl)
  next
    case (Inr r)
    then show ?thesis
      using fail_ok [of s i c x r s'] Pair assms find_position_Some transition_to_failed_evolves
      by (auto intro!: log_extends_update)
  qed
qed

lemma step_extends:
  "ok s \<Longrightarrow> ok (log_step app ack fail s x) \<and>
   log_extends (watermark s) (records s)
     (watermark (log_step app ack fail s x)) (records (log_step app ack fail s x))"
  by (cases x) (simp_all add: append_extends ack_extends fail_extends append_keeps ack_keeps fail_keeps)

lemma run_extends:
  "ok s \<Longrightarrow> ok (log_run app ack fail s ops) \<and>
   log_extends (watermark s) (records s)
     (watermark (log_run app ack fail s ops)) (records (log_run app ack fail s ops))"
proof (induction ops rule: rev_induct)
  case Nil
  then show ?case by (simp add: log_run_def log_extends_refl)
next
  case (snoc x ops)
  then show ?case
    using step_extends [of "log_run app ack fail s ops" x] log_extends_trans
    by (auto simp: log_run_def)
qed

lemma acked_is_final:
  assumes "ok s" and "k < length (records s)" and "lr_status (records s ! k) = Acked"
  shows "records (log_run app ack fail s ops) ! k = records s ! k"
  using run_extends [of s ops] assms by (auto simp: log_extends_def record_evolves_def)

lemma events_are_kept:
  assumes "ok s" and "k < length (records s)"
  shows "k < length (records (log_run app ack fail s ops)) \<and>
    lr_event (records (log_run app ack fail s ops) ! k) = lr_event (records s ! k) \<and>
    lr_sequence (records (log_run app ack fail s ops) ! k) = lr_sequence (records s ! k)"
  using run_extends [of s ops] assms record_evolves_keeps by (fastforce simp: log_extends_def)

lemma run_replay:
  assumes "ok s" and "numbered (watermark s) (records s)"
    and "Suc (length (records (log_run app ack fail s ops))) < 2 ^ 64"
  shows "replay_records (records (log_run app ack fail s ops)) (watermark s + 1) =
         drop (length (records s)) (records (log_run app ack fail s ops))"
  using run_extends [of s ops] assms replay_new by blast

end

subsection \<open>The in-memory log\<close>

lemma im_new_numbered: "numbered (im_watermark in_memory_log_new) (im_records in_memory_log_new)"
  by (simp add: numbered_def im_watermark_def in_memory_log_new_def)

interpretation im: event_log "\<lambda>_. True" im_records im_watermark im_append im_ack im_fail
proof (unfold_locales, simp_all only: simp_thms)
  fix s s' e r
  assume "im_append s e = (Inr r, s')"
  then show "\<not> contains_event (im_records s) (ev_id e) \<and> r = record_appended (im_watermark s + 1) e \<and>
      im_records s' = im_records s @ [r] \<and> im_watermark s' = im_watermark s + 1"
    by (auto simp: im_append_def im_watermark_def Let_def split: if_splits)
next
  fix s s' e err
  assume "im_append s e = (Inl err, s')"
  then show "im_records s' = im_records s \<and> im_watermark s' = im_watermark s"
    by (auto simp: im_append_def Let_def split: if_splits)
next
  fix s s' i c r
  assume "im_ack s i c = (Inr r, s')"
  then show "\<exists>k. find_position (im_records s) i = Some k \<and>
      r = snd (transition_to_acked (im_records s ! k) c) \<and>
      \<not> is_err (fst (transition_to_acked (im_records s ! k) c)) \<and>
      im_records s' = (im_records s)[k := r] \<and> im_watermark s' = im_watermark s"
    by (auto simp: im_ack_def im_watermark_def Let_def case_prod_beta split: option.splits sum.splits)
next
  fix s s' i c err
  assume "im_ack s i c = (Inl err, s')"
  then show "im_records s' = im_records s \<and> im_watermark s' = im_watermark s"
    using transition_err_keeps(1)
    by (auto simp: im_ack_def im_watermark_def Let_def case_prod_beta split: option.splits sum.splits)
next
  fix s s' i c x r
  assume "im_fail s i c x = (Inr r, s')"
  then show "\<exists>k. find_position (im_records s) i = Some k \<and>
      r = snd (transition_to_failed (im_records s ! k) c x) \<and>
      \<not> is_err (fst (transition_to_failed (im_records s ! k) c x)) \<and>
      im_records s' = (im_records s)[k := r] \<and> im_watermark s' = im_watermark s"
    by (auto simp: im_fail_def im_watermark_def Let_def case_prod_beta split: option.splits sum.splits)
next
  fix s s' i c x err
  assume "im_fail s i c x = (Inl err, s')"
  then show "im_records s' = im_records s \<and> im_watermark s' = im_watermark s"
    using transition_err_keeps(2)
    by (auto simp: im_fail_def im_watermark_def Let_def case_prod_beta split: option.splits sum.splits)
qed

subsection \<open>Properties\<close>

text \<open>
  The log is append-only and acknowledgement is final: under every sequence of append, ack and
  fail calls on an in-memory log, each existing record keeps its position, event and sequence
  number, and a record that is acked is never changed again in any field.
\<close>
theorem log_append_only:
  assumes "k < length (im_records s)"
  shows "k < length (im_records (log_run im_append im_ack im_fail s ops)) \<and>
    lr_event (im_records (log_run im_append im_ack im_fail s ops) ! k) = lr_event (im_records s ! k) \<and>
    lr_sequence (im_records (log_run im_append im_ack im_fail s ops) ! k) = lr_sequence (im_records s ! k) \<and>
    (lr_status (im_records s ! k) = Acked \<longrightarrow>
       im_records (log_run im_append im_ack im_fail s ops) ! k = im_records s ! k)"
  using assms im.events_are_kept [of k s ops] im.acked_is_final [of k s ops] by simp

definition example_record :: event_log_record where
  "example_record =
     \<lparr>lr_sequence = 1,
      lr_event = event_new 0 (EventId ''e'') \<lparr>topic_path = ''/a'', topic_segments = [''a'']\<rparr> PayloadEmpty,
      lr_status = Acked, lr_consumer = Some (AgentId ''c''), lr_error = None\<rparr>"

theorem log_append_only_witness:
  "let s = \<lparr>im_next_sequence = 1, im_records = [example_record]\<rparr>;
       s' = log_run im_append im_ack im_fail s
              [LogFail (EventId ''e'') (AgentId ''d'') (err_timeout ''late''), LogAck (EventId ''e'') (AgentId ''d'')]
   in 0 < length (im_records s') \<and>
      lr_event (im_records s' ! 0) = lr_event (im_records s ! 0) \<and>
      lr_sequence (im_records s' ! 0) = lr_sequence (im_records s ! 0) \<and>
      (lr_status (im_records s ! 0) = Acked \<longrightarrow> im_records s' ! 0 = im_records s ! 0)"
  unfolding Let_def by (rule log_append_only) simp

text \<open>
  C17. Replay from a watermark misses nothing and repeats nothing: a log built from empty by any
  calls is numbered 1, 2, 3, ... without gaps and without duplicate event ids, and after any
  further calls, replaying from the number after the old watermark returns exactly the records
  appended since, in order (below 2^64 records).
\<close>
theorem replay_exactly_new:
  assumes "s = log_run im_append im_ack im_fail in_memory_log_new old"
    and "s' = log_run im_append im_ack im_fail s new"
    and "Suc (length (im_records s')) < 2 ^ 64"
  shows "im_replay_from s' (im_watermark s + 1) = drop (length (im_records s)) (im_records s') \<and>
    map lr_sequence (im_records s') = map of_nat [1..<Suc (length (im_records s'))] \<and>
    distinct (map record_id (im_records s'))"
proof -
  let ?new = in_memory_log_new
  have n: "numbered (im_watermark s) (im_records s)"
    using im.run_extends [of ?new old] log_extends_numbered im_new_numbered assms(1) by blast
  then have n': "numbered (im_watermark s') (im_records s')"
    using im.run_extends [of s new] log_extends_numbered assms(2) by blast
  have "distinct (map record_id (im_records s'))"
    using im.run_extends [of ?new old] im.run_extends [of s new] assms(1,2)
    by (simp add: log_extends_def in_memory_log_new_def)
  moreover have "map lr_sequence (im_records s') = map of_nat [1..<Suc (length (im_records s'))]"
    using n' nth_map_upt [of _ "Suc (length (im_records s'))" 1 "of_nat :: nat \<Rightarrow> u64"]
    by (intro nth_equalityI) (auto simp: numbered_def simp del: upt_Suc)
  moreover have "im_replay_from s' (im_watermark s + 1) = drop (length (im_records s)) (im_records s')"
    using im.run_replay [OF _ n, of new] assms(2,3) by (simp add: im_replay_from_def)
  ultimately show ?thesis by blast
qed

definition example_log :: in_memory_event_log where
  "example_log = log_run im_append im_ack im_fail in_memory_log_new []"

theorem replay_exactly_new_witness:
  "let s' = log_run im_append im_ack im_fail example_log [LogAppend (lr_event example_record)]
   in im_replay_from s' (im_watermark example_log + 1) =
        drop (length (im_records example_log)) (im_records s') \<and>
      map lr_sequence (im_records s') = map of_nat [1..<Suc (length (im_records s'))] \<and>
      distinct (map record_id (im_records s'))"
  unfolding Let_def
  by (rule replay_exactly_new [OF example_log_def refl])
    (simp add: example_log_def log_run_def in_memory_log_new_def im_append_def contains_event_def Let_def)

end
