(* ===== verification/Storage_EventCodec.thy ===== *)
theory Storage_EventCodec
  imports Storage_EventLog Eva_Hex Eva_Map
begin

section \<open>The on-disk format of event records (eva-storage, event_log.rs)\<close>

text \<open>
  The line format of one record: \<open>key=value\<close> lines, with every free text in hexadecimal. Writing
  and strict reading are modelled field by field, in the order of the code. Reading can panic as
  well as fail: \<^verbatim>\<open>Duration::new\<close> and the addition to \<^verbatim>\<open>UNIX_EPOCH\<close> abort on overflow, and the
  result type keeps that apart from an error value.
\<close>

datatype fault = Fails eva_error | Panics

type_synonym 'a run = "fault + 'a"

definition lift_res :: "'a res \<Rightarrow> 'a run" where
  "lift_res r = (case r of Inl e \<Rightarrow> Inl (Fails e) | Inr x \<Rightarrow> Inr x)"

definition EVENT_RECORD_VERSION :: string where
  "EVENT_RECORD_VERSION = ''1''"

subsection \<open>Bytes, hexadecimal text and UTF-8\<close>

text \<open>A byte is a \<^typ>\<open>nat\<close> below 256; \<^verbatim>\<open>as_bytes\<close> of a text is its list of byte values.\<close>

definition str_bytes :: "string \<Rightarrow> nat list" where
  "str_bytes s = map of_char s"

definition bytes_str :: "nat list \<Rightarrow> string" where
  "bytes_str bs = map char_of bs"

fun hex_encode :: "nat list \<Rightarrow> string" where
  "hex_encode [] = []"
| "hex_encode (b # bs) = hex_digit (b div 16) # hex_digit (b mod 16) # hex_encode bs"

definition hex_nibble :: "char \<Rightarrow> nat res" where
  "hex_nibble c = ok_or (err_conflict ''hex field contains invalid digit'') (hex_value c)"

fun hex_decode_loop :: "string \<Rightarrow> nat list res" where
  "hex_decode_loop (a # b # rest) =
     res_bind (hex_nibble a) (\<lambda>high. res_bind (hex_nibble b) (\<lambda>low.
       res_bind (hex_decode_loop rest) (\<lambda>bs. Inr ((high * 16 + low) # bs))))"
| "hex_decode_loop _ = Inr []"

definition hex_decode :: "string \<Rightarrow> nat list res" where
  "hex_decode value =
     (if odd (length value) then Inl (err_conflict ''hex field has odd length'')
      else hex_decode_loop value)"

abbreviation utf8_cont :: "nat \<Rightarrow> bool" where
  "utf8_cont b \<equiv> 0x80 \<le> b \<and> b \<le> 0xBF"

fun utf8_valid :: "nat list \<Rightarrow> bool" where
  "utf8_valid [] = True"
| "utf8_valid (a # rest) =
     (if a < 0x80 then utf8_valid rest
      else if 0xC2 \<le> a \<and> a \<le> 0xDF then
        (case rest of b # r \<Rightarrow> utf8_cont b \<and> utf8_valid r | _ \<Rightarrow> False)
      else if 0xE0 \<le> a \<and> a \<le> 0xEF then
        (case rest of b # c # r \<Rightarrow>
           utf8_cont b \<and> (a = 0xE0 \<longrightarrow> 0xA0 \<le> b) \<and> (a = 0xED \<longrightarrow> b \<le> 0x9F) \<and> utf8_cont c \<and> utf8_valid r
         | _ \<Rightarrow> False)
      else if 0xF0 \<le> a \<and> a \<le> 0xF4 then
        (case rest of b # c # d # r \<Rightarrow>
           utf8_cont b \<and> (a = 0xF0 \<longrightarrow> 0x90 \<le> b) \<and> (a = 0xF4 \<longrightarrow> b \<le> 0x8F) \<and>
           utf8_cont c \<and> utf8_cont d \<and> utf8_valid r
         | _ \<Rightarrow> False)
      else False)"

definition decode_string :: "string \<Rightarrow> string res" where
  "decode_string value = res_bind (hex_decode value) (\<lambda>bs.
     if utf8_valid bs then Inr (bytes_str bs)
     else Inl (err_conflict ''durable event log string field is not utf-8''))"

subsection \<open>Writing\<close>

definition push_field :: "string \<Rightarrow> string \<Rightarrow> string \<Rightarrow> string" where
  "push_field data key value = data @ key @ ''='' @ value @ [CHR 0x0A]"

definition push_encoded_string :: "string \<Rightarrow> string \<Rightarrow> string \<Rightarrow> string" where
  "push_encoded_string data key value = push_field data key (hex_encode (str_bytes value))"

definition push_optional_string :: "string \<Rightarrow> string \<Rightarrow> string option \<Rightarrow> string" where
  "push_optional_string data key value = (case value of
     Some v \<Rightarrow> push_encoded_string data key v
   | None \<Rightarrow> push_field data key [])"

definition push_target_fields :: "string \<Rightarrow> event_target \<Rightarrow> string" where
  "push_target_fields data t = (case t of
     Broadcast \<Rightarrow>
       push_optional_string (push_field data ''target_kind'' ''broadcast'') ''target_value'' None
   | TargetAgent a \<Rightarrow>
       push_optional_string (push_field data ''target_kind'' ''agent'') ''target_value'' (Some (agent_id_str a))
   | TargetCapability c \<Rightarrow>
       push_optional_string (push_field data ''target_kind'' ''capability'') ''target_value'' (Some (cap_name c))
   | TargetAdapter a \<Rightarrow>
       push_optional_string (push_field data ''target_kind'' ''adapter'') ''target_value'' (Some (adapter_id_str a)))"

definition push_payload_fields :: "string \<Rightarrow> event_payload \<Rightarrow> string" where
  "push_payload_fields data p = (case p of
     PayloadEmpty \<Rightarrow> push_field (push_field data ''payload_kind'' ''empty'') ''payload_value'' []
   | PayloadText v \<Rightarrow> push_encoded_string (push_field data ''payload_kind'' ''text'') ''payload_value'' v
   | PayloadBytes v \<Rightarrow>
       push_field (push_field data ''payload_kind'' ''bytes'') ''payload_value'' (hex_encode (map unat v)))"

text \<open>\<^verbatim>\<open>duration_since(UNIX_EPOCH).unwrap_or_default()\<close> is zero for a time before the epoch.\<close>

definition NANOS :: nat where
  "NANOS = 1000000000"

definition push_event_fields :: "string \<Rightarrow> event \<Rightarrow> string" where
  "push_event_fields data e =
     (let md = ev_metadata e;
          created_at = nat (md_created_at md);
          data = push_encoded_string data ''event_id'' (event_id_str (ev_id e));
          data = push_encoded_string data ''topic'' (topic_path (ev_topic e));
          data = push_target_fields data (ev_target e);
          data = push_payload_fields data (ev_payload e);
          data = push_field data ''created_at_secs'' (nat_str (created_at div NANOS));
          data = push_field data ''created_at_nanos'' (nat_str (created_at mod NANOS));
          data = push_optional_string data ''request_id'' (map_option request_id_str (md_request_id md));
          data = push_optional_string data ''generation_id''
                   (map_option generation_id_str (md_generation_id md));
          data = push_optional_string data ''correlation_id''
                   (map_option event_id_str (correlation_id (md_trace md)))
      in push_optional_string data ''causation_id''
           (map_option event_id_str (causation_id (md_trace md))))"

fun push_context_fields :: "string \<Rightarrow> string \<Rightarrow> nat \<Rightarrow> (string \<times> string) list \<Rightarrow> string" where
  "push_context_fields data prefix index [] = data"
| "push_context_fields data prefix index ((key, value) # rest) =
     (let data = push_encoded_string data (prefix @ ''_context_'' @ nat_str index @ ''_key'') key;
          data = push_encoded_string data (prefix @ ''_context_'' @ nat_str index @ ''_value'') value
      in push_context_fields data prefix (index + 1) rest)"

definition push_error_fields :: "string \<Rightarrow> string \<Rightarrow> eva_error option \<Rightarrow> string" where
  "push_error_fields data prefix error = (case error of
     Some err \<Rightarrow>
       (let entries = ctx_entries (err_context err);
            data = push_field data (prefix @ ''_kind'') (error_kind_as_str (err_kind err));
            data = push_encoded_string data (prefix @ ''_message'') (err_message err);
            data = push_field data (prefix @ ''_retryable'')
                     (if err_retryable err then ''true'' else ''false'');
            data = push_optional_string data (prefix @ ''_provider_code'')
                     (map_option provider_code_str (err_provider_code err));
            data = push_field data (prefix @ ''_context_len'') (nat_str (length entries))
        in push_context_fields data prefix 0 entries)
   | None \<Rightarrow>
       (let data = push_field data (prefix @ ''_kind'') [];
            data = push_field data (prefix @ ''_message'') [];
            data = push_field data (prefix @ ''_retryable'') [];
            data = push_field data (prefix @ ''_provider_code'') []
        in push_field data (prefix @ ''_context_len'') ''0''))"

definition record_to_storage :: "event_log_record \<Rightarrow> string" where
  "record_to_storage r =
     (let data = push_field [] ''version'' EVENT_RECORD_VERSION;
          data = push_field data ''sequence'' (nat_str (unat (lr_sequence r)));
          data = push_field data ''status'' (log_status_as_str (lr_status r));
          data = push_event_fields data (lr_event r);
          data = push_optional_string data ''consumer'' (map_option agent_id_str (lr_consumer r))
      in push_error_fields data ''error'' (lr_error r))"

subsection \<open>Reading\<close>

type_synonym fields = "(string, string) btree_map"

fun parse_fields_loop :: "string list \<Rightarrow> fields \<Rightarrow> fields res" where
  "parse_fields_loop [] acc = Inr acc"
| "parse_fields_loop (line # rest) acc = (case split_once CHR ''='' line of
     None \<Rightarrow> Inl (err_conflict ''durable event log record field is invalid'')
   | Some (key, value) \<Rightarrow>
       if trim key = [] \<or> trim key \<noteq> key
       then Inl (with_context (err_conflict ''durable event log record field key is invalid'')
              ''field'' key)
       else parse_fields_loop rest (bt_insert key value acc))"

definition parse_fields :: "string \<Rightarrow> fields res" where
  "parse_fields data = parse_fields_loop (filter (\<lambda>l. trim l \<noteq> []) (lines data)) []"

definition require_field :: "fields \<Rightarrow> string \<Rightarrow> string res" where
  "require_field fs key = ok_or
     (with_context (err_conflict ''durable event log record field is missing'') ''field'' key)
     (bt_get fs key)"

definition map_err :: "(eva_error \<Rightarrow> eva_error) \<Rightarrow> 'a res \<Rightarrow> 'a res" where
  "map_err f r = (case r of Inl e \<Rightarrow> Inl (f e) | Inr x \<Rightarrow> Inr x)"

definition decoded_required_string :: "fields \<Rightarrow> string \<Rightarrow> string res" where
  "decoded_required_string fs key = res_bind (require_field fs key)
     (\<lambda>v. map_err (\<lambda>e. with_context e ''field'' key) (decode_string v))"

definition optional_decoded_string :: "fields \<Rightarrow> string \<Rightarrow> string option res" where
  "optional_decoded_string fs key = (case bt_get fs key of
     Some v \<Rightarrow>
       if v \<noteq> [] then
         map_err (\<lambda>e. with_context e ''field'' key) (res_bind (decode_string v) (\<lambda>x. Inr (Some x)))
       else Inr None
   | None \<Rightarrow> Inr None)"

definition parse_number :: "nat \<Rightarrow> string \<Rightarrow> string \<Rightarrow> nat res" where
  "parse_number bound value field = ok_or
     (with_context (err_conflict ''durable event log numeric field is invalid'') ''field'' field)
     (parse_unsigned bound value)"

definition parse_bool :: "string \<Rightarrow> string \<Rightarrow> bool res" where
  "parse_bool value field =
     (if value = ''true'' then Inr True
      else if value = ''false'' then Inr False
      else Inl (with_context (err_conflict ''durable event log boolean field is invalid'')
             ''field'' field))"

text \<open>\<^verbatim>\<open>map(parse).transpose()\<close> on an optional text.\<close>

definition parse_optional :: "(string \<Rightarrow> 'a res) \<Rightarrow> string option \<Rightarrow> 'a option res" where
  "parse_optional parse v = (case v of
     None \<Rightarrow> Inr None
   | Some s \<Rightarrow> res_bind (parse s) (\<lambda>x. Inr (Some x)))"

definition error_kind_from_storage :: "string \<Rightarrow> error_kind res" where
  "error_kind_from_storage value =
     (if value = ''invalid_argument'' then Inr InvalidArgument
      else if value = ''not_found'' then Inr NotFound
      else if value = ''conflict'' then Inr Conflict
      else if value = ''permission_denied'' then Inr PermissionDenied
      else if value = ''timeout'' then Inr Timeout
      else if value = ''unavailable'' then Inr Unavailable
      else if value = ''internal'' then Inr Internal
      else if value = ''unsupported'' then Inr Unsupported
      else Inl (with_context (err_conflict ''error kind is invalid'') ''error_kind'' value))"

fun context_from_fields :: "fields \<Rightarrow> string \<Rightarrow> nat list \<Rightarrow> eva_error \<Rightarrow> eva_error res" where
  "context_from_fields fs prefix [] err = Inr err"
| "context_from_fields fs prefix (index # rest) err =
     res_bind (decoded_required_string fs (prefix @ ''_context_'' @ nat_str index @ ''_key''))
       (\<lambda>key. res_bind (decoded_required_string fs (prefix @ ''_context_'' @ nat_str index @ ''_value''))
         (\<lambda>value. context_from_fields fs prefix rest (with_context err key value)))"

definition error_from_fields :: "fields \<Rightarrow> string \<Rightarrow> eva_error option res" where
  "error_from_fields fs prefix =
     res_bind (require_field fs (prefix @ ''_kind'')) (\<lambda>kind_value.
     if kind_value = [] then Inr None else
     res_bind (error_kind_from_storage kind_value) (\<lambda>kind.
     res_bind (decoded_required_string fs (prefix @ ''_message'')) (\<lambda>message.
     res_bind (res_bind (require_field fs (prefix @ ''_retryable''))
       (\<lambda>v. parse_bool v (prefix @ ''_retryable''))) (\<lambda>retryable.
     let err = with_retryable (eva_error_new kind message) retryable in
     res_bind (optional_decoded_string fs (prefix @ ''_provider_code'')) (\<lambda>code.
     let err = (case code of None \<Rightarrow> err | Some c \<Rightarrow> with_provider_code err c) in
     res_bind (res_bind (require_field fs (prefix @ ''_context_len''))
       (\<lambda>v. parse_number (2 ^ 64) v (prefix @ ''_context_len''))) (\<lambda>len.
     res_bind (context_from_fields fs prefix [0..<len] err) (\<lambda>err. Inr (Some err))))))))"

definition target_from_fields :: "fields \<Rightarrow> event_target res" where
  "target_from_fields fs = res_bind (require_field fs ''target_kind'') (\<lambda>kind.
     if kind = ''broadcast'' then Inr Broadcast
     else if kind = ''agent'' then
       res_bind (decoded_required_string fs ''target_value'') (\<lambda>v.
       res_bind (agent_id_parse v) (\<lambda>a. Inr (TargetAgent a)))
     else if kind = ''capability'' then
       res_bind (decoded_required_string fs ''target_value'') (\<lambda>v.
       res_bind (capability_name_parse v) (\<lambda>c. Inr (TargetCapability c)))
     else if kind = ''adapter'' then
       res_bind (decoded_required_string fs ''target_value'') (\<lambda>v.
       res_bind (adapter_id_parse v) (\<lambda>a. Inr (TargetAdapter a)))
     else Inl (with_context (err_conflict ''event target kind is invalid'') ''target_kind'' kind))"

definition payload_from_fields :: "fields \<Rightarrow> event_payload res" where
  "payload_from_fields fs = res_bind (require_field fs ''payload_kind'') (\<lambda>kind.
     if kind = ''empty'' then Inr PayloadEmpty
     else if kind = ''text'' then
       res_bind (decoded_required_string fs ''payload_value'') (\<lambda>v. Inr (PayloadText v))
     else if kind = ''bytes'' then
       res_bind (require_field fs ''payload_value'') (\<lambda>v.
       res_bind (hex_decode v) (\<lambda>bs. Inr (PayloadBytes (map of_nat bs))))
     else Inl (with_context (err_conflict ''event payload kind is invalid'') ''payload_kind'' kind))"

text \<open>
  \<^verbatim>\<open>UNIX_EPOCH + Duration::new(secs, nanos)\<close>: the duration carries surplus nanoseconds into a
  64-bit second count, and the system time has a signed 64-bit second count.
\<close>

definition system_time_from :: "nat \<Rightarrow> nat \<Rightarrow> system_time run" where
  "system_time_from secs nanos =
     (let total = secs + nanos div NANOS in
      if total \<ge> 2 ^ 64 \<or> total \<ge> 2 ^ 63 then Inl Panics
      else Inr (int (total * NANOS + nanos mod NANOS)))"

definition event_from_fields :: "system_time \<Rightarrow> fields \<Rightarrow> event run" where
  "event_from_fields now fs =
     res_bind (lift_res (res_bind (decoded_required_string fs ''event_id'') event_id_parse)) (\<lambda>i.
     res_bind (lift_res (res_bind (decoded_required_string fs ''topic'') topic_parse)) (\<lambda>t.
     res_bind (lift_res (target_from_fields fs)) (\<lambda>target.
     res_bind (lift_res (payload_from_fields fs)) (\<lambda>payload.
     res_bind (lift_res (res_bind (require_field fs ''created_at_secs'')
       (\<lambda>v. parse_number (2 ^ 64) v ''created_at_secs''))) (\<lambda>secs.
     res_bind (lift_res (res_bind (require_field fs ''created_at_nanos'')
       (\<lambda>v. parse_number (2 ^ 32) v ''created_at_nanos''))) (\<lambda>nanos.
     res_bind (lift_res (res_bind (optional_decoded_string fs ''request_id'')
       (parse_optional request_id_parse))) (\<lambda>request.
     res_bind (lift_res (res_bind (optional_decoded_string fs ''generation_id'')
       (parse_optional generation_id_parse))) (\<lambda>generation.
     res_bind (lift_res (res_bind (optional_decoded_string fs ''correlation_id'')
       (parse_optional event_id_parse))) (\<lambda>correlation.
     res_bind (lift_res (res_bind (optional_decoded_string fs ''causation_id'')
       (parse_optional event_id_parse))) (\<lambda>causation.
     res_bind (system_time_from secs nanos) (\<lambda>created_at.
     let md = md_with_trace (md_with_created_at (event_metadata_new now) created_at)
                \<lparr>correlation_id = correlation, causation_id = causation\<rparr>;
         md = (case request of Some r \<Rightarrow> md_with_request_id md r | None \<Rightarrow> md);
         md = (case generation of Some g \<Rightarrow> md_with_generation_id md g | None \<Rightarrow> md)
     in Inr (event_with_metadata (event_with_target (event_new now i t payload) target) md))))))))))))"

definition record_from_storage :: "system_time \<Rightarrow> string \<Rightarrow> event_log_record run" where
  "record_from_storage now data =
     res_bind (lift_res (parse_fields data)) (\<lambda>fs.
     res_bind (lift_res (require_field fs ''version'')) (\<lambda>version.
     if version \<noteq> EVENT_RECORD_VERSION then
       Inl (Fails (with_context (err_conflict ''event log record version is unsupported'')
              ''version'' version))
     else
     res_bind (lift_res (res_bind (require_field fs ''sequence'')
       (\<lambda>v. parse_number (2 ^ 64) v ''sequence''))) (\<lambda>sequence.
     res_bind (lift_res (res_bind (require_field fs ''status'') log_status_from_storage)) (\<lambda>status.
     res_bind (event_from_fields now fs) (\<lambda>e.
     res_bind (lift_res (res_bind (optional_decoded_string fs ''consumer'')
       (parse_optional agent_id_parse))) (\<lambda>consumer.
     res_bind (lift_res (error_from_fields fs ''error'')) (\<lambda>err.
     Inr \<lparr>lr_sequence = of_nat sequence, lr_event = e, lr_status = status,
          lr_consumer = consumer, lr_error = err\<rparr>)))))))"

end
