(* ===== verification/Storage_EventRoundtrip.thy ===== *)
theory Storage_EventRoundtrip
  imports Storage_EventCodec
begin

section \<open>Reading back what was written\<close>

text \<open>
  The flattened fields of a record as a key-value list, the text as its rendering, and the proof
  that strict reading of that text gives back the record. The records of interest are the ones the
  typed API can build: validated identifiers, texts that are UTF-8, a creation time from the
  epoch on.
\<close>

subsection \<open>Rendering and parsing key-value lines\<close>

definition render :: "(string \<times> string) list \<Rightarrow> string" where
  "render kvs = concat (map (\<lambda>(k, v). k @ ''='' @ v @ [CHR 0x0A]) kvs)"

lemma render_simps [simp]:
  "render [] = []"
  "render ((k, v) # kvs) = (k @ ''='' @ v) @ CHR 0x0A # render kvs"
  by (simp_all add: render_def)

lemma render_append: "render (xs @ ys) = render xs @ render ys"
  by (simp add: render_def)

definition field_ok :: "string \<times> string \<Rightarrow> bool" where
  "field_ok f \<longleftrightarrow> fst f \<noteq> [] \<and> CHR ''='' \<notin> set (fst f) \<and> (\<forall>c \<in> set (fst f) \<union> set (snd f). is_graphic c)"

lemma graphic_no_line_end: "\<forall>c \<in> set s. is_graphic c \<Longrightarrow> CHR 0x0A \<notin> set s \<and> CHR 0x0D \<notin> set s"
  by (auto simp: is_graphic_def)

lemma lines_render:
  "\<forall>f \<in> set kvs. field_ok f \<Longrightarrow> lines (render kvs) = map (\<lambda>(k, v). k @ ''='' @ v) kvs"
proof (induction kvs)
  case (Cons f kvs)
  obtain k v where f: "f = (k, v)" by (cases f)
  let ?l = "k @ ''='' @ v"
  have "\<forall>c \<in> set ?l. is_graphic c" using Cons.prems f by (auto simp: field_ok_def is_graphic_def)
  then have "CHR 0x0A \<notin> set ?l" and "CHR 0x0D \<notin> set ?l" using graphic_no_line_end by blast+
  then have "lines (?l @ CHR 0x0A # render kvs) = ?l # lines (render kvs)"
    using lines_append_line [of ?l] strip_cr_id [of ?l] by simp
  then show ?case using Cons f by simp
qed simp

definition insert_all :: "fields \<Rightarrow> (string \<times> string) list \<Rightarrow> fields" where
  "insert_all fs kvs = foldl (\<lambda>m (k, v). bt_insert k v m) fs kvs"

lemma parse_fields_loop_render:
  "\<forall>f \<in> set kvs. field_ok f \<Longrightarrow>
   parse_fields_loop (map (\<lambda>(k, v). k @ ''='' @ v) kvs) fs = Inr (insert_all fs kvs)"
proof (induction kvs arbitrary: fs)
  case Nil
  then show ?case by (simp add: insert_all_def)
next
  case (Cons f kvs)
  obtain k v where f: "f = (k, v)" by (cases f)
  then have k: "k \<noteq> []" "CHR ''='' \<notin> set k" "trim k = k"
    using Cons.prems by (auto simp: field_ok_def intro: trim_graphic)
  then have "split_once CHR ''='' (k @ ''='' @ v) = Some (k, v)"
    using split_once_append [of "CHR ''=''" k v] by simp
  then show ?case using Cons k f by (simp add: insert_all_def)
qed

lemma parse_fields_render:
  assumes "\<forall>f \<in> set kvs. field_ok f"
  shows "parse_fields (render kvs) = Inr (insert_all [] kvs)"
proof -
  have "trim (k @ ''='' @ v) \<noteq> []" if "(k, v) \<in> set kvs" for k v
  proof -
    have "\<forall>c \<in> set (k @ ''='' @ v). is_graphic c"
      using assms that by (fastforce simp: field_ok_def is_graphic_def)
    then show ?thesis using trim_graphic by simp
  qed
  then have "filter (\<lambda>l. trim l \<noteq> []) (map (\<lambda>(k, v). k @ ''='' @ v) kvs) = map (\<lambda>(k, v). k @ ''='' @ v) kvs"
    by (auto simp: filter_id_conv)
  then show ?thesis
    using lines_render [OF assms] parse_fields_loop_render [OF assms, of "[]"]
    by (simp add: parse_fields_def)
qed

lemma bt_get_insert_all:
  "distinct (map fst kvs) \<Longrightarrow>
   bt_get (insert_all fs kvs) k = (case map_of kvs k of Some v \<Rightarrow> Some v | None \<Rightarrow> bt_get fs k)"
proof (induction kvs arbitrary: fs)
  case Nil
  then show ?case by (simp add: insert_all_def)
next
  case (Cons f kvs)
  obtain a b where f: "f = (a, b)" by (cases f)
  have "map_of kvs a = None" using Cons.prems f by (simp add: map_of_eq_None_iff)
  then show ?case using Cons f by (auto simp: insert_all_def split: option.splits)
qed

subsection \<open>Texts\<close>

lemma set_hex_encode: "\<forall>b \<in> set bs. b < 256 \<Longrightarrow> c \<in> set (hex_encode bs) \<Longrightarrow> is_lower_hex c"
  by (induction bs) (auto intro: is_lower_hex_digit)

lemma hex_encode_Nil [simp]: "hex_encode bs = [] \<longleftrightarrow> bs = []"
  by (cases bs) auto

lemma even_length_hex_encode: "even (length (hex_encode bs))"
  by (induction bs) auto

lemma hex_decode_loop_encode: "\<forall>b \<in> set bs. b < 256 \<Longrightarrow> hex_decode_loop (hex_encode bs) = Inr bs"
proof (induction bs)
  case (Cons b bs)
  then have "b div 16 < 16" by (simp add: less_mult_imp_div_less)
  then show ?case using Cons by (simp add: hex_nibble_def mult.commute)
qed simp

lemma hex_decode_encode: "\<forall>b \<in> set bs. b < 256 \<Longrightarrow> hex_decode (hex_encode bs) = Inr bs"
  using even_length_hex_encode by (simp add: hex_decode_def hex_decode_loop_encode)

lemma str_bytes_small: "\<forall>b \<in> set (str_bytes s). b < 256"
  by (auto simp: str_bytes_def)

lemma bytes_str_inverse [simp]: "bytes_str (str_bytes s) = s"
  by (simp add: bytes_str_def str_bytes_def comp_def)

abbreviation text_ok :: "string \<Rightarrow> bool" where
  "text_ok s \<equiv> utf8_valid (str_bytes s)"

definition hex_text :: "string \<Rightarrow> string" where
  "hex_text s = hex_encode (str_bytes s)"

lemma decode_hex_text: "text_ok s \<Longrightarrow> decode_string (hex_text s) = Inr s"
  by (simp add: decode_string_def hex_text_def hex_decode_encode str_bytes_small)

lemma hex_text_Nil [simp]: "hex_text s = [] \<longleftrightarrow> s = []"
  by (simp add: hex_text_def str_bytes_def)

lemma hex_text_graphic: "\<forall>c \<in> set (hex_text s). is_graphic c"
  using set_hex_encode [OF str_bytes_small] lower_hex_graphic by (simp add: hex_text_def)

lemma ascii_text_ok: "\<forall>c \<in> set s. is_graphic c \<Longrightarrow> text_ok s"
  by (induction s) (auto simp: str_bytes_def is_graphic_def)

lemma stable_id_text_ok: "stable_id s \<Longrightarrow> text_ok s"
  by (intro ascii_text_ok stable_id_graphic)

lemma capability_text_ok: "capability_wf c \<Longrightarrow> text_ok (cap_name c)"
proof -
  assume "capability_wf c"
  then have "capability_name_parse (cap_name c) = Inr c" by (simp add: capability_name_parse_iff)
  then have "\<forall>s \<in> set (split_on CHR ''.'' (cap_name c)). capability_segment s"
    by (simp add: capability_name_parse_def res_simps validate_capability_name_ok)
  then show ?thesis by (intro ascii_text_ok capability_segments_graphic)
qed

subsection \<open>The fields of a record\<close>

definition opt_text :: "string option \<Rightarrow> string" where
  "opt_text v = (case v of None \<Rightarrow> [] | Some s \<Rightarrow> hex_text s)"

fun target_kind :: "event_target \<Rightarrow> string" where
  "target_kind Broadcast = ''broadcast''"
| "target_kind (TargetAgent a) = ''agent''"
| "target_kind (TargetCapability c) = ''capability''"
| "target_kind (TargetAdapter a) = ''adapter''"

fun target_value :: "event_target \<Rightarrow> string option" where
  "target_value Broadcast = None"
| "target_value (TargetAgent a) = Some (agent_id_str a)"
| "target_value (TargetCapability c) = Some (cap_name c)"
| "target_value (TargetAdapter a) = Some (adapter_id_str a)"

fun payload_kind :: "event_payload \<Rightarrow> string" where
  "payload_kind PayloadEmpty = ''empty''"
| "payload_kind (PayloadText v) = ''text''"
| "payload_kind (PayloadBytes v) = ''bytes''"

fun payload_value :: "event_payload \<Rightarrow> string" where
  "payload_value PayloadEmpty = []"
| "payload_value (PayloadText v) = hex_text v"
| "payload_value (PayloadBytes v) = hex_encode (map unat v)"

fun context_fields :: "nat \<Rightarrow> (string \<times> string) list \<Rightarrow> (string \<times> string) list" where
  "context_fields index [] = []"
| "context_fields index ((key, value) # rest) =
     (''error_context_'' @ nat_str index @ ''_key'', hex_text key) #
     (''error_context_'' @ nat_str index @ ''_value'', hex_text value) #
     context_fields (index + 1) rest"

definition event_fields :: "event \<Rightarrow> (string \<times> string) list" where
  "event_fields e = (let md = ev_metadata e; t = nat (md_created_at md) in
     [(''event_id'', hex_text (event_id_str (ev_id e))),
      (''topic'', hex_text (topic_path (ev_topic e))),
      (''target_kind'', target_kind (ev_target e)),
      (''target_value'', opt_text (target_value (ev_target e))),
      (''payload_kind'', payload_kind (ev_payload e)),
      (''payload_value'', payload_value (ev_payload e)),
      (''created_at_secs'', nat_str (t div NANOS)),
      (''created_at_nanos'', nat_str (t mod NANOS)),
      (''request_id'', opt_text (map_option request_id_str (md_request_id md))),
      (''generation_id'', opt_text (map_option generation_id_str (md_generation_id md))),
      (''correlation_id'', opt_text (map_option event_id_str (correlation_id (md_trace md)))),
      (''causation_id'', opt_text (map_option event_id_str (causation_id (md_trace md))))])"

definition error_fields :: "eva_error option \<Rightarrow> (string \<times> string) list" where
  "error_fields err =
     [(''error_kind'', case err of None \<Rightarrow> [] | Some e \<Rightarrow> error_kind_as_str (err_kind e)),
      (''error_message'', case err of None \<Rightarrow> [] | Some e \<Rightarrow> hex_text (err_message e)),
      (''error_retryable'', case err of None \<Rightarrow> [] | Some e \<Rightarrow> if err_retryable e then ''true'' else ''false''),
      (''error_provider_code'', case err of None \<Rightarrow> [] | Some e \<Rightarrow> opt_text (map_option provider_code_str (err_provider_code e))),
      (''error_context_len'', case err of None \<Rightarrow> ''0'' | Some e \<Rightarrow> nat_str (length (ctx_entries (err_context e))))]"

definition error_entries :: "eva_error option \<Rightarrow> (string \<times> string) list" where
  "error_entries err = (case err of None \<Rightarrow> [] | Some e \<Rightarrow> ctx_entries (err_context e))"

definition record_fields :: "event_log_record \<Rightarrow> (string \<times> string) list" where
  "record_fields r =
     [(''version'', EVENT_RECORD_VERSION),
      (''sequence'', nat_str (unat (lr_sequence r))),
      (''status'', log_status_as_str (lr_status r))] @
     event_fields (lr_event r) @
     [(''consumer'', opt_text (map_option agent_id_str (lr_consumer r)))] @
     error_fields (lr_error r) @
     context_fields 0 (error_entries (lr_error r))"

lemma push_field_render: "push_field data k v = data @ render [(k, v)]"
  by (simp add: push_field_def)

lemma push_encoded_render: "push_encoded_string data k v = data @ render [(k, hex_text v)]"
  by (simp add: push_encoded_string_def push_field_render hex_text_def)

lemma push_optional_render: "push_optional_string data k v = data @ render [(k, opt_text v)]"
  by (simp add: push_optional_string_def push_field_render push_encoded_render opt_text_def
      split: option.splits)

lemma push_context_render:
  "push_context_fields data ''error'' index entries = data @ render (context_fields index entries)"
  by (induction index entries arbitrary: data rule: context_fields.induct)
    (simp_all add: Let_def push_encoded_render)

lemma push_target_render:
  "push_target_fields data t =
   data @ render [(''target_kind'', target_kind t), (''target_value'', opt_text (target_value t))]"
  by (cases t) (simp_all add: push_target_fields_def push_field_render push_optional_render)

lemma push_payload_render:
  "push_payload_fields data p =
   data @ render [(''payload_kind'', payload_kind p), (''payload_value'', payload_value p)]"
  by (cases p) (simp_all add: push_payload_fields_def push_field_render push_encoded_render)

lemmas push_render = push_field_render push_encoded_render push_optional_render push_target_render
  push_payload_render push_context_render

lemma push_event_render: "push_event_fields data e = data @ render (event_fields e)"
  by (simp add: push_event_fields_def event_fields_def Let_def push_render)

lemma push_error_render:
  "push_error_fields data ''error'' err = data @ render (error_fields err @ context_fields 0 (error_entries err))"
  by (simp add: push_error_fields_def error_fields_def error_entries_def Let_def push_render render_append
      split: option.splits)

lemma record_to_storage_render: "record_to_storage r = render (record_fields r)"
  by (simp add: record_to_storage_def record_fields_def Let_def push_render push_event_render
      push_error_render render_append)

subsection \<open>Every key occurs once\<close>

lemma context_fields_keys:
  "k \<in> fst ` set (context_fields index entries) \<Longrightarrow>
   \<exists>i \<ge> index. k = ''error_context_'' @ nat_str i @ ''_key'' \<or> k = ''error_context_'' @ nat_str i @ ''_value''"
proof (induction index entries rule: context_fields.induct)
  case (2 index key val rest)
  then show ?case by (auto intro: Suc_leD)
qed simp

lemma key_value_differ: "nat_str i @ ''_key'' \<noteq> nat_str j @ ''_value''"
proof
  assume "nat_str i @ ''_key'' = nat_str j @ ''_value''"
  then have "last (nat_str i @ ''_key'') = last (nat_str j @ ''_value'')" by (rule arg_cong)
  then show False by simp
qed

lemma distinct_context_fields: "distinct (map fst (context_fields index entries))"
proof (induction index entries rule: context_fields.induct)
  case (2 index key val rest)
  have "''error_context_'' @ nat_str index @ s \<notin> fst ` set (context_fields (index + 1) rest)"
    if "s = ''_key'' \<or> s = ''_value''" for s
  proof
    assume "''error_context_'' @ nat_str index @ s \<in> fst ` set (context_fields (index + 1) rest)"
    from context_fields_keys [OF this] obtain i where "i \<ge> index + 1" and
      "nat_str index @ s = nat_str i @ ''_key'' \<or> nat_str index @ s = nat_str i @ ''_value''"
      by (auto simp only: same_append_eq)
    with that show False using key_value_differ [of index i] key_value_differ [of i index]
      by (auto simp: append_same_eq)
  qed
  then show ?case using 2 key_value_differ [of index index] by simp
qed simp

lemma nat_str_no_len: "nat_str i @ s \<noteq> ''len''"
proof
  assume "nat_str i @ s = ''len''"
  then have "hd (nat_str i) = CHR ''l''" by (metis hd_append2 list.sel(1) nat_str_not_Nil)
  moreover have "is_ascii_digit (hd (nat_str i))" by (rule nat_str_digits [of _ i]) simp
  ultimately show False by (simp add: is_ascii_digit_def)
qed

definition fixed_keys :: "string list" where
  "fixed_keys = [''version'', ''sequence'', ''status'', ''event_id'', ''topic'', ''target_kind'',
     ''target_value'', ''payload_kind'', ''payload_value'', ''created_at_secs'', ''created_at_nanos'',
     ''request_id'', ''generation_id'', ''correlation_id'', ''causation_id'', ''consumer'',
     ''error_kind'', ''error_message'', ''error_retryable'', ''error_provider_code'', ''error_context_len'']"

lemma record_keys:
  "map fst (record_fields r) = fixed_keys @ map fst (context_fields 0 (error_entries (lr_error r)))"
  by (simp add: record_fields_def event_fields_def error_fields_def fixed_keys_def Let_def)

lemma distinct_record_fields: "distinct (map fst (record_fields r))"
proof -
  have "k \<notin> fst ` set (context_fields 0 entries)" if "k \<in> set fixed_keys" for k entries
  proof
    assume "k \<in> fst ` set (context_fields 0 entries)"
    then obtain i where "k = ''error_context_'' @ nat_str i @ ''_key'' \<or> k = ''error_context_'' @ nat_str i @ ''_value''"
      using context_fields_keys by blast
    with that show False using nat_str_no_len [of i] by (auto simp: fixed_keys_def)
  qed
  moreover have "distinct fixed_keys" by (simp add: fixed_keys_def)
  ultimately show ?thesis unfolding record_keys using distinct_context_fields by auto
qed

lemma context_key_ok:
  assumes "s = ''_key'' \<or> s = ''_value''"
  shows "field_ok (''error_context_'' @ nat_str i @ s, hex_text v)"
proof -
  have n: "is_graphic c \<and> c \<noteq> CHR ''=''" if "c \<in> set (nat_str i)" for c
    using nat_str_digits [OF that] by (auto simp: is_ascii_digit_def is_graphic_def)
  have "\<forall>c \<in> set (''error_context_'' @ s). is_graphic c \<and> c \<noteq> CHR ''=''"
    using assms by (auto simp: is_graphic_def)
  then have "\<forall>c \<in> set (''error_context_'' @ nat_str i @ s). is_graphic c \<and> c \<noteq> CHR ''=''"
    unfolding set_append using n by blast
  then show ?thesis unfolding field_ok_def fst_conv snd_conv using hex_text_graphic by blast
qed

lemma context_fields_ok: "f \<in> set (context_fields index entries) \<Longrightarrow> field_ok f"
proof (induction index entries rule: context_fields.induct)
  case (2 index key val rest)
  then consider "f = (''error_context_'' @ nat_str index @ ''_key'', hex_text key)"
    | "f = (''error_context_'' @ nat_str index @ ''_value'', hex_text val)"
    | "f \<in> set (context_fields (index + 1) rest)" by auto
  then show ?case
    by cases (use 2 context_key_ok [of "''_key''" index key] context_key_ok [of "''_value''" index val] in simp_all)
qed simp

lemma opt_text_graphic: "\<forall>c \<in> set (opt_text v). is_graphic c"
  using hex_text_graphic by (auto simp: opt_text_def split: option.splits)

lemma literal_field_ok:
  "k \<in> set fixed_keys \<Longrightarrow> \<forall>c \<in> set v. is_graphic c \<Longrightarrow> field_ok (k, v)"
  by (auto simp: fixed_keys_def field_ok_def is_graphic_def)

lemma payload_value_graphic: "\<forall>c \<in> set (payload_value p). is_graphic c"
proof (cases p)
  case (PayloadBytes v)
  have "\<forall>b \<in> set (map unat v). b < 256" using unat_bound [where 'a = 8] by auto
  then show ?thesis using PayloadBytes set_hex_encode lower_hex_graphic by (metis payload_value.simps(3))
qed (simp_all add: hex_text_graphic)

lemma status_graphic: "\<forall>c \<in> set (log_status_as_str st). is_graphic c"
  by (cases st) (simp_all add: is_graphic_def)

lemma target_kind_graphic: "\<forall>c \<in> set (target_kind t). is_graphic c"
  by (cases t) (simp_all add: is_graphic_def)

lemma payload_kind_graphic: "\<forall>c \<in> set (payload_kind p). is_graphic c"
  by (cases p) (simp_all add: is_graphic_def)

lemma error_kind_graphic: "\<forall>c \<in> set (error_kind_as_str k). is_graphic c"
  by (cases k) (simp_all add: is_graphic_def)

lemmas graphic_values = status_graphic target_kind_graphic payload_kind_graphic error_kind_graphic
  hex_text_graphic opt_text_graphic payload_value_graphic nat_str_graphic

definition record_values :: "event_log_record \<Rightarrow> string list" where
  "record_values r = map snd (take 21 (record_fields r))"

lemma record_fields_zip:
  "record_fields r = zip fixed_keys (record_values r) @ context_fields 0 (error_entries (lr_error r))"
  by (simp add: record_values_def record_fields_def event_fields_def error_fields_def fixed_keys_def Let_def)

lemma bool_graphic: "\<forall>c \<in> set (if b then ''true'' else ''false''). is_graphic c"
  by (simp add: is_graphic_def)

lemma version_graphic: "\<forall>c \<in> set EVENT_RECORD_VERSION. is_graphic c"
  by (simp add: EVENT_RECORD_VERSION_def is_graphic_def)

lemma zero_graphic: "\<forall>c \<in> set ''0''. is_graphic c"
  by (simp add: is_graphic_def)

lemma error_fields_graphic: "f \<in> set (error_fields err) \<Longrightarrow> \<forall>c \<in> set (snd f). is_graphic c"
  using graphic_values bool_graphic zero_graphic
  by (cases err) (simp_all only: error_fields_def list.set insert_iff empty_iff option.case, auto)

lemma event_fields_graphic: "f \<in> set (event_fields e) \<Longrightarrow> \<forall>c \<in> set (snd f). is_graphic c"
  using graphic_values by (auto simp: event_fields_def Let_def)

lemma record_values_graphic: "v \<in> set (record_values r) \<Longrightarrow> \<forall>c \<in> set v. is_graphic c"
proof -
  have head: "take 21 (record_fields r) = [(''version'', EVENT_RECORD_VERSION),
      (''sequence'', nat_str (unat (lr_sequence r))),
      (''status'', log_status_as_str (lr_status r))] @ event_fields (lr_event r) @
      [(''consumer'', opt_text (map_option agent_id_str (lr_consumer r)))] @ error_fields (lr_error r)"
    by (simp add: record_fields_def event_fields_def error_fields_def Let_def)
  have "\<forall>f \<in> set (take 21 (record_fields r)). \<forall>c \<in> set (snd f). is_graphic c"
    unfolding head set_append ball_Un list.set ball_simps snd_conv
    using nat_str_graphic status_graphic opt_text_graphic version_graphic
      event_fields_graphic error_fields_graphic by blast
  then show "v \<in> set (record_values r) \<Longrightarrow> \<forall>c \<in> set v. is_graphic c"
    unfolding record_values_def by auto
qed

lemma record_fields_ok: "f \<in> set (record_fields r) \<Longrightarrow> field_ok f"
proof (cases f)
  case (Pair k v)
  assume "f \<in> set (record_fields r)"
  then consider "(k, v) \<in> set (zip fixed_keys (record_values r))"
    | "(k, v) \<in> set (context_fields 0 (error_entries (lr_error r)))"
    unfolding record_fields_zip Pair by auto
  then show ?thesis
  proof cases
    case 1
    then have "k \<in> set fixed_keys" and "v \<in> set (record_values r)"
      by (auto dest: set_zip_leftD set_zip_rightD)
    then show ?thesis unfolding Pair using record_values_graphic by (intro literal_field_ok) auto
  next
    case 2
    then show ?thesis unfolding Pair by (rule context_fields_ok)
  qed
qed

lemma parse_record_fields: "parse_fields (record_to_storage r) = Inr (insert_all [] (record_fields r))"
  unfolding record_to_storage_render using record_fields_ok by (intro parse_fields_render) blast

definition stored :: "event_log_record \<Rightarrow> fields" where
  "stored r = insert_all [] (record_fields r)"

lemma stored_get: "bt_get (stored r) k = map_of (record_fields r) k"
  using bt_get_insert_all [OF distinct_record_fields, of "[]" r k]
  by (simp add: stored_def split: option.splits)

lemma stored_mem: "(k, v) \<in> set (record_fields r) \<Longrightarrow> bt_get (stored r) k = Some v"
  unfolding stored_get using distinct_record_fields by (rule map_of_is_SomeI)

lemma record_fields_members:
  "set (event_fields (lr_event r)) \<subseteq> set (record_fields r)"
  "set (error_fields (lr_error r)) \<subseteq> set (record_fields r)"
  "set (context_fields 0 (error_entries (lr_error r))) \<subseteq> set (record_fields r)"
  by (auto simp: record_fields_def)

lemma context_fields_member:
  "i < length entries \<Longrightarrow>
   (''error_context_'' @ nat_str (index + i) @ ''_key'', hex_text (fst (entries ! i))) \<in> set (context_fields index entries) \<and>
   (''error_context_'' @ nat_str (index + i) @ ''_value'', hex_text (snd (entries ! i))) \<in> set (context_fields index entries)"
proof (induction index entries arbitrary: i rule: context_fields.induct)
  case (2 index key val rest)
  then show ?case by (cases i) auto
qed simp

subsection \<open>The records that can be stored\<close>

definition opt_id_ok :: "string option \<Rightarrow> bool" where
  "opt_id_ok v = (case v of None \<Rightarrow> True | Some s \<Rightarrow> stable_id s)"

fun target_ok :: "event_target \<Rightarrow> bool" where
  "target_ok Broadcast = True"
| "target_ok (TargetAgent a) = stable_id (agent_id_str a)"
| "target_ok (TargetCapability c) = capability_wf c"
| "target_ok (TargetAdapter a) = stable_id (adapter_id_str a)"

fun payload_ok :: "event_payload \<Rightarrow> bool" where
  "payload_ok (PayloadText v) = text_ok v"
| "payload_ok _ = True"

definition event_ok :: "event \<Rightarrow> bool" where
  "event_ok e \<longleftrightarrow>
     stable_id (event_id_str (ev_id e)) \<and>
     topic_parse (topic_path (ev_topic e)) = Inr (ev_topic e) \<and> text_ok (topic_path (ev_topic e)) \<and>
     target_ok (ev_target e) \<and> payload_ok (ev_payload e) \<and>
     0 \<le> md_created_at (ev_metadata e) \<and> nat (md_created_at (ev_metadata e)) div NANOS < 2 ^ 63 \<and>
     opt_id_ok (map_option request_id_str (md_request_id (ev_metadata e))) \<and>
     opt_id_ok (map_option generation_id_str (md_generation_id (ev_metadata e))) \<and>
     opt_id_ok (map_option event_id_str (correlation_id (md_trace (ev_metadata e)))) \<and>
     opt_id_ok (map_option event_id_str (causation_id (md_trace (ev_metadata e))))"

definition error_ok :: "eva_error \<Rightarrow> bool" where
  "error_ok e \<longleftrightarrow>
     text_ok (err_message e) \<and>
     (case err_provider_code e of None \<Rightarrow> True
      | Some c \<Rightarrow> provider_code_new (provider_code_str c) = Some c \<and> text_ok (provider_code_str c)) \<and>
     (\<forall>(k, v) \<in> set (ctx_entries (err_context e)). trim k \<noteq> [] \<and> text_ok k \<and> text_ok v) \<and>
     length (ctx_entries (err_context e)) < 2 ^ 64"

definition record_ok :: "event_log_record \<Rightarrow> bool" where
  "record_ok r \<longleftrightarrow>
     event_ok (lr_event r) \<and>
     opt_id_ok (map_option agent_id_str (lr_consumer r)) \<and>
     (case lr_error r of None \<Rightarrow> True | Some e \<Rightarrow> error_ok e)"

subsection \<open>Decoding the parts\<close>

lemma require_mem: "(k, v) \<in> set (record_fields r) \<Longrightarrow> require_field (stored r) k = Inr v"
  by (simp add: require_field_def stored_mem)

lemma decoded_mem:
  "(k, hex_text s) \<in> set (record_fields r) \<Longrightarrow> text_ok s \<Longrightarrow> decoded_required_string (stored r) k = Inr s"
  by (simp add: decoded_required_string_def require_mem decode_hex_text map_err_def)

lemma optional_mem:
  "(k, opt_text v) \<in> set (record_fields r) \<Longrightarrow> \<forall>s. v = Some s \<longrightarrow> s \<noteq> [] \<and> text_ok s \<Longrightarrow>
   optional_decoded_string (stored r) k = Inr v"
  by (cases v) (simp_all add: optional_decoded_string_def stored_mem opt_text_def decode_hex_text map_err_def)

lemma optional_id_mem:
  "(k, opt_text v) \<in> set (record_fields r) \<Longrightarrow> opt_id_ok v \<Longrightarrow> optional_decoded_string (stored r) k = Inr v"
  by (rule optional_mem) (auto simp: opt_id_ok_def stable_id_text_ok stable_id_def)

lemma parse_number_nat_str: "n < bound \<Longrightarrow> parse_number bound (nat_str n) field = Inr n"
  by (simp add: parse_number_def parse_unsigned_nat_str)

lemma id_parse_self:
  "stable_id (agent_id_str a) \<Longrightarrow> agent_id_parse (agent_id_str a) = Inr a"
  "stable_id (adapter_id_str b) \<Longrightarrow> adapter_id_parse (adapter_id_str b) = Inr b"
  "stable_id (request_id_str c) \<Longrightarrow> request_id_parse (request_id_str c) = Inr c"
  "stable_id (event_id_str d) \<Longrightarrow> event_id_parse (event_id_str d) = Inr d"
  "stable_id (generation_id_str g) \<Longrightarrow> generation_id_parse (generation_id_str g) = Inr g"
  "capability_wf n \<Longrightarrow> capability_name_parse (cap_name n) = Inr n"
  by (simp_all add: id_parse_iff capability_name_parse_iff)

lemma parse_optional_self:
  "opt_id_ok (map_option agent_id_str a) \<Longrightarrow> parse_optional agent_id_parse (map_option agent_id_str a) = Inr a"
  "opt_id_ok (map_option request_id_str b) \<Longrightarrow> parse_optional request_id_parse (map_option request_id_str b) = Inr b"
  "opt_id_ok (map_option event_id_str c) \<Longrightarrow> parse_optional event_id_parse (map_option event_id_str c) = Inr c"
  "opt_id_ok (map_option generation_id_str d) \<Longrightarrow>
     parse_optional generation_id_parse (map_option generation_id_str d) = Inr d"
  by (auto simp: parse_optional_def opt_id_ok_def id_parse_self split: option.splits)

lemma target_from_stored:
  assumes "target_ok (ev_target (lr_event r))"
  shows "target_from_fields (stored r) = Inr (ev_target (lr_event r))"
proof -
  let ?t = "ev_target (lr_event r)"
  have "(''target_kind'', target_kind ?t) \<in> set (record_fields r)"
    and v: "(''target_value'', opt_text (target_value ?t)) \<in> set (record_fields r)"
    using record_fields_members(1) [of r] by (auto simp: event_fields_def Let_def)
  then have k: "require_field (stored r) ''target_kind'' = Inr (target_kind ?t)" by (simp add: require_mem)
  show ?thesis
  proof (cases ?t)
    case Broadcast
    then show ?thesis using k by (simp add: target_from_fields_def)
  next
    case (TargetAgent a)
    then have "decoded_required_string (stored r) ''target_value'' = Inr (agent_id_str a)"
      using v assms by (intro decoded_mem) (simp_all add: opt_text_def stable_id_text_ok)
    then show ?thesis using k assms TargetAgent by (simp add: target_from_fields_def id_parse_self)
  next
    case (TargetCapability c)
    then have "decoded_required_string (stored r) ''target_value'' = Inr (cap_name c)"
      using v assms by (intro decoded_mem) (simp_all add: opt_text_def capability_text_ok)
    then show ?thesis using k assms TargetCapability
      by (simp add: target_from_fields_def id_parse_self)
  next
    case (TargetAdapter a)
    then have "decoded_required_string (stored r) ''target_value'' = Inr (adapter_id_str a)"
      using v assms by (intro decoded_mem) (simp_all add: opt_text_def stable_id_text_ok)
    then show ?thesis using k assms TargetAdapter by (simp add: target_from_fields_def id_parse_self)
  qed
qed

lemma payload_from_stored:
  assumes "payload_ok (ev_payload (lr_event r))"
  shows "payload_from_fields (stored r) = Inr (ev_payload (lr_event r))"
proof -
  let ?p = "ev_payload (lr_event r)"
  have "(''payload_kind'', payload_kind ?p) \<in> set (record_fields r)"
    and v: "(''payload_value'', payload_value ?p) \<in> set (record_fields r)"
    using record_fields_members(1) [of r] by (auto simp: event_fields_def Let_def)
  then have k: "require_field (stored r) ''payload_kind'' = Inr (payload_kind ?p)" by (simp add: require_mem)
  show ?thesis
  proof (cases ?p)
    case PayloadEmpty
    then show ?thesis using k by (simp add: payload_from_fields_def)
  next
    case (PayloadText s)
    then have "decoded_required_string (stored r) ''payload_value'' = Inr s"
      using v assms by (intro decoded_mem) simp_all
    then show ?thesis using k PayloadText by (simp add: payload_from_fields_def)
  next
    case (PayloadBytes bs)
    have "\<forall>b \<in> set (map unat bs). b < 256" using unat_bound [where 'a = 8] by auto
    then have "hex_decode (payload_value ?p) = Inr (map unat bs)" using PayloadBytes by (simp add: hex_decode_encode)
    then show ?thesis using k v PayloadBytes
      by (simp add: payload_from_fields_def require_mem comp_def)
  qed
qed

lemma number_from_stored:
  "(k, nat_str n) \<in> set (record_fields r) \<Longrightarrow> n < bound \<Longrightarrow>
   res_bind (require_field (stored r) k) (\<lambda>v. parse_number bound v k) = Inr n"
  by (simp add: require_mem parse_number_nat_str)

lemma system_time_from_split:
  "0 \<le> t \<Longrightarrow> nat t div NANOS < 2 ^ 63 \<Longrightarrow> system_time_from (nat t div NANOS) (nat t mod NANOS) = Inr t"
  by (simp add: system_time_from_def Let_def NANOS_def)

lemma lift_res_Inr [simp]: "lift_res (Inr x) = Inr x"
  by (simp add: lift_res_def)

lemma event_from_stored:
  assumes ok: "event_ok (lr_event r)"
  shows "event_from_fields now (stored r) = Inr (lr_event r)"
proof -
  let ?e = "lr_event r" and ?md = "ev_metadata (lr_event r)"
  let ?t = "nat (md_created_at ?md)"
  have sub: "(k, v) \<in> set (event_fields ?e) \<Longrightarrow> (k, v) \<in> set (record_fields r)" for k v
    using record_fields_members(1) by blast
  have i: "decoded_required_string (stored r) ''event_id'' = Inr (event_id_str (ev_id ?e))"
    using ok by (intro decoded_mem sub) (auto simp: event_fields_def Let_def event_ok_def stable_id_text_ok)
  have t: "decoded_required_string (stored r) ''topic'' = Inr (topic_path (ev_topic ?e))"
    using ok by (intro decoded_mem sub) (auto simp: event_fields_def Let_def event_ok_def)
  have secs: "res_bind (require_field (stored r) ''created_at_secs'') (\<lambda>v. parse_number (2 ^ 64) v ''created_at_secs'') = Inr (?t div NANOS)"
    using ok by (intro number_from_stored sub) (auto simp: event_fields_def Let_def event_ok_def)
  have nanos: "res_bind (require_field (stored r) ''created_at_nanos'') (\<lambda>v. parse_number (2 ^ 32) v ''created_at_nanos'') = Inr (?t mod NANOS)"
    by (intro number_from_stored sub) (auto simp: event_fields_def Let_def NANOS_def)
  have req: "optional_decoded_string (stored r) ''request_id'' = Inr (map_option request_id_str (md_request_id ?md))"
    using ok by (intro optional_id_mem sub) (auto simp: event_fields_def Let_def event_ok_def)
  have gen: "optional_decoded_string (stored r) ''generation_id'' = Inr (map_option generation_id_str (md_generation_id ?md))"
    using ok by (intro optional_id_mem sub) (auto simp: event_fields_def Let_def event_ok_def)
  have cor: "optional_decoded_string (stored r) ''correlation_id'' = Inr (map_option event_id_str (correlation_id (md_trace ?md)))"
    using ok by (intro optional_id_mem sub) (auto simp: event_fields_def Let_def event_ok_def)
  have cau: "optional_decoded_string (stored r) ''causation_id'' = Inr (map_option event_id_str (causation_id (md_trace ?md)))"
    using ok by (intro optional_id_mem sub) (auto simp: event_fields_def Let_def event_ok_def)
  show ?thesis
    using ok unfolding event_from_fields_def secs nanos i t req gen cor cau event_ok_def
    by (simp add: id_parse_self parse_optional_self target_from_stored payload_from_stored
        system_time_from_split Let_def md_with_trace_def md_with_created_at_def md_with_request_id_def
        md_with_generation_id_def event_metadata_new_def event_with_metadata_def event_with_target_def
        event_new_def split: option.splits)
qed

subsection \<open>Decoding the error\<close>

definition add_entries :: "eva_error \<Rightarrow> (string \<times> string) list \<Rightarrow> eva_error" where
  "add_entries err es = err\<lparr>err_context := \<lparr>ctx_entries = ctx_entries (err_context err) @ es\<rparr>\<rparr>"

lemma add_entries_Nil: "add_entries err [] = err"
  by (simp add: add_entries_def)

lemma add_entries_Cons:
  "trim k \<noteq> [] \<Longrightarrow> add_entries (with_context err k v) es = add_entries err ((k, v) # es)"
  by (simp add: add_entries_def with_context_def error_context_push_def)

lemma context_from_stored:
  assumes err: "lr_error r = Some e" and ok: "error_ok e"
    and es: "es = ctx_entries (err_context e)" and "i \<le> length es"
  shows "context_from_fields (stored r) ''error'' [i..<length es] x = Inr (add_entries x (drop i es))"
  using assms(4)
proof (induction "length es - i" arbitrary: i x)
  case 0
  then show ?case by (simp add: add_entries_Nil)
next
  case (Suc n)
  then have i: "i < length es" by simp
  obtain k v where kv: "es ! i = (k, v)" by (cases "es ! i")
  then have "(k, v) \<in> set es" using i by (metis nth_mem)
  then have kok: "trim k \<noteq> []" "text_ok k" "text_ok v" using ok es by (auto simp: error_ok_def)
  have entries: "error_entries (lr_error r) = es" using err es by (simp add: error_entries_def)
  have "decoded_required_string (stored r) (''error_context_'' @ nat_str i @ ''_key'') = Inr k"
    and "decoded_required_string (stored r) (''error_context_'' @ nat_str i @ ''_value'') = Inr v"
    using context_fields_member [OF i, of 0] record_fields_members(3) [of r] entries kv kok
    by (auto intro!: decoded_mem)
  then show ?case
    using Suc(1) [of "Suc i" "with_context x k v"] Suc(2) i kok kv Cons_nth_drop_Suc [OF i, symmetric]
    by (simp add: upt_conv_Cons add_entries_Cons)
qed

lemma error_kind_from_as_str: "error_kind_from_storage (error_kind_as_str k) = Inr k"
  by (cases k) (simp_all add: error_kind_from_storage_def)

lemma error_kind_as_str_not_Nil [simp]: "error_kind_as_str k \<noteq> []"
  by (cases k) simp_all

lemma error_rebuilt:
  "error_ok e \<Longrightarrow>
   add_entries
     (case map_option provider_code_str (err_provider_code e) of
        None \<Rightarrow> with_retryable (eva_error_new (err_kind e) (err_message e)) (err_retryable e)
      | Some c \<Rightarrow> with_provider_code (with_retryable (eva_error_new (err_kind e) (err_message e)) (err_retryable e)) c)
     (ctx_entries (err_context e)) = e"
  by (auto simp: error_ok_def add_entries_def with_retryable_def with_provider_code_def eva_error_new_def
      error_context_new_def split: option.splits)

lemma error_from_stored:
  assumes ok: "case lr_error r of None \<Rightarrow> True | Some e \<Rightarrow> error_ok e"
  shows "error_from_fields (stored r) ''error'' = Inr (lr_error r)"
proof (cases "lr_error r")
  case None
  then have "(''error_kind'', []) \<in> set (record_fields r)"
    using record_fields_members(2) [of r] by (auto simp: error_fields_def)
  then show ?thesis using None by (simp add: error_from_fields_def require_mem)
next
  case (Some e)
  let ?es = "ctx_entries (err_context e)"
  have eok: "error_ok e" using ok Some by simp
  have sub: "(k, v) \<in> set (error_fields (Some e)) \<Longrightarrow> (k, v) \<in> set (record_fields r)" for k v
    using record_fields_members(2) [of r] Some by auto
  have kind: "require_field (stored r) ''error_kind'' = Inr (error_kind_as_str (err_kind e))"
    by (intro require_mem sub) (simp add: error_fields_def)
  have msg: "decoded_required_string (stored r) ''error_message'' = Inr (err_message e)"
    using eok by (intro decoded_mem sub) (simp_all add: error_fields_def error_ok_def)
  have retry: "require_field (stored r) ''error_retryable'' = Inr (if err_retryable e then ''true'' else ''false'')"
    by (intro require_mem sub) (simp add: error_fields_def)
  have code: "optional_decoded_string (stored r) ''error_provider_code'' =
      Inr (map_option provider_code_str (err_provider_code e))"
    using eok by (intro optional_mem sub)
      (auto simp: error_fields_def error_ok_def provider_code_new_def split: option.splits)
  have len: "res_bind (require_field (stored r) ''error_context_len'')
      (\<lambda>v. parse_number (2 ^ 64) v ''error_context_len'') = Inr (length ?es)"
    using eok by (intro number_from_stored sub) (simp_all add: error_fields_def error_ok_def)
  have bool: "parse_bool (if b then ''true'' else ''false'') f = Inr b" for b f by (simp add: parse_bool_def)
  show ?thesis
    using context_from_stored [OF Some eok refl, of 0] error_rebuilt [OF eok] Some kind msg retry code len bool
    by (simp add: error_from_fields_def error_kind_from_as_str Let_def)
qed

lemma status_from_as_str: "log_status_from_storage (log_status_as_str st) = Inr st"
  by (cases st) (simp_all add: log_status_from_storage_def)

lemma record_roundtrip:
  assumes ok: "record_ok r"
  shows "record_from_storage now (record_to_storage r) = Inr r"
proof -
  have parsed: "parse_fields (record_to_storage r) = Inr (stored r)"
    by (simp add: parse_record_fields stored_def)
  have ver: "require_field (stored r) ''version'' = Inr EVENT_RECORD_VERSION"
    by (intro require_mem) (simp add: record_fields_def)
  have seq: "res_bind (require_field (stored r) ''sequence'') (\<lambda>v. parse_number (2 ^ 64) v ''sequence'') = Inr (unat (lr_sequence r))"
    using unat_bound [of "lr_sequence r"] by (intro number_from_stored) (simp_all add: record_fields_def)
  have st: "require_field (stored r) ''status'' = Inr (log_status_as_str (lr_status r))"
    by (intro require_mem) (simp add: record_fields_def)
  have con: "optional_decoded_string (stored r) ''consumer'' = Inr (map_option agent_id_str (lr_consumer r))"
    using ok by (intro optional_id_mem) (simp_all add: record_fields_def record_ok_def)
  show ?thesis
    using ok seq con unfolding record_ok_def
    by (simp add: record_from_storage_def parsed ver st status_from_as_str event_from_stored
        error_from_stored parse_optional_self)
qed

subsection \<open>Properties\<close>

text \<open>
  C2. The storage format loses nothing: every record with validated identifiers, UTF-8 texts and a
  creation time between the epoch and the largest system time is written to a text from which
  strict reading returns exactly that record, whatever the clock says while reading.
\<close>
theorem storage_roundtrip:
  assumes "record_ok r"
  shows "record_from_storage now (record_to_storage r) = Inr r"
  using assms by (rule record_roundtrip)

definition sample_record :: event_log_record where
  "sample_record =
     \<lparr>lr_sequence = 7,
      lr_event = \<lparr>ev_id = EventId ''e'', ev_topic = \<lparr>topic_path = ''/a'', topic_segments = [''a'']\<rparr>,
        ev_target = TargetAgent (AgentId ''b''), ev_payload = PayloadBytes [0, 255],
        ev_metadata = \<lparr>md_created_at = 1500000001, md_request_id = None,
          md_trace = trace_context_default, md_generation_id = None\<rparr>\<rparr>,
      lr_status = FailedLog, lr_consumer = Some (AgentId ''c''),
      lr_error = Some (err_timeout ''late'')\<rparr>"

lemma sample_record_ok: "record_ok sample_record"
proof -
  have id: "stable_id [c]" if "is_ascii_alphanumeric c" for c
    using that by (simp add: stable_id_def MAX_ID_LEN_def is_stable_id_char_def)
  have ab: "is_ascii_alphanumeric CHR ''a''" "is_ascii_alphanumeric CHR ''b''"
    "is_ascii_alphanumeric CHR ''c''" "is_ascii_alphanumeric CHR ''e''"
    by (simp_all add: is_ascii_alphanumeric_def is_ascii_digit_def)
  have "topic_parse ''/a'' = Inr \<lparr>topic_path = ''/a'', topic_segments = [''a'']\<rparr>"
    by (simp add: topic_parse_iff plain_segment_def path_of_def has_whitespace_graphic is_graphic_def
        del: has_whitespace.simps)
  then show ?thesis
    by (simp add: sample_record_def record_ok_def event_ok_def error_ok_def opt_id_ok_def id ab
        str_bytes_def NANOS_def trace_context_default_def err_timeout_def eva_error_new_def
        error_context_new_def)
qed

theorem storage_roundtrip_witness:
  "record_from_storage 0 (record_to_storage sample_record) = Inr sample_record"
  by (rule storage_roundtrip) (rule sample_record_ok)

end
