(* ===== verification/Storage_EventFiles.thy ===== *)
theory Storage_EventFiles
  imports Storage_EventRoundtrip "HOL-Library.Multiset"
begin

section \<open>The filesystem event log (eva-storage, event_log.rs and atomic_write of durable_backend.rs)\<close>

text \<open>
  \<^verbatim>\<open>FileSystemEventLog\<close> over a directory of named files. The environment of a call is explicit: the
  verdict of the writer fence, the errors of listing the directory, of reaching an entry of the
  listing and of reading a file, and how far \<^verbatim>\<open>atomic_write\<close> gets. It writes and syncs a temporary
  file, renames it over the target and then syncs the directory, so it can fail with the target
  untouched or with the target already replaced. \<^verbatim>\<open>read_dir\<close> returns the files in no particular
  order; a directory is a list of files, and what is proved about loading holds for every order.
\<close>

type_synonym directory = "(string \<times> string) list"

datatype path_state = Missing | NotDirectory | Directory directory

datatype write_outcome =
    WriteOk
  | WriteFailed string
  | WriteUnsynced string

record load_io =
  li_list_error :: "string option"
  li_entry_error :: "string \<Rightarrow> string option"
  li_read_error :: "string \<Rightarrow> string option"

definition load_works :: load_io where
  "load_works = \<lparr>li_list_error = None, li_entry_error = (\<lambda>_. None), li_read_error = (\<lambda>_. None)\<rparr>"

record io_env =
  env_verify :: "unit res"
  env_load :: load_io
  env_write :: write_outcome

record fs_log =
  fs_root :: string
  fs_next_sequence :: u64
  fs_records :: "event_log_record list"
  fs_writer :: bool

fun dir_put :: "directory \<Rightarrow> string \<Rightarrow> string \<Rightarrow> directory" where
  "dir_put [] name data = [(name, data)]"
| "dir_put ((n, d) # dir) name data =
     (if n = name then (n, data) # dir else (n, d) # dir_put dir name data)"

definition atomic_write :: "write_outcome \<Rightarrow> directory \<Rightarrow> string \<Rightarrow> string \<Rightarrow> (string + unit) \<times> directory" where
  "atomic_write outcome dir name data = (case outcome of
     WriteOk \<Rightarrow> (Inr (), dir_put dir name data)
   | WriteFailed m \<Rightarrow> (Inl m, dir)
   | WriteUnsynced m \<Rightarrow> (Inl m, dir_put dir name data))"

definition zero_pad :: "nat \<Rightarrow> string \<Rightarrow> string" where
  "zero_pad width s = replicate (width - length s) CHR ''0'' @ s"

definition record_file :: "u64 \<Rightarrow> string" where
  "record_file sequence = zero_pad 20 (nat_str (unat sequence)) @ ''.event''"

definition path_display :: "string \<Rightarrow> string \<Rightarrow> string" where
  "path_display root name = root @ ''/'' @ name"

text \<open>\<^verbatim>\<open>Path::extension\<close> of a file name: what follows the last dot, unless nothing precedes that dot.\<close>

definition file_extension :: "string \<Rightarrow> string option" where
  "file_extension name = (case split_once CHR ''.'' (rev name) of
     None \<Rightarrow> None
   | Some (ext, stem) \<Rightarrow> if stem = [] then None else Some (rev ext))"

definition persist_record ::
  "write_outcome \<Rightarrow> fs_log \<Rightarrow> directory \<Rightarrow> event_log_record \<Rightarrow> unit res \<times> directory" where
  "persist_record outcome s dir r =
     (let name = record_file (lr_sequence r) in
      case atomic_write outcome dir name (record_to_storage r) of
        (Inl m, dir') \<Rightarrow> (Inl (with_context (with_context
            (err_internal ''failed to atomically write durable event log record'')
            ''path'' (path_display (fs_root s) name)) ''io_error'' m), dir')
      | (Inr _, dir') \<Rightarrow> (Inr (), dir'))"

subsection \<open>Loading\<close>

definition with_path :: "string \<Rightarrow> 'a run \<Rightarrow> 'a run" where
  "with_path path r = (case r of
     Inl (Fails e) \<Rightarrow> Inl (Fails (with_context e ''path'' path))
   | Inl Panics \<Rightarrow> Inl Panics
   | Inr x \<Rightarrow> Inr x)"

text \<open>\<^verbatim>\<open>read_to_string\<close> fails with an error of the disk, and refuses a file that is not UTF-8.\<close>

definition load_file :: "load_io \<Rightarrow> system_time \<Rightarrow> string \<Rightarrow> string \<times> string \<Rightarrow> event_log_record run" where
  "load_file lio now root f =
     (let path = path_display root (fst f);
          unreadable = (\<lambda>m. Inl (Fails (with_context (with_context
            (err_conflict ''failed to read durable event log record'') ''path'' path) ''io_error'' m)))
      in case li_read_error lio (fst f) of
           Some m \<Rightarrow> unreadable m
         | None \<Rightarrow>
             if \<not> utf8_valid (str_bytes (snd f)) then unreadable ''stream did not contain valid UTF-8''
             else with_path path (record_from_storage now (snd f)))"

definition is_event_file :: "string \<times> string \<Rightarrow> bool" where
  "is_event_file f \<longleftrightarrow> file_extension (fst f) = Some ''event''"

fun load_entries :: "load_io \<Rightarrow> system_time \<Rightarrow> string \<Rightarrow> directory \<Rightarrow> event_log_record list run" where
  "load_entries lio now root [] = Inr []"
| "load_entries lio now root (f # fs) = (case li_entry_error lio (fst f) of
     Some m \<Rightarrow> Inl (Fails (with_context (with_context
       (err_internal ''failed to read durable event log entry'') ''path'' root) ''io_error'' m))
   | None \<Rightarrow>
       if \<not> is_event_file f then load_entries lio now root fs
       else res_bind (load_file lio now root f) (\<lambda>r.
         res_bind (load_entries lio now root fs) (\<lambda>rs. Inr (r # rs))))"

definition load_records :: "load_io \<Rightarrow> system_time \<Rightarrow> string \<Rightarrow> directory \<Rightarrow> event_log_record list run" where
  "load_records lio now root dir = (case li_list_error lio of
     Some m \<Rightarrow> Inl (Fails (with_context (with_context
       (err_internal ''failed to read durable event log directory'') ''path'' root) ''io_error'' m))
   | None \<Rightarrow> load_entries lio now root dir)"

fun validate_loop :: "u64 set \<Rightarrow> event_id set \<Rightarrow> event_log_record list \<Rightarrow> unit res" where
  "validate_loop seqs ids [] = Inr ()"
| "validate_loop seqs ids (r # rs) =
     (if lr_sequence r \<in> seqs then
        Inl (with_context (err_conflict ''durable event log sequence is duplicated'')
               ''sequence'' (nat_str (unat (lr_sequence r))))
      else if record_id r \<in> ids then
        Inl (with_context (err_conflict ''durable event log event id is duplicated'')
               ''event_id'' (event_id_str (record_id r)))
      else validate_loop (insert (lr_sequence r) seqs) (insert (record_id r) ids) rs)"

definition validate_loaded_records :: "event_log_record list \<Rightarrow> unit res" where
  "validate_loaded_records rs = validate_loop {} {} rs"

definition load_authoritative_records ::
  "load_io \<Rightarrow> system_time \<Rightarrow> string \<Rightarrow> directory \<Rightarrow> (u64 \<times> event_log_record list) run" where
  "load_authoritative_records lio now root dir =
     res_bind (load_records lio now root dir) (\<lambda>loaded.
     let rs = sort_key lr_sequence loaded in
     res_bind (lift_res (validate_loaded_records rs)) (\<lambda>_.
     Inr (if rs = [] then 0 else lr_sequence (last rs), rs)))"

definition reload_authoritative_records :: "load_io \<Rightarrow> system_time \<Rightarrow> fs_log \<Rightarrow> directory \<Rightarrow> fs_log run" where
  "reload_authoritative_records lio now s dir =
     res_bind (load_authoritative_records lio now (fs_root s) dir) (\<lambda>(next, rs).
     Inr (s\<lparr>fs_next_sequence := next, fs_records := rs\<rparr>))"

text \<open>
  Opening. The argument \<open>created\<close> is the outcome of \<^verbatim>\<open>create_dir_all\<close>, which is called only for a
  missing directory that may be created.
\<close>

definition open_dir_with_mode ::
  "load_io \<Rightarrow> system_time \<Rightarrow> string \<Rightarrow> path_state \<Rightarrow> bool \<Rightarrow> (string + unit) \<Rightarrow> bool \<Rightarrow> fs_log run" where
  "open_dir_with_mode lio now root path create_if_missing created writer =
     (let empty = \<lparr>fs_root = root, fs_next_sequence = 0, fs_records = [], fs_writer = writer\<rparr> in
      case path of
        NotDirectory \<Rightarrow> Inl (Fails (with_context
          (err_conflict ''durable event log path is not a directory'') ''path'' root))
      | Directory dir \<Rightarrow> reload_authoritative_records lio now empty dir
      | Missing \<Rightarrow>
          if create_if_missing then (case created of
              Inl m \<Rightarrow> Inl (Fails (with_context (with_context
                (err_internal ''failed to create durable event log directory'') ''path'' root)
                ''io_error'' m))
            | Inr _ \<Rightarrow> reload_authoritative_records lio now empty [])
          else Inr empty)"

subsection \<open>Mutations\<close>

type_synonym 'a fs_result = "'a run \<times> fs_log \<times> directory"

definition with_mutation ::
  "io_env \<Rightarrow> system_time \<Rightarrow> fs_log \<Rightarrow> directory \<Rightarrow> (fs_log \<Rightarrow> directory \<Rightarrow> 'a fs_result) \<Rightarrow> 'a fs_result" where
  "with_mutation env now s dir operation =
     (if fs_writer s then
        (case env_verify env of
           Inl e \<Rightarrow> (Inl (Fails e), s, dir)
         | Inr _ \<Rightarrow> (case reload_authoritative_records (env_load env) now s dir of
               Inl f \<Rightarrow> (Inl f, s, dir)
             | Inr s' \<Rightarrow> operation s' dir))
      else operation s dir)"

definition append_operation ::
  "io_env \<Rightarrow> event \<Rightarrow> fs_log \<Rightarrow> directory \<Rightarrow> event_log_record fs_result" where
  "append_operation env e s dir =
     (if contains_event (fs_records s) (ev_id e) then (Inl (Fails (log_duplicate (ev_id e))), s, dir)
      else
        (let sequence = fs_next_sequence s + 1;
             r = record_appended sequence e
         in case persist_record (env_write env) s dir r of
              (Inl err, dir') \<Rightarrow> (Inl (Fails err), s, dir')
            | (Inr _, dir') \<Rightarrow>
                (Inr r, s\<lparr>fs_next_sequence := sequence, fs_records := fs_records s @ [r]\<rparr>, dir')))"

definition store_record ::
  "io_env \<Rightarrow> nat \<Rightarrow> event_log_record \<Rightarrow> fs_log \<Rightarrow> directory \<Rightarrow> event_log_record fs_result" where
  "store_record env position r s dir = (case persist_record (env_write env) s dir r of
     (Inl err, dir') \<Rightarrow> (Inl (Fails err), s, dir')
   | (Inr _, dir') \<Rightarrow> (Inr r, s\<lparr>fs_records := (fs_records s)[position := r]\<rparr>, dir'))"

definition ack_operation ::
  "io_env \<Rightarrow> event_id \<Rightarrow> agent_id \<Rightarrow> fs_log \<Rightarrow> directory \<Rightarrow> event_log_record fs_result" where
  "ack_operation env i consumer s dir = (case find_position (fs_records s) i of
     None \<Rightarrow> (Inl (Fails (log_missing i)), s, dir)
   | Some position \<Rightarrow> (case transition_to_acked (fs_records s ! position) consumer of
         (Inl err, _) \<Rightarrow> (Inl (Fails err), s, dir)
       | (Inr changed, r) \<Rightarrow>
           if changed then store_record env position r s dir else (Inr r, s, dir)))"

definition fail_operation ::
  "io_env \<Rightarrow> event_id \<Rightarrow> agent_id \<Rightarrow> eva_error \<Rightarrow> fs_log \<Rightarrow> directory \<Rightarrow> event_log_record fs_result" where
  "fail_operation env i consumer x s dir = (case find_position (fs_records s) i of
     None \<Rightarrow> (Inl (Fails (log_missing i)), s, dir)
   | Some position \<Rightarrow> (case transition_to_failed (fs_records s ! position) consumer x of
         (Inl err, _) \<Rightarrow> (Inl (Fails err), s, dir)
       | (Inr _, r) \<Rightarrow> store_record env position r s dir))"

definition fs_append ::
  "io_env \<Rightarrow> system_time \<Rightarrow> fs_log \<Rightarrow> directory \<Rightarrow> event \<Rightarrow> event_log_record fs_result" where
  "fs_append env now s dir e = with_mutation env now s dir (append_operation env e)"

definition fs_ack ::
  "io_env \<Rightarrow> system_time \<Rightarrow> fs_log \<Rightarrow> directory \<Rightarrow> event_id \<Rightarrow> agent_id \<Rightarrow> event_log_record fs_result" where
  "fs_ack env now s dir i c = with_mutation env now s dir (ack_operation env i c)"

definition fs_fail ::
  "io_env \<Rightarrow> system_time \<Rightarrow> fs_log \<Rightarrow> directory \<Rightarrow> event_id \<Rightarrow> agent_id \<Rightarrow> eva_error \<Rightarrow>
     event_log_record fs_result" where
  "fs_fail env now s dir i c x = with_mutation env now s dir (fail_operation env i c x)"

definition fs_refresh ::
  "io_env \<Rightarrow> string \<Rightarrow> system_time \<Rightarrow> fs_log \<Rightarrow> path_state \<Rightarrow> unit run \<times> fs_log" where
  "fs_refresh env read_error now s path =
     (let reload = (\<lambda>dir. case reload_authoritative_records (env_load env) now s dir of
            Inl f \<Rightarrow> (Inl f, s) | Inr s' \<Rightarrow> (Inr (), s'));
          unreadable = Inl (Fails (with_context (with_context
            (err_internal ''failed to read durable event log directory'') ''path'' (fs_root s))
            ''io_error'' read_error))
      in if fs_writer s then
           (case env_verify env of
              Inl e \<Rightarrow> (Inl (Fails e), s)
            | Inr _ \<Rightarrow> (case path of Directory dir \<Rightarrow> reload dir | _ \<Rightarrow> (unreadable, s)))
         else (case path of
              Missing \<Rightarrow> (Inr (), s\<lparr>fs_next_sequence := 0, fs_records := []\<rparr>)
            | Directory dir \<Rightarrow> reload dir
            | NotDirectory \<Rightarrow> (unreadable, s)))"

definition fs_watermark :: "fs_log \<Rightarrow> u64" where
  "fs_watermark s = fs_next_sequence s"

subsection \<open>File names\<close>

lemma dec_value_zeros: "dec_value 0 (replicate k CHR ''0'' @ s) = dec_value 0 s"
  by (induction k) (simp_all add: is_ascii_digit_def)

lemma record_file_inj: "record_file a = record_file b \<longleftrightarrow> a = b"
proof
  assume "record_file a = record_file b"
  then have "zero_pad 20 (nat_str (unat a)) = zero_pad 20 (nat_str (unat b))"
    by (simp add: record_file_def)
  then have "dec_value 0 (zero_pad 20 (nat_str (unat a))) = dec_value 0 (zero_pad 20 (nat_str (unat b)))"
    by (rule arg_cong)
  then have "unat a = unat b" by (simp add: zero_pad_def dec_value_zeros dec_value_nat_str)
  then show "a = b" by (rule unsigned_word_eqI)
qed simp

lemma record_file_event: "is_event_file (record_file a, d)"
proof -
  have "rev (record_file a) = ''tneve'' @ CHR ''.'' # rev (zero_pad 20 (nat_str (unat a)))"
    by (simp add: record_file_def)
  moreover have "split_once CHR ''.'' (''tneve'' @ CHR ''.'' # t) = Some (''tneve'', t)" for t
    by (rule split_once_append) simp
  ultimately show ?thesis by (simp add: is_event_file_def file_extension_def zero_pad_def)
qed

lemma is_event_file_name: "is_event_file (n, d) = is_event_file (n, d')"
  by (simp add: is_event_file_def)

definition file_of :: "event_log_record \<Rightarrow> string \<times> string" where
  "file_of r = (record_file (lr_sequence r), record_to_storage r)"

lemma dir_put_fresh: "name \<notin> fst ` set dir \<Longrightarrow> dir_put dir name data = dir @ [(name, data)]"
  by (induction dir name data rule: dir_put.induct) auto

lemma dir_put_names: "name \<in> fst ` set dir \<Longrightarrow> map fst (dir_put dir name data) = map fst dir"
  by (induction dir name data rule: dir_put.induct) auto

lemma dir_put_replace:
  assumes "distinct (map fst dir)" and "(name, old) \<in> set dir" and "is_event_file (name, data)"
  shows "mset (filter is_event_file (dir_put dir name data)) =
         add_mset (name, data) (mset (filter is_event_file dir) - {#(name, old)#})"
  using assms
proof (induction dir name data rule: dir_put.induct)
  case (2 n d dir name data)
  show ?case
  proof (cases "n = name")
    case True
    then have "d = old" and "is_event_file (n, d)"
      using 2 is_event_file_name by (auto simp: image_iff)
    then show ?thesis using True 2(4) by simp
  next
    case False
    then have mem: "(name, old) \<in> set dir" using 2(3) by simp
    moreover have "is_event_file (name, old)" using 2(4) is_event_file_name by blast
    ultimately have "(name, old) \<in># mset (filter is_event_file dir)" by simp
    then show ?thesis using 2 False mem by (auto simp: add_mset_remove_trivial_If)
  qed
qed simp

subsection \<open>What loading returns\<close>

lemma validate_loop_ok:
  "validate_loop S I rs = Inr () \<longleftrightarrow>
     distinct (map lr_sequence rs) \<and> lr_sequence ` set rs \<inter> S = {} \<and>
     distinct (map record_id rs) \<and> record_id ` set rs \<inter> I = {}"
  by (induction S I rs rule: validate_loop.induct) auto

lemma res_map_all: "\<forall>x \<in> set xs. f x = Inr (g x) \<Longrightarrow> res_map f xs = Inr (map g xs)"
  by (induction xs) auto

lemma render_chars:
  "\<forall>f \<in> set kvs. field_ok f \<Longrightarrow> \<forall>c \<in> set (render kvs). is_graphic c \<or> c = CHR 0x0A"
proof (induction kvs)
  case (Cons f kvs)
  have "is_graphic CHR ''=''" by (simp add: is_graphic_def)
  then show ?case using Cons by (cases f) (auto simp: field_ok_def)
qed simp

lemma graphic_text_ok: "\<forall>c \<in> set s. is_graphic c \<or> c = CHR 0x0A \<Longrightarrow> text_ok s"
  by (induction s) (auto simp: str_bytes_def is_graphic_def)

lemma storage_text_ok: "text_ok (record_to_storage r)"
  unfolding record_to_storage_render using record_fields_ok render_chars graphic_text_ok by blast

definition fs_consistent :: "fs_log \<Rightarrow> directory \<Rightarrow> bool" where
  "fs_consistent s dir \<longleftrightarrow>
     distinct (map fst dir) \<and>
     mset (filter is_event_file dir) = mset (map file_of (fs_records s)) \<and>
     sorted_wrt (<) (map lr_sequence (fs_records s)) \<and>
     distinct (map record_id (fs_records s)) \<and>
     (\<forall>r \<in> set (fs_records s). record_ok r) \<and>
     fs_next_sequence s = (if fs_records s = [] then 0 else lr_sequence (last (fs_records s)))"

lemma load_entries_works:
  "load_entries load_works now root dir = res_map (load_file load_works now root) (filter is_event_file dir)"
  by (induction dir) (simp_all add: load_works_def)

text \<open>Errors of the disk only ever turn a loading that works into one that fails.\<close>

lemma load_file_works: "load_file lio now root f = Inr r \<Longrightarrow> load_file load_works now root f = Inr r"
  by (simp add: load_file_def load_works_def Let_def split: option.splits if_splits)

lemma load_entries_subset: "load_entries lio now root dir = Inr rs \<Longrightarrow> load_entries load_works now root dir = Inr rs"
proof (induction dir arbitrary: rs)
  case (Cons f dir)
  have none: "li_entry_error load_works (fst f) = None" by (simp add: load_works_def)
  show ?case
  proof (cases "is_event_file f")
    case True
    then obtain r rs' where "load_file lio now root f = Inr r" "load_entries lio now root dir = Inr rs'" "rs = r # rs'"
      using Cons.prems by (auto simp: res_simps split: option.splits)
    then show ?thesis using load_file_works Cons.IH True none by simp
  next
    case False
    then show ?thesis using Cons none by (simp split: option.splits)
  qed
qed simp

lemma load_authoritative_works:
  assumes "load_authoritative_records lio now root dir = Inr x"
  shows "load_authoritative_records load_works now root dir = Inr x"
proof -
  obtain rs where rs: "load_records lio now root dir = Inr rs"
    using assms by (auto simp: load_authoritative_records_def res_simps)
  then have "load_records load_works now root dir = Inr rs"
    using load_entries_subset by (auto simp: load_records_def load_works_def split: option.splits)
  then show ?thesis using assms rs by (simp add: load_authoritative_records_def)
qed

lemma load_consistent:
  assumes c: "fs_consistent s dir" and perm: "mset dir' = mset dir"
  shows "load_authoritative_records load_works now root dir' = Inr (fs_next_sequence s, fs_records s)"
proof -
  let ?rs = "fs_records s" and ?fl = "filter is_event_file dir'"
  define g where "g = (\<lambda>f :: string \<times> string. case record_from_storage now (snd f) of Inr r \<Rightarrow> r)"
  have fl: "mset ?fl = mset (map file_of ?rs)"
    using c perm by (metis fs_consistent_def mset_filter)
  have ok: "\<forall>r \<in> set ?rs. record_ok r" using c by (simp add: fs_consistent_def)
  have "load_file load_works now root (file_of r) = Inr r \<and> g (file_of r) = r" if "r \<in> set ?rs" for r
    using ok that record_roundtrip storage_text_ok
    by (simp add: load_file_def load_works_def file_of_def with_path_def g_def Let_def)
  moreover have "set ?fl = file_of ` set ?rs" using fl by (metis list.set_map set_mset_mset)
  ultimately have "\<forall>f \<in> set ?fl. load_file load_works now root f = Inr (g f)"
    and inv: "\<forall>r \<in> set ?rs. g (file_of r) = r" by auto
  then have loaded: "load_records load_works now root dir' = Inr (map g ?fl)"
    using load_entries_works [of now root dir'] by (simp add: load_records_def load_works_def res_map_all)
  have "mset (map g ?fl) = image_mset g (mset ?fl)" by (rule mset_map)
  also have "\<dots> = mset (map (\<lambda>r. g (file_of r)) ?rs)"
    unfolding fl by (simp add: multiset.map_comp comp_def)
  also have "map (\<lambda>r. g (file_of r)) ?rs = ?rs" using inv by (simp add: map_idI)
  finally have same: "mset (map g ?fl) = mset ?rs" .
  have sorted: "sorted (map lr_sequence ?rs)" and dist: "distinct (map lr_sequence ?rs)"
    using c by (auto simp: fs_consistent_def strict_sorted_iff)
  have "sort_key lr_sequence (map g ?fl) = ?rs"
  proof (rule sort_key_inj_key_eq [OF same])
    show "inj_on lr_sequence (set (map g ?fl))"
      using dist same by (metis distinct_map mset_eq_setD)
    show "sorted (map lr_sequence ?rs)" by (rule sorted)
  qed
  moreover have "validate_loaded_records ?rs = Inr ()"
    using c dist by (simp add: validate_loaded_records_def validate_loop_ok fs_consistent_def)
  ultimately show ?thesis
    using c loaded by (simp add: load_authoritative_records_def Let_def fs_consistent_def)
qed

lemma reload_consistent: "fs_consistent s dir \<Longrightarrow> reload_authoritative_records load_works now s dir = Inr s"
  by (simp add: reload_authoritative_records_def load_consistent)

lemma reload_consistent_any:
  assumes "fs_consistent s dir" and "reload_authoritative_records lio now s dir = Inr s'"
  shows "s' = s"
proof -
  obtain x where x: "load_authoritative_records lio now (fs_root s) dir = Inr x"
    "s' = s\<lparr>fs_next_sequence := fst x, fs_records := snd x\<rparr>"
    using assms(2) by (auto simp: reload_authoritative_records_def res_simps case_prod_beta)
  then have "x = (fs_next_sequence s, fs_records s)"
    using load_authoritative_works [OF x(1)] load_consistent [OF assms(1) refl] by simp
  then show ?thesis using x(2) by simp
qed

subsection \<open>Mutations keep memory and directory in step\<close>

lemma record_file_in_dir:
  assumes "fs_consistent s dir" and "(record_file q, d) \<in> set dir"
  shows "\<exists>r \<in> set (fs_records s). lr_sequence r = q \<and> d = record_to_storage r"
proof -
  have "(record_file q, d) \<in># mset (filter is_event_file dir)"
    using assms(2) record_file_event by simp
  then have "(record_file q, d) \<in> set (map file_of (fs_records s))"
    using assms(1) by (metis fs_consistent_def set_mset_mset)
  then show ?thesis by (auto simp: file_of_def record_file_inj)
qed

lemma sequences_below_next:
  assumes c: "fs_consistent s dir" and r: "r \<in> set (fs_records s)"
  shows "lr_sequence r \<le> fs_next_sequence s"
proof -
  let ?rs = "fs_records s"
  have ne: "?rs \<noteq> []" using r by auto
  have "sorted (map lr_sequence ?rs)" using c by (auto simp: fs_consistent_def strict_sorted_iff)
  then have "sorted (map lr_sequence (butlast ?rs) @ [lr_sequence (last ?rs)])"
    using ne by (metis append_butlast_last_id list.simps(8,9) map_append)
  moreover have "r \<in> set (butlast ?rs) \<or> r = last ?rs"
    using r ne by (metis append_butlast_last_id in_set_conv_decomp rotate1.simps(2) set_ConsD set_rotate1)
  ultimately show ?thesis using c ne by (auto simp: fs_consistent_def sorted_append)
qed

lemma consistent_append:
  assumes c: "fs_consistent s dir" and ok: "record_ok r" and q: "lr_sequence r = fs_next_sequence s + 1"
    and room: "fs_next_sequence s < fs_next_sequence s + 1"
    and fresh: "\<not> contains_event (fs_records s) (record_id r)"
  shows "fs_consistent (s\<lparr>fs_next_sequence := lr_sequence r, fs_records := fs_records s @ [r]\<rparr>)
           (dir_put dir (record_file (lr_sequence r)) (record_to_storage r))"
proof -
  let ?name = "record_file (lr_sequence r)"
  have above: "\<forall>x \<in> set (fs_records s). lr_sequence x < lr_sequence r"
    using sequences_below_next [OF c] room q by (metis le_less_trans)
  have new: "?name \<notin> fst ` set dir" using record_file_in_dir [OF c] above by fastforce
  have "mset (filter is_event_file (dir @ [(?name, record_to_storage r)])) =
        mset (map file_of (fs_records s @ [r]))"
    using c record_file_event by (simp add: fs_consistent_def file_of_def)
  then show ?thesis
    using c ok above new fresh
    by (auto simp: fs_consistent_def dir_put_fresh sorted_wrt_append contains_event_def)
qed

lemma consistent_update:
  assumes c: "fs_consistent s dir" and k: "k < length (fs_records s)" and ok: "record_ok r"
    and keep: "lr_sequence r = lr_sequence (fs_records s ! k)" "lr_event r = lr_event (fs_records s ! k)"
  shows "fs_consistent (s\<lparr>fs_records := (fs_records s)[k := r]\<rparr>)
           (dir_put dir (record_file (lr_sequence r)) (record_to_storage r))"
proof -
  let ?rs = "fs_records s" and ?name = "record_file (lr_sequence r)"
  have same: "map f (?rs[k := r]) = map f ?rs" if "f r = f (?rs ! k)" for f :: "event_log_record \<Rightarrow> 'b"
    using k that by (simp add: map_update list_update_same_conv)
  have "file_of (?rs ! k) \<in># mset (map file_of ?rs)" using k by simp
  then have "file_of (?rs ! k) \<in># mset (filter is_event_file dir)"
    using c unfolding fs_consistent_def by metis
  then have old: "(?name, record_to_storage (?rs ! k)) \<in> set dir" using keep by (simp add: file_of_def)
  have files: "mset (filter is_event_file (dir_put dir ?name (record_to_storage r))) =
        mset (map file_of (?rs[k := r]))"
    using dir_put_replace [OF _ old record_file_event] c k keep
    by (simp add: fs_consistent_def map_update mset_update file_of_def)
  have names: "map fst (dir_put dir ?name (record_to_storage r)) = map fst dir"
    using old by (intro dir_put_names) force
  have last: "lr_sequence (last (?rs[k := r])) = lr_sequence (last ?rs)" if "?rs \<noteq> []"
    using that keep k by (auto simp: last_conv_nth nth_list_update)
  have oks: "\<forall>x \<in> set (?rs[k := r]). record_ok x"
    using c ok set_update_subset_insert [of ?rs k r] by (auto simp: fs_consistent_def)
  show ?thesis
    using c files names last oks same [of lr_sequence] same [of record_id] keep
    by (simp add: fs_consistent_def)
qed

definition synced :: "io_env \<Rightarrow> bool" where
  "synced env = (case env_write env of WriteUnsynced _ \<Rightarrow> False | _ \<Rightarrow> True)"

lemma append_operation_consistent:
  assumes c: "fs_consistent s dir" and ok: "event_ok e" and env: "synced env"
    and room: "fs_next_sequence s < fs_next_sequence s + 1"
  shows "case append_operation env e s dir of (res, s', dir') \<Rightarrow> fs_consistent s' dir'"
proof -
  have "record_ok (record_appended (fs_next_sequence s + 1) e)"
    using ok by (simp add: record_ok_def record_appended_def opt_id_ok_def)
  then show ?thesis
    using c env room consistent_append [OF c, of "record_appended (fs_next_sequence s + 1) e"]
    by (auto simp: append_operation_def persist_record_def atomic_write_def synced_def Let_def
        record_appended_def split: write_outcome.splits)
qed

lemma store_record_consistent:
  assumes c: "fs_consistent s dir" and k: "k < length (fs_records s)" and ok: "record_ok r"
    and ev: "record_evolves (fs_records s ! k) r" and env: "synced env"
  shows "case store_record env k r s dir of (res, s', dir') \<Rightarrow> fs_consistent s' dir'"
  using c env consistent_update [OF c k ok] record_evolves_keeps [OF ev]
  by (auto simp: store_record_def persist_record_def atomic_write_def synced_def Let_def
      split: write_outcome.splits)

lemma record_at_ok: "fs_consistent s dir \<Longrightarrow> k < length (fs_records s) \<Longrightarrow> record_ok (fs_records s ! k)"
  by (simp add: fs_consistent_def)

lemma ack_operation_consistent:
  assumes c: "fs_consistent s dir" and cons: "stable_id (agent_id_str a)" and env: "synced env"
  shows "case ack_operation env i a s dir of (res, s', dir') \<Rightarrow> fs_consistent s' dir'"
proof (cases "find_position (fs_records s) i")
  case None
  then show ?thesis using c by (simp add: ack_operation_def)
next
  case (Some k)
  then have k: "k < length (fs_records s)" using find_position_Some by blast
  have "record_ok (snd (transition_to_acked (fs_records s ! k) a))"
    using record_at_ok [OF c k] cons by (simp add: transition_to_acked_def record_ok_def opt_id_ok_def)
  then show ?thesis
    using store_record_consistent [OF c k _ _ env, of "snd (transition_to_acked (fs_records s ! k) a)"]
      transition_to_acked_evolves [of "fs_records s ! k" a] c Some
    by (auto simp: ack_operation_def split: prod.splits sum.splits)
qed

lemma fail_operation_consistent:
  assumes c: "fs_consistent s dir" and cons: "stable_id (agent_id_str a)" and x: "error_ok x"
    and env: "synced env"
  shows "case fail_operation env i a x s dir of (res, s', dir') \<Rightarrow> fs_consistent s' dir'"
proof (cases "find_position (fs_records s) i")
  case None
  then show ?thesis using c by (simp add: fail_operation_def)
next
  case (Some k)
  then have k: "k < length (fs_records s)" using find_position_Some by blast
  have "record_ok (snd (transition_to_failed (fs_records s ! k) a x))"
    using record_at_ok [OF c k] cons x by (simp add: transition_to_failed_def record_ok_def opt_id_ok_def)
  then show ?thesis
    using store_record_consistent [OF c k _ _ env, of "snd (transition_to_failed (fs_records s ! k) a x)"]
      transition_to_failed_evolves [of "fs_records s ! k" a x] c Some
    by (auto simp: fail_operation_def split: prod.splits sum.splits)
qed

lemma with_mutation_consistent:
  "fs_consistent s dir \<Longrightarrow>
   with_mutation env now s dir operation =
     (if fs_writer s \<and> is_err (env_verify env) then (Inl (Fails (projl (env_verify env))), s, dir)
      else if fs_writer s \<and> is_err (reload_authoritative_records (env_load env) now s dir)
      then (Inl (projl (reload_authoritative_records (env_load env) now s dir)), s, dir)
      else operation s dir)"
  using reload_consistent_any [of s dir "env_load env" now]
  by (auto simp: with_mutation_def split: sum.splits)

subsection \<open>Sequences of calls in an environment\<close>

type_synonym fs_world = "fs_log \<times> directory"

fun fs_step :: "system_time \<Rightarrow> fs_world \<Rightarrow> io_env \<times> log_op \<Rightarrow> fs_world" where
  "fs_step now (s, dir) (env, LogAppend e) = snd (fs_append env now s dir e)"
| "fs_step now (s, dir) (env, LogAck i a) = snd (fs_ack env now s dir i a)"
| "fs_step now (s, dir) (env, LogFail i a x) = snd (fs_fail env now s dir i a x)"

definition fs_run :: "system_time \<Rightarrow> fs_world \<Rightarrow> (io_env \<times> log_op) list \<Rightarrow> fs_world" where
  "fs_run now w ops = foldl (fs_step now) w ops"

fun op_ok :: "log_op \<Rightarrow> bool" where
  "op_ok (LogAppend e) = event_ok e"
| "op_ok (LogAck i a) = stable_id (agent_id_str a)"
| "op_ok (LogFail i a x) = (stable_id (agent_id_str a) \<and> error_ok x)"

lemma fs_step_consistent:
  assumes c: "fs_consistent s dir" and ok: "op_ok x" and env: "synced env"
    and room: "fs_next_sequence s < fs_next_sequence s + 1"
  shows "case fs_step now (s, dir) (env, x) of (s', dir') \<Rightarrow> fs_consistent s' dir'"
proof (cases x)
  case (LogAppend e)
  then show ?thesis using append_operation_consistent [OF c _ env room, of e] ok c
    by (auto simp: fs_append_def with_mutation_consistent split: prod.splits)
next
  case (LogAck i a)
  then show ?thesis using ack_operation_consistent [OF c _ env, of a i] ok c
    by (auto simp: fs_ack_def with_mutation_consistent split: prod.splits)
next
  case (LogFail i a y)
  then show ?thesis using fail_operation_consistent [OF c _ _ env, of a y i] ok c
    by (auto simp: fs_fail_def with_mutation_consistent split: prod.splits)
qed

lemma fs_step_next:
  assumes "fs_consistent s dir"
  shows "case fs_step now (s, dir) (env, x) of (s', dir') \<Rightarrow>
    fs_next_sequence s' = fs_next_sequence s \<or> fs_next_sequence s' = fs_next_sequence s + 1"
  using assms
  by (cases x)
    (auto simp: fs_append_def fs_ack_def fs_fail_def with_mutation_consistent append_operation_def
      ack_operation_def fail_operation_def store_record_def persist_record_def Let_def
      split: prod.splits sum.splits option.splits)

lemma next_room: "unat n + 1 < 2 ^ 64 \<Longrightarrow> (n :: u64) < n + 1 \<and> unat (n + 1) = unat n + 1"
  by (simp add: word_less_nat_alt unat_word_ariths)

lemma fs_run_consistent:
  assumes "fs_consistent s dir" and "\<forall>(env, x) \<in> set ops. synced env \<and> op_ok x"
    and "unat (fs_next_sequence s) + length ops < 2 ^ 64"
  shows "fs_consistent (fst (fs_run now (s, dir) ops)) (snd (fs_run now (s, dir) ops)) \<and>
         unat (fs_next_sequence (fst (fs_run now (s, dir) ops))) \<le> unat (fs_next_sequence s) + length ops"
  using assms(2,3)
proof (induction ops rule: rev_induct)
  case Nil
  then show ?case using assms(1) by (simp add: fs_run_def)
next
  case (snoc y ops)
  obtain env x where y: "y = (env, x)" by (cases y)
  obtain s1 d1 where w: "fs_run now (s, dir) ops = (s1, d1)" by (cases "fs_run now (s, dir) ops")
  obtain s2 d2 where w2: "fs_step now (s1, d1) (env, x) = (s2, d2)" by (cases "fs_step now (s1, d1) (env, x)")
  have c1: "fs_consistent s1 d1" and n1: "unat (fs_next_sequence s1) \<le> unat (fs_next_sequence s) + length ops"
    using snoc w by auto
  have room: "unat (fs_next_sequence s1) + 1 < 2 ^ 64" using n1 snoc.prems(2) by simp
  have "fs_consistent s2 d2"
    using fs_step_consistent [OF c1, of x env now] snoc.prems(1) y w2 next_room [OF room] by auto
  moreover have "unat (fs_next_sequence s2) \<le> unat (fs_next_sequence s1) + 1"
    using fs_step_next [OF c1, of now env x] next_room [OF room] w2 by auto
  moreover have "fs_run now (s, dir) (ops @ [y]) = (s2, d2)" using w w2 y by (simp add: fs_run_def)
  ultimately show ?case using n1 by simp
qed

text \<open>A log opened on an empty directory is consistent.\<close>

definition fs_empty :: "string \<Rightarrow> bool \<Rightarrow> fs_log" where
  "fs_empty root writer = \<lparr>fs_root = root, fs_next_sequence = 0, fs_records = [], fs_writer = writer\<rparr>"

lemma fs_empty_consistent: "fs_consistent (fs_empty root writer) []"
  by (simp add: fs_consistent_def fs_empty_def)

lemma open_missing: "open_dir_with_mode load_works now root Missing True (Inr ()) writer = Inr (fs_empty root writer)"
  by (simp add: open_dir_with_mode_def reload_authoritative_records_def load_authoritative_records_def
      load_records_def load_works_def validate_loaded_records_def fs_empty_def Let_def)

lemma open_consistent:
  "fs_consistent s dir \<Longrightarrow> mset dir' = mset dir \<Longrightarrow>
   open_dir_with_mode load_works now (fs_root s) (Directory dir') create created (fs_writer s) = Inr s"
  by (simp add: open_dir_with_mode_def reload_authoritative_records_def load_consistent Let_def)

lemma open_works:
  assumes "open_dir_with_mode lio now root (Directory dir) create created writer = Inr s"
  shows "open_dir_with_mode load_works now root (Directory dir) create created writer = Inr s"
proof -
  obtain x where "load_authoritative_records lio now root dir = Inr x"
    using assms by (auto simp: open_dir_with_mode_def reload_authoritative_records_def res_simps Let_def)
  then show ?thesis using assms load_authoritative_works
    by (simp add: open_dir_with_mode_def reload_authoritative_records_def Let_def)
qed

subsection \<open>The contract of the trait, whatever the disk does\<close>

text \<open>
  A log without a writer, in an environment that supplies the outcome of each call in turn.
\<close>

type_synonym fs_hosted = "fs_log \<times> directory \<times> io_env list"

definition next_env :: "io_env list \<Rightarrow> io_env" where
  "next_env envs = (case envs of [] \<Rightarrow> \<lparr>env_verify = Inr (), env_load = load_works, env_write = WriteOk\<rparr> | env # _ \<Rightarrow> env)"

definition hosted ::
  "(io_env \<Rightarrow> fs_log \<Rightarrow> directory \<Rightarrow> 'a fs_result) \<Rightarrow> fs_hosted \<Rightarrow> 'a run \<times> fs_hosted" where
  "hosted call w = (case w of (s, dir, envs) \<Rightarrow>
     (case call (next_env envs) s dir of (res, s', dir') \<Rightarrow> (res, (s', dir', tl envs))))"

definition hosted_append :: "system_time \<Rightarrow> fs_hosted \<Rightarrow> event \<Rightarrow> event_log_record run \<times> fs_hosted" where
  "hosted_append now w e = hosted (\<lambda>env s dir. fs_append env now s dir e) w"

definition hosted_ack :: "system_time \<Rightarrow> fs_hosted \<Rightarrow> event_id \<Rightarrow> agent_id \<Rightarrow> event_log_record run \<times> fs_hosted" where
  "hosted_ack now w i a = hosted (\<lambda>env s dir. fs_ack env now s dir i a) w"

definition hosted_fail ::
  "system_time \<Rightarrow> fs_hosted \<Rightarrow> event_id \<Rightarrow> agent_id \<Rightarrow> eva_error \<Rightarrow> event_log_record run \<times> fs_hosted" where
  "hosted_fail now w i a x = hosted (\<lambda>env s dir. fs_fail env now s dir i a x) w"

lemmas hosted_defs = hosted_append_def hosted_ack_def hosted_fail_def hosted_def fs_append_def fs_ack_def
  fs_fail_def with_mutation_def append_operation_def ack_operation_def fail_operation_def store_record_def
  persist_record_def fs_watermark_def Let_def

lemma transition_unchanged: "transition_to_acked r c = (Inr False, r') \<Longrightarrow> r' = r"
  by (auto simp: transition_to_acked_def split: if_splits)

interpretation fs: event_log "\<lambda>w. \<not> fs_writer (fst w)" "\<lambda>w. fs_records (fst w)" "\<lambda>w. fs_watermark (fst w)"
  "hosted_append now" "hosted_ack now" "hosted_fail now" for now
proof unfold_locales
  fix w w' :: fs_hosted and e r
  assume "\<not> fs_writer (fst w)" and "hosted_append now w e = (Inr r, w')"
  then show "\<not> contains_event (fs_records (fst w)) (ev_id e) \<and> r = record_appended (fs_watermark (fst w) + 1) e \<and>
      fs_records (fst w') = fs_records (fst w) @ [r] \<and> fs_watermark (fst w') = fs_watermark (fst w) + 1"
    by (cases w) (auto simp: hosted_defs split: if_splits prod.splits sum.splits)
next
  fix w w' :: fs_hosted and i a r
  assume "\<not> fs_writer (fst w)" and "hosted_ack now w i a = (Inr r, w')"
  then show "\<exists>k. find_position (fs_records (fst w)) i = Some k \<and>
      r = snd (transition_to_acked (fs_records (fst w) ! k) a) \<and>
      \<not> is_err (fst (transition_to_acked (fs_records (fst w) ! k) a)) \<and>
      fs_records (fst w') = (fs_records (fst w))[k := r] \<and> fs_watermark (fst w') = fs_watermark (fst w)"
    by (cases w) (auto simp: hosted_defs dest: transition_unchanged
        split: if_splits prod.splits sum.splits option.splits)
next
  fix w w' :: fs_hosted and i a x r
  assume "\<not> fs_writer (fst w)" and "hosted_fail now w i a x = (Inr r, w')"
  then show "\<exists>k. find_position (fs_records (fst w)) i = Some k \<and>
      r = snd (transition_to_failed (fs_records (fst w) ! k) a x) \<and>
      \<not> is_err (fst (transition_to_failed (fs_records (fst w) ! k) a x)) \<and>
      fs_records (fst w') = (fs_records (fst w))[k := r] \<and> fs_watermark (fst w') = fs_watermark (fst w)"
    by (cases w) (auto simp: hosted_defs split: if_splits prod.splits sum.splits option.splits)
qed (auto simp: hosted_defs split: if_splits prod.splits sum.splits option.splits)

subsection \<open>An append that fails after the rename\<close>

lemma unsynced_append:
  assumes c: "fs_consistent s dir" and w: "fs_writer s" and ok: "event_ok e"
    and fresh: "\<not> contains_event (fs_records s) (ev_id e)"
    and room: "fs_next_sequence s < fs_next_sequence s + 1"
    and v: "env_verify env = Inr ()" "env_load env = load_works" and u: "env_write env = WriteUnsynced m"
  defines "r \<equiv> record_appended (fs_next_sequence s + 1) e"
  shows "\<exists>err. fs_append env now s dir e = (Inl (Fails err), s, dir_put dir (record_file (lr_sequence r)) (record_to_storage r)) \<and>
      err_kind err = Internal"
    and "fs_consistent (s\<lparr>fs_next_sequence := lr_sequence r, fs_records := fs_records s @ [r]\<rparr>)
           (dir_put dir (record_file (lr_sequence r)) (record_to_storage r))"
proof -
  have "record_ok r" using ok by (simp add: r_def record_ok_def record_appended_def opt_id_ok_def)
  then show "fs_consistent (s\<lparr>fs_next_sequence := lr_sequence r, fs_records := fs_records s @ [r]\<rparr>)
           (dir_put dir (record_file (lr_sequence r)) (record_to_storage r))"
    using consistent_append [OF c, of r] room fresh by (simp add: r_def record_appended_def)
  show "\<exists>err. fs_append env now s dir e = (Inl (Fails err), s, dir_put dir (record_file (lr_sequence r)) (record_to_storage r)) \<and>
      err_kind err = Internal"
    using c w fresh v u
    by (simp add: fs_append_def with_mutation_consistent reload_consistent append_operation_def persist_record_def
        atomic_write_def Let_def r_def)
qed

subsection \<open>Properties\<close>

text \<open>
  C1. Restart loses nothing: start from a log and a directory that agree, with or without a writer,
  and make any calls with storable arguments, where each write either succeeds or fails before the
  rename and listing and reading may fail at any call. Reopening the directory afterwards, with its
  files listed in any order, gives exactly the log that was in memory: same records in the same
  order, same watermark. A reopening in which the disk reports errors may fail, but one that
  succeeds gives that log too, never a part of it.
\<close>
theorem restart_recovers:
  assumes "fs_consistent s dir"
    and "\<forall>(env, x) \<in> set ops. synced env \<and> op_ok x"
    and "unat (fs_next_sequence s) + length ops < 2 ^ 64"
    and "fs_run now (s, dir) ops = (s', dir')"
    and "mset listing = mset dir'"
  shows "open_dir_with_mode load_works later (fs_root s') (Directory listing) create created (fs_writer s') = Inr s' \<and>
    (\<forall>lio s''. open_dir_with_mode lio later (fs_root s') (Directory listing) create created (fs_writer s') = Inr s'' \<longrightarrow>
       s'' = s')"
proof -
  have "open_dir_with_mode load_works later (fs_root s') (Directory listing) create created (fs_writer s') = Inr s'"
    using fs_run_consistent [OF assms(1-3), of now] assms(4,5) by (auto intro: open_consistent)
  then show ?thesis using open_works by fastforce
qed

definition sample_ops :: "(io_env \<times> log_op) list" where
  "sample_ops =
     [(\<lparr>env_verify = Inr (), env_load = load_works, env_write = WriteOk\<rparr>, LogAppend (lr_event sample_record)),
      (\<lparr>env_verify = Inr (), env_load = load_works, env_write = WriteFailed ''full''\<rparr>, LogAck (EventId ''e'') (AgentId ''c'')),
      (\<lparr>env_verify = Inr (), env_load = load_works, env_write = WriteOk\<rparr>, LogAck (EventId ''e'') (AgentId ''c''))]"

lemma sample_ops_ok: "\<forall>(env, x) \<in> set sample_ops. synced env \<and> op_ok x"
  using sample_record_ok
  by (auto simp: sample_ops_def synced_def record_ok_def opt_id_ok_def sample_record_def)

theorem restart_recovers_witness:
  "open_dir_with_mode load_works 5 (fs_root (fst (fs_run 0 (fs_empty ''log'' True, []) sample_ops)))
     (Directory (rev (snd (fs_run 0 (fs_empty ''log'' True, []) sample_ops)))) False (Inr ())
     (fs_writer (fst (fs_run 0 (fs_empty ''log'' True, []) sample_ops))) =
   Inr (fst (fs_run 0 (fs_empty ''log'' True, []) sample_ops))"
  by (rule restart_recovers [OF fs_empty_consistent sample_ops_ok _ surjective_pairing, THEN conjunct1])
    (simp_all add: fs_empty_def sample_ops_def)

text \<open>
  The filesystem log keeps the contract of the trait whatever the disk does: without a writer,
  under any sequence of calls and any outcome of every write, including failures after the rename,
  the records in memory keep their position, event and sequence number, and an acked record is
  never changed again.
\<close>
theorem fs_log_append_only:
  assumes "\<not> fs_writer (fst w)" and "k < length (fs_records (fst w))"
  shows "let w' = log_run (hosted_append now) (hosted_ack now) (hosted_fail now) w ops in
    k < length (fs_records (fst w')) \<and>
    lr_event (fs_records (fst w') ! k) = lr_event (fs_records (fst w) ! k) \<and>
    lr_sequence (fs_records (fst w') ! k) = lr_sequence (fs_records (fst w) ! k) \<and>
    (lr_status (fs_records (fst w) ! k) = Acked \<longrightarrow> fs_records (fst w') ! k = fs_records (fst w) ! k)"
  using fs.events_are_kept [OF assms, of now ops] fs.acked_is_final [OF assms, of now ops]
  by (simp add: Let_def)

definition sample_host :: fs_hosted where
  "sample_host = (\<lparr>fs_root = ''log'', fs_next_sequence = 7, fs_records = [sample_record], fs_writer = False\<rparr>,
     [file_of sample_record], [\<lparr>env_verify = Inr (), env_load = load_works, env_write = WriteUnsynced ''eio''\<rparr>])"

theorem fs_log_append_only_witness:
  "let w' = log_run (hosted_append 0) (hosted_ack 0) (hosted_fail 0) sample_host [LogAck (EventId ''e'') (AgentId ''c'')] in
   0 < length (fs_records (fst w')) \<and>
   lr_event (fs_records (fst w') ! 0) = lr_event (fs_records (fst sample_host) ! 0) \<and>
   lr_sequence (fs_records (fst w') ! 0) = lr_sequence (fs_records (fst sample_host) ! 0) \<and>
   (lr_status (fs_records (fst sample_host) ! 0) = Acked \<longrightarrow>
      fs_records (fst w') ! 0 = fs_records (fst sample_host) ! 0)"
  by (rule fs_log_append_only) (simp_all add: sample_host_def)

text \<open>
  C35. A failed append may be durable: with a writer, if syncing the directory fails after the
  rename, \<^verbatim>\<open>append\<close> reports an internal error, but the event is on disk. Trying the same event again
  is refused as a duplicate, however that second call's write would have ended. (Both calls find the
  fence held and can read the directory.)
\<close>
theorem unsynced_append_is_durable:
  assumes "fs_consistent s dir" and "fs_writer s" and "event_ok e"
    and "\<not> contains_event (fs_records s) (ev_id e)"
    and "fs_next_sequence s < fs_next_sequence s + 1"
    and "env_verify env = Inr ()" and "env_load env = load_works" and "env_write env = WriteUnsynced m"
    and "env_verify env' = Inr ()" and "env_load env' = load_works"
    and "fs_append env now s dir e = (res, s', dir')"
  shows "\<exists>err. res = Inl (Fails err) \<and> err_kind err = Internal \<and>
    fst (fs_append env' later s' dir' e) = Inl (Fails (log_duplicate (ev_id e)))"
proof -
  let ?r = "record_appended (fs_next_sequence s + 1) e"
  let ?d = "dir_put dir (record_file (lr_sequence ?r)) (record_to_storage ?r)"
  let ?s = "s\<lparr>fs_next_sequence := lr_sequence ?r, fs_records := fs_records s @ [?r]\<rparr>"
  obtain err where first: "res = Inl (Fails err)" "s' = s" "dir' = ?d" "err_kind err = Internal"
    using unsynced_append(1) [OF assms(1-8), of now] assms(11) by auto
  have "reload_authoritative_records load_works later s ?d = Inr ?s"
    using load_consistent [OF unsynced_append(2) [OF assms(1-8)] refl, of later "fs_root s"]
    by (simp add: reload_authoritative_records_def)
  then have "fst (fs_append env' later s ?d e) = Inl (Fails (log_duplicate (ev_id e)))"
    using assms(2,9,10)
    by (simp add: fs_append_def with_mutation_def append_operation_def contains_event_def record_appended_def)
  then show ?thesis using first by simp
qed

definition failing_sync :: io_env where
  "failing_sync = \<lparr>env_verify = Inr (), env_load = load_works, env_write = WriteUnsynced ''eio''\<rparr>"

theorem unsynced_append_is_durable_witness:
  "let first = fs_append failing_sync 0 (fs_empty ''log'' True) [] (lr_event sample_record) in
   \<exists>err. fst first = Inl (Fails err) \<and> err_kind err = Internal \<and>
     fst (fs_append failing_sync 1 (fst (snd first)) (snd (snd first)) (lr_event sample_record)) =
       Inl (Fails (log_duplicate (ev_id (lr_event sample_record))))"
  unfolding Let_def
  by (rule unsynced_append_is_durable [OF fs_empty_consistent, where m = "''eio''" and env = failing_sync and now = 0])
    (use sample_record_ok in \<open>simp_all add: fs_empty_def failing_sync_def record_ok_def contains_event_def\<close>)

end
