(* ===== verification/Event_Bus.thy ===== *)
theory Event_Bus
  imports Storage_EventLog
begin

section \<open>The in-memory event bus and its dead letters (eva-eventbus)\<close>

text \<open>
  Models bus.rs, in_memory.rs and dead_letter.rs: publication with receipts, delegation of
  acknowledgements to the log, the dead-letter queue, and the replay of dead letters as new child
  events. A replay reads the clock once per record; \<open>clock k\<close> is the reading for the record at
  position \<open>k\<close>.
\<close>

record event_receipt =
  rcp_event_id :: event_id
  rcp_sequence :: u64
  rcp_topic :: topic
  rcp_target :: event_target

definition receipt_from_record :: "event_log_record \<Rightarrow> event_receipt" where
  "receipt_from_record r =
     \<lparr>rcp_event_id = record_id r, rcp_sequence = lr_sequence r,
      rcp_topic = ev_topic (lr_event r), rcp_target = ev_target (lr_event r)\<rparr>"

record replay_handler_binding =
  rh_handler_kind :: string
  rh_agent_id :: agent_id
  rh_idempotency_key :: "request_id option"

record redrive_policy =
  retry_delay_ms :: u64
  next_attempt_after_ms :: u64

definition redrive_default :: redrive_policy where
  "redrive_default = \<lparr>retry_delay_ms = 0, next_attempt_after_ms = 0\<rparr>"

record dead_letter_record =
  dl_event :: event
  dl_reason :: eva_error
  dl_replay_count :: nat
  dl_redrive :: redrive_policy
  dl_replay_handlers :: "replay_handler_binding list"

abbreviation dl_id :: "dead_letter_record \<Rightarrow> event_id" where
  "dl_id d \<equiv> ev_id (dl_event d)"

definition validate_handler_segment :: "string \<Rightarrow> string \<Rightarrow> unit res" where
  "validate_handler_segment value segment =
     (if segment = [] \<or> \<not> (\<forall>c \<in> set segment. is_capability_char c)
      then Inl (with_context (err_invalid_argument ''replay handler kind contains an invalid segment'')
             ''handler_kind'' value)
      else Inr ())"

definition validate_handler_kind :: "string \<Rightarrow> unit res" where
  "validate_handler_kind value =
     (if value = [] \<or> trim value \<noteq> value \<or> length value > 128
      then Inl (with_context (err_invalid_argument ''replay handler kind must be a stable dotted name'')
             ''handler_kind'' value)
      else res_all (validate_handler_segment value) (split_on CHR ''.'' value))"

definition validate_replay_handlers :: "replay_handler_binding list \<Rightarrow> unit res" where
  "validate_replay_handlers bindings =
     (if length bindings > 32
      then Inl (with_context (with_context (err_invalid_argument
              ''dead-letter replay handler count exceeds scheduler route limit'')
              ''replay_handler_count'' (nat_str (length bindings)))
              ''max_replay_handlers'' (nat_str 32))
      else res_all (\<lambda>b. validate_handler_kind (rh_handler_kind b)) bindings)"

definition replay_handler_binding_new :: "string \<Rightarrow> agent_id \<Rightarrow> replay_handler_binding res" where
  "replay_handler_binding_new kind a = res_bind (validate_handler_kind kind)
     (\<lambda>_. Inr \<lparr>rh_handler_kind = kind, rh_agent_id = a, rh_idempotency_key = None\<rparr>)"

definition dead_letter_new :: "event \<Rightarrow> eva_error \<Rightarrow> dead_letter_record" where
  "dead_letter_new e reason =
     \<lparr>dl_event = e, dl_reason = reason, dl_replay_count = 0, dl_redrive = redrive_default,
      dl_replay_handlers = []\<rparr>"

definition dead_letter_with_handlers ::
  "event \<Rightarrow> eva_error \<Rightarrow> replay_handler_binding list \<Rightarrow> redrive_policy \<Rightarrow> dead_letter_record res" where
  "dead_letter_with_handlers e reason handlers redrive =
     res_bind (validate_replay_handlers handlers)
       (\<lambda>_. Inr \<lparr>dl_event = e, dl_reason = reason, dl_replay_count = 0, dl_redrive = redrive,
                 dl_replay_handlers = handlers\<rparr>)"

type_synonym dead_letter_queue = "dead_letter_record list"

definition dlq_push :: "dead_letter_queue \<Rightarrow> event \<Rightarrow> eva_error \<Rightarrow> dead_letter_record \<times> dead_letter_queue" where
  "dlq_push q e reason = (let r = dead_letter_new e reason in (r, q @ [r]))"

definition dlq_push_with_handlers ::
  "dead_letter_queue \<Rightarrow> event \<Rightarrow> eva_error \<Rightarrow> replay_handler_binding list \<Rightarrow>
     dead_letter_record res \<times> dead_letter_queue" where
  "dlq_push_with_handlers q e reason handlers =
     (case dead_letter_with_handlers e reason handlers redrive_default of
        Inl err \<Rightarrow> (Inl err, q)
      | Inr r \<Rightarrow> (Inr r, q @ [r]))"

definition count_up :: "dead_letter_record \<Rightarrow> dead_letter_record" where
  "count_up d = d\<lparr>dl_replay_count := dl_replay_count d + 1\<rparr>"

definition replay_all :: "dead_letter_queue \<Rightarrow> event list \<times> dead_letter_queue" where
  "replay_all q = (map dl_event q, map count_up q)"

fun replay_event_loop :: "dead_letter_queue \<Rightarrow> event_id \<Rightarrow> (event \<times> dead_letter_queue) option" where
  "replay_event_loop [] i = None"
| "replay_event_loop (d # q) i =
     (if dl_id d = i then Some (dl_event d, count_up d # q)
      else map_option (\<lambda>(e, q'). (e, d # q')) (replay_event_loop q i))"

definition replay_event :: "dead_letter_queue \<Rightarrow> event_id \<Rightarrow> event res \<times> dead_letter_queue" where
  "replay_event q i = (case replay_event_loop q i of
     None \<Rightarrow> (Inl (with_context (err_not_found ''dead-letter event does not exist'')
               ''event_id'' (event_id_str i)), q)
   | Some (e, q') \<Rightarrow> (Inr e, q'))"

definition replay_id_text :: "dead_letter_record \<Rightarrow> string" where
  "replay_id_text d = event_id_str (dl_id d) @ '':replay-'' @ nat_str (dl_replay_count d)"

definition replay_one :: "system_time \<Rightarrow> dead_letter_record \<Rightarrow> event res \<times> dead_letter_record" where
  "replay_one now d =
     (let d = count_up d in
      (res_bind (event_id_parse (replay_id_text d)) (\<lambda>replay_id.
         Inr (event_with_target
                (child_event now (dl_event d) replay_id (ev_topic (dl_event d)) (ev_payload (dl_event d)))
                (ev_target (dl_event d)))), d))"

text \<open>\<^verbatim>\<open>iter_mut().map(..).collect()\<close> stops at the first error and leaves later records untouched.\<close>

fun replay_publish_loop ::
  "(nat \<Rightarrow> system_time) \<Rightarrow> nat \<Rightarrow> dead_letter_queue \<Rightarrow> event list res \<times> dead_letter_queue" where
  "replay_publish_loop clock k [] = (Inr [], [])"
| "replay_publish_loop clock k (d # q) = (case replay_one (clock k) d of
     (Inl err, d') \<Rightarrow> (Inl err, d' # q)
   | (Inr e, d') \<Rightarrow> (case replay_publish_loop clock (k + 1) q of
         (res, q') \<Rightarrow> (res_bind res (\<lambda>es. Inr (e # es)), d' # q')))"

definition replay_all_for_publish ::
  "(nat \<Rightarrow> system_time) \<Rightarrow> dead_letter_queue \<Rightarrow> event list res \<times> dead_letter_queue" where
  "replay_all_for_publish clock q = replay_publish_loop clock 0 q"

subsection \<open>The bus\<close>

record in_memory_event_bus =
  bus_log :: in_memory_event_log
  bus_dead_letters :: dead_letter_queue
  bus_receipts :: "event_receipt list"

definition bus_with_log :: "in_memory_event_log \<Rightarrow> in_memory_event_bus" where
  "bus_with_log log = \<lparr>bus_log = log, bus_dead_letters = [], bus_receipts = []\<rparr>"

definition bus_new :: in_memory_event_bus where
  "bus_new = bus_with_log in_memory_log_new"

definition bus_publish :: "in_memory_event_bus \<Rightarrow> event \<Rightarrow> event_receipt res \<times> in_memory_event_bus" where
  "bus_publish b e = (case im_append (bus_log b) e of
     (Inl err, log) \<Rightarrow> (Inl err, b\<lparr>bus_log := log\<rparr>)
   | (Inr r, log) \<Rightarrow>
       (Inr (receipt_from_record r),
        b\<lparr>bus_log := log, bus_receipts := bus_receipts b @ [receipt_from_record r]\<rparr>))"

definition bus_ack ::
  "in_memory_event_bus \<Rightarrow> event_id \<Rightarrow> agent_id \<Rightarrow> event_log_record res \<times> in_memory_event_bus" where
  "bus_ack b i consumer = (case im_ack (bus_log b) i consumer of
     (res, log) \<Rightarrow> (res, b\<lparr>bus_log := log\<rparr>))"

definition bus_fail ::
  "in_memory_event_bus \<Rightarrow> event_id \<Rightarrow> agent_id \<Rightarrow> eva_error \<Rightarrow>
     event_log_record res \<times> in_memory_event_bus" where
  "bus_fail b i consumer err = (case im_fail (bus_log b) i consumer err of
     (res, log) \<Rightarrow> (res, b\<lparr>bus_log := log\<rparr>))"

definition bus_dead_letter ::
  "in_memory_event_bus \<Rightarrow> event \<Rightarrow> eva_error \<Rightarrow> dead_letter_record \<times> in_memory_event_bus" where
  "bus_dead_letter b e reason = (case dlq_push (bus_dead_letters b) e reason of
     (r, q) \<Rightarrow> (r, b\<lparr>bus_dead_letters := q\<rparr>))"

fun publish_all :: "in_memory_event_bus \<Rightarrow> event list \<Rightarrow> event_receipt list res \<times> in_memory_event_bus" where
  "publish_all b [] = (Inr [], b)"
| "publish_all b (e # es) = (case bus_publish b e of
     (Inl err, b') \<Rightarrow> (Inl err, b')
   | (Inr rcp, b') \<Rightarrow> (case publish_all b' es of
         (res, b'') \<Rightarrow> (res_bind res (\<lambda>rs. Inr (rcp # rs)), b'')))"

definition replay_dead_letters ::
  "(nat \<Rightarrow> system_time) \<Rightarrow> in_memory_event_bus \<Rightarrow> event_receipt list res \<times> in_memory_event_bus" where
  "replay_dead_letters clock b = (case replay_all_for_publish clock (bus_dead_letters b) of
     (Inl err, q) \<Rightarrow> (Inl err, b\<lparr>bus_dead_letters := q\<rparr>)
   | (Inr es, q) \<Rightarrow> publish_all (b\<lparr>bus_dead_letters := q\<rparr>) es)"

subsection \<open>Replay identifiers\<close>

lemma replay_id_inj:
  assumes "a @ '':replay-'' @ nat_str m = b @ '':replay-'' @ nat_str n"
  shows "a = b \<and> m = n"
proof -
  have no_colon: "CHR '':'' \<notin> set (rev (''replay-'' @ nat_str k))" for k
    using nat_str_digits [of "CHR '':''" k] by (auto simp: is_ascii_digit_def)
  have split: "split_once CHR '':'' (rev (x @ '':replay-'' @ nat_str k)) =
        Some (rev (''replay-'' @ nat_str k), rev x)" for x k
    using split_once_append [OF no_colon, of k "rev x"] by simp
  have "Some (rev (''replay-'' @ nat_str m), rev a) = Some (rev (''replay-'' @ nat_str n), rev b)"
    unfolding split [symmetric] assms ..
  then show ?thesis by simp
qed

lemma count_up_fields [simp]:
  "dl_event (count_up d) = dl_event d" "dl_replay_count (count_up d) = dl_replay_count d + 1"
  by (simp_all add: count_up_def)

lemma replay_text_inj:
  "replay_id_text (count_up d) = replay_id_text (count_up d') \<longleftrightarrow>
   dl_id d = dl_id d' \<and> dl_replay_count d = dl_replay_count d'"
proof
  assume "replay_id_text (count_up d) = replay_id_text (count_up d')"
  then have "event_id_str (dl_id d) @ '':replay-'' @ nat_str (dl_replay_count d + 1) =
             event_id_str (dl_id d') @ '':replay-'' @ nat_str (dl_replay_count d' + 1)"
    by (simp only: replay_id_text_def count_up_fields)
  from replay_id_inj [OF this] show "dl_id d = dl_id d' \<and> dl_replay_count d = dl_replay_count d'"
    using event_id.expand by simp
qed (simp add: replay_id_text_def)

definition replay_child :: "system_time \<Rightarrow> dead_letter_record \<Rightarrow> event" where
  "replay_child now d = event_with_target
     (child_event now (dl_event d) (EventId (replay_id_text (count_up d)))
        (ev_topic (dl_event d)) (ev_payload (dl_event d))) (ev_target (dl_event d))"

lemma replay_child_fields [simp]:
  "ev_id (replay_child now d) = EventId (replay_id_text (count_up d))"
  "ev_topic (replay_child now d) = ev_topic (dl_event d)"
  "ev_payload (replay_child now d) = ev_payload (dl_event d)"
  "ev_target (replay_child now d) = ev_target (dl_event d)"
  "causation_id (md_trace (ev_metadata (replay_child now d))) = Some (dl_id d)"
  "correlation_id (md_trace (ev_metadata (replay_child now d))) = Some (root_id (dl_event d))"
  by (simp_all add: replay_child_def event_with_target_def)

fun replay_children :: "(nat \<Rightarrow> system_time) \<Rightarrow> nat \<Rightarrow> dead_letter_queue \<Rightarrow> event list" where
  "replay_children clock k [] = []"
| "replay_children clock k (d # q) = replay_child (clock k) d # replay_children clock (k + 1) q"

lemma replay_children_ids:
  "map ev_id (replay_children clock k q) = map (\<lambda>d. EventId (replay_id_text (count_up d))) q"
  by (induction clock k q rule: replay_children.induct) simp_all

lemma replay_one_eq:
  "replay_one now d =
     (if stable_id (replay_id_text (count_up d)) then (Inr (replay_child now d), count_up d)
      else (Inl (projl (event_id_parse (replay_id_text (count_up d)))), count_up d))"
proof (cases "event_id_parse (replay_id_text (count_up d))")
  case (Inl e)
  then have "\<not> stable_id (replay_id_text (count_up d))"
    using id_parse_iff(5) [of "replay_id_text (count_up d)" "EventId (replay_id_text (count_up d))"] by simp
  then show ?thesis using Inl by (simp add: replay_one_def Let_def)
next
  case (Inr i)
  then have "stable_id (replay_id_text (count_up d))" and "i = EventId (replay_id_text (count_up d))"
    by (simp_all add: id_parse_iff)
  then show ?thesis using Inr by (simp add: replay_one_def Let_def replay_child_def)
qed

lemma replay_publish_loop_ok:
  "\<forall>d \<in> set q. stable_id (replay_id_text (count_up d)) \<Longrightarrow>
   replay_publish_loop clock k q = (Inr (replay_children clock k q), map count_up q)"
  by (induction clock k q rule: replay_publish_loop.induct) (auto simp: replay_one_eq)

lemma is_err_bind [simp]: "is_err (res_bind r k) \<longleftrightarrow> is_err r \<or> (\<exists>x. r = Inr x \<and> is_err (k x))"
  by (cases r) auto

lemma event_id_parse_err: "event_id_parse v = Inl err \<Longrightarrow> err_kind err = InvalidArgument"
  by (auto simp: event_id_parse_def validate_id_def id_error_def res_simps split: if_splits)

lemma replay_one_err: "fst (replay_one now d) = Inl err \<Longrightarrow> err_kind err = InvalidArgument"
  using event_id_parse_err by (auto simp: replay_one_def Let_def res_simps)

lemma replay_publish_loop_err:
  "\<exists>d \<in> set q. \<not> stable_id (replay_id_text (count_up d)) \<Longrightarrow>
   \<exists>err. fst (replay_publish_loop clock k q) = Inl err \<and> err_kind err = InvalidArgument"
proof (induction q arbitrary: k)
  case (Cons d q)
  show ?case
  proof (cases "stable_id (replay_id_text (count_up d))")
    case True
    then show ?thesis using Cons.prems Cons.IH [of "k + 1"]
      by (auto simp: replay_one_eq case_prod_beta)
  next
    case False
    then show ?thesis using replay_one_err [of "clock k" d] by (simp add: replay_one_eq)
  qed
qed simp

subsection \<open>Publishing several events\<close>

lemma bus_publish_eq:
  "bus_publish b e =
     (if contains_event (im_records (bus_log b)) (ev_id e)
      then (Inl (log_duplicate (ev_id e)), b)
      else let r = record_appended (im_watermark (bus_log b) + 1) e in
        (Inr (receipt_from_record r),
         b\<lparr>bus_log := \<lparr>im_next_sequence = im_watermark (bus_log b) + 1,
                        im_records = im_records (bus_log b) @ [r]\<rparr>,
           bus_receipts := bus_receipts b @ [receipt_from_record r]\<rparr>))"
  by (simp add: bus_publish_def im_append_def im_watermark_def Let_def)

lemma contains_event_append [simp]:
  "contains_event (rs @ [record_appended w e]) i \<longleftrightarrow> contains_event rs i \<or> ev_id e = i"
  by (auto simp: contains_event_def record_appended_def)

lemma publish_all_ok_iff:
  "\<not> is_err (fst (publish_all b es)) \<longleftrightarrow>
     distinct (map ev_id es) \<and> (\<forall>e \<in> set es. \<not> contains_event (im_records (bus_log b)) (ev_id e))"
proof (induction es arbitrary: b)
  case (Cons e es)
  show ?case
  proof (cases "contains_event (im_records (bus_log b)) (ev_id e)")
    case True
    then show ?thesis by (simp add: bus_publish_eq)
  next
    case False
    then show ?thesis using Cons [of "snd (bus_publish b e)"]
      by (auto simp: bus_publish_eq Let_def case_prod_beta)
  qed
qed simp

lemma publish_all_records:
  "\<not> is_err (fst (publish_all b es)) \<Longrightarrow>
   \<exists>new. im_records (bus_log (snd (publish_all b es))) = im_records (bus_log b) @ new \<and>
     map lr_event new = es \<and> fst (publish_all b es) = Inr (map receipt_from_record new) \<and>
     bus_dead_letters (snd (publish_all b es)) = bus_dead_letters b"
proof (induction es arbitrary: b)
  case (Cons e es)
  let ?r = "record_appended (im_watermark (bus_log b) + 1) e" and ?b = "snd (bus_publish b e)"
  have fresh: "\<not> contains_event (im_records (bus_log b)) (ev_id e)"
    using Cons.prems by (auto simp: bus_publish_eq split: if_splits)
  then have "\<not> is_err (fst (publish_all ?b es))"
    using Cons.prems by (auto simp: bus_publish_eq Let_def case_prod_beta)
  from Cons.IH [OF this] obtain new where
    "im_records (bus_log (snd (publish_all ?b es))) = im_records (bus_log ?b) @ new"
    "map lr_event new = es" "fst (publish_all ?b es) = Inr (map receipt_from_record new)"
    "bus_dead_letters (snd (publish_all ?b es)) = bus_dead_letters ?b" by blast
  then show ?case using fresh
    by (intro exI [of _ "?r # new"])
      (auto simp: bus_publish_eq Let_def case_prod_beta record_appended_def)
qed simp

lemma publish_all_err_kind: "fst (publish_all b es) = Inl err \<Longrightarrow> err_kind err = Conflict"
proof (induction es arbitrary: b)
  case (Cons e es)
  then show ?case
    by (cases "contains_event (im_records (bus_log b)) (ev_id e)")
      (auto simp: bus_publish_eq Let_def case_prod_beta res_simps log_duplicate_def)
qed simp

lemma publish_all_prefix:
  "\<exists>new n. im_records (bus_log (snd (publish_all b es))) = im_records (bus_log b) @ new \<and>
     map lr_event new = take n es"
proof (induction es arbitrary: b)
  case (Cons e es)
  let ?r = "record_appended (im_watermark (bus_log b) + 1) e" and ?b = "snd (bus_publish b e)"
  show ?case
  proof (cases "contains_event (im_records (bus_log b)) (ev_id e)")
    case True
    then show ?thesis by (simp add: bus_publish_eq)
  next
    case False
    obtain new n where "im_records (bus_log (snd (publish_all ?b es))) = im_records (bus_log ?b) @ new"
      "map lr_event new = take n es" using Cons.IH by blast
    then show ?thesis using False
      by (intro exI [of _ "?r # new"] exI [of _ "Suc n"])
        (auto simp: bus_publish_eq Let_def case_prod_beta record_appended_def)
  qed
qed simp

subsection \<open>Receipts follow the log\<close>

datatype bus_op =
    Publish event
  | AckOp event_id agent_id
  | FailOp event_id agent_id eva_error
  | DeadLetter event eva_error
  | ReplayDeadLetters "nat \<Rightarrow> system_time"

fun bus_step :: "in_memory_event_bus \<Rightarrow> bus_op \<Rightarrow> in_memory_event_bus" where
  "bus_step b (Publish e) = snd (bus_publish b e)"
| "bus_step b (AckOp i a) = snd (bus_ack b i a)"
| "bus_step b (FailOp i a err) = snd (bus_fail b i a err)"
| "bus_step b (DeadLetter e reason) = snd (bus_dead_letter b e reason)"
| "bus_step b (ReplayDeadLetters clock) = snd (replay_dead_letters clock b)"

definition bus_run :: "in_memory_event_bus \<Rightarrow> bus_op list \<Rightarrow> in_memory_event_bus" where
  "bus_run b ops = foldl bus_step b ops"

definition receipts_match :: "in_memory_event_bus \<Rightarrow> bool" where
  "receipts_match b \<longleftrightarrow> bus_receipts b = map receipt_from_record (im_records (bus_log b))"

lemma receipt_evolves: "record_evolves r r' \<Longrightarrow> receipt_from_record r' = receipt_from_record r"
  using record_evolves_keeps by (simp add: receipt_from_record_def)

lemma log_update_receipts:
  assumes "log_extends w rs w' rs'" and "length rs' = length rs"
  shows "map receipt_from_record rs' = map receipt_from_record rs"
  using assms receipt_evolves by (intro nth_equalityI) (auto simp: log_extends_def)

lemma publish_receipts: "receipts_match b \<Longrightarrow> receipts_match (snd (bus_publish b e))"
  by (simp add: receipts_match_def bus_publish_eq Let_def)

lemma publish_all_receipts: "receipts_match b \<Longrightarrow> receipts_match (snd (publish_all b es))"
proof (induction es arbitrary: b)
  case (Cons e es)
  then show ?case using publish_receipts [of b e]
    by (auto simp: case_prod_beta split: prod.splits sum.splits)
qed simp

lemma ack_receipts: "receipts_match b \<Longrightarrow> receipts_match (snd (bus_ack b i a))"
proof -
  assume m: "receipts_match b"
  have "length (im_records (snd (im_ack s i a))) = length (im_records s)" for s
    by (auto simp: im_ack_def Let_def case_prod_beta split: option.splits sum.splits)
  then show ?thesis
    using m log_update_receipts [OF im.ack_extends [of "bus_log b" i a]]
    by (simp add: bus_ack_def receipts_match_def case_prod_beta)
qed

lemma fail_receipts: "receipts_match b \<Longrightarrow> receipts_match (snd (bus_fail b i a err))"
proof -
  assume m: "receipts_match b"
  have "length (im_records (snd (im_fail s i a err))) = length (im_records s)" for s
    by (auto simp: im_fail_def Let_def case_prod_beta split: option.splits sum.splits)
  then show ?thesis
    using m log_update_receipts [OF im.fail_extends [of "bus_log b" i a err]]
    by (simp add: bus_fail_def receipts_match_def case_prod_beta)
qed

lemma replay_receipts: "receipts_match b \<Longrightarrow> receipts_match (snd (replay_dead_letters clock b))"
  using publish_all_receipts
  by (auto simp: replay_dead_letters_def receipts_match_def split: prod.splits sum.splits)

lemma bus_step_receipts: "receipts_match b \<Longrightarrow> receipts_match (bus_step b x)"
  by (cases x) (simp_all add: publish_receipts ack_receipts fail_receipts replay_receipts,
      simp add: bus_dead_letter_def receipts_match_def case_prod_beta)

lemma bus_run_receipts: "receipts_match b \<Longrightarrow> receipts_match (bus_run b ops)"
  by (induction ops arbitrary: b) (simp_all add: bus_run_def bus_step_receipts)

lemma bus_new_receipts: "receipts_match bus_new"
  by (simp add: receipts_match_def bus_new_def bus_with_log_def in_memory_log_new_def)

subsection \<open>Properties\<close>

text \<open>
  Receipts tell the truth: after any sequence of publications, acknowledgements, failures,
  dead letters and replays on a new bus, the receipts it has handed out are exactly the event id,
  sequence number, topic and target of the log records, one for each, in log order.
\<close>
theorem receipts_are_log:
  "bus_receipts (bus_run bus_new ops) =
   map receipt_from_record (im_records (bus_log (bus_run bus_new ops)))"
  using bus_run_receipts [OF bus_new_receipts, of ops] by (simp add: receipts_match_def)

text \<open>
  C39. What a replay of the dead letters does, for every queue and log. If one of the new identifiers
  is ill formed (an original id so long that the suffix does not fit), the call fails with an
  invalid argument and publishes nothing at all. Otherwise it publishes all dead letters, each as a
  child of its original event with the same topic, payload and target, exactly when no two dead
  letters have both the same event id and the same replay count and none of the new identifiers is
  already in the log; in every other case the call fails with a conflict, having published the
  letters before the first collision only. In particular it fails for a queue that holds one event
  twice with equal replay counts.
\<close>
theorem dead_letter_replay:
  "if \<exists>d. d \<in> set (bus_dead_letters b) \<and> \<not> stable_id (replay_id_text (count_up d))
   then \<exists>err. fst (replay_dead_letters clock b) = Inl err \<and> err_kind err = InvalidArgument \<and>
          bus_log (snd (replay_dead_letters clock b)) = bus_log b \<and>
          bus_receipts (snd (replay_dead_letters clock b)) = bus_receipts b
   else if distinct (map (\<lambda>d. (dl_id d, dl_replay_count d)) (bus_dead_letters b)) \<and>
           (\<forall>d \<in> set (bus_dead_letters b).
              \<not> contains_event (im_records (bus_log b)) (EventId (replay_id_text (count_up d))))
   then \<exists>new. fst (replay_dead_letters clock b) = Inr (map receipt_from_record new) \<and>
          im_records (bus_log (snd (replay_dead_letters clock b))) = im_records (bus_log b) @ new \<and>
          map lr_event new = replay_children clock 0 (bus_dead_letters b)
   else \<exists>err new n. fst (replay_dead_letters clock b) = Inl err \<and> err_kind err = Conflict \<and>
          im_records (bus_log (snd (replay_dead_letters clock b))) = im_records (bus_log b) @ new \<and>
          map lr_event new = take n (replay_children clock 0 (bus_dead_letters b))"
proof (cases "\<exists>d. d \<in> set (bus_dead_letters b) \<and> \<not> stable_id (replay_id_text (count_up d))")
  case True
  then obtain err q where "replay_publish_loop clock 0 (bus_dead_letters b) = (Inl err, q)"
    and "err_kind err = InvalidArgument"
    using replay_publish_loop_err [of "bus_dead_letters b" clock 0] by (metis prod.collapse)
  then show ?thesis using True by (auto simp: replay_dead_letters_def replay_all_for_publish_def)
next
  case wf: False
  let ?q = "bus_dead_letters b" and ?b = "b\<lparr>bus_dead_letters := map count_up (bus_dead_letters b)\<rparr>"
  let ?es = "replay_children clock 0 ?q"
  have run: "replay_dead_letters clock b = publish_all ?b ?es"
    using replay_publish_loop_ok [of ?q clock 0] wf by (simp add: replay_dead_letters_def replay_all_for_publish_def)
  have ids: "distinct (map ev_id ?es) \<longleftrightarrow> distinct (map (\<lambda>d. (dl_id d, dl_replay_count d)) ?q)"
    by (auto simp: replay_children_ids distinct_map inj_on_def replay_text_inj)
  have "(\<forall>e \<in> set ?es. P (ev_id e)) \<longleftrightarrow> (\<forall>i \<in> set (map ev_id ?es). P i)" for P by simp
  then have fresh: "(\<forall>e \<in> set ?es. \<not> contains_event (im_records (bus_log b)) (ev_id e)) \<longleftrightarrow>
      (\<forall>d \<in> set ?q. \<not> contains_event (im_records (bus_log b)) (EventId (replay_id_text (count_up d))))"
    unfolding replay_children_ids by simp
  show ?thesis
  proof (cases "is_err (fst (publish_all ?b ?es))")
    case True
    then obtain err where err: "fst (publish_all ?b ?es) = Inl err" by (cases "fst (publish_all ?b ?es)") auto
    obtain new n where "im_records (bus_log (snd (publish_all ?b ?es))) = im_records (bus_log b) @ new"
      "map lr_event new = take n ?es" using publish_all_prefix [of ?b ?es] by auto
    then show ?thesis unfolding run if_not_P [OF wf]
      using True ids fresh publish_all_ok_iff [of ?b ?es] err publish_all_err_kind [OF err]
      by (subst if_not_P) auto
  next
    case False
    then show ?thesis unfolding run if_not_P [OF wf]
      using ids fresh publish_all_ok_iff [of ?b ?es] publish_all_records [OF False]
      by (subst if_P) auto
  qed
qed

definition twice_dead :: in_memory_event_bus where
  "twice_dead =
     (let e = event_new 0 (EventId ''e'') \<lparr>topic_path = ''/a'', topic_segments = [''a'']\<rparr> PayloadEmpty;
          reason = err_timeout ''late''
      in snd (bus_dead_letter (snd (bus_dead_letter bus_new e reason)) e reason))"

theorem dead_letter_replay_witness:
  "\<exists>err. fst (replay_dead_letters (\<lambda>_. 0) twice_dead) = Inl err \<and> err_kind err = Conflict"
proof -
  have q: "bus_dead_letters twice_dead = [dead_letter_new (event_new 0 (EventId ''e'')
      \<lparr>topic_path = ''/a'', topic_segments = [''a'']\<rparr> PayloadEmpty) (err_timeout ''late''),
      dead_letter_new (event_new 0 (EventId ''e'')
      \<lparr>topic_path = ''/a'', topic_segments = [''a'']\<rparr> PayloadEmpty) (err_timeout ''late'')]"
    by (simp add: twice_dead_def Let_def bus_dead_letter_def dlq_push_def bus_new_def bus_with_log_def)
  have "\<not> (\<exists>d. d \<in> set (bus_dead_letters twice_dead) \<and> \<not> stable_id (replay_id_text (count_up d)))"
    unfolding q
    by (simp add: dead_letter_new_def event_new_def replay_id_text_def count_up_def stable_id_def
        MAX_ID_LEN_def is_stable_id_char_def is_ascii_alphanumeric_def is_ascii_digit_def
        nat_str.simps digit_char_def)
  from dead_letter_replay [of twice_dead "\<lambda>_. 0", unfolded if_not_P [OF this]] show ?thesis
    unfolding q by auto
qed

end
