(* ===== verification/Agent_Runtime.thy ===== *)
theory Agent_Runtime
  imports Core_Invoke Eva_Interfaces
begin

section \<open>The agent runtime (eva-agent: lifecycle.rs, queue.rs, state.rs, runtime.rs)\<close>

text \<open>
  One agent: a guarded lifecycle, a private bounded queue and the execution of the event at its
  head under cancellation, timeout and retry control. The handler is a parameter with a state of
  its own, so that what it has been called with can be observed; \<open>elapsed k\<close> is the time the
  \<open>k\<close>-th call of the handler takes.
\<close>

datatype agent_lifecycle_state = Created | Running | Draining | Stopped | FailedState

fun lifecycle_as_str :: "agent_lifecycle_state \<Rightarrow> string" where
  "lifecycle_as_str Created = ''created''"
| "lifecycle_as_str Running = ''running''"
| "lifecycle_as_str Draining = ''draining''"
| "lifecycle_as_str Stopped = ''stopped''"
| "lifecycle_as_str FailedState = ''failed''"

definition lifecycle_start :: "agent_lifecycle_state \<Rightarrow> unit res \<times> agent_lifecycle_state" where
  "lifecycle_start st =
     (if st = Created \<or> st = Stopped then (Inr (), Running)
      else (Inl (with_context (err_conflict ''agent cannot start from current lifecycle state'')
              ''state'' (lifecycle_as_str st)), st))"

definition lifecycle_drain :: "agent_lifecycle_state \<Rightarrow> unit res \<times> agent_lifecycle_state" where
  "lifecycle_drain st =
     (if st = Running then (Inr (), Draining)
      else (Inl (with_context (err_conflict ''agent cannot drain from current lifecycle state'')
              ''state'' (lifecycle_as_str st)), st))"

definition lifecycle_stop :: "agent_lifecycle_state \<Rightarrow> agent_lifecycle_state" where
  "lifecycle_stop st = Stopped"

definition lifecycle_fail :: "agent_lifecycle_state \<Rightarrow> agent_lifecycle_state" where
  "lifecycle_fail st = FailedState"

record agent_queue =
  aq_capacity :: nat
  aq_events :: "event list"

definition queue_new :: "nat \<Rightarrow> agent_queue res" where
  "queue_new capacity =
     (if capacity = 0
      then Inl (err_invalid_argument ''agent queue capacity must be greater than zero'')
      else Inr \<lparr>aq_capacity = capacity, aq_events = []\<rparr>)"

definition queue_enqueue :: "agent_queue \<Rightarrow> event \<Rightarrow> unit res \<times> agent_queue" where
  "queue_enqueue q e =
     (if length (aq_events q) \<ge> aq_capacity q
      then (Inl (with_context (err_unavailable ''agent queue is full'')
              ''capacity'' (nat_str (aq_capacity q))), q)
      else (Inr (), q\<lparr>aq_events := aq_events q @ [e]\<rparr>))"

definition queue_dequeue :: "agent_queue \<Rightarrow> event option \<times> agent_queue" where
  "queue_dequeue q = (case aq_events q of
     [] \<Rightarrow> (None, q)
   | e # es \<Rightarrow> (Some e, q\<lparr>aq_events := es\<rparr>))"

record agent_handler_output =
  ho_status :: string
  ho_output :: "string option"

datatype agent_run_status = Handled | RunFailed | RunCancelled | TimedOut

record agent_run_record =
  rr_agent_id :: agent_id
  rr_event_id :: event_id
  rr_topic :: topic
  rr_status :: agent_run_status
  rr_attempts :: nat
  rr_handler_status :: "string option"
  rr_output :: "string option"
  rr_error :: "eva_error option"

record agent_run_control =
  ctl_timeout :: "duration option"
  ctl_cancel_requested :: bool
  ctl_cancel_token :: "string option"
  ctl_deadline_at_ms :: "nat option"
  ctl_max_attempts :: nat

definition control_default :: agent_run_control where
  "control_default =
     \<lparr>ctl_timeout = None, ctl_cancel_requested = False, ctl_cancel_token = None,
      ctl_deadline_at_ms = None, ctl_max_attempts = 1\<rparr>"

record agent_runtime =
  rt_agent_id :: agent_id
  rt_lifecycle :: agent_lifecycle_state
  rt_queue :: agent_queue

definition runtime_new :: "agent_id \<Rightarrow> nat \<Rightarrow> agent_runtime res" where
  "runtime_new a capacity = res_bind (queue_new capacity)
     (\<lambda>q. Inr \<lparr>rt_agent_id = a, rt_lifecycle = Created, rt_queue = q\<rparr>)"

definition runtime_start :: "agent_runtime \<Rightarrow> unit res \<times> agent_runtime" where
  "runtime_start rt = (case lifecycle_start (rt_lifecycle rt) of
     (res, st) \<Rightarrow> (res, rt\<lparr>rt_lifecycle := st\<rparr>))"

definition runtime_accept :: "agent_runtime \<Rightarrow> event \<Rightarrow> unit res \<times> agent_runtime" where
  "runtime_accept rt e =
     (if rt_lifecycle rt \<noteq> Running
      then (Inl (with_context (with_context (err_conflict ''agent runtime is not running'')
              ''agent_id'' (agent_id_str (rt_agent_id rt)))
              ''state'' (lifecycle_as_str (rt_lifecycle rt))), rt)
      else (case queue_enqueue (rt_queue rt) e of (res, q) \<Rightarrow> (res, rt\<lparr>rt_queue := q\<rparr>)))"

type_synonym 'h handler = "'h \<Rightarrow> agent_id \<Rightarrow> event \<Rightarrow> agent_handler_output res \<times> 'h"

definition exceeded_timeout :: "duration option \<Rightarrow> duration \<Rightarrow> bool" where
  "exceeded_timeout timeout elapsed = (case timeout of None \<Rightarrow> False | Some budget \<Rightarrow> elapsed > budget)"

definition timeout_error :: "agent_id \<Rightarrow> duration option \<Rightarrow> eva_error" where
  "timeout_error a timeout =
     with_context (with_context (err_timeout ''agent run exceeded timeout budget'')
       ''agent_id'' (agent_id_str a))
       ''timeout_ms'' (case timeout of None \<Rightarrow> ''unknown'' | Some t \<Rightarrow> nat_str (t div 1000000))"

definition cancel_error :: "agent_id \<Rightarrow> agent_run_control \<Rightarrow> eva_error" where
  "cancel_error a control =
     (let err = with_retryable (with_context (err_conflict ''agent run was cancelled'')
                  ''agent_id'' (agent_id_str a)) False;
          err = (case ctl_cancel_token control of None \<Rightarrow> err
                 | Some t \<Rightarrow> with_context err ''cancel_token'' t)
      in case ctl_deadline_at_ms control of None \<Rightarrow> err
         | Some d \<Rightarrow> with_context err ''deadline_at_ms'' (nat_str d))"

definition zero_timeout_error :: "agent_id \<Rightarrow> eva_error" where
  "zero_timeout_error a =
     with_context (with_context (err_timeout ''agent run exceeded timeout budget'')
       ''agent_id'' (agent_id_str a)) ''timeout_ms'' ''0''"

text \<open>
  One attempt: the error that ends it, or the output of the handler. A zero budget is an
  immediate timeout and does not call the handler.
\<close>

definition run_attempt ::
  "'h handler \<Rightarrow> duration \<Rightarrow> agent_run_control \<Rightarrow> agent_id \<Rightarrow> event \<Rightarrow> 'h \<Rightarrow> agent_handler_output res \<times> 'h" where
  "run_attempt handler elapsed control a e h =
     (if ctl_timeout control = Some 0 then (Inl (zero_timeout_error a), h)
      else (case handler h a e of
          (Inr out, h') \<Rightarrow>
            if exceeded_timeout (ctl_timeout control) elapsed
            then (Inl (timeout_error a (ctl_timeout control)), h') else (Inr out, h')
        | (Inl err, h') \<Rightarrow> (Inl err, h')))"

definition run_record ::
  "agent_id \<Rightarrow> event \<Rightarrow> agent_run_status \<Rightarrow> nat \<Rightarrow> agent_handler_output option \<Rightarrow> eva_error option \<Rightarrow>
     agent_run_record" where
  "run_record a e status attempts out err =
     \<lparr>rr_agent_id = a, rr_event_id = ev_id e, rr_topic = ev_topic e, rr_status = status,
      rr_attempts = attempts, rr_handler_status = map_option ho_status out,
      rr_output = (case out of None \<Rightarrow> None | Some x \<Rightarrow> ho_output x), rr_error = err\<rparr>"

fun attempt_loop ::
  "'h handler \<Rightarrow> (nat \<Rightarrow> duration) \<Rightarrow> agent_run_control \<Rightarrow> agent_id \<Rightarrow> event \<Rightarrow> nat \<Rightarrow>
     nat list \<Rightarrow> 'h \<Rightarrow> agent_run_record option \<times> 'h" where
  "attempt_loop handler elapsed control a e max_attempts [] h = (None, h)"
| "attempt_loop handler elapsed control a e max_attempts (attempt # rest) h =
     (case run_attempt handler (elapsed attempt) control a e h of
        (Inr out, h') \<Rightarrow> (Some (run_record a e Handled attempt (Some out) None), h')
      | (Inl err, h') \<Rightarrow>
          if \<not> err_retryable err \<or> attempt = max_attempts
          then (Some (run_record a e (if err_kind err = Timeout then TimedOut else RunFailed)
                  attempt None (Some err)), h')
          else attempt_loop handler elapsed control a e max_attempts rest h')"

definition run_next_with_control ::
  "'h handler \<Rightarrow> (nat \<Rightarrow> duration) \<Rightarrow> agent_runtime \<Rightarrow> agent_run_control \<Rightarrow> 'h \<Rightarrow>
     agent_run_record option \<times> agent_runtime \<times> 'h" where
  "run_next_with_control handler elapsed rt control h = (case queue_dequeue (rt_queue rt) of
     (None, q) \<Rightarrow> (None, rt\<lparr>rt_queue := q\<rparr>, h)
   | (Some e, q) \<Rightarrow>
       (let rt' = rt\<lparr>rt_queue := q\<rparr>; a = rt_agent_id rt in
        if ctl_cancel_requested control
        then (Some (run_record a e RunCancelled 0 None (Some (cancel_error a control))), rt', h)
        else (let max_attempts = max (ctl_max_attempts control) 1 in
              case attempt_loop handler elapsed control a e max_attempts [1..<max_attempts + 1] h of
                (r, h') \<Rightarrow> (r, rt', h'))))"

definition run_next ::
  "'h handler \<Rightarrow> (nat \<Rightarrow> duration) \<Rightarrow> agent_runtime \<Rightarrow> 'h \<Rightarrow> agent_run_record option \<times> agent_runtime \<times> 'h" where
  "run_next handler elapsed rt h = run_next_with_control handler elapsed rt control_default h"

subsection \<open>The queue is a bounded queue\<close>

interpretation agent_queue: bounded_fifo aq_events aq_capacity queue_enqueue queue_dequeue
  by unfold_locales (auto simp: queue_enqueue_def queue_dequeue_def split: list.splits)

subsection \<open>Attempts\<close>

text \<open>
  The specification of the loop: \<open>attempt_results n\<close> are the outcomes of the first \<open>n\<close> attempts,
  one after the other, each starting from the handler state the previous one left.
\<close>

fun handler_after :: "'h handler \<Rightarrow> (nat \<Rightarrow> duration) \<Rightarrow> agent_run_control \<Rightarrow> agent_id \<Rightarrow> event \<Rightarrow> 'h \<Rightarrow> nat \<Rightarrow> 'h" where
  "handler_after handler elapsed control a e h 0 = h"
| "handler_after handler elapsed control a e h (Suc n) =
     snd (run_attempt handler (elapsed (Suc n)) control a e (handler_after handler elapsed control a e h n))"

definition attempt_result ::
  "'h handler \<Rightarrow> (nat \<Rightarrow> duration) \<Rightarrow> agent_run_control \<Rightarrow> agent_id \<Rightarrow> event \<Rightarrow> 'h \<Rightarrow> nat \<Rightarrow> agent_handler_output res" where
  "attempt_result handler elapsed control a e h n =
     fst (run_attempt handler (elapsed n) control a e (handler_after handler elapsed control a e h (n - 1)))"

definition retryable_failure :: "agent_handler_output res \<Rightarrow> bool" where
  "retryable_failure r = (case r of Inl err \<Rightarrow> err_retryable err | Inr _ \<Rightarrow> False)"

definition outcome_record :: "agent_id \<Rightarrow> event \<Rightarrow> nat \<Rightarrow> agent_handler_output res \<Rightarrow> agent_run_record" where
  "outcome_record a e n r = (case r of
     Inr out \<Rightarrow> run_record a e Handled n (Some out) None
   | Inl err \<Rightarrow> run_record a e (if err_kind err = Timeout then TimedOut else RunFailed) n None (Some err))"

lemma attempt_loop_spec:
  assumes "k < m" and "\<forall>j. 0 < j \<and> j \<le> k \<longrightarrow> retryable_failure (attempt_result handler elapsed control a e h j)"
  shows "\<exists>n. k < n \<and> n \<le> m \<and>
    attempt_loop handler elapsed control a e m [Suc k..<m + 1] (handler_after handler elapsed control a e h k) =
      (Some (outcome_record a e n (attempt_result handler elapsed control a e h n)),
       handler_after handler elapsed control a e h n) \<and>
    (\<forall>j. 0 < j \<and> j < n \<longrightarrow> retryable_failure (attempt_result handler elapsed control a e h j)) \<and>
    (n = m \<or> \<not> retryable_failure (attempt_result handler elapsed control a e h n))"
  using assms
proof (induction "m - k" arbitrary: k)
  case (Suc d)
  let ?r = "attempt_result handler elapsed control a e h (Suc k)"
  let ?h = "handler_after handler elapsed control a e h"
  have up: "[Suc k..<m + 1] = Suc k # [Suc (Suc k)..<m + 1]" using Suc.prems(1) by (simp add: upt_conv_Cons)
  have att: "run_attempt handler (elapsed (Suc k)) control a e (?h k) = (?r, ?h (Suc k))"
    by (simp add: attempt_result_def)
  show ?case
  proof (cases "retryable_failure ?r \<and> Suc k \<noteq> m")
    case True
    then have "\<forall>j. 0 < j \<and> j \<le> Suc k \<longrightarrow> retryable_failure (attempt_result handler elapsed control a e h j)"
      using Suc.prems(2) by (metis le_Suc_eq)
    moreover have "d = m - Suc k" and "Suc k < m" using Suc.hyps(2) Suc.prems(1) True by auto
    ultimately obtain n where n: "Suc k < n" "n \<le> m"
      "attempt_loop handler elapsed control a e m [Suc (Suc k)..<m + 1] (?h (Suc k)) =
         (Some (outcome_record a e n (attempt_result handler elapsed control a e h n)), ?h n)"
      "\<forall>j. 0 < j \<and> j < n \<longrightarrow> retryable_failure (attempt_result handler elapsed control a e h j)"
      "n = m \<or> \<not> retryable_failure (attempt_result handler elapsed control a e h n)"
      using Suc.hyps(1) [of "Suc k"] by blast
    obtain err where "?r = Inl err" and "err_retryable err"
      using True by (auto simp: retryable_failure_def split: sum.splits)
    then have "attempt_loop handler elapsed control a e m (Suc k # [Suc (Suc k)..<m + 1]) (?h k) =
        attempt_loop handler elapsed control a e m [Suc (Suc k)..<m + 1] (?h (Suc k))"
      using True by (simp only: attempt_loop.simps att prod.case sum.case) simp
    then show ?thesis unfolding up n(3) using n by (intro exI [of _ n]) auto
  next
    case False
    then have "attempt_loop handler elapsed control a e m (Suc k # [Suc (Suc k)..<m + 1]) (?h k) =
        (Some (outcome_record a e (Suc k) ?r), ?h (Suc k))"
      unfolding attempt_loop.simps att
      by (auto simp: outcome_record_def retryable_failure_def split: sum.splits)
    then show ?thesis using False Suc.prems unfolding up by (intro exI [of _ "Suc k"]) auto
  qed
qed simp

lemma zero_budget_rounds:
  assumes "ctl_timeout control = Some 0"
  shows "attempt_result handler elapsed control a e h n = Inl (zero_timeout_error a)"
    and "handler_after handler elapsed control a e h n = h"
    and "err_kind (zero_timeout_error a) = Timeout" and "err_retryable (zero_timeout_error a)"
proof -
  show "handler_after handler elapsed control a e h n = h"
    using assms by (induction n) (simp_all add: run_attempt_def)
qed (use assms in \<open>simp_all add: attempt_result_def run_attempt_def zero_timeout_error_def\<close>)

lemma handler_round:
  fixes handler :: "'h handler" and elapsed control a e h
  defines "state \<equiv> handler_after handler elapsed control a e h"
  assumes "ctl_timeout control \<noteq> Some 0"
  shows "state (Suc j) = snd (handler (state j) a e)"
    and "case fst (handler (state j) a e) of
           Inl err \<Rightarrow> attempt_result handler elapsed control a e h (Suc j) = Inl err
         | Inr out \<Rightarrow>
             if \<exists>budget. ctl_timeout control = Some budget \<and> budget < elapsed (Suc j)
             then \<exists>err. attempt_result handler elapsed control a e h (Suc j) = Inl err \<and>
                    err_kind err = Timeout \<and> err_retryable err
             else attempt_result handler elapsed control a e h (Suc j) = Inr out"
  using assms(2) unfolding state_def
  by (auto simp: attempt_result_def run_attempt_def exceeded_timeout_def timeout_error_def case_prod_beta
      split: sum.splits option.splits)

subsection \<open>Properties\<close>

text \<open>
  C33. What \<^verbatim>\<open>run_next_with_control\<close> does, on every branch. An empty queue gives no record and calls
  nothing. Otherwise exactly the head event leaves the queue. A cancelled run ends with zero
  attempts, a non-retryable conflict and an untouched handler. Any other run always ends with a
  record: after \<open>n\<close> counted rounds, at least one and at most the limit (a limit of zero counts as
  one), where every round before the last failed with a retryable error, the last one succeeded,
  failed for good or reached the limit, and the record states the outcome of the last. A round
  calls the handler once, on the state the round before left, and its outcome is the one the
  handler returns, except that a success after the budget has passed is a retryable timeout. With
  a budget of zero a round counts as an attempt but does not call the handler: the run then always
  uses up the limit, ends as timed out and leaves the handler untouched.
\<close>
theorem run_next_outcome:
  "case aq_events (rt_queue rt) of
     [] \<Rightarrow> run_next_with_control handler elapsed rt control h = (None, rt, h)
   | e # es \<Rightarrow>
       (let rt' = rt\<lparr>rt_queue := (rt_queue rt)\<lparr>aq_events := es\<rparr>\<rparr>; a = rt_agent_id rt;
            result = attempt_result handler elapsed control a e h;
            state = handler_after handler elapsed control a e h in
        if ctl_cancel_requested control
        then \<exists>err. run_next_with_control handler elapsed rt control h =
               (Some (run_record a e RunCancelled 0 None (Some err)), rt', h) \<and>
               err_kind err = Conflict \<and> \<not> err_retryable err
        else \<exists>n. 1 \<le> n \<and> n \<le> max (ctl_max_attempts control) 1 \<and>
               run_next_with_control handler elapsed rt control h =
                 (Some (outcome_record a e n (result n)), rt', state n) \<and>
               (\<forall>j. 1 \<le> j \<and> j < n \<longrightarrow> retryable_failure (result j)) \<and>
               (n = max (ctl_max_attempts control) 1 \<or> \<not> retryable_failure (result n)) \<and>
               (if ctl_timeout control = Some 0
                then n = max (ctl_max_attempts control) 1 \<and> state n = h \<and>
                  (\<exists>err. result n = Inl err \<and> err_kind err = Timeout)
                else state 0 = h \<and> (\<forall>j. state (Suc j) = snd (handler (state j) a e) \<and>
                  (case fst (handler (state j) a e) of
                     Inl err \<Rightarrow> result (Suc j) = Inl err
                   | Inr out \<Rightarrow>
                       if \<exists>budget. ctl_timeout control = Some budget \<and> budget < elapsed (Suc j)
                       then \<exists>err. result (Suc j) = Inl err \<and> err_kind err = Timeout \<and> err_retryable err
                       else result (Suc j) = Inr out))))"
proof (cases "aq_events (rt_queue rt)")
  case Nil
  then show ?thesis by (simp add: run_next_with_control_def queue_dequeue_def)
next
  case (Cons e es)
  let ?a = "rt_agent_id rt" and ?m = "max (ctl_max_attempts control) 1"
  have deq: "queue_dequeue (rt_queue rt) = (Some e, (rt_queue rt)\<lparr>aq_events := es\<rparr>)"
    using Cons by (simp add: queue_dequeue_def)
  show ?thesis
  proof (cases "ctl_cancel_requested control")
    case True
    have "err_kind (cancel_error ?a control) = Conflict \<and> \<not> err_retryable (cancel_error ?a control)"
      by (simp add: cancel_error_def Let_def split: option.splits)
    then show ?thesis using Cons True deq by (auto simp: run_next_with_control_def Let_def)
  next
    case False
    have "0 < ?m" by simp
    from attempt_loop_spec [OF this, of handler elapsed control ?a e h] obtain n where n:
      "0 < n" "n \<le> ?m" "attempt_loop handler elapsed control ?a e ?m [1..<?m + 1] h =
        (Some (outcome_record ?a e n (attempt_result handler elapsed control ?a e h n)),
         handler_after handler elapsed control ?a e h n)"
      "\<forall>j. 0 < j \<and> j < n \<longrightarrow> retryable_failure (attempt_result handler elapsed control ?a e h j)"
      "n = ?m \<or> \<not> retryable_failure (attempt_result handler elapsed control ?a e h n)"
      by auto
    have "run_next_with_control handler elapsed rt control h =
        (Some (outcome_record ?a e n (attempt_result handler elapsed control ?a e h n)),
         rt\<lparr>rt_queue := (rt_queue rt)\<lparr>aq_events := es\<rparr>\<rparr>, handler_after handler elapsed control ?a e h n)"
      unfolding run_next_with_control_def deq using False n(3) by (simp add: Let_def del: upt_Suc)
    moreover have "n = ?m" if "ctl_timeout control = Some 0"
      using n(5) zero_budget_rounds(1) [OF that, of handler elapsed ?a e h n] zero_budget_rounds(4) [OF that, of ?a]
      by (simp add: retryable_failure_def)
    ultimately show ?thesis unfolding Cons list.case Let_def if_not_P [OF False]
    proof (intro exI [of _ n] conjI, goal_cases)
      case 6
      show ?case
      proof (cases "ctl_timeout control = Some 0")
        case True
        then show ?thesis using 6(2) zero_budget_rounds(1,2) [OF True, of handler elapsed ?a e h n]
            zero_budget_rounds(3) [OF True, of ?a] by simp
      next
        case False
        show ?thesis unfolding if_not_P [OF False]
          by (intro conjI allI handler_after.simps(1) handler_round [OF False])
      qed
    qed (use n in auto)
  qed
qed

definition flaky_handler :: "nat handler" where
  "flaky_handler n a e =
     (if n = 0 then (Inl (err_unavailable ''busy''), 1)
      else (Inr \<lparr>ho_status = ''ok'', ho_output = None\<rparr>, n + 1))"

definition tick_event :: event where
  "tick_event = event_new 0 (EventId ''tick'') \<lparr>topic_path = ''/a'', topic_segments = [''a'']\<rparr> PayloadEmpty"

definition busy_runtime :: agent_runtime where
  "busy_runtime = \<lparr>rt_agent_id = AgentId ''agent-a'', rt_lifecycle = Running,
     rt_queue = \<lparr>aq_capacity = 1, aq_events = [tick_event]\<rparr>\<rparr>"

lemma flaky_attempts:
  "attempt_result flaky_handler (\<lambda>_. 0) (control_default\<lparr>ctl_max_attempts := 3\<rparr>) a e 0 (Suc 0) =
     Inl (err_unavailable ''busy'')"
  "attempt_result flaky_handler (\<lambda>_. 0) (control_default\<lparr>ctl_max_attempts := 3\<rparr>) a e 0 (Suc (Suc 0)) =
     Inr \<lparr>ho_status = ''ok'', ho_output = None\<rparr>"
  by (simp_all add: attempt_result_def run_attempt_def flaky_handler_def exceeded_timeout_def
      control_default_def)

theorem run_next_outcome_witness:
  "\<exists>rt h. run_next_with_control flaky_handler (\<lambda>_. 0) busy_runtime (control_default\<lparr>ctl_max_attempts := 3\<rparr>) 0 =
     (Some (run_record (AgentId ''agent-a'') tick_event Handled 2
        (Some \<lparr>ho_status = ''ok'', ho_output = None\<rparr>) None), rt, h)"
proof -
  let ?c = "control_default\<lparr>ctl_max_attempts := 3\<rparr>" and ?a = "AgentId ''agent-a''"
  let ?r = "attempt_result flaky_handler (\<lambda>_. 0) ?c ?a tick_event 0"
  have c: "ctl_max_attempts ?c = 3" "\<not> ctl_cancel_requested ?c"
    by (simp_all add: control_default_def)
  obtain n rt h where n: "1 \<le> n" "n \<le> 3"
    "run_next_with_control flaky_handler (\<lambda>_. 0) busy_runtime ?c 0 =
       (Some (outcome_record ?a tick_event n (?r n)), rt, h)"
    "\<forall>j. 1 \<le> j \<and> j < n \<longrightarrow> retryable_failure (?r j)" "n = 3 \<or> \<not> retryable_failure (?r n)"
    using run_next_outcome [where rt = busy_runtime and handler = flaky_handler and elapsed = "\<lambda>_. 0" and control = ?c and h = 0] c
    by (auto simp: busy_runtime_def Let_def)
  have r1: "retryable_failure (?r (Suc 0))" and r2: "\<not> retryable_failure (?r (Suc (Suc 0)))"
    unfolding flaky_attempts by (simp_all add: retryable_failure_def)
  have "n \<noteq> Suc 0" using n(5) r1 by auto
  moreover have "n \<noteq> 3" using n(4) r2 by auto
  ultimately have "n = Suc (Suc 0)" using n(1,2) by linarith
  then show ?thesis using n(3) unfolding flaky_attempts
    by (simp add: outcome_record_def flaky_attempts numeral_2_eq_2)
qed

text \<open>
  The private queue of an agent is a lossless bounded queue, in the same sense as a mailbox.
\<close>
theorem agent_queue_is_bounded_fifo:
  assumes "queue_new c = Inr q"
  shows "popped (fst (fifo_run queue_enqueue queue_dequeue q ops)) @
           aq_events (snd (fifo_run queue_enqueue queue_dequeue q ops)) =
         accepted (fst (fifo_run queue_enqueue queue_dequeue q ops)) \<and>
         length (aq_events (snd (fifo_run queue_enqueue queue_dequeue q ops))) \<le> c"
proof -
  have "aq_events q = []" and "aq_capacity q = c"
    using assms by (auto simp: queue_new_def split: if_splits)
  then show ?thesis using agent_queue.run_fifo [of q ops] agent_queue.run_within [of q ops] by simp
qed

theorem agent_queue_is_bounded_fifo_witness:
  "let q = \<lparr>aq_capacity = 2, aq_events = []\<rparr>;
       run = fifo_run queue_enqueue queue_dequeue q [Pop, Pop]
   in popped (fst run) @ aq_events (snd run) = accepted (fst run) \<and> length (aq_events (snd run)) \<le> 2"
  unfolding Let_def by (rule agent_queue_is_bounded_fifo) (simp add: queue_new_def)

end
