(* ===== verification/Policy_Permissions.thy ===== *)
theory Policy_Permissions
  imports Core_Capability
begin

section \<open>Permissions, sandboxes and their intersection (eva-policy: permissions.rs, sandbox.rs, effective.rs)\<close>

text \<open>
  Permission sets and sandbox policies, the narrowing that merges policy layers and the check of
  a request against the merged policy. A \<^verbatim>\<open>BTreeSet\<close> is a set: only membership, inclusion, union
  and intersection are observed. What a policy means is given separately, as the acts it
  permits (\<open>permits\<close>, \<open>sb_permits\<close>), and the merged policy is compared with that meaning.
\<close>

subsection \<open>Permission sets\<close>

record permission_set =
  ps_network :: bool
  ps_shell :: bool
  ps_read_workspace :: bool
  ps_write_workspace :: bool
  ps_max_timeout_ms :: "u64 option"
  ps_capabilities :: "capability_name set option"
  ps_adapters :: "adapter_id set option"

record permission_set_diff =
  psd_expanded :: "string list"

definition deny_all :: permission_set where
  "deny_all = \<lparr>ps_network = False, ps_shell = False, ps_read_workspace = False,
     ps_write_workspace = False, ps_max_timeout_ms = None, ps_capabilities = None, ps_adapters = None\<rparr>"

fun min_timeout :: "u64 option \<Rightarrow> u64 option \<Rightarrow> u64 option" where
  "min_timeout (Some l) (Some r) = Some (min l r)"
| "min_timeout (Some v) None = Some v"
| "min_timeout None (Some v) = Some v"
| "min_timeout None None = None"

fun timeout_expands :: "u64 option \<Rightarrow> u64 option \<Rightarrow> bool" where
  "timeout_expands (Some requested) (Some upper_bound) = (requested > upper_bound)"
| "timeout_expands (Some _) None = False"
| "timeout_expands None _ = False"

fun intersect_optional_sets :: "'a set option \<Rightarrow> 'a set option \<Rightarrow> 'a set option" where
  "intersect_optional_sets (Some l) (Some r) = Some (l \<inter> r)"
| "intersect_optional_sets (Some v) None = Some v"
| "intersect_optional_sets None (Some v) = Some v"
| "intersect_optional_sets None None = None"

fun optional_set_expands :: "'a set option \<Rightarrow> 'a set option \<Rightarrow> bool" where
  "optional_set_expands (Some requested) (Some upper_bound) = (\<not> requested \<subseteq> upper_bound)"
| "optional_set_expands None (Some _) = True"
| "optional_set_expands (Some _) None = False"
| "optional_set_expands None None = False"

definition perm_narrowed_by :: "permission_set \<Rightarrow> permission_set \<Rightarrow> permission_set" where
  "perm_narrowed_by p q =
     \<lparr>ps_network = (ps_network p \<and> ps_network q),
      ps_shell = (ps_shell p \<and> ps_shell q),
      ps_read_workspace = (ps_read_workspace p \<and> ps_read_workspace q),
      ps_write_workspace = (ps_write_workspace p \<and> ps_write_workspace q),
      ps_max_timeout_ms = min_timeout (ps_max_timeout_ms p) (ps_max_timeout_ms q),
      ps_capabilities = intersect_optional_sets (ps_capabilities p) (ps_capabilities q),
      ps_adapters = intersect_optional_sets (ps_adapters p) (ps_adapters q)\<rparr>"

definition diff_against :: "permission_set \<Rightarrow> permission_set \<Rightarrow> permission_set_diff" where
  "diff_against p upper_bound =
     \<lparr>psd_expanded =
        (if ps_network p \<and> \<not> ps_network upper_bound then [''network''] else []) @
        (if ps_shell p \<and> \<not> ps_shell upper_bound then [''shell''] else []) @
        (if ps_read_workspace p \<and> \<not> ps_read_workspace upper_bound then [''read_workspace''] else []) @
        (if ps_write_workspace p \<and> \<not> ps_write_workspace upper_bound then [''write_workspace''] else []) @
        (if timeout_expands (ps_max_timeout_ms p) (ps_max_timeout_ms upper_bound)
         then [''max_timeout_ms''] else []) @
        (if optional_set_expands (ps_capabilities p) (ps_capabilities upper_bound)
         then [''capabilities''] else []) @
        (if optional_set_expands (ps_adapters p) (ps_adapters upper_bound)
         then [''adapters''] else [])\<rparr>"

definition is_subset_of :: "permission_set \<Rightarrow> permission_set \<Rightarrow> bool" where
  "is_subset_of p upper_bound \<longleftrightarrow> psd_expanded (diff_against p upper_bound) = []"

definition allows_capability :: "permission_set \<Rightarrow> capability_name \<Rightarrow> bool" where
  "allows_capability p c = (case ps_capabilities p of None \<Rightarrow> True | Some cs \<Rightarrow> c \<in> cs)"

definition explicitly_allows_capability :: "permission_set \<Rightarrow> capability_name \<Rightarrow> bool" where
  "explicitly_allows_capability p c = (case ps_capabilities p of None \<Rightarrow> False | Some cs \<Rightarrow> c \<in> cs)"

definition allows_adapter :: "permission_set \<Rightarrow> adapter_id \<Rightarrow> bool" where
  "allows_adapter p a = (case ps_adapters p of None \<Rightarrow> True | Some as \<Rightarrow> a \<in> as)"

definition explicitly_allows_adapter :: "permission_set \<Rightarrow> adapter_id \<Rightarrow> bool" where
  "explicitly_allows_adapter p a = (case ps_adapters p of None \<Rightarrow> False | Some as \<Rightarrow> a \<in> as)"

subsection \<open>Sandbox policies\<close>

record sandbox_policy =
  sb_disabled_lua_libs :: "string set"
  sb_memory_mb :: "u32 option"
  sb_execution_timeout_ms :: "u64 option"
  sb_filesystem_enabled :: bool
  sb_network_enabled :: bool
  sb_environment_enabled :: bool
  sb_return_schema_validation :: bool
  sb_emitted_topic_validation :: bool

definition lua_default :: sandbox_policy where
  "lua_default =
     \<lparr>sb_disabled_lua_libs = {''debug'', ''io'', ''os''}, sb_memory_mb = Some 64,
      sb_execution_timeout_ms = Some 30000, sb_filesystem_enabled = False,
      sb_network_enabled = False, sb_environment_enabled = False,
      sb_return_schema_validation = True, sb_emitted_topic_validation = True\<rparr>"

fun min_option :: "'a::linorder option \<Rightarrow> 'a option \<Rightarrow> 'a option" where
  "min_option (Some l) (Some r) = Some (min l r)"
| "min_option (Some v) None = Some v"
| "min_option None (Some v) = Some v"
| "min_option None None = None"

definition sb_narrowed_by :: "sandbox_policy \<Rightarrow> sandbox_policy \<Rightarrow> sandbox_policy" where
  "sb_narrowed_by s t =
     \<lparr>sb_disabled_lua_libs = sb_disabled_lua_libs s \<union> sb_disabled_lua_libs t,
      sb_memory_mb = min_option (sb_memory_mb s) (sb_memory_mb t),
      sb_execution_timeout_ms = min_option (sb_execution_timeout_ms s) (sb_execution_timeout_ms t),
      sb_filesystem_enabled = (sb_filesystem_enabled s \<and> sb_filesystem_enabled t),
      sb_network_enabled = (sb_network_enabled s \<and> sb_network_enabled t),
      sb_environment_enabled = (sb_environment_enabled s \<and> sb_environment_enabled t),
      sb_return_schema_validation = (sb_return_schema_validation s \<or> sb_return_schema_validation t),
      sb_emitted_topic_validation = (sb_emitted_topic_validation s \<or> sb_emitted_topic_validation t)\<rparr>"

definition permits_lua_lib :: "sandbox_policy \<Rightarrow> string \<Rightarrow> bool" where
  "permits_lua_lib s library \<longleftrightarrow> library \<notin> sb_disabled_lua_libs s"

subsection \<open>Layers and the effective policy\<close>

record policy_layer =
  pl_name :: string
  pl_permissions :: permission_set
  pl_sandbox :: sandbox_policy

record effective_policy =
  ep_permissions :: permission_set
  ep_sandbox :: sandbox_policy
  ep_layer_names :: "string list"

definition policy_layer_new :: "string \<Rightarrow> permission_set \<Rightarrow> sandbox_policy \<Rightarrow> policy_layer" where
  "policy_layer_new n p s = \<lparr>pl_name = n, pl_permissions = p, pl_sandbox = s\<rparr>"

definition merge_layer :: "policy_layer \<Rightarrow> effective_policy \<Rightarrow> effective_policy" where
  "merge_layer l e =
     \<lparr>ep_permissions = perm_narrowed_by (ep_permissions e) (pl_permissions l),
      ep_sandbox = sb_narrowed_by (ep_sandbox e) (pl_sandbox l),
      ep_layer_names = ep_layer_names e @ [pl_name l]\<rparr>"

fun from_layers :: "policy_layer list \<Rightarrow> effective_policy res" where
  "from_layers [] = Inl (err_invalid_argument ''at least one policy layer is required'')"
| "from_layers (first # layers) = Inr (fold merge_layer layers
     \<lparr>ep_permissions = pl_permissions first, ep_sandbox = pl_sandbox first,
      ep_layer_names = [pl_name first]\<rparr>)"

definition narrow_request :: "effective_policy \<Rightarrow> permission_set \<Rightarrow> permission_set" where
  "narrow_request e request = perm_narrowed_by (ep_permissions e) request"

definition ensure_request_allowed :: "effective_policy \<Rightarrow> permission_set \<Rightarrow> unit res" where
  "ensure_request_allowed e request =
     (let diff = diff_against request (ep_permissions e) in
      if psd_expanded diff = [] then Inr ()
      else Inl (with_context (err_permission_denied ''request expands effective policy'')
             ''expanded_fields'' (join '','' (psd_expanded diff))))"

subsection \<open>What policies mean\<close>

datatype act =
    UseNetwork
  | UseShell
  | ReadWorkspace
  | WriteWorkspace
  | RunFor u64
  | CallCapability capability_name
  | CallAdapter adapter_id

fun permits :: "permission_set \<Rightarrow> act \<Rightarrow> bool" where
  "permits p UseNetwork = ps_network p"
| "permits p UseShell = ps_shell p"
| "permits p ReadWorkspace = ps_read_workspace p"
| "permits p WriteWorkspace = ps_write_workspace p"
| "permits p (RunFor t) = (case ps_max_timeout_ms p of None \<Rightarrow> True | Some m \<Rightarrow> t \<le> m)"
| "permits p (CallCapability c) = allows_capability p c"
| "permits p (CallAdapter a) = allows_adapter p a"

datatype sandbox_act =
    LoadLib string
  | UseMemory u32
  | ExecuteFor u64
  | TouchFilesystem
  | TouchNetwork
  | ReadEnvironment
  | ReturnUnchecked
  | EmitUnchecked

fun sb_permits :: "sandbox_policy \<Rightarrow> sandbox_act \<Rightarrow> bool" where
  "sb_permits s (LoadLib l) = permits_lua_lib s l"
| "sb_permits s (UseMemory m) = (case sb_memory_mb s of None \<Rightarrow> True | Some x \<Rightarrow> m \<le> x)"
| "sb_permits s (ExecuteFor t) = (case sb_execution_timeout_ms s of None \<Rightarrow> True | Some x \<Rightarrow> t \<le> x)"
| "sb_permits s TouchFilesystem = sb_filesystem_enabled s"
| "sb_permits s TouchNetwork = sb_network_enabled s"
| "sb_permits s ReadEnvironment = sb_environment_enabled s"
| "sb_permits s ReturnUnchecked = (\<not> sb_return_schema_validation s)"
| "sb_permits s EmitUnchecked = (\<not> sb_emitted_topic_validation s)"

subsection \<open>Narrowing is the meet\<close>

lemma min_timeout_min_option: "min_timeout = min_option"
  by (intro ext, rename_tac a b, case_tac a; case_tac b) simp_all

lemma min_option_assoc: "min_option (min_option a b) c = min_option a (min_option b c)"
  by (cases a; cases b; cases c) (simp_all add: min.assoc)

lemma min_option_commute: "min_option a b = min_option b a"
  by (cases a; cases b) (simp_all add: min.commute)

lemma min_option_idem: "min_option a a = a"
  by (cases a) simp_all

lemma intersect_assoc:
  "intersect_optional_sets (intersect_optional_sets a b) c =
   intersect_optional_sets a (intersect_optional_sets b c)"
  by (cases a; cases b; cases c) (simp_all add: Int_assoc)

lemma intersect_commute: "intersect_optional_sets a b = intersect_optional_sets b a"
  by (cases a; cases b) (simp_all add: Int_commute)

lemma intersect_idem: "intersect_optional_sets a a = a"
  by (cases a) simp_all

lemmas narrowing_defs = perm_narrowed_by_def sb_narrowed_by_def min_timeout_min_option

interpretation perm_meet: semilattice_set perm_narrowed_by
proof
  fix a b c
  show "perm_narrowed_by (perm_narrowed_by a b) c = perm_narrowed_by a (perm_narrowed_by b c)"
    by (simp add: narrowing_defs min_option_assoc intersect_assoc conj_ac)
  show "perm_narrowed_by a b = perm_narrowed_by b a"
    by (auto simp: narrowing_defs min_option_commute [of "ps_max_timeout_ms a"]
        intersect_commute [of "ps_capabilities a"] intersect_commute [of "ps_adapters a"])
  show "perm_narrowed_by a a = a"
    by (simp add: narrowing_defs min_option_idem intersect_idem)
qed

interpretation sb_meet: semilattice_set sb_narrowed_by
proof
  fix a b c
  show "sb_narrowed_by (sb_narrowed_by a b) c = sb_narrowed_by a (sb_narrowed_by b c)"
    by (simp add: narrowing_defs min_option_assoc Un_assoc)
  show "sb_narrowed_by a b = sb_narrowed_by b a"
    by (auto simp: narrowing_defs min_option_commute [of "sb_memory_mb a"]
        min_option_commute [of "sb_execution_timeout_ms a"])
  show "sb_narrowed_by a a = a"
    by (simp add: narrowing_defs min_option_idem)
qed

lemma permits_narrowed: "permits (perm_narrowed_by p q) a \<longleftrightarrow> permits p a \<and> permits q a"
  by (cases a; cases "ps_max_timeout_ms p"; cases "ps_max_timeout_ms q"; cases "ps_capabilities p";
      cases "ps_capabilities q"; cases "ps_adapters p"; cases "ps_adapters q")
    (auto simp: narrowing_defs allows_capability_def allows_adapter_def)

lemma sb_permits_narrowed: "sb_permits (sb_narrowed_by s t) a \<longleftrightarrow> sb_permits s a \<and> sb_permits t a"
  by (cases a; cases "sb_memory_mb s"; cases "sb_memory_mb t"; cases "sb_execution_timeout_ms s";
      cases "sb_execution_timeout_ms t")
    (auto simp: narrowing_defs permits_lua_lib_def)

lemma merge_fold:
  "fold merge_layer ls e =
     \<lparr>ep_permissions = fold perm_narrowed_by (map pl_permissions ls) (ep_permissions e),
      ep_sandbox = fold sb_narrowed_by (map pl_sandbox ls) (ep_sandbox e),
      ep_layer_names = ep_layer_names e @ map pl_name ls\<rparr>"
proof (induction ls arbitrary: e)
  case (Cons l ls)
  show ?case unfolding fold.simps comp_apply Cons
    by (simp add: merge_layer_def perm_meet.commute [of "ep_permissions e"]
        sb_meet.commute [of "ep_sandbox e"])
qed simp

lemma from_layers_meet:
  "from_layers ls = Inr e \<Longrightarrow> e =
     \<lparr>ep_permissions = perm_meet.F (pl_permissions ` set ls), ep_sandbox = sb_meet.F (pl_sandbox ` set ls),
      ep_layer_names = map pl_name ls\<rparr> \<and> ls \<noteq> []"
proof (cases ls)
  case (Cons l ms)
  assume "from_layers ls = Inr e"
  then have "e = fold merge_layer ms \<lparr>ep_permissions = pl_permissions l, ep_sandbox = pl_sandbox l,
      ep_layer_names = [pl_name l]\<rparr>" using Cons by simp
  then show ?thesis
    using perm_meet.set_eq_fold [of "pl_permissions l" "map pl_permissions ms"]
      sb_meet.set_eq_fold [of "pl_sandbox l" "map pl_sandbox ms"] Cons
    by (simp add: merge_fold)
qed simp

lemma permits_meet: "finite A \<Longrightarrow> A \<noteq> {} \<Longrightarrow> permits (perm_meet.F A) a \<longleftrightarrow> (\<forall>p \<in> A. permits p a)"
  by (induction A rule: finite_ne_induct) (auto simp: permits_narrowed)

lemma sb_permits_meet: "finite A \<Longrightarrow> A \<noteq> {} \<Longrightarrow> sb_permits (sb_meet.F A) a \<longleftrightarrow> (\<forall>p \<in> A. sb_permits p a)"
  by (induction A rule: finite_ne_induct) (auto simp: sb_permits_narrowed)

lemma from_layers_permits:
  assumes "from_layers ls = Inr e"
  shows "permits (ep_permissions e) a \<longleftrightarrow> (\<forall>l \<in> set ls. permits (pl_permissions l) a)"
    and "sb_permits (ep_sandbox e) b \<longleftrightarrow> (\<forall>l \<in> set ls. sb_permits (pl_sandbox l) b)"
  using from_layers_meet [OF assms] by (auto simp: permits_meet sb_permits_meet)

subsection \<open>Requests\<close>

lemma timeout_expands_iff:
  "timeout_expands r u \<longleftrightarrow>
     r \<noteq> None \<and> \<not> (\<forall>t. (case r of None \<Rightarrow> True | Some m \<Rightarrow> t \<le> m) \<longrightarrow> (case u of None \<Rightarrow> True | Some m \<Rightarrow> t \<le> m))"
  by (cases r; cases u) (auto simp: not_le dest: order.strict_trans1)

lemma set_expands_iff:
  assumes "\<forall>s. u = Some s \<longrightarrow> finite s" and "infinite (UNIV :: 'a set)"
  shows "optional_set_expands (r :: 'a set option) u \<longleftrightarrow>
     \<not> (\<forall>x. (case r of None \<Rightarrow> True | Some s \<Rightarrow> x \<in> s) \<longrightarrow> (case u of None \<Rightarrow> True | Some s \<Rightarrow> x \<in> s))"
  using assms by (cases r; cases u) (auto intro: ex_new_if_finite)

lemma infinite_capability_names: "infinite (UNIV :: capability_name set)"
proof
  assume "finite (UNIV :: capability_name set)"
  then have "finite (range (\<lambda>s. CapabilityName s []))" by (rule finite_subset [rotated]) simp
  then have "finite (UNIV :: string set)" by (rule finite_imageD) (simp add: inj_on_def)
  then show False by (simp add: infinite_UNIV_listI)
qed

lemma infinite_adapter_ids: "infinite (UNIV :: adapter_id set)"
proof
  assume "finite (UNIV :: adapter_id set)"
  then have "finite (range AdapterId)" by (rule finite_subset [rotated]) simp
  then have "finite (UNIV :: string set)" by (rule finite_imageD) (simp add: inj_on_def)
  then show False by (simp add: infinite_UNIV_listI)
qed

text \<open>The sets of a policy are finite; the acts in which a request is compared with it.\<close>

definition finite_policy :: "permission_set \<Rightarrow> bool" where
  "finite_policy p \<longleftrightarrow> (\<forall>s. ps_capabilities p = Some s \<longrightarrow> finite s) \<and> (\<forall>s. ps_adapters p = Some s \<longrightarrow> finite s)"

fun compared :: "permission_set \<Rightarrow> act \<Rightarrow> bool" where
  "compared r (RunFor t) = (ps_max_timeout_ms r \<noteq> None)"
| "compared r _ = True"

lemma all_acts:
  "(\<forall>a. P a) \<longleftrightarrow> P UseNetwork \<and> P UseShell \<and> P ReadWorkspace \<and> P WriteWorkspace \<and> (\<forall>t. P (RunFor t)) \<and>
     (\<forall>c. P (CallCapability c)) \<and> (\<forall>d. P (CallAdapter d))"
  by (metis act.exhaust)

lemma is_subset_of_iff:
  assumes "finite_policy u"
  shows "is_subset_of r u \<longleftrightarrow> (\<forall>a. compared r a \<and> permits r a \<longrightarrow> permits u a)"
proof -
  have c: "optional_set_expands (ps_capabilities r) (ps_capabilities u) \<longleftrightarrow>
      \<not> (\<forall>c. allows_capability r c \<longrightarrow> allows_capability u c)"
    unfolding allows_capability_def
    by (rule set_expands_iff) (use assms infinite_capability_names in \<open>auto simp: finite_policy_def\<close>)
  have d: "optional_set_expands (ps_adapters r) (ps_adapters u) \<longleftrightarrow>
      \<not> (\<forall>d. allows_adapter r d \<longrightarrow> allows_adapter u d)"
    unfolding allows_adapter_def
    by (rule set_expands_iff) (use assms infinite_adapter_ids in \<open>auto simp: finite_policy_def\<close>)
  show ?thesis unfolding all_acts
    by (auto simp: is_subset_of_def diff_against_def c d timeout_expands_iff)
qed

lemma narrowing_never_expands:
  "\<not> timeout_expands (min_timeout a b) a"
  "\<not> optional_set_expands (intersect_optional_sets x y) x"
  by (cases a; cases b; simp) (cases x; cases y; simp)

lemma narrowed_is_subset: "is_subset_of (perm_narrowed_by u r) u"
  by (simp add: is_subset_of_def diff_against_def perm_narrowed_by_def narrowing_never_expands)

lemma ensure_ok_iff: "ensure_request_allowed e r = Inr () \<longleftrightarrow> is_subset_of r (ep_permissions e)"
  by (simp add: ensure_request_allowed_def is_subset_of_def Let_def)

subsection \<open>Properties\<close>

text \<open>
  C19. The effective policy is exactly the intersection of its layers. It permits an act, and its
  sandbox permits an act, when every layer does; it lists the layers in order; and its
  permissions and sandbox depend only on the set of layers, not on their order or repetition.
\<close>
theorem effective_is_intersection:
  assumes "from_layers ls = Inr e"
  shows "(permits (ep_permissions e) a \<longleftrightarrow> (\<forall>l \<in> set ls. permits (pl_permissions l) a)) \<and>
         (sb_permits (ep_sandbox e) b \<longleftrightarrow> (\<forall>l \<in> set ls. sb_permits (pl_sandbox l) b)) \<and>
         ep_layer_names e = map pl_name ls \<and>
         (\<forall>ls' e'. set ls' = set ls \<and> from_layers ls' = Inr e' \<longrightarrow>
            ep_permissions e' = ep_permissions e \<and> ep_sandbox e' = ep_sandbox e)"
  using from_layers_permits [OF assms] from_layers_meet [OF assms] from_layers_meet by fastforce

theorem effective_is_intersection_witness:
  "let l1 = policy_layer_new ''system'' (deny_all\<lparr>ps_network := True, ps_max_timeout_ms := Some 120000\<rparr>) lua_default;
       l2 = policy_layer_new ''manifest'' (deny_all\<lparr>ps_read_workspace := True, ps_max_timeout_ms := Some 30000\<rparr>) (lua_default\<lparr>sb_memory_mb := Some 32\<rparr>)
   in \<exists>e. from_layers [l1, l2] = Inr e \<and> permits (ep_permissions e) (RunFor 30000) \<and>
        \<not> permits (ep_permissions e) (RunFor 30001) \<and> \<not> permits (ep_permissions e) UseNetwork \<and>
        \<not> sb_permits (ep_sandbox e) (UseMemory 33)"
proof -
  let ?l1 = "policy_layer_new ''system'' (deny_all\<lparr>ps_network := True, ps_max_timeout_ms := Some 120000\<rparr>) lua_default"
  let ?l2 = "policy_layer_new ''manifest'' (deny_all\<lparr>ps_read_workspace := True, ps_max_timeout_ms := Some 30000\<rparr>) (lua_default\<lparr>sb_memory_mb := Some 32\<rparr>)"
  obtain e where e: "from_layers [?l1, ?l2] = Inr e" by simp
  note x = effective_is_intersection [OF e, where b = "UseMemory 33"]
  show ?thesis unfolding Let_def
    using e x [of "RunFor 30000"] x [of "RunFor 30001"] x [of UseNetwork]
    by (simp add: policy_layer_new_def deny_all_def del: from_layers.simps)
qed

text \<open>
  C30. The check of a request accepts exactly the requests that ask for nothing the effective
  policy refuses, in every act except the running time of a request that states no timeout, which
  is not compared (a request with no limit passes under a policy with one). A refusal is a
  permission error. A request narrowed by the policy always passes.
\<close>
theorem request_check_exact:
  assumes "finite_policy (ep_permissions e)"
  shows "(ensure_request_allowed e r = Inr () \<longleftrightarrow>
            (\<forall>a. compared r a \<and> permits r a \<longrightarrow> permits (ep_permissions e) a)) \<and>
         (ensure_request_allowed e r = Inr () \<or>
            (\<exists>err. ensure_request_allowed e r = Inl err \<and> err_kind err = PermissionDenied)) \<and>
         ensure_request_allowed e (narrow_request e r) = Inr ()"
proof (intro conjI)
  show "ensure_request_allowed e r = Inr () \<longleftrightarrow>
      (\<forall>a. compared r a \<and> permits r a \<longrightarrow> permits (ep_permissions e) a)"
    unfolding ensure_ok_iff by (rule is_subset_of_iff [OF assms])
  show "ensure_request_allowed e r = Inr () \<or>
      (\<exists>err. ensure_request_allowed e r = Inl err \<and> err_kind err = PermissionDenied)"
    by (simp add: ensure_request_allowed_def Let_def)
  show "ensure_request_allowed e (narrow_request e r) = Inr ()"
    unfolding ensure_ok_iff narrow_request_def by (rule narrowed_is_subset)
qed

theorem request_check_exact_witness:
  "let e = \<lparr>ep_permissions = deny_all\<lparr>ps_max_timeout_ms := Some 5\<rparr>, ep_sandbox = lua_default, ep_layer_names = []\<rparr>
   in ensure_request_allowed e deny_all = Inr () \<and> permits deny_all (RunFor 6) \<and>
      \<not> permits (ep_permissions e) (RunFor 6) \<and>
      ensure_request_allowed e (deny_all\<lparr>ps_max_timeout_ms := Some 6\<rparr>) \<noteq> Inr ()"
proof -
  let ?e = "\<lparr>ep_permissions = deny_all\<lparr>ps_max_timeout_ms := Some 5\<rparr>, ep_sandbox = lua_default, ep_layer_names = []\<rparr>"
  have fin: "finite_policy (ep_permissions ?e)"
    by (simp add: finite_policy_def deny_all_def)
  have "ensure_request_allowed ?e deny_all = Inr ()"
    using request_check_exact [OF fin, of deny_all]
    by (simp add: all_acts deny_all_def allows_capability_def allows_adapter_def)
  moreover have "ensure_request_allowed ?e (deny_all\<lparr>ps_max_timeout_ms := Some 6\<rparr>) \<noteq> Inr ()"
    using request_check_exact [OF fin, of "deny_all\<lparr>ps_max_timeout_ms := Some 6\<rparr>"]
    by (auto simp: deny_all_def dest!: spec [of _ "RunFor 6"])
  ultimately show ?thesis by (simp add: Let_def deny_all_def)
qed

end
