(* ===== verification/Policy_Gate.thy ===== *)
theory Policy_Gate
  imports Policy_Permissions Eva_Map
begin

section \<open>Policy domains and the runtime gate (eva-policy: domains.rs, mutation\_inventory.rs)\<close>

text \<open>
  The typed policy domains, the decisions the gate takes on high-risk requests, and the inventory
  that assigns a gate to every state-changing operation. How the domains are read from
  configuration is in the theory of the parser.
\<close>

subsection \<open>Domains\<close>

datatype high_risk_action =
    AdapterInvoke
  | ProviderCredentialSession
  | McpToolCall
  | McpTopicEmit
  | SkillRun
  | HardwareBind
  | HardwareRawIo
  | BackupCreate
  | RestoreApply
  | UpgradeApply
  | ReleasePointerMutation
  | SupervisorHandoff

record skill_policy =
  sk_require_schema :: bool
  sk_allow_user_local_skills :: bool
  sk_allowed_runtime_gates :: "string set"
  sk_deny_kinds :: "string set"

record capability_retry_policy =
  crp_max_attempts :: u32
  crp_backoff_ms :: "u64 option"

record retry_policy_domain =
  rpd_default_max_attempts :: u32
  rpd_capabilities :: "(capability_name, capability_retry_policy) btree_map"

record adapter_policy_domain =
  apd_defaults :: permission_set
  apd_allow_write_workspace :: "adapter_id set"
  apd_deny_capabilities :: "capability_name set"
  apd_skill :: skill_policy
  apd_retry :: retry_policy_domain

record hardware_hotplug_policy =
  hh_require_identity_match :: bool
  hh_quarantine_unknown_devices :: bool
  hh_emit_events :: "topic list"

record hardware_policy_domain =
  hw_enabled :: bool
  hw_allow_raw_io :: bool
  hw_claim :: string
  hw_network_bridge :: bool
  hw_max_timeout_ms :: "u64 option"
  hw_allowed_buses :: "string set"
  hw_denied_capabilities :: "capability_name set"
  hw_hotplug :: hardware_hotplug_policy

record mcp_tool_policy =
  mt_enabled :: bool
  mt_allowed_agents :: "agent_id set"
  mt_allowed_capabilities :: "capability_name set"
  mt_allowed_providers :: "adapter_id set"
  mt_allowed_topics :: "topic_pattern list"
  mt_timeout_ms :: "u64 option"

record mcp_server_policy_domain =
  ms_enabled :: bool
  ms_bind :: "string option"
  ms_tools :: "(string, mcp_tool_policy) btree_map"

record runtime_policy_domain =
  rp_allow_high_risk_actions :: "high_risk_action set"

record redaction_policy_domain =
  rd_enabled :: bool
  rd_audit_redactions :: bool
  rd_replacement :: string
  rd_sensitive_key_fragments :: "string set"
  rd_sensitive_token_prefixes :: "string set"

record memory_policy_domain =
  mp_redaction :: redaction_policy_domain

record policy_domain_set =
  pds_source_count :: nat
  pds_adapter :: adapter_policy_domain
  pds_memory :: memory_policy_domain
  pds_hardware :: hardware_policy_domain
  pds_mcp_server :: mcp_server_policy_domain
  pds_runtime :: runtime_policy_domain
  pds_lua_sandbox :: sandbox_policy
  pds_layers :: "policy_layer list"

definition skill_policy_default :: skill_policy where
  "skill_policy_default =
     \<lparr>sk_require_schema = True, sk_allow_user_local_skills = False,
      sk_allowed_runtime_gates = {''normal''}, sk_deny_kinds = {}\<rparr>"

definition retry_policy_default :: retry_policy_domain where
  "retry_policy_default = \<lparr>rpd_default_max_attempts = 0, rpd_capabilities = []\<rparr>"

definition adapter_policy_default :: adapter_policy_domain where
  "adapter_policy_default =
     \<lparr>apd_defaults = deny_all, apd_allow_write_workspace = {}, apd_deny_capabilities = {},
      apd_skill = skill_policy_default, apd_retry = retry_policy_default\<rparr>"

definition hotplug_policy_default :: hardware_hotplug_policy where
  "hotplug_policy_default =
     \<lparr>hh_require_identity_match = True, hh_quarantine_unknown_devices = True, hh_emit_events = []\<rparr>"

definition hardware_policy_default :: hardware_policy_domain where
  "hardware_policy_default =
     \<lparr>hw_enabled = False, hw_allow_raw_io = False, hw_claim = ''exclusive'',
      hw_network_bridge = False, hw_max_timeout_ms = None, hw_allowed_buses = {},
      hw_denied_capabilities = {}, hw_hotplug = hotplug_policy_default\<rparr>"

definition mcp_server_policy_default :: mcp_server_policy_domain where
  "mcp_server_policy_default = \<lparr>ms_enabled = False, ms_bind = None, ms_tools = []\<rparr>"

definition redaction_policy_default :: redaction_policy_domain where
  "redaction_policy_default =
     \<lparr>rd_enabled = True, rd_audit_redactions = True, rd_replacement = ''[REDACTED]'',
      rd_sensitive_key_fragments =
        {''password'', ''secret'', ''token'', ''api_key'', ''apikey'', ''authorization''},
      rd_sensitive_token_prefixes = {''sk-''}\<rparr>"

definition policy_domain_set_default :: policy_domain_set where
  "policy_domain_set_default =
     \<lparr>pds_source_count = 0, pds_adapter = adapter_policy_default,
      pds_memory = \<lparr>mp_redaction = redaction_policy_default\<rparr>,
      pds_hardware = hardware_policy_default, pds_mcp_server = mcp_server_policy_default,
      pds_runtime = \<lparr>rp_allow_high_risk_actions = {}\<rparr>, pds_lua_sandbox = lua_default,
      pds_layers = []\<rparr>"

definition domains_effective_policy :: "policy_domain_set \<Rightarrow> effective_policy res" where
  "domains_effective_policy d = from_layers (pds_layers d)"

subsection \<open>Actions and requests\<close>

fun action_as_str :: "high_risk_action \<Rightarrow> string" where
  "action_as_str AdapterInvoke = ''adapter.invoke''"
| "action_as_str ProviderCredentialSession = ''provider.credential_session''"
| "action_as_str McpToolCall = ''mcp.tool.call''"
| "action_as_str McpTopicEmit = ''mcp.topic.emit''"
| "action_as_str SkillRun = ''skill.run''"
| "action_as_str HardwareBind = ''hardware.bind''"
| "action_as_str HardwareRawIo = ''hardware.raw_io''"
| "action_as_str BackupCreate = ''backup.create''"
| "action_as_str RestoreApply = ''restore.apply''"
| "action_as_str UpgradeApply = ''upgrade.apply''"
| "action_as_str ReleasePointerMutation = ''release.pointer_mutation''"
| "action_as_str SupervisorHandoff = ''supervisor.handoff''"

definition action_parse :: "string \<Rightarrow> high_risk_action res" where
  "action_parse v =
     (if v = ''adapter.invoke'' then Inr AdapterInvoke
      else if v = ''provider.credential_session'' then Inr ProviderCredentialSession
      else if v = ''mcp.tool.call'' then Inr McpToolCall
      else if v = ''mcp.topic.emit'' then Inr McpTopicEmit
      else if v = ''skill.run'' then Inr SkillRun
      else if v = ''hardware.bind'' then Inr HardwareBind
      else if v = ''hardware.raw_io'' then Inr HardwareRawIo
      else if v = ''backup.create'' then Inr BackupCreate
      else if v = ''restore.apply'' then Inr RestoreApply
      else if v = ''upgrade.apply'' then Inr UpgradeApply
      else if v = ''release.pointer_mutation'' then Inr ReleasePointerMutation
      else if v = ''supervisor.handoff'' then Inr SupervisorHandoff
      else Inl (with_context (err_invalid_argument ''unknown high-risk policy action'') ''action'' v))"

record runtime_policy_request =
  rq_action :: high_risk_action
  rq_tool :: "string option"
  rq_agent :: "agent_id option"
  rq_capability :: "capability_name option"
  rq_provider :: "adapter_id option"
  rq_adapter :: "adapter_id option"
  rq_topic :: "topic option"
  rq_bus :: "string option"
  rq_timeout_ms :: "u64 option"

definition policy_request_new :: "high_risk_action \<Rightarrow> runtime_policy_request" where
  "policy_request_new a =
     \<lparr>rq_action = a, rq_tool = None, rq_agent = None, rq_capability = None, rq_provider = None,
      rq_adapter = None, rq_topic = None, rq_bus = None, rq_timeout_ms = None\<rparr>"

definition rq_with_capability :: "runtime_policy_request \<Rightarrow> capability_name \<Rightarrow> runtime_policy_request" where
  "rq_with_capability r v = r\<lparr>rq_capability := Some v\<rparr>"

definition rq_with_bus :: "runtime_policy_request \<Rightarrow> string \<Rightarrow> runtime_policy_request" where
  "rq_with_bus r v = r\<lparr>rq_bus := Some v\<rparr>"

definition rq_with_timeout_ms :: "runtime_policy_request \<Rightarrow> u64 \<Rightarrow> runtime_policy_request" where
  "rq_with_timeout_ms r v = r\<lparr>rq_timeout_ms := Some v\<rparr>"

record policy_decision =
  pd_action :: high_risk_action
  pd_allowed :: bool
  pd_reason :: string
  pd_audit :: "string list"

definition allowed :: "high_risk_action \<Rightarrow> string \<Rightarrow> policy_decision" where
  "allowed a reason =
     \<lparr>pd_action = a, pd_allowed = True, pd_reason = reason,
      pd_audit = [''policy.action:'' @ action_as_str a, ''policy.decision:allow'', ''policy.reason:'' @ reason]\<rparr>"

definition denied :: "high_risk_action \<Rightarrow> string \<Rightarrow> policy_decision" where
  "denied a reason =
     \<lparr>pd_action = a, pd_allowed = False, pd_reason = reason,
      pd_audit = [''policy.action:'' @ action_as_str a, ''policy.decision:deny'', ''policy.reason:'' @ reason]\<rparr>"

definition decision_ensure_allowed :: "policy_decision \<Rightarrow> unit res" where
  "decision_ensure_allowed d =
     (if pd_allowed d then Inr ()
      else Inl (with_context (with_context (with_context
             (err_permission_denied ''runtime policy denied high-risk action'')
             ''action'' (action_as_str (pd_action d))) ''reason'' (pd_reason d))
             ''audit'' (join '';'' (pd_audit d))))"

subsection \<open>The gate\<close>

text \<open>\<open>over_limit\<close> is the shape the code repeats: a stated timeout above a stated limit.\<close>

definition over_limit :: "u64 option \<Rightarrow> u64 option \<Rightarrow> bool" where
  "over_limit timeout limit = (case timeout of None \<Rightarrow> False
     | Some t \<Rightarrow> (case limit of None \<Rightarrow> False | Some l \<Rightarrow> t > l))"

definition decide_adapter_invoke :: "policy_domain_set \<Rightarrow> runtime_policy_request \<Rightarrow> policy_decision" where
  "decide_adapter_invoke d r = (let a = rq_action r; ad = pds_adapter d in
     case rq_capability r of
       Some c \<Rightarrow>
         if c \<in> apd_deny_capabilities ad
         then denied a (''capability '' @ cap_name c @ '' is globally denied'')
         else if over_limit (rq_timeout_ms r) (ps_max_timeout_ms (apd_defaults ad))
         then denied a ''adapter request timeout exceeds policy limit''
         else allowed a ''adapter request is within policy domain''
     | None \<Rightarrow>
         if over_limit (rq_timeout_ms r) (ps_max_timeout_ms (apd_defaults ad))
         then denied a ''adapter request timeout exceeds policy limit''
         else allowed a ''adapter request is within policy domain'')"

definition decide_provider_credential_session ::
  "policy_domain_set \<Rightarrow> runtime_policy_request \<Rightarrow> policy_decision" where
  "decide_provider_credential_session d r = (let a = rq_action r in
     case rq_adapter r of
       None \<Rightarrow> denied a ''provider credential session requires adapter scope''
     | Some ad \<Rightarrow>
         (case rq_provider r of
            None \<Rightarrow> denied a ''provider credential session requires provider scope''
          | Some p \<Rightarrow>
              if ad \<noteq> p then denied a ''provider credential session cannot be reused across providers''
              else allowed a ''provider credential session is scoped to requested provider''))"

definition decide_skill_run :: "policy_domain_set \<Rightarrow> runtime_policy_request \<Rightarrow> policy_decision" where
  "decide_skill_run d r = (let a = rq_action r in
     case rq_tool r of
       None \<Rightarrow> denied a ''skill runtime gate is required''
     | Some gate \<Rightarrow>
         if gate \<notin> sk_allowed_runtime_gates (apd_skill (pds_adapter d))
         then denied a (''skill runtime gate '' @ gate @ '' is not allowed'')
         else allowed a ''skill runtime gate is allowed'')"

text \<open>A stated identity that a non-empty list does not have.\<close>

definition outside :: "'a option \<Rightarrow> 'a set \<Rightarrow> 'a option" where
  "outside x s = (case x of None \<Rightarrow> None | Some y \<Rightarrow> if s \<noteq> {} \<and> y \<notin> s then Some y else None)"

definition decide_mcp_tool_call :: "policy_domain_set \<Rightarrow> runtime_policy_request \<Rightarrow> policy_decision" where
  "decide_mcp_tool_call d r = (let a = rq_action r in
     case rq_tool r of
       None \<Rightarrow> denied a ''MCP tool name is required''
     | Some tool_name \<Rightarrow>
       (case bt_get (ms_tools (pds_mcp_server d)) tool_name of
          None \<Rightarrow> denied a (''MCP tool '' @ tool_name @ '' is not declared'')
        | Some tool \<Rightarrow>
          if \<not> ms_enabled (pds_mcp_server d) \<or> \<not> mt_enabled tool
          then denied a (''MCP tool '' @ tool_name @ '' is disabled'')
          else (case outside (rq_agent r) (mt_allowed_agents tool) of
            Some agent \<Rightarrow> denied a (''agent '' @ agent_id_str agent @ '' is not allowed for '' @ tool_name)
          | None \<Rightarrow>
            (case outside (rq_capability r) (mt_allowed_capabilities tool) of
              Some c \<Rightarrow> denied a (''capability '' @ cap_name c @ '' is not allowed for '' @ tool_name)
            | None \<Rightarrow>
              (case outside (rq_provider r) (mt_allowed_providers tool) of
                Some p \<Rightarrow> denied a (''provider '' @ adapter_id_str p @ '' is not allowed for '' @ tool_name)
              | None \<Rightarrow>
                if over_limit (rq_timeout_ms r) (mt_timeout_ms tool)
                then denied a (''MCP tool '' @ tool_name @ '' timeout exceeds policy'')
                else allowed a (''MCP tool '' @ tool_name @ '' is allowed''))))))"

definition decide_mcp_topic_emit :: "policy_domain_set \<Rightarrow> runtime_policy_request \<Rightarrow> policy_decision" where
  "decide_mcp_topic_emit d r = (let a = rq_action r in
     case bt_get (ms_tools (pds_mcp_server d)) ''topic.emit'' of
       None \<Rightarrow> denied a ''topic.emit policy is not declared''
     | Some tool \<Rightarrow>
         if \<not> ms_enabled (pds_mcp_server d) \<or> \<not> mt_enabled tool
         then denied a ''topic.emit is disabled''
         else (case rq_topic r of
             None \<Rightarrow> denied a ''topic.emit requires a topic''
           | Some t \<Rightarrow>
               if \<not> list_ex (\<lambda>pat. pattern_matches pat t) (mt_allowed_topics tool)
               then denied a (''topic '' @ topic_path t @ '' is not allowlisted'')
               else allowed a (''topic '' @ topic_path t @ '' is allowed'')))"

definition decide_hardware_bind :: "policy_domain_set \<Rightarrow> runtime_policy_request \<Rightarrow> policy_decision" where
  "decide_hardware_bind d r = (let a = rq_action r; hw = pds_hardware d in
     if \<not> hw_enabled hw then denied a ''hardware policy is disabled''
     else (case outside (rq_bus r) (hw_allowed_buses hw) of
         Some bus \<Rightarrow> denied a (''hardware bus '' @ bus @ '' is not allowed'')
       | None \<Rightarrow>
         (case rq_capability r of
            Some c \<Rightarrow>
              if c \<in> hw_denied_capabilities hw
              then denied a (''hardware capability '' @ cap_name c @ '' is denied'')
              else if over_limit (rq_timeout_ms r) (hw_max_timeout_ms hw)
              then denied a ''hardware timeout exceeds policy limit''
              else allowed a ''hardware bind is within policy domain''
          | None \<Rightarrow>
              if over_limit (rq_timeout_ms r) (hw_max_timeout_ms hw)
              then denied a ''hardware timeout exceeds policy limit''
              else allowed a ''hardware bind is within policy domain'')))"

definition decide_hardware_raw_io :: "policy_domain_set \<Rightarrow> runtime_policy_request \<Rightarrow> policy_decision" where
  "decide_hardware_raw_io d r = (let a = rq_action r in
     if \<not> hw_enabled (pds_hardware d) then denied a ''hardware policy is disabled''
     else if \<not> hw_allow_raw_io (pds_hardware d)
     then denied a ''hardware raw I/O is disabled by policy''
     else decide_hardware_bind d r)"

definition decide_explicit_runtime_action ::
  "policy_domain_set \<Rightarrow> runtime_policy_request \<Rightarrow> policy_decision" where
  "decide_explicit_runtime_action d r = (let a = rq_action r in
     if a \<in> rp_allow_high_risk_actions (pds_runtime d)
     then allowed a ''runtime policy explicitly allows high-risk action''
     else denied a
       ''high-risk action requires explicit runtime_policy allow_high_risk_actions entry'')"

definition decide :: "policy_domain_set \<Rightarrow> runtime_policy_request \<Rightarrow> policy_decision" where
  "decide d r = (case rq_action r of
     McpToolCall \<Rightarrow> decide_mcp_tool_call d r
   | McpTopicEmit \<Rightarrow> decide_mcp_topic_emit d r
   | HardwareBind \<Rightarrow> decide_hardware_bind d r
   | HardwareRawIo \<Rightarrow> decide_hardware_raw_io d r
   | AdapterInvoke \<Rightarrow> decide_adapter_invoke d r
   | ProviderCredentialSession \<Rightarrow> decide_provider_credential_session d r
   | SkillRun \<Rightarrow> decide_skill_run d r
   | BackupCreate \<Rightarrow> decide_explicit_runtime_action d r
   | RestoreApply \<Rightarrow> decide_explicit_runtime_action d r
   | UpgradeApply \<Rightarrow> decide_explicit_runtime_action d r
   | ReleasePointerMutation \<Rightarrow> decide_explicit_runtime_action d r
   | SupervisorHandoff \<Rightarrow> decide_explicit_runtime_action d r)"

subsection \<open>The inventory of state-changing operations\<close>

datatype mutation_operation =
    MutDaemonShutdown
  | MutDaemonTaskSubmit
  | MutDaemonTaskCancel
  | MutDaemonAgentDrain
  | MutDaemonAgentReload
  | MutRestoreApply
  | MutRestoreRollback
  | MutUpgradeHandoff
  | MutReleasePointerPromote
  | MutHardwareBind
  | MutServiceInstall
  | MutServiceStart
  | MutServiceStop
  | MutServiceRestart
  | MutServiceUninstall
  | MutMemoryMaintenance

datatype mutation_gate =
    AuthenticatedDaemon
  | HighRisk high_risk_action
  | ServiceManager
  | MemoryPolicy

record mutation_inventory_entry =
  mi_operation :: mutation_operation
  mi_stable_name :: string
  mi_gate :: mutation_gate

definition inventory_entry :: "mutation_operation \<Rightarrow> string \<Rightarrow> mutation_gate \<Rightarrow> mutation_inventory_entry" where
  "inventory_entry operation name gate = \<lparr>mi_operation = operation, mi_stable_name = name, mi_gate = gate\<rparr>"

definition MUTATION_INVENTORY :: "mutation_inventory_entry list" where
  "MUTATION_INVENTORY =
     [inventory_entry MutDaemonShutdown ''daemon.shutdown'' AuthenticatedDaemon,
      inventory_entry MutDaemonTaskSubmit ''daemon.task_submit'' AuthenticatedDaemon,
      inventory_entry MutDaemonTaskCancel ''daemon.task_cancel'' AuthenticatedDaemon,
      inventory_entry MutDaemonAgentDrain ''daemon.agent_drain'' AuthenticatedDaemon,
      inventory_entry MutDaemonAgentReload ''daemon.agent_reload'' AuthenticatedDaemon,
      inventory_entry MutRestoreApply ''restore.apply'' (HighRisk RestoreApply),
      inventory_entry MutRestoreRollback ''restore.rollback'' (HighRisk RestoreApply),
      inventory_entry MutUpgradeHandoff ''upgrade.handoff'' (HighRisk SupervisorHandoff),
      inventory_entry MutReleasePointerPromote ''release.pointer_promote'' (HighRisk ReleasePointerMutation),
      inventory_entry MutHardwareBind ''hardware.bind'' (HighRisk HardwareBind),
      inventory_entry MutServiceInstall ''service.install'' ServiceManager,
      inventory_entry MutServiceStart ''service.start'' ServiceManager,
      inventory_entry MutServiceStop ''service.stop'' ServiceManager,
      inventory_entry MutServiceRestart ''service.restart'' ServiceManager,
      inventory_entry MutServiceUninstall ''service.uninstall'' ServiceManager,
      inventory_entry MutMemoryMaintenance ''memory.maintenance'' MemoryPolicy]"

definition stable_name :: "mutation_operation \<Rightarrow> string" where
  "stable_name operation =
     (case find (\<lambda>e. mi_operation e = operation) MUTATION_INVENTORY of
        None \<Rightarrow> ''unknown'' | Some e \<Rightarrow> mi_stable_name e)"

record mutation_decision =
  md_operation :: mutation_operation
  md_allowed :: bool
  md_reason :: string
  md_audit :: "string list"

definition mutation_audit :: "mutation_operation \<Rightarrow> bool \<Rightarrow> string list" where
  "mutation_audit operation ok =
     [''mutation.policy:'' @ stable_name operation @ '':'' @ (if ok then ''allow'' else ''deny'')]"

definition registered_under :: "mutation_operation \<Rightarrow> mutation_gate \<Rightarrow> bool" where
  "registered_under operation gate =
     list_ex (\<lambda>e. mi_operation e = operation \<and> mi_gate e = gate) MUTATION_INVENTORY"

definition authenticated_daemon :: "mutation_operation \<Rightarrow> bool \<Rightarrow> mutation_decision" where
  "authenticated_daemon operation authenticated =
     (let ok = authenticated \<and> registered_under operation AuthenticatedDaemon in
      \<lparr>md_operation = operation, md_allowed = ok,
       md_reason = (if ok then ''authenticated daemon mutation gate allowed''
                    else ''daemon mutation requires authenticated active lease ownership''),
       md_audit = mutation_audit operation ok\<rparr>)"

definition service_manager :: "mutation_operation \<Rightarrow> bool \<Rightarrow> bool \<Rightarrow> mutation_decision" where
  "service_manager operation configured adapter_allowed =
     (let registered = registered_under operation ServiceManager;
          ok = registered \<and> configured \<and> adapter_allowed in
      \<lparr>md_operation = operation, md_allowed = ok,
       md_reason = (if \<not> registered then ''service mutation is not registered in the mutation inventory''
                    else if \<not> configured then ''service manager configuration is disabled''
                    else if \<not> adapter_allowed
                    then ''service manager adapter is not allowed for this host or mode''
                    else ''service manager mutation gate allowed''),
       md_audit = mutation_audit operation ok\<rparr>)"

definition mutation_ensure_allowed :: "mutation_decision \<Rightarrow> unit res" where
  "mutation_ensure_allowed d =
     (if md_allowed d then Inr ()
      else Inl (with_context (with_context (err_permission_denied ''mutation policy denied operation'')
             ''operation'' (stable_name (md_operation d))) ''reason'' (md_reason d)))"

subsection \<open>Decisions\<close>

lemma decision_simps [simp]:
  "pd_allowed (allowed a x)" "\<not> pd_allowed (denied a x)"
  "pd_action (allowed a x) = a" "pd_action (denied a x) = a"
  by (simp_all add: allowed_def denied_def)

lemma outside_None: "outside x s = None \<longleftrightarrow> (\<forall>y. x = Some y \<longrightarrow> s = {} \<or> y \<in> s)"
  by (auto simp: outside_def split: option.splits)

lemma not_over_limit:
  "\<not> over_limit t l \<longleftrightarrow> (\<forall>x y. t = Some x \<and> l = Some y \<longrightarrow> x \<le> y)"
  by (auto simp: over_limit_def split: option.splits)

lemmas decide_defs = decide_def decide_mcp_tool_call_def decide_mcp_topic_emit_def
  decide_hardware_bind_def decide_hardware_raw_io_def decide_adapter_invoke_def
  decide_provider_credential_session_def decide_skill_run_def decide_explicit_runtime_action_def

text \<open>Every decision is one of the two forms, so its audit states its own action, verdict and reason.\<close>

definition verdict :: "high_risk_action \<Rightarrow> policy_decision \<Rightarrow> bool" where
  "verdict a dec \<longleftrightarrow> pd_action dec = a \<and>
     pd_audit dec = [''policy.action:'' @ action_as_str a,
       if pd_allowed dec then ''policy.decision:allow'' else ''policy.decision:deny'',
       ''policy.reason:'' @ pd_reason dec]"

lemma verdict_forms [simp]: "verdict a (allowed a x)" "verdict a (denied a x)"
  by (simp_all add: verdict_def allowed_def denied_def)

lemma decide_verdict: "verdict (rq_action r) (decide d r)"
  by (cases "rq_action r") (simp_all add: decide_defs Let_def split: option.split)

definition hw_admits :: "hardware_policy_domain \<Rightarrow> runtime_policy_request \<Rightarrow> bool" where
  "hw_admits hw r \<longleftrightarrow> hw_enabled hw \<and>
     (\<forall>b. rq_bus r = Some b \<longrightarrow> hw_allowed_buses hw = {} \<or> b \<in> hw_allowed_buses hw) \<and>
     (\<forall>c. rq_capability r = Some c \<longrightarrow> c \<notin> hw_denied_capabilities hw) \<and>
     (\<forall>t limit. rq_timeout_ms r = Some t \<and> hw_max_timeout_ms hw = Some limit \<longrightarrow> t \<le> limit)"

lemma action_parse_iff: "action_parse s = Inr a \<longleftrightarrow> s = action_as_str a"
proof
  assume "action_parse s = Inr a"
  then show "s = action_as_str a" unfolding action_parse_def by (auto split: if_splits)
next
  assume "s = action_as_str a"
  then show "action_parse s = Inr a" by (cases a) (simp_all add: action_parse_def)
qed

lemma inventory_find: "\<exists>e. find (\<lambda>e. mi_operation e = operation) MUTATION_INVENTORY = Some e"
  by (cases operation) (simp_all add: MUTATION_INVENTORY_def inventory_entry_def)

lemma stable_names:
  "stable_name MutDaemonShutdown = ''daemon.shutdown''"
  "stable_name MutDaemonTaskSubmit = ''daemon.task_submit''"
  "stable_name MutDaemonTaskCancel = ''daemon.task_cancel''"
  "stable_name MutDaemonAgentDrain = ''daemon.agent_drain''"
  "stable_name MutDaemonAgentReload = ''daemon.agent_reload''"
  "stable_name MutRestoreApply = ''restore.apply''"
  "stable_name MutRestoreRollback = ''restore.rollback''"
  "stable_name MutUpgradeHandoff = ''upgrade.handoff''"
  "stable_name MutReleasePointerPromote = ''release.pointer_promote''"
  "stable_name MutHardwareBind = ''hardware.bind''"
  "stable_name MutServiceInstall = ''service.install''"
  "stable_name MutServiceStart = ''service.start''"
  "stable_name MutServiceStop = ''service.stop''"
  "stable_name MutServiceRestart = ''service.restart''"
  "stable_name MutServiceUninstall = ''service.uninstall''"
  "stable_name MutMemoryMaintenance = ''memory.maintenance''"
  by (simp_all add: stable_name_def MUTATION_INVENTORY_def inventory_entry_def)

lemma stable_name_inj: "stable_name a = stable_name b \<Longrightarrow> a = b"
  by (cases a; cases b; simp only: stable_names; simp)

lemma decide_allowed:
  "pd_allowed (decide d r) \<longleftrightarrow> (case rq_action r of
      AdapterInvoke \<Rightarrow>
        (\<forall>c. rq_capability r = Some c \<longrightarrow> c \<notin> apd_deny_capabilities (pds_adapter d)) \<and>
        \<not> over_limit (rq_timeout_ms r) (ps_max_timeout_ms (apd_defaults (pds_adapter d)))
    | ProviderCredentialSession \<Rightarrow> \<exists>p. rq_adapter r = Some p \<and> rq_provider r = Some p
    | SkillRun \<Rightarrow> \<exists>g. rq_tool r = Some g \<and> g \<in> sk_allowed_runtime_gates (apd_skill (pds_adapter d))
    | McpToolCall \<Rightarrow>
        ms_enabled (pds_mcp_server d) \<and>
        (\<exists>t tool. rq_tool r = Some t \<and> bt_get (ms_tools (pds_mcp_server d)) t = Some tool \<and> mt_enabled tool \<and>
           outside (rq_agent r) (mt_allowed_agents tool) = None \<and>
           outside (rq_capability r) (mt_allowed_capabilities tool) = None \<and>
           outside (rq_provider r) (mt_allowed_providers tool) = None \<and>
           \<not> over_limit (rq_timeout_ms r) (mt_timeout_ms tool))
    | McpTopicEmit \<Rightarrow>
        ms_enabled (pds_mcp_server d) \<and>
        (\<exists>t tool. rq_topic r = Some t \<and> bt_get (ms_tools (pds_mcp_server d)) ''topic.emit'' = Some tool \<and>
           mt_enabled tool \<and> (\<exists>pat \<in> set (mt_allowed_topics tool). pattern_matches pat t))
    | HardwareBind \<Rightarrow>
        hw_enabled (pds_hardware d) \<and> outside (rq_bus r) (hw_allowed_buses (pds_hardware d)) = None \<and>
        (\<forall>c. rq_capability r = Some c \<longrightarrow> c \<notin> hw_denied_capabilities (pds_hardware d)) \<and>
        \<not> over_limit (rq_timeout_ms r) (hw_max_timeout_ms (pds_hardware d))
    | HardwareRawIo \<Rightarrow> hw_allow_raw_io (pds_hardware d) \<and>
        hw_enabled (pds_hardware d) \<and> outside (rq_bus r) (hw_allowed_buses (pds_hardware d)) = None \<and>
        (\<forall>c. rq_capability r = Some c \<longrightarrow> c \<notin> hw_denied_capabilities (pds_hardware d)) \<and>
        \<not> over_limit (rq_timeout_ms r) (hw_max_timeout_ms (pds_hardware d))
    | a \<Rightarrow> a \<in> rp_allow_high_risk_actions (pds_runtime d))"
  by (cases "rq_action r") (auto simp: decide_defs Let_def list_ex_iff split: option.splits)

lemma decision_ensure_allowed_cases:
  "if pd_allowed dec then decision_ensure_allowed dec = Inr ()
   else \<exists>err. decision_ensure_allowed dec = Inl err \<and> err_kind err = PermissionDenied"
  by (simp add: decision_ensure_allowed_def)

subsection \<open>Properties\<close>

text \<open>
  C23. When the gate allows a request, for every action and every policy. An adapter call: the
  capability is not denied and a stated timeout is at most the default limit, where there is one. A credential session: adapter
  and provider are stated and equal. A skill: its gate is listed. A tool call: the tool is declared,
  the server and the tool are enabled, every stated scope is in the list of the
  tool, unless that list is empty, and a stated timeout is at most the limit of the tool. An emission: the tool \<open>topic.emit\<close> is enabled and one of its patterns matches. Hardware:
  enabled, bus, capability and timeout admitted, and raw access in addition switched on.
  Everything else: listed explicitly. A denial is a permission error, and the audit of every
  decision states its action, its verdict and its reason.
\<close>
theorem gate_allows_iff:
  "(pd_allowed (decide d r) \<longleftrightarrow> (case rq_action r of
      AdapterInvoke \<Rightarrow>
        (\<forall>c. rq_capability r = Some c \<longrightarrow> c \<notin> apd_deny_capabilities (pds_adapter d)) \<and>
        (\<forall>t limit. rq_timeout_ms r = Some t \<and>
           ps_max_timeout_ms (apd_defaults (pds_adapter d)) = Some limit \<longrightarrow> t \<le> limit)
    | ProviderCredentialSession \<Rightarrow> \<exists>p. rq_adapter r = Some p \<and> rq_provider r = Some p
    | SkillRun \<Rightarrow> \<exists>g. rq_tool r = Some g \<and> g \<in> sk_allowed_runtime_gates (apd_skill (pds_adapter d))
    | McpToolCall \<Rightarrow>
        ms_enabled (pds_mcp_server d) \<and>
        (\<exists>t tool. rq_tool r = Some t \<and> bt_get (ms_tools (pds_mcp_server d)) t = Some tool \<and> mt_enabled tool \<and>
           (\<forall>a. rq_agent r = Some a \<longrightarrow> mt_allowed_agents tool = {} \<or> a \<in> mt_allowed_agents tool) \<and>
           (\<forall>c. rq_capability r = Some c \<longrightarrow> mt_allowed_capabilities tool = {} \<or> c \<in> mt_allowed_capabilities tool) \<and>
           (\<forall>p. rq_provider r = Some p \<longrightarrow> mt_allowed_providers tool = {} \<or> p \<in> mt_allowed_providers tool) \<and>
           (\<forall>ms limit. rq_timeout_ms r = Some ms \<and> mt_timeout_ms tool = Some limit \<longrightarrow> ms \<le> limit))
    | McpTopicEmit \<Rightarrow>
        ms_enabled (pds_mcp_server d) \<and>
        (\<exists>t tool. rq_topic r = Some t \<and> bt_get (ms_tools (pds_mcp_server d)) ''topic.emit'' = Some tool \<and>
           mt_enabled tool \<and> (\<exists>pat \<in> set (mt_allowed_topics tool). pattern_matches pat t))
    | HardwareBind \<Rightarrow> hw_admits (pds_hardware d) r
    | HardwareRawIo \<Rightarrow> hw_allow_raw_io (pds_hardware d) \<and> hw_admits (pds_hardware d) r
    | a \<Rightarrow> a \<in> rp_allow_high_risk_actions (pds_runtime d))) \<and>
   verdict (rq_action r) (decide d r) \<and>
   (if pd_allowed (decide d r) then decision_ensure_allowed (decide d r) = Inr ()
    else \<exists>err. decision_ensure_allowed (decide d r) = Inl err \<and> err_kind err = PermissionDenied)"
  using decide_verdict [of r d] decision_ensure_allowed_cases [of "decide d r"]
  unfolding decide_allowed outside_None not_over_limit hw_admits_def by (simp only: simp_thms if_bool_eq_conj)

theorem gate_allows_iff_witness:
  "pd_allowed (decide policy_domain_set_default (rq_with_timeout_ms (policy_request_new AdapterInvoke) 7)) \<and>
   \<not> pd_allowed (decide policy_domain_set_default (policy_request_new HardwareRawIo))"
  using gate_allows_iff [of policy_domain_set_default "rq_with_timeout_ms (policy_request_new AdapterInvoke) 7"]
    gate_allows_iff [of policy_domain_set_default "policy_request_new HardwareRawIo"]
  by (simp add: policy_request_new_def rq_with_timeout_ms_def policy_domain_set_default_def
      adapter_policy_default_def hw_admits_def deny_all_def hardware_policy_default_def)

text \<open>
  Without any policy document the gate allows exactly three kinds of request: every adapter
  call, whatever its scope; a credential session of a provider with itself; and a skill that asks
  for the normal gate. Tools, emissions, hardware and every administrative action are denied.
\<close>
theorem default_gate:
  "pd_allowed (decide policy_domain_set_default r) \<longleftrightarrow>
     rq_action r = AdapterInvoke \<or>
     (rq_action r = ProviderCredentialSession \<and> (\<exists>p. rq_adapter r = Some p \<and> rq_provider r = Some p)) \<or>
     (rq_action r = SkillRun \<and> rq_tool r = Some ''normal'')"
  by (cases "rq_action r")
    (auto simp: decide_defs Let_def policy_domain_set_default_def adapter_policy_default_def
      over_limit_def deny_all_def hardware_policy_default_def mcp_server_policy_default_def
      skill_policy_default_def split: option.splits)

text \<open>
  Every state-changing operation has exactly one entry in the inventory, and no two share a
  stable name. The daemon gate passes exactly the five daemon operations of an authenticated
  caller, the service gate exactly the five service operations when the manager is configured and
  its adapter allowed; so no operation passes both.
\<close>
theorem inventory_assigns_one_gate:
  "(length (filter (\<lambda>e. mi_operation e = op) MUTATION_INVENTORY) = 1) \<and>
   (stable_name op = stable_name op' \<longleftrightarrow> op = op') \<and>
   (md_allowed (authenticated_daemon op auth) \<longleftrightarrow> auth \<and>
      op \<in> {MutDaemonShutdown, MutDaemonTaskSubmit, MutDaemonTaskCancel, MutDaemonAgentDrain, MutDaemonAgentReload}) \<and>
   (md_allowed (service_manager op configured adapter) \<longleftrightarrow> configured \<and> adapter \<and>
      op \<in> {MutServiceInstall, MutServiceStart, MutServiceStop, MutServiceRestart, MutServiceUninstall})"
proof (intro conjI)
  show "length (filter (\<lambda>e. mi_operation e = op) MUTATION_INVENTORY) = 1"
    by (cases op) (simp_all add: MUTATION_INVENTORY_def inventory_entry_def)
  show "stable_name op = stable_name op' \<longleftrightarrow> op = op'" using stable_name_inj by auto
  show "md_allowed (authenticated_daemon op auth) \<longleftrightarrow> auth \<and>
      op \<in> {MutDaemonShutdown, MutDaemonTaskSubmit, MutDaemonTaskCancel, MutDaemonAgentDrain, MutDaemonAgentReload}"
    by (cases op) (simp_all add: authenticated_daemon_def registered_under_def MUTATION_INVENTORY_def
        inventory_entry_def Let_def)
  show "md_allowed (service_manager op configured adapter) \<longleftrightarrow> configured \<and> adapter \<and>
      op \<in> {MutServiceInstall, MutServiceStart, MutServiceStop, MutServiceRestart, MutServiceUninstall}"
    by (cases op) (auto simp: service_manager_def registered_under_def MUTATION_INVENTORY_def
        inventory_entry_def Let_def)
qed

end
