(* ===== verification/Policy_Documents.thy ===== *)
theory Policy_Documents
  imports Policy_Gate
begin

section \<open>Reading policy documents (eva-policy: domains.rs)\<close>

text \<open>
  The typed reading of YAML policy documents. The YAML library is a parameter: a record \<open>yaml\<close> of
  the accessors the code calls on its values and mappings, over arbitrary types of values and
  mappings. Every parser reads its fields in the order of the code, so the first malformed field
  is the one reported.
\<close>

record ('v, 'm) yaml_api =
  y_as_mapping :: "'v \<Rightarrow> 'm option"
  y_get :: "'m \<Rightarrow> string \<Rightarrow> 'v option"
  y_entries :: "'m \<Rightarrow> ('v \<times> 'v) list"
  y_as_bool :: "'v \<Rightarrow> bool option"
  y_as_u64 :: "'v \<Rightarrow> u64 option"
  y_as_str :: "'v \<Rightarrow> string option"
  y_as_sequence :: "'v \<Rightarrow> 'v list option"

record 'v policy_document =
  pdoc_path :: string
  pdoc_domains :: "(string, 'v) btree_map"

subsection \<open>Fields\<close>

definition field_error :: "string \<Rightarrow> string \<Rightarrow> eva_error" where
  "field_error message path = with_context (err_invalid_argument message) ''field'' path"

definition expect_mapping :: "('v, 'm) yaml_api \<Rightarrow> 'v \<Rightarrow> string \<Rightarrow> 'm res" where
  "expect_mapping y v path =
     ok_or (field_error ''policy domain field must be a mapping'' path) (y_as_mapping y v)"

definition required_str :: "('v, 'm) yaml_api \<Rightarrow> 'v \<Rightarrow> string \<Rightarrow> string res" where
  "required_str y v path = ok_or (field_error ''policy field must be a string'' path) (y_as_str y v)"

definition yaml_sequence :: "('v, 'm) yaml_api \<Rightarrow> 'v \<Rightarrow> string \<Rightarrow> 'v list res" where
  "yaml_sequence y v path = ok_or (field_error ''policy field must be a list'' path) (y_as_sequence y v)"

definition required_key :: "('v, 'm) yaml_api \<Rightarrow> 'v \<Rightarrow> string \<Rightarrow> string res" where
  "required_key y v path = res_bind (required_str y v path) (\<lambda>s.
     if trim s = [] \<or> trim s \<noteq> s
     then Inl (field_error ''policy mapping key must be non-empty and trimmed'' path) else Inr s)"

definition capability_key :: "('v, 'm) yaml_api \<Rightarrow> 'v \<Rightarrow> string \<Rightarrow> capability_name res" where
  "capability_key y v path = res_bind (required_key y v path) capability_name_parse"

definition bool_field :: "('v, 'm) yaml_api \<Rightarrow> 'm \<Rightarrow> string \<Rightarrow> bool \<Rightarrow> string \<Rightarrow> bool res" where
  "bool_field y m key dflt path = (case y_get y m key of
     None \<Rightarrow> Inr dflt
   | Some v \<Rightarrow> ok_or (field_error ''policy field must be a boolean'' (path @ ''.'' @ key)) (y_as_bool y v))"

definition string_field :: "('v, 'm) yaml_api \<Rightarrow> 'm \<Rightarrow> string \<Rightarrow> string \<Rightarrow> string \<Rightarrow> string res" where
  "string_field y m key dflt path = (case y_get y m key of
     None \<Rightarrow> Inr dflt
   | Some v \<Rightarrow> required_str y v path)"

definition optional_u64_field :: "('v, 'm) yaml_api \<Rightarrow> 'm \<Rightarrow> string \<Rightarrow> string \<Rightarrow> u64 option res" where
  "optional_u64_field y m key path = (case y_get y m key of
     None \<Rightarrow> Inr None
   | Some v \<Rightarrow> res_bind (ok_or (field_error ''policy field must be an unsigned integer'' (path @ ''.'' @ key))
                (y_as_u64 y v)) (\<lambda>n. Inr (Some n)))"

definition parse_items ::
  "('v, 'm) yaml_api \<Rightarrow> (string \<Rightarrow> 'a res) \<Rightarrow> 'v option \<Rightarrow> string \<Rightarrow> 'a list res" where
  "parse_items y parse v path = (case v of
     None \<Rightarrow> Inr []
   | Some v \<Rightarrow> res_bind (yaml_sequence y v path)
       (res_map (\<lambda>item. res_bind (required_str y item path) parse)))"

definition parse_string_set :: "('v, 'm) yaml_api \<Rightarrow> 'v option \<Rightarrow> string \<Rightarrow> string set res" where
  "parse_string_set y v path = res_bind (parse_items y Inr v path) (\<lambda>xs. Inr (set xs))"

definition parse_agent_set :: "('v, 'm) yaml_api \<Rightarrow> 'v option \<Rightarrow> string \<Rightarrow> agent_id set res" where
  "parse_agent_set y v path = res_bind (parse_items y agent_id_parse v path) (\<lambda>xs. Inr (set xs))"

definition parse_adapter_set :: "('v, 'm) yaml_api \<Rightarrow> 'v option \<Rightarrow> string \<Rightarrow> adapter_id set res" where
  "parse_adapter_set y v path = res_bind (parse_items y adapter_id_parse v path) (\<lambda>xs. Inr (set xs))"

definition parse_capability_set :: "('v, 'm) yaml_api \<Rightarrow> 'v option \<Rightarrow> string \<Rightarrow> capability_name set res" where
  "parse_capability_set y v path = res_bind (parse_items y capability_name_parse v path) (\<lambda>xs. Inr (set xs))"

definition parse_topic_list :: "('v, 'm) yaml_api \<Rightarrow> 'v option \<Rightarrow> string \<Rightarrow> topic list res" where
  "parse_topic_list y v path = parse_items y topic_parse v path"

definition parse_topic_pattern_list :: "('v, 'm) yaml_api \<Rightarrow> 'v option \<Rightarrow> string \<Rightarrow> topic_pattern list res" where
  "parse_topic_pattern_list y v path = parse_items y topic_pattern_parse v path"

definition to_ascii_lowercase :: "string \<Rightarrow> string" where
  "to_ascii_lowercase s =
     map (\<lambda>c. if 65 \<le> byte c \<and> byte c \<le> 90 then char_of (byte c + 32) else c) s"

definition lowercase_item :: "string \<Rightarrow> string \<Rightarrow> string res" where
  "lowercase_item path s =
     (if trim s = [] \<or> trim s \<noteq> s
      then Inl (field_error ''policy list values must be non-empty strings'' path)
      else Inr (to_ascii_lowercase s))"

definition parse_lowercase_string_set :: "('v, 'm) yaml_api \<Rightarrow> 'v \<Rightarrow> string \<Rightarrow> string set res" where
  "parse_lowercase_string_set y v path =
     res_bind (parse_items y (lowercase_item path) (Some v) path) (\<lambda>xs. Inr (set xs))"

text \<open>\<^verbatim>\<open>u64.try_into::<u32>()\<close>.\<close>

definition u32_of_u64 :: "string \<Rightarrow> u64 \<Rightarrow> u32 res" where
  "u32_of_u64 message v = (if unat v < 2 ^ 32 then Inr (ucast v) else Inl (err_invalid_argument message))"

subsection \<open>Domains\<close>

definition parse_permission_defaults :: "('v, 'm) yaml_api \<Rightarrow> 'v \<Rightarrow> string \<Rightarrow> permission_set res" where
  "parse_permission_defaults y v path =
     res_bind (expect_mapping y v path) (\<lambda>m.
     res_bind (bool_field y m ''network'' False path) (\<lambda>network.
     res_bind (bool_field y m ''shell'' False path) (\<lambda>shell.
     res_bind (bool_field y m ''read_workspace'' False path) (\<lambda>read.
     res_bind (bool_field y m ''write_workspace'' False path) (\<lambda>write.
     res_bind (optional_u64_field y m ''max_timeout_ms'' path) (\<lambda>timeout.
     Inr (deny_all\<lparr>ps_network := network, ps_shell := shell, ps_read_workspace := read,
            ps_write_workspace := write, ps_max_timeout_ms := timeout\<rparr>)))))))"

definition parse_skill_policy :: "('v, 'm) yaml_api \<Rightarrow> 'v \<Rightarrow> skill_policy res" where
  "parse_skill_policy y v =
     res_bind (expect_mapping y v ''adapter_policy.skill'') (\<lambda>m.
     res_bind (bool_field y m ''require_schema'' True ''adapter_policy.skill'') (\<lambda>schema.
     res_bind (bool_field y m ''allow_user_local_skills'' False ''adapter_policy.skill'') (\<lambda>local.
     res_bind (parse_string_set y (y_get y m ''allowed_runtime_gates'')
                 ''adapter_policy.skill.allowed_runtime_gates'') (\<lambda>gates.
     res_bind (parse_string_set y (y_get y m ''deny_kinds'') ''adapter_policy.skill.deny_kinds'') (\<lambda>kinds.
     Inr \<lparr>sk_require_schema = schema, sk_allow_user_local_skills = local,
          sk_allowed_runtime_gates = gates, sk_deny_kinds = kinds\<rparr>)))))"

definition parse_retry_default :: "('v, 'm) yaml_api \<Rightarrow> 'm \<Rightarrow> u32 res" where
  "parse_retry_default y m = (case y_get y m ''default'' of
     None \<Rightarrow> Inr 0
   | Some v \<Rightarrow>
       res_bind (expect_mapping y v ''adapter_policy.retry.default'') (\<lambda>dm.
       res_bind (optional_u64_field y dm ''max_attempts'' ''adapter_policy.retry.default'') (\<lambda>n.
       u32_of_u64 ''retry max_attempts is too large'' (case n of None \<Rightarrow> 0 | Some k \<Rightarrow> k))))"

fun parse_retry_entries ::
  "('v, 'm) yaml_api \<Rightarrow> u32 \<Rightarrow> ('v \<times> 'v) list \<Rightarrow>
     (capability_name, capability_retry_policy) btree_map \<Rightarrow>
     (capability_name, capability_retry_policy) btree_map res" where
  "parse_retry_entries y dflt [] acc = Inr acc"
| "parse_retry_entries y dflt ((k, v) # rest) acc =
     res_bind (capability_key y k ''adapter_policy.retry.capabilities'') (\<lambda>c.
     res_bind (expect_mapping y v ''adapter_policy.retry.capabilities.*'') (\<lambda>config.
     res_bind (optional_u64_field y config ''max_attempts'' ''adapter_policy.retry.capabilities.*'') (\<lambda>n.
     res_bind (u32_of_u64 ''retry max_attempts is too large''
                 (case n of None \<Rightarrow> ucast dflt | Some k \<Rightarrow> k)) (\<lambda>attempts.
     res_bind (optional_u64_field y config ''backoff_ms'' ''adapter_policy.retry.capabilities.*'') (\<lambda>backoff.
     parse_retry_entries y dflt rest
       (bt_insert c \<lparr>crp_max_attempts = attempts, crp_backoff_ms = backoff\<rparr> acc))))))"

definition parse_retry_policy :: "('v, 'm) yaml_api \<Rightarrow> 'v \<Rightarrow> retry_policy_domain res" where
  "parse_retry_policy y v =
     res_bind (expect_mapping y v ''adapter_policy.retry'') (\<lambda>m.
     res_bind (parse_retry_default y m) (\<lambda>dflt.
     res_bind (case y_get y m ''capabilities'' of
         None \<Rightarrow> Inr []
       | Some cs \<Rightarrow>
           res_bind (expect_mapping y cs ''adapter_policy.retry.capabilities'') (\<lambda>cm.
           parse_retry_entries y dflt (y_entries y cm) [])) (\<lambda>caps.
     Inr \<lparr>rpd_default_max_attempts = dflt, rpd_capabilities = caps\<rparr>)))"

text \<open>An optional sub-domain keeps its default when the field is missing.\<close>

definition optional_domain :: "('v \<Rightarrow> 'a res) \<Rightarrow> 'a \<Rightarrow> 'v option \<Rightarrow> 'a res" where
  "optional_domain parse dflt v = (case v of None \<Rightarrow> Inr dflt | Some x \<Rightarrow> parse x)"

definition parse_adapter_policy :: "('v, 'm) yaml_api \<Rightarrow> 'v \<Rightarrow> adapter_policy_domain res" where
  "parse_adapter_policy y v =
     res_bind (expect_mapping y v ''adapter_policy'') (\<lambda>m.
     res_bind (optional_domain (\<lambda>x. parse_permission_defaults y x ''adapter_policy.defaults'') deny_all
                 (y_get y m ''defaults'')) (\<lambda>defaults.
     res_bind (parse_adapter_set y (y_get y m ''allow_write_workspace'')
                 ''adapter_policy.allow_write_workspace'') (\<lambda>write.
     res_bind (parse_capability_set y (y_get y m ''deny_capabilities'')
                 ''adapter_policy.deny_capabilities'') (\<lambda>deny.
     res_bind (optional_domain (parse_skill_policy y) skill_policy_default (y_get y m ''skill'')) (\<lambda>skill.
     res_bind (optional_domain (parse_retry_policy y) retry_policy_default (y_get y m ''retry'')) (\<lambda>retry.
     Inr \<lparr>apd_defaults = defaults, apd_allow_write_workspace = write, apd_deny_capabilities = deny,
          apd_skill = skill, apd_retry = retry\<rparr>))))))"

definition parse_redaction_policy :: "('v, 'm) yaml_api \<Rightarrow> 'v \<Rightarrow> redaction_policy_domain res" where
  "parse_redaction_policy y v =
     (let p = redaction_policy_default in
     res_bind (expect_mapping y v ''memory_policy.redaction'') (\<lambda>m.
     res_bind (bool_field y m ''enabled'' (rd_enabled p) ''memory_policy.redaction'') (\<lambda>enabled.
     res_bind (bool_field y m ''audit_redactions'' (rd_audit_redactions p) ''memory_policy.redaction'') (\<lambda>audit.
     res_bind (string_field y m ''replacement'' (rd_replacement p) ''memory_policy.redaction'') (\<lambda>replacement.
     if trim replacement = []
     then Inl (field_error ''redaction replacement cannot be empty'' ''memory_policy.redaction.replacement'')
     else
     res_bind (optional_domain (\<lambda>x. parse_lowercase_string_set y x
                   ''memory_policy.redaction.sensitive_key_fragments'')
                 (rd_sensitive_key_fragments p) (y_get y m ''sensitive_key_fragments'')) (\<lambda>keys.
     res_bind (optional_domain (\<lambda>x. parse_lowercase_string_set y x
                   ''memory_policy.redaction.sensitive_token_prefixes'')
                 (rd_sensitive_token_prefixes p) (y_get y m ''sensitive_token_prefixes'')) (\<lambda>prefixes.
     Inr \<lparr>rd_enabled = enabled, rd_audit_redactions = audit, rd_replacement = replacement,
          rd_sensitive_key_fragments = keys, rd_sensitive_token_prefixes = prefixes\<rparr>)))))))"

definition parse_memory_policy :: "('v, 'm) yaml_api \<Rightarrow> 'v \<Rightarrow> memory_policy_domain res" where
  "parse_memory_policy y v =
     res_bind (expect_mapping y v ''memory_policy'') (\<lambda>m.
     res_bind (optional_domain (parse_redaction_policy y) redaction_policy_default
                 (y_get y m ''redaction'')) (\<lambda>r.
     Inr \<lparr>mp_redaction = r\<rparr>))"

definition parse_hardware_hotplug_policy :: "('v, 'm) yaml_api \<Rightarrow> 'v \<Rightarrow> hardware_hotplug_policy res" where
  "parse_hardware_hotplug_policy y v =
     res_bind (expect_mapping y v ''hardware_policy.hotplug'') (\<lambda>m.
     res_bind (bool_field y m ''require_identity_match'' True ''hardware_policy.hotplug'') (\<lambda>identity.
     res_bind (bool_field y m ''quarantine_unknown_devices'' True ''hardware_policy.hotplug'') (\<lambda>quarantine.
     res_bind (parse_topic_list y (y_get y m ''emit_events'') ''hardware_policy.hotplug.emit_events'') (\<lambda>events.
     Inr \<lparr>hh_require_identity_match = identity, hh_quarantine_unknown_devices = quarantine,
          hh_emit_events = events\<rparr>))))"

text \<open>The fields of the sub-mapping \<open>defaults\<close>, which is read when it is present.\<close>

definition parse_hardware_defaults ::
  "('v, 'm) yaml_api \<Rightarrow> 'm option \<Rightarrow> hardware_policy_domain \<Rightarrow> hardware_policy_domain res" where
  "parse_hardware_defaults y defaults p = (case defaults of
     None \<Rightarrow> Inr p
   | Some m \<Rightarrow>
       res_bind (bool_field y m ''allow_raw_io'' (hw_allow_raw_io p) ''hardware_policy.defaults'') (\<lambda>raw.
       res_bind (string_field y m ''claim'' (hw_claim p) ''hardware_policy.defaults'') (\<lambda>claim.
       res_bind (bool_field y m ''network_bridge'' (hw_network_bridge p) ''hardware_policy.defaults'') (\<lambda>bridge.
       res_bind (optional_u64_field y m ''max_timeout_ms'' ''hardware_policy.defaults'') (\<lambda>timeout.
       Inr (p\<lparr>hw_allow_raw_io := raw, hw_claim := claim, hw_network_bridge := bridge,
              hw_max_timeout_ms := timeout\<rparr>))))))"

definition parse_hardware_policy :: "('v, 'm) yaml_api \<Rightarrow> 'v \<Rightarrow> hardware_policy_domain res" where
  "parse_hardware_policy y v =
     res_bind (expect_mapping y v ''hardware_policy'') (\<lambda>m.
     res_bind (case y_get y m ''defaults'' of
         None \<Rightarrow> Inr None
       | Some x \<Rightarrow> res_bind (expect_mapping y x ''hardware_policy.defaults'') (\<lambda>dm. Inr (Some dm))) (\<lambda>defaults.
     res_bind (bool_field y m ''enabled'' False ''hardware_policy'') (\<lambda>enabled.
     res_bind (parse_hardware_defaults y defaults (hardware_policy_default\<lparr>hw_enabled := enabled\<rparr>)) (\<lambda>p.
     res_bind (parse_string_set y (y_get y m ''allowed_buses'') ''hardware_policy.allowed_buses'') (\<lambda>buses.
     res_bind (parse_capability_set y (y_get y m ''denied_capabilities'')
                 ''hardware_policy.denied_capabilities'') (\<lambda>denied.
     res_bind (optional_domain (parse_hardware_hotplug_policy y) (hw_hotplug p) (y_get y m ''hotplug'')) (\<lambda>hotplug.
     Inr (p\<lparr>hw_allowed_buses := buses, hw_denied_capabilities := denied, hw_hotplug := hotplug\<rparr>))))))))"

definition parse_mcp_tool_policy :: "('v, 'm) yaml_api \<Rightarrow> 'v \<Rightarrow> mcp_tool_policy res" where
  "parse_mcp_tool_policy y v =
     res_bind (expect_mapping y v ''mcp_server.tools.*'') (\<lambda>m.
     res_bind (bool_field y m ''enabled'' False ''mcp_server.tools.*'') (\<lambda>enabled.
     res_bind (parse_agent_set y (y_get y m ''allowed_agents'') ''mcp_server.tools.*.allowed_agents'') (\<lambda>agents.
     res_bind (parse_capability_set y (y_get y m ''allowed_capabilities'')
                 ''mcp_server.tools.*.allowed_capabilities'') (\<lambda>caps.
     res_bind (parse_adapter_set y (y_get y m ''allowed_providers'')
                 ''mcp_server.tools.*.allowed_providers'') (\<lambda>providers.
     res_bind (parse_topic_pattern_list y (y_get y m ''allowed_topics'')
                 ''mcp_server.tools.*.allowed_topics'') (\<lambda>topics.
     res_bind (optional_u64_field y m ''timeout_ms'' ''mcp_server.tools.*'') (\<lambda>timeout.
     Inr \<lparr>mt_enabled = enabled, mt_allowed_agents = agents, mt_allowed_capabilities = caps,
          mt_allowed_providers = providers, mt_allowed_topics = topics, mt_timeout_ms = timeout\<rparr>)))))))"

fun parse_mcp_tools ::
  "('v, 'm) yaml_api \<Rightarrow> ('v \<times> 'v) list \<Rightarrow> (string, mcp_tool_policy) btree_map \<Rightarrow>
     (string, mcp_tool_policy) btree_map res" where
  "parse_mcp_tools y [] acc = Inr acc"
| "parse_mcp_tools y ((k, v) # rest) acc =
     res_bind (required_key y k ''mcp_server.tools'') (\<lambda>name.
     res_bind (parse_mcp_tool_policy y v) (\<lambda>tool.
     parse_mcp_tools y rest (bt_insert name tool acc)))"

definition parse_mcp_server_policy :: "('v, 'm) yaml_api \<Rightarrow> 'v \<Rightarrow> mcp_server_policy_domain res" where
  "parse_mcp_server_policy y v =
     res_bind (expect_mapping y v ''mcp_server'') (\<lambda>m.
     res_bind (bool_field y m ''enabled'' False ''mcp_server'') (\<lambda>enabled.
     res_bind (case y_get y m ''bind'' of
         None \<Rightarrow> Inr None
       | Some x \<Rightarrow> res_bind (required_str y x ''mcp_server.bind'') (\<lambda>s. Inr (Some s))) (\<lambda>bind.
     res_bind (case y_get y m ''tools'' of
         None \<Rightarrow> Inr []
       | Some x \<Rightarrow> res_bind (expect_mapping y x ''mcp_server.tools'') (\<lambda>tm.
           parse_mcp_tools y (y_entries y tm) [])) (\<lambda>tools.
     Inr \<lparr>ms_enabled = enabled, ms_bind = bind, ms_tools = tools\<rparr>))))"

definition parse_runtime_policy :: "('v, 'm) yaml_api \<Rightarrow> 'v \<Rightarrow> runtime_policy_domain res" where
  "parse_runtime_policy y v =
     res_bind (expect_mapping y v ''runtime_policy'') (\<lambda>m.
     res_bind (parse_items y action_parse (y_get y m ''allow_high_risk_actions'')
                 ''runtime_policy.allow_high_risk_actions'') (\<lambda>actions.
     Inr \<lparr>rp_allow_high_risk_actions = set actions\<rparr>))"

text \<open>The switch \<open>enabled\<close> of an optional sub-mapping.\<close>

definition enabled_section ::
  "('v, 'm) yaml_api \<Rightarrow> 'm \<Rightarrow> string \<Rightarrow> bool \<Rightarrow> string \<Rightarrow> bool res" where
  "enabled_section y m key dflt path =
     optional_domain (\<lambda>x. res_bind (expect_mapping y x path) (\<lambda>sm. bool_field y sm ''enabled'' dflt path))
       dflt (y_get y m key)"

definition parse_sandbox_limits ::
  "('v, 'm) yaml_api \<Rightarrow> sandbox_policy \<Rightarrow> 'v option \<Rightarrow> sandbox_policy res" where
  "parse_sandbox_limits y s limits = (case limits of
     None \<Rightarrow> Inr s
   | Some x \<Rightarrow>
       res_bind (expect_mapping y x ''lua_sandbox.limits'') (\<lambda>lm.
       res_bind (optional_u64_field y lm ''memory_mb'' ''lua_sandbox.limits'') (\<lambda>memory.
       res_bind (case memory of
           None \<Rightarrow> Inr (sb_memory_mb s)
         | Some k \<Rightarrow> res_bind (u32_of_u64 ''lua sandbox memory_mb is too large'' k) (\<lambda>n. Inr (Some n))) (\<lambda>mb.
       res_bind (optional_u64_field y lm ''execution_timeout_ms'' ''lua_sandbox.limits'') (\<lambda>timeout.
       Inr (s\<lparr>sb_memory_mb := mb, sb_execution_timeout_ms := timeout\<rparr>))))))"

definition parse_lua_sandbox :: "('v, 'm) yaml_api \<Rightarrow> 'v \<Rightarrow> sandbox_policy res" where
  "parse_lua_sandbox y v =
     res_bind (expect_mapping y v ''lua_sandbox'') (\<lambda>m.
     res_bind (parse_string_set y (y_get y m ''disabled_libs'') ''lua_sandbox.disabled_libs'') (\<lambda>libs.
     res_bind (parse_sandbox_limits y (lua_default\<lparr>sb_disabled_lua_libs := libs\<rparr>) (y_get y m ''limits'')) (\<lambda>s.
     res_bind (enabled_section y m ''filesystem'' (sb_filesystem_enabled s) ''lua_sandbox.filesystem'') (\<lambda>fs.
     res_bind (enabled_section y m ''network'' (sb_network_enabled s) ''lua_sandbox.network'') (\<lambda>net.
     res_bind (enabled_section y m ''environment'' (sb_environment_enabled s) ''lua_sandbox.environment'') (\<lambda>env.
     res_bind (bool_field y m ''return_schema_validation'' (sb_return_schema_validation s) ''lua_sandbox'') (\<lambda>ret.
     res_bind (bool_field y m ''emitted_topic_validation'' (sb_emitted_topic_validation s) ''lua_sandbox'') (\<lambda>emit.
     Inr (s\<lparr>sb_filesystem_enabled := fs, sb_network_enabled := net, sb_environment_enabled := env,
            sb_return_schema_validation := ret, sb_emitted_topic_validation := emit\<rparr>)))))))))"

definition hardware_permissions :: "hardware_policy_domain \<Rightarrow> permission_set" where
  "hardware_permissions p = deny_all\<lparr>ps_network := hw_network_bridge p, ps_max_timeout_ms := hw_max_timeout_ms p\<rparr>"

subsection \<open>Documents\<close>

definition layer_name :: "'v policy_document \<Rightarrow> string \<Rightarrow> string" where
  "layer_name doc domain =
     (if pdoc_path doc = [] then ''policy.'' @ domain else pdoc_path doc @ '':'' @ domain)"

definition read_domain ::
  "('v, 'm) yaml_api \<Rightarrow> 'v policy_document \<Rightarrow> string \<times> 'v \<Rightarrow> policy_domain_set \<Rightarrow> policy_domain_set res" where
  "read_domain y doc nv d = (case nv of (name, v) \<Rightarrow>
     if name = ''adapter_policy'' then res_bind (parse_adapter_policy y v) (\<lambda>a.
       Inr (d\<lparr>pds_adapter := a, pds_layers := pds_layers d @
         [policy_layer_new (layer_name doc ''adapter_policy'') (apd_defaults a) lua_default]\<rparr>))
     else if name = ''memory_policy'' then res_bind (parse_memory_policy y v) (\<lambda>m. Inr (d\<lparr>pds_memory := m\<rparr>))
     else if name = ''hardware_policy'' then res_bind (parse_hardware_policy y v) (\<lambda>h.
       Inr (d\<lparr>pds_hardware := h, pds_layers := pds_layers d @
         [policy_layer_new (layer_name doc ''hardware_policy'') (hardware_permissions h) lua_default]\<rparr>))
     else if name = ''mcp_server'' then res_bind (parse_mcp_server_policy y v) (\<lambda>m. Inr (d\<lparr>pds_mcp_server := m\<rparr>))
     else if name = ''runtime_policy'' then res_bind (parse_runtime_policy y v) (\<lambda>r. Inr (d\<lparr>pds_runtime := r\<rparr>))
     else if name = ''lua_sandbox'' then res_bind (parse_lua_sandbox y v) (\<lambda>s.
       Inr (d\<lparr>pds_lua_sandbox := s, pds_layers := pds_layers d @
         [policy_layer_new (layer_name doc ''lua_sandbox'') deny_all s]\<rparr>))
     else Inr d)"

fun read_domains ::
  "('v, 'm) yaml_api \<Rightarrow> ('v policy_document \<times> string \<times> 'v) list \<Rightarrow> policy_domain_set \<Rightarrow> policy_domain_set res" where
  "read_domains y [] d = Inr d"
| "read_domains y ((doc, nv) # rest) d = res_bind (read_domain y doc nv d) (read_domains y rest)"

definition document_domains :: "'v policy_document list \<Rightarrow> ('v policy_document \<times> string \<times> 'v) list" where
  "document_domains docs = concat (map (\<lambda>doc. map (Pair doc) (pdoc_domains doc)) docs)"

definition from_documents :: "('v, 'm) yaml_api \<Rightarrow> 'v policy_document list \<Rightarrow> policy_domain_set res" where
  "from_documents y docs =
     res_bind (read_domains y (document_domains docs) (policy_domain_set_default\<lparr>pds_source_count := length docs\<rparr>)) (\<lambda>d.
     Inr (d\<lparr>pds_layers := (if pds_layers d = [] then [policy_layer_new ''policy.default'' deny_all lua_default]
                          else pds_layers d)\<rparr>))"

subsection \<open>A concrete reader\<close>

text \<open>Values in the shape of the data model of YAML, on which documents can be evaluated.\<close>

datatype yaml = YNull | YBool bool | YNat u64 | YStr string | YSeq "yaml list" | YMap "(yaml \<times> yaml) list"

definition yaml_reader :: "(yaml, (yaml \<times> yaml) list) yaml_api" where
  "yaml_reader =
     \<lparr>y_as_mapping = (\<lambda>v. case v of YMap m \<Rightarrow> Some m | _ \<Rightarrow> None),
      y_get = (\<lambda>m k. map_of m (YStr k)),
      y_entries = (\<lambda>m. m),
      y_as_bool = (\<lambda>v. case v of YBool b \<Rightarrow> Some b | _ \<Rightarrow> None),
      y_as_u64 = (\<lambda>v. case v of YNat n \<Rightarrow> Some n | _ \<Rightarrow> None),
      y_as_str = (\<lambda>v. case v of YStr s \<Rightarrow> Some s | _ \<Rightarrow> None),
      y_as_sequence = (\<lambda>v. case v of YSeq xs \<Rightarrow> Some xs | _ \<Rightarrow> None)\<rparr>"

definition sandbox_document :: "yaml policy_document" where
  "sandbox_document =
     \<lparr>pdoc_path = ''sandbox.yaml'', pdoc_domains = [(''lua_sandbox'', YMap [(YStr ''limits'', YMap [(YStr ''memory_mb'', YNat 16)])])]\<rparr>"

definition adapter_document :: "yaml policy_document" where
  "adapter_document =
     \<lparr>pdoc_path = ''adapter.yaml'',
      pdoc_domains = [(''adapter_policy'', YMap [(YStr ''defaults'', YMap [(YStr ''shell'', YBool True)])])]\<rparr>"

lemmas sample_defs = sandbox_document_def adapter_document_def document_domains_def

lemmas reader_defs = yaml_reader_def expect_mapping_def parse_adapter_policy_def parse_lua_sandbox_def
  parse_permission_defaults_def parse_sandbox_limits_def parse_adapter_set_def parse_capability_set_def
  parse_string_set_def parse_items_def optional_domain_def enabled_section_def bool_field_def
  optional_u64_field_def u32_of_u64_def

subsection \<open>Layers and domains of a list of documents\<close>

definition domain_layers :: "('v, 'm) yaml_api \<Rightarrow> 'v policy_document \<times> string \<times> 'v \<Rightarrow> policy_layer list" where
  "domain_layers y x = (case x of (doc, name, v) \<Rightarrow>
     if name = ''adapter_policy'' then (case parse_adapter_policy y v of
         Inl _ \<Rightarrow> [] | Inr a \<Rightarrow> [policy_layer_new (layer_name doc ''adapter_policy'') (apd_defaults a) lua_default])
     else if name = ''hardware_policy'' then (case parse_hardware_policy y v of
         Inl _ \<Rightarrow> [] | Inr h \<Rightarrow> [policy_layer_new (layer_name doc ''hardware_policy'') (hardware_permissions h) lua_default])
     else if name = ''lua_sandbox'' then (case parse_lua_sandbox y v of
         Inl _ \<Rightarrow> [] | Inr s \<Rightarrow> [policy_layer_new (layer_name doc ''lua_sandbox'') deny_all s])
     else [])"

lemma read_domain_layers:
  "read_domain y doc nv d = Inr d' \<Longrightarrow> pds_layers d' = pds_layers d @ domain_layers y (doc, nv)"
  by (cases nv) (auto simp: read_domain_def domain_layers_def res_simps split: if_splits)

lemma read_domains_layers:
  "read_domains y xs d = Inr d' \<Longrightarrow> pds_layers d' = pds_layers d @ concat (map (domain_layers y) xs)"
proof (induction y xs d rule: read_domains.induct)
  case (2 y doc nv rest d)
  then show ?case by (auto simp: res_simps dest!: read_domain_layers)
qed simp

lemma read_domains_append:
  "read_domains y (xs @ zs) d = res_bind (read_domains y xs d) (read_domains y zs)"
proof (induction y xs d rule: read_domains.induct)
  case (2 y doc nv rest d)
  then show ?case by (cases "read_domain y doc nv d") simp_all
qed simp

text \<open>The last value given to a domain, and the field that follows it.\<close>

definition last_value :: "('v policy_document \<times> string \<times> 'v) list \<Rightarrow> string \<Rightarrow> 'v option" where
  "last_value xs name = map_of (rev (map snd xs)) name"

definition follows :: "('v \<Rightarrow> 'a res) \<Rightarrow> 'v option \<Rightarrow> 'a \<Rightarrow> 'a \<Rightarrow> bool" where
  "follows parse v dflt x = (case v of None \<Rightarrow> x = dflt | Some w \<Rightarrow> parse w = Inr x)"

lemma read_domains_follows:
  assumes set: "\<And>doc v d d'. read_domain y doc (name, v) d = Inr d' \<Longrightarrow> parse v = Inr (field d')"
    and keep: "\<And>doc n v d d'. n \<noteq> name \<Longrightarrow> read_domain y doc (n, v) d = Inr d' \<Longrightarrow> field d' = field d"
    and "read_domains y xs d = Inr d'"
  shows "follows parse (last_value xs name) (field d) (field d')"
  using assms(3)
proof (induction xs arbitrary: d' rule: rev_induct)
  case Nil
  then show ?case by (simp add: last_value_def follows_def)
next
  case (snoc x xs)
  obtain doc n v where x: "x = (doc, n, v)" by (cases x)
  obtain e where e: "read_domains y xs d = Inr e" "read_domain y doc (n, v) e = Inr d'"
    using snoc.prems by (auto simp: read_domains_append x res_simps)
  show ?case
  proof (cases "n = name")
    case True
    then show ?thesis using set e(2) by (simp add: last_value_def follows_def x)
  next
    case False
    then show ?thesis using keep [OF False e(2)] snoc.IH [OF e(1)]
      by (simp add: last_value_def x)
  qed
qed

lemmas read_domain_simps = read_domain_def res_simps

lemma domains_follow:
  assumes "read_domains y xs d = Inr d'"
  shows "follows (parse_adapter_policy y) (last_value xs ''adapter_policy'') (pds_adapter d) (pds_adapter d')"
    and "follows (parse_memory_policy y) (last_value xs ''memory_policy'') (pds_memory d) (pds_memory d')"
    and "follows (parse_hardware_policy y) (last_value xs ''hardware_policy'') (pds_hardware d) (pds_hardware d')"
    and "follows (parse_mcp_server_policy y) (last_value xs ''mcp_server'') (pds_mcp_server d) (pds_mcp_server d')"
    and "follows (parse_runtime_policy y) (last_value xs ''runtime_policy'') (pds_runtime d) (pds_runtime d')"
    and "follows (parse_lua_sandbox y) (last_value xs ''lua_sandbox'') (pds_lua_sandbox d) (pds_lua_sandbox d')"
proof -
  note follow = read_domains_follows [OF _ _ assms]
  show "follows (parse_adapter_policy y) (last_value xs ''adapter_policy'') (pds_adapter d) (pds_adapter d')"
    by (rule follow [where field = pds_adapter]) (auto simp: read_domain_simps split: if_splits)
  show "follows (parse_memory_policy y) (last_value xs ''memory_policy'') (pds_memory d) (pds_memory d')"
    by (rule follow [where field = pds_memory]) (auto simp: read_domain_simps split: if_splits)
  show "follows (parse_hardware_policy y) (last_value xs ''hardware_policy'') (pds_hardware d) (pds_hardware d')"
    by (rule follow [where field = pds_hardware]) (auto simp: read_domain_simps split: if_splits)
  show "follows (parse_mcp_server_policy y) (last_value xs ''mcp_server'') (pds_mcp_server d) (pds_mcp_server d')"
    by (rule follow [where field = pds_mcp_server]) (auto simp: read_domain_simps split: if_splits)
  show "follows (parse_runtime_policy y) (last_value xs ''runtime_policy'') (pds_runtime d) (pds_runtime d')"
    by (rule follow [where field = pds_runtime]) (auto simp: read_domain_simps split: if_splits)
  show "follows (parse_lua_sandbox y) (last_value xs ''lua_sandbox'') (pds_lua_sandbox d) (pds_lua_sandbox d')"
    by (rule follow [where field = pds_lua_sandbox]) (auto simp: read_domain_simps split: if_splits)
qed

text \<open>A recognised domain that its parser refuses.\<close>

definition domain_ok :: "('v, 'm) yaml_api \<Rightarrow> string \<Rightarrow> 'v \<Rightarrow> bool" where
  "domain_ok y name v =
     (if name = ''adapter_policy'' then \<not> is_err (parse_adapter_policy y v)
      else if name = ''memory_policy'' then \<not> is_err (parse_memory_policy y v)
      else if name = ''hardware_policy'' then \<not> is_err (parse_hardware_policy y v)
      else if name = ''mcp_server'' then \<not> is_err (parse_mcp_server_policy y v)
      else if name = ''runtime_policy'' then \<not> is_err (parse_runtime_policy y v)
      else if name = ''lua_sandbox'' then \<not> is_err (parse_lua_sandbox y v)
      else True)"

lemma read_domain_ok: "\<not> is_err (read_domain y doc (n, v) d) \<longleftrightarrow> domain_ok y n v"
  by (auto simp: read_domain_def domain_ok_def is_err_def split: sum.splits)

lemma read_domains_ok:
  "\<not> is_err (read_domains y xs d) \<longleftrightarrow> (\<forall>(doc, n, v) \<in> set xs. domain_ok y n v)"
proof (induction y xs d rule: read_domains.induct)
  case (2 y doc nv rest d)
  obtain n v where nv: "nv = (n, v)" by (cases nv)
  show ?case
  proof (cases "read_domain y doc (n, v) d")
    case (Inl e)
    then show ?thesis using read_domain_ok [of y doc n v d] by (simp add: nv)
  next
    case (Inr d')
    then show ?thesis using read_domain_ok [of y doc n v d] 2 by (simp add: nv)
  qed
qed simp

lemma from_documents_fields:
  assumes "from_documents y docs = Inr d"
  obtains d0 where
    "read_domains y (document_domains docs) (policy_domain_set_default\<lparr>pds_source_count := length docs\<rparr>) = Inr d0"
    "d = d0\<lparr>pds_layers := pds_layers d\<rparr>"
    "pds_layers d = (let ls = concat (map (domain_layers y) (document_domains docs)) in
        if ls = [] then [policy_layer_new ''policy.default'' deny_all lua_default] else ls)"
proof -
  obtain d0 where d0:
    "read_domains y (document_domains docs) (policy_domain_set_default\<lparr>pds_source_count := length docs\<rparr>) = Inr d0"
    "d = d0\<lparr>pds_layers := (if pds_layers d0 = [] then [policy_layer_new ''policy.default'' deny_all lua_default]
       else pds_layers d0)\<rparr>"
    using assms by (auto simp: from_documents_def res_simps)
  have "pds_layers d0 = concat (map (domain_layers y) (document_domains docs))"
    using read_domains_layers [OF d0(1)] by (simp add: policy_domain_set_default_def)
  then show ?thesis using d0 that [OF d0(1)] by (simp add: Let_def)
qed

text \<open>Whether some document has a domain of the given name.\<close>

definition has_domain :: "'v policy_document list \<Rightarrow> string \<Rightarrow> bool" where
  "has_domain docs name \<longleftrightarrow> list_ex (\<lambda>(doc, n, v). n = name) (document_domains docs)"

lemma has_domain_iff: "has_domain docs name \<longleftrightarrow> (\<exists>doc v. (doc, name, v) \<in> set (document_domains docs))"
  by (fastforce simp: has_domain_def list_ex_iff)

lemma domain_layers_has:
  assumes "l \<in> set (domain_layers y (doc, name, v))"
  shows "name = ''adapter_policy'' \<and> pl_sandbox l = lua_default \<or>
    name = ''hardware_policy'' \<and> pl_sandbox l = lua_default \<and> (\<exists>h. pl_permissions l = hardware_permissions h) \<or>
    name = ''lua_sandbox'' \<and> pl_permissions l = deny_all"
proof -
  have "domain_layers y (doc, name, v) = []"
    if "name \<notin> {''adapter_policy'', ''hardware_policy'', ''lua_sandbox''}"
    using that by (simp add: domain_layers_def)
  then consider (a) "name = ''adapter_policy''" | (h) "name = ''hardware_policy''" | (s) "name = ''lua_sandbox''"
    using assms by fastforce
  then show ?thesis
  proof cases
    case a
    then show ?thesis using assms
      by (cases "parse_adapter_policy y v") (simp_all add: domain_layers_def policy_layer_new_def)
  next
    case h
    then show ?thesis using assms
      by (cases "parse_hardware_policy y v") (simp_all add: domain_layers_def policy_layer_new_def, blast)
  next
    case s
    then show ?thesis using assms
      by (cases "parse_lua_sandbox y v") (simp_all add: domain_layers_def policy_layer_new_def)
  qed
qed

lemma recognised_layer:
  assumes "name \<in> {''adapter_policy'', ''hardware_policy'', ''lua_sandbox''}" and "domain_ok y name v"
  shows "\<exists>l. l \<in> set (domain_layers y (doc, name, v))"
proof -
  consider (a) "name = ''adapter_policy''" | (h) "name = ''hardware_policy''" | (s) "name = ''lua_sandbox''"
    using assms(1) by blast
  then show ?thesis
    by cases (use assms(2) in \<open>simp add: domain_ok_def domain_layers_def is_err_def split: sum.split_asm\<close>)+
qed

lemma loaded_domain_layer:
  assumes "from_documents y docs = Inr d" and "has_domain docs name"
    and "name \<in> {''adapter_policy'', ''hardware_policy'', ''lua_sandbox''}"
  obtains doc v l where "l \<in> set (pds_layers d)" "l \<in> set (domain_layers y (doc, name, v))"
proof -
  obtain d0 where d0:
    "read_domains y (document_domains docs) (policy_domain_set_default\<lparr>pds_source_count := length docs\<rparr>) = Inr d0"
    "d = d0\<lparr>pds_layers := pds_layers d\<rparr>"
    "pds_layers d = (let ls = concat (map (domain_layers y) (document_domains docs)) in
        if ls = [] then [policy_layer_new ''policy.default'' deny_all lua_default] else ls)"
    by (rule from_documents_fields [OF assms(1)])
  obtain doc v where x: "(doc, name, v) \<in> set (document_domains docs)"
    using assms(2) by (auto simp: has_domain_iff)
  then have "domain_ok y name v"
    using d0(1) read_domains_ok [of y "document_domains docs"
        "policy_domain_set_default\<lparr>pds_source_count := length docs\<rparr>"] by auto
  from recognised_layer [OF assms(3) this] obtain l where l: "l \<in> set (domain_layers y (doc, name, v))" ..
  then have mem: "l \<in> set (concat (map (domain_layers y) (document_domains docs)))" using x by auto
  then have "concat (map (domain_layers y) (document_domains docs)) \<noteq> []" by (metis empty_iff empty_set)
  then have "l \<in> set (pds_layers d)" unfolding d0(3) Let_def using mem by (simp only: if_False)
  from that [OF this l] show ?thesis .
qed

lemma loaded_sandboxes:
  assumes "from_documents y docs = Inr d" and "\<not> has_domain docs ''lua_sandbox''" and "l \<in> set (pds_layers d)"
  shows "pl_sandbox l = lua_default"
proof -
  have "pds_layers d = (let ls = concat (map (domain_layers y) (document_domains docs)) in
      if ls = [] then [policy_layer_new ''policy.default'' deny_all lua_default] else ls)"
    by (rule from_documents_fields [OF assms(1)])
  then consider "l = policy_layer_new ''policy.default'' deny_all lua_default"
    | doc n v where "(doc, n, v) \<in> set (document_domains docs)" "l \<in> set (domain_layers y (doc, n, v))"
    using assms(3) by (auto simp: Let_def split: if_splits)
  then show ?thesis
  proof cases
    case 2
    have "n \<noteq> ''lua_sandbox''" using 2(1) assms(2) by (auto simp: has_domain_iff)
    then show ?thesis using domain_layers_has [OF 2(2)] by blast
  qed (simp add: policy_layer_new_def)
qed

lemma loaded_layers_nonempty: "from_documents y docs = Inr d \<Longrightarrow> pds_layers d \<noteq> []"
  by (erule from_documents_fields) (simp add: Let_def)

subsection \<open>Properties\<close>

text \<open>
  Reading policy documents. It succeeds exactly when the parser of every recognised domain
  does, and then each of the six domains is what the last document that has it says, or the
  built-in default when no document has it.
\<close>
theorem documents_last_wins:
  "(\<not> is_err (from_documents y docs) \<longleftrightarrow> (\<forall>(doc, n, v) \<in> set (document_domains docs). domain_ok y n v)) \<and>
   (\<forall>d. from_documents y docs = Inr d \<longrightarrow>
      follows (parse_adapter_policy y) (last_value (document_domains docs) ''adapter_policy'')
        adapter_policy_default (pds_adapter d) \<and>
      follows (parse_memory_policy y) (last_value (document_domains docs) ''memory_policy'')
        \<lparr>mp_redaction = redaction_policy_default\<rparr> (pds_memory d) \<and>
      follows (parse_hardware_policy y) (last_value (document_domains docs) ''hardware_policy'')
        hardware_policy_default (pds_hardware d) \<and>
      follows (parse_mcp_server_policy y) (last_value (document_domains docs) ''mcp_server'')
        mcp_server_policy_default (pds_mcp_server d) \<and>
      follows (parse_runtime_policy y) (last_value (document_domains docs) ''runtime_policy'')
        \<lparr>rp_allow_high_risk_actions = {}\<rparr> (pds_runtime d) \<and>
      follows (parse_lua_sandbox y) (last_value (document_domains docs) ''lua_sandbox'')
        lua_default (pds_lua_sandbox d))"
proof (intro conjI allI impI)
  let ?xs = "document_domains docs" and ?d0 = "policy_domain_set_default\<lparr>pds_source_count := length docs\<rparr>"
  have "is_err (from_documents y docs) \<longleftrightarrow> is_err (read_domains y ?xs ?d0)"
    by (cases "read_domains y ?xs ?d0") (simp_all add: from_documents_def)
  then show "\<not> is_err (from_documents y docs) \<longleftrightarrow> (\<forall>(doc, n, v) \<in> set ?xs. domain_ok y n v)"
    using read_domains_ok [of y ?xs ?d0] by blast
  fix d
  assume "from_documents y docs = Inr d"
  then obtain d0 where r: "read_domains y ?xs ?d0 = Inr d0" and "d = d0\<lparr>pds_layers := pds_layers d\<rparr>"
    by (rule from_documents_fields)
  from this(2) have d: "pds_adapter d = pds_adapter d0" "pds_memory d = pds_memory d0"
    "pds_hardware d = pds_hardware d0" "pds_mcp_server d = pds_mcp_server d0"
    "pds_runtime d = pds_runtime d0" "pds_lua_sandbox d = pds_lua_sandbox d0"
    by (cases d, cases d0, simp)+
  note f = domains_follow [OF r]
  show "follows (parse_adapter_policy y) (last_value ?xs ''adapter_policy'') adapter_policy_default (pds_adapter d)"
    using f(1) by (simp add: d policy_domain_set_default_def)
  show "follows (parse_memory_policy y) (last_value ?xs ''memory_policy'')
      \<lparr>mp_redaction = redaction_policy_default\<rparr> (pds_memory d)"
    using f(2) by (simp add: d policy_domain_set_default_def)
  show "follows (parse_hardware_policy y) (last_value ?xs ''hardware_policy'') hardware_policy_default (pds_hardware d)"
    using f(3) by (simp add: d policy_domain_set_default_def)
  show "follows (parse_mcp_server_policy y) (last_value ?xs ''mcp_server'') mcp_server_policy_default (pds_mcp_server d)"
    using f(4) by (simp add: d policy_domain_set_default_def)
  show "follows (parse_runtime_policy y) (last_value ?xs ''runtime_policy'')
      \<lparr>rp_allow_high_risk_actions = {}\<rparr> (pds_runtime d)"
    using f(5) by (simp add: d policy_domain_set_default_def)
  show "follows (parse_lua_sandbox y) (last_value ?xs ''lua_sandbox'') lua_default (pds_lua_sandbox d)"
    using f(6) by (simp add: d policy_domain_set_default_def)
qed

theorem documents_last_wins_witness:
  "(\<exists>d. from_documents yaml_reader [sandbox_document, adapter_document] = Inr d \<and>
      parse_lua_sandbox yaml_reader (YMap [(YStr ''limits'', YMap [(YStr ''memory_mb'', YNat 16)])]) = Inr (pds_lua_sandbox d) \<and>
      pds_hardware d = hardware_policy_default) \<and>
   is_err (from_documents yaml_reader [\<lparr>pdoc_path = [], pdoc_domains = [(''mcp_server'', YNull)]\<rparr>])"
proof -
  let ?docs = "[sandbox_document, adapter_document]"
  note w = documents_last_wins [of yaml_reader ?docs]
  have "\<not> is_err (from_documents yaml_reader ?docs)"
    unfolding w [THEN conjunct1] by (simp add: sample_defs domain_ok_def reader_defs)
  then obtain d where d: "from_documents yaml_reader ?docs = Inr d"
    by (cases "from_documents yaml_reader ?docs") simp_all
  have "is_err (from_documents yaml_reader [\<lparr>pdoc_path = [], pdoc_domains = [(''mcp_server'', YNull)]\<rparr>])"
    using documents_last_wins [of yaml_reader "[\<lparr>pdoc_path = [], pdoc_domains = [(''mcp_server'', YNull)]\<rparr>]"]
    by (simp add: sample_defs domain_ok_def parse_mcp_server_policy_def reader_defs)
  moreover have "last_value (document_domains ?docs) ''lua_sandbox'' =
      Some (YMap [(YStr ''limits'', YMap [(YStr ''memory_mb'', YNat 16)])])"
    "last_value (document_domains ?docs) ''hardware_policy'' = None"
    by (simp_all add: sample_defs last_value_def)
  ultimately show ?thesis using w d by (auto simp: follows_def)
qed

text \<open>
  C29. The effective policy of loaded documents. It always exists. A \<open>lua_sandbox\<close> domain in any
  document takes away network, shell and both kinds of workspace access from everybody, and a
  \<open>hardware_policy\<close> domain takes away shell and workspace access, whatever the adapter defaults
  say: their layers state these switches as denied rather than unconstrained. Without a
  \<open>lua_sandbox\<close> domain the sandbox is the built-in default.
\<close>
theorem loaded_policy_bounds:
  assumes "from_documents y docs = Inr d"
  shows "\<exists>e. domains_effective_policy d = Inr e \<and>
    (has_domain docs ''lua_sandbox'' \<longrightarrow>
       \<not> permits (ep_permissions e) UseNetwork \<and> \<not> permits (ep_permissions e) UseShell \<and>
       \<not> permits (ep_permissions e) ReadWorkspace \<and> \<not> permits (ep_permissions e) WriteWorkspace) \<and>
    (has_domain docs ''hardware_policy'' \<longrightarrow>
       \<not> permits (ep_permissions e) UseShell \<and> \<not> permits (ep_permissions e) ReadWorkspace \<and>
       \<not> permits (ep_permissions e) WriteWorkspace) \<and>
    (\<not> has_domain docs ''lua_sandbox'' \<longrightarrow> (\<forall>b. sb_permits (ep_sandbox e) b \<longleftrightarrow> sb_permits lua_default b))"
proof -
  obtain e where e: "from_layers (pds_layers d) = Inr e"
    using loaded_layers_nonempty [OF assms] by (cases "pds_layers d") auto
  note p = from_layers_permits [OF e]
  have lua: "\<not> permits (ep_permissions e) a"
    if dom: "has_domain docs ''lua_sandbox''" and act: "a \<in> {UseNetwork, UseShell, ReadWorkspace, WriteWorkspace}" for a
  proof -
    obtain doc v l where l: "l \<in> set (pds_layers d)" "l \<in> set (domain_layers y (doc, ''lua_sandbox'', v))"
      by (rule loaded_domain_layer [OF assms dom]) simp_all
    have "\<not> permits (pl_permissions l) a" using domain_layers_has [OF l(2)] act by (auto simp: deny_all_def)
    then show ?thesis using l(1) p(1) by blast
  qed
  have hw: "\<not> permits (ep_permissions e) a"
    if dom: "has_domain docs ''hardware_policy''" and act: "a \<in> {UseShell, ReadWorkspace, WriteWorkspace}" for a
  proof -
    obtain doc v l where l: "l \<in> set (pds_layers d)" "l \<in> set (domain_layers y (doc, ''hardware_policy'', v))"
      by (rule loaded_domain_layer [OF assms dom]) simp_all
    have "\<not> permits (pl_permissions l) a" using domain_layers_has [OF l(2)] act
      by (auto simp: deny_all_def hardware_permissions_def)
    then show ?thesis using l(1) p(1) by blast
  qed
  have sb: "sb_permits (ep_sandbox e) b \<longleftrightarrow> sb_permits lua_default b"
    if "\<not> has_domain docs ''lua_sandbox''" for b
    using p(2) [of b] loaded_sandboxes [OF assms that] loaded_layers_nonempty [OF assms]
    by (metis list.set_intros(1) neq_Nil_conv)
  show ?thesis using e lua hw sb
    by (intro exI [of _ e]) (simp add: domains_effective_policy_def del: permits.simps sb_permits.simps)
qed

theorem loaded_policy_bounds_witness:
  "\<exists>d e. from_documents yaml_reader [adapter_document, sandbox_document] = Inr d \<and>
     domains_effective_policy d = Inr e \<and> ps_shell (apd_defaults (pds_adapter d)) \<and>
     \<not> permits (ep_permissions e) UseShell"
proof -
  let ?docs = "[adapter_document, sandbox_document]"
  obtain d where d: "from_documents yaml_reader ?docs = Inr d" "ps_shell (apd_defaults (pds_adapter d))"
    by (simp add: from_documents_def sample_defs read_domain_def reader_defs)
  have "has_domain ?docs ''lua_sandbox''" by (simp add: has_domain_def sample_defs)
  then show ?thesis using loaded_policy_bounds [OF d(1)] d by blast
qed

end
