(* ===== verification/Capability_Host.thy ===== *)
theory Capability_Host
  imports Core_Invoke Policy_Permissions Eva_Map Eva_Interfaces
begin

section \<open>Capability registration, selection, gating and routing (eva-capability)\<close>

text \<open>
  The registry of capabilities, the deterministic plan of providers for a request, the permission
  gate in front of it and the router with its two builtin capabilities. The manifest a descriptor
  is made from is a record with the fields the crate reads. \<^verbatim>\<open>unwrap\<close> of a failed step is \<open>None\<close>.
\<close>

subsection \<open>Selection (selection.rs)\<close>

datatype provider_source = ExplicitRequest | ManifestProvider | DefaultProvider | FallbackProvider

record provider_candidate =
  cc_provider :: adapter_id
  cc_source :: provider_source

record provider_selection =
  sel_manifest_provider :: "adapter_id option"
  sel_default_provider :: "adapter_id option"
  sel_fallback_providers :: "adapter_id list"
  sel_required_adapter_capabilities :: "capability_name list"

record provider_plan =
  plan_capability :: capability_name
  plan_providers :: "provider_candidate list"
  plan_manifest_allowed_providers :: "adapter_id list"
  plan_required_adapter_capabilities :: "capability_name list"

fun provider_source_as_str :: "provider_source \<Rightarrow> string" where
  "provider_source_as_str ExplicitRequest = ''explicit_request''"
| "provider_source_as_str ManifestProvider = ''manifest_provider''"
| "provider_source_as_str DefaultProvider = ''default_provider''"
| "provider_source_as_str FallbackProvider = ''fallback_provider''"

definition push_allowed :: "adapter_id list \<Rightarrow> adapter_id \<Rightarrow> adapter_id list" where
  "push_allowed ps p = (if p \<in> set ps then ps else ps @ [p])"

definition push_unique :: "provider_candidate list \<Rightarrow> adapter_id \<Rightarrow> provider_source \<Rightarrow> provider_candidate list" where
  "push_unique cs p s =
     (if list_ex (\<lambda>c. cc_provider c = p) cs then cs else cs @ [\<lparr>cc_provider = p, cc_source = s\<rparr>])"

text \<open>A declared provider is both allowed by the manifest and a candidate.\<close>

definition declare_provider ::
  "provider_source \<Rightarrow> adapter_id \<Rightarrow> provider_candidate list \<times> adapter_id list \<Rightarrow>
     provider_candidate list \<times> adapter_id list" where
  "declare_provider s p acc = (push_unique (fst acc) p s, push_allowed (snd acc) p)"

definition selection_new ::
  "adapter_id option \<Rightarrow> adapter_id option \<Rightarrow> adapter_id list \<Rightarrow> capability_name list \<Rightarrow> provider_selection" where
  "selection_new m d f r =
     \<lparr>sel_manifest_provider = m, sel_default_provider = d, sel_fallback_providers = f,
      sel_required_adapter_capabilities = r\<rparr>"

definition plan_for :: "provider_selection \<Rightarrow> capability_name \<Rightarrow> adapter_id option \<Rightarrow> provider_plan" where
  "plan_for sel c explicit_provider =
     (let acc = (case explicit_provider of None \<Rightarrow> [] | Some p \<Rightarrow> push_unique [] p ExplicitRequest, []);
          acc = (case sel_manifest_provider sel of None \<Rightarrow> acc | Some p \<Rightarrow> declare_provider ManifestProvider p acc);
          acc = (case sel_default_provider sel of None \<Rightarrow> acc | Some p \<Rightarrow> declare_provider DefaultProvider p acc);
          acc = fold (declare_provider FallbackProvider) (sel_fallback_providers sel) acc
      in \<lparr>plan_capability = c, plan_providers = fst acc, plan_manifest_allowed_providers = snd acc,
          plan_required_adapter_capabilities = sel_required_adapter_capabilities sel\<rparr>)"

definition provider_ids :: "provider_plan \<Rightarrow> adapter_id list" where
  "provider_ids p = map cc_provider (plan_providers p)"

definition allows_manifest_provider :: "provider_plan \<Rightarrow> adapter_id \<Rightarrow> bool" where
  "allows_manifest_provider p a \<longleftrightarrow> a \<in> set (plan_manifest_allowed_providers p)"

subsection \<open>Registry (registry.rs, generation.rs)\<close>

datatype capability_kind = AdapterCapability | LuaCapability | McpTool | SkillKind

fun capability_kind_as_str :: "capability_kind \<Rightarrow> string" where
  "capability_kind_as_str AdapterCapability = ''adapter_capability''"
| "capability_kind_as_str LuaCapability = ''lua_capability''"
| "capability_kind_as_str McpTool = ''mcp_tool''"
| "capability_kind_as_str SkillKind = ''skill''"

record capability_manifest =
  man_id :: capability_id
  man_enabled :: bool
  man_kind :: capability_kind
  man_capability :: capability_name
  man_default_provider :: "adapter_id option"
  man_provider :: "adapter_id option"
  man_required_adapter_capabilities :: "capability_name list"
  man_allowed_adapter_providers :: "adapter_id list"

record capability_descriptor =
  cd_id :: capability_id
  cd_name :: capability_name
  cd_enabled :: bool
  cd_provider :: string
  cd_provider_selection :: provider_selection

record capability_registry =
  by_name :: "(capability_name, capability_descriptor) btree_map"

definition descriptor_builtin :: "capability_id \<Rightarrow> capability_name \<Rightarrow> capability_descriptor" where
  "descriptor_builtin i n =
     \<lparr>cd_id = i, cd_name = n, cd_enabled = True, cd_provider = ''builtin'',
      cd_provider_selection = selection_new None None [] []\<rparr>"

definition descriptor_from_manifest :: "capability_manifest \<Rightarrow> capability_descriptor" where
  "descriptor_from_manifest m =
     \<lparr>cd_id = man_id m, cd_name = man_capability m, cd_enabled = man_enabled m,
      cd_provider = (case man_default_provider m of
          Some p \<Rightarrow> adapter_id_str p
        | None \<Rightarrow> (case man_provider m of
              Some p \<Rightarrow> adapter_id_str p
            | None \<Rightarrow> capability_kind_as_str (man_kind m))),
      cd_provider_selection = selection_new (man_provider m) (man_default_provider m)
        (man_allowed_adapter_providers m) (man_required_adapter_capabilities m)\<rparr>"

definition descriptor_provider_plan :: "capability_descriptor \<Rightarrow> adapter_id option \<Rightarrow> provider_plan" where
  "descriptor_provider_plan d explicit_provider =
     plan_for (cd_provider_selection d) (cd_name d) explicit_provider"

definition capability_registry_new :: capability_registry where
  "capability_registry_new = \<lparr>by_name = []\<rparr>"

definition capability_register ::
  "capability_registry \<Rightarrow> capability_descriptor \<Rightarrow> unit res \<times> capability_registry" where
  "capability_register r d =
     (if bt_get (by_name r) (cd_name d) \<noteq> None
      then (Inl (with_context (err_conflict ''capability already registered'')
             ''capability'' (cap_name (cd_name d))), r)
      else (Inr (), r\<lparr>by_name := bt_insert (cd_name d) d (by_name r)\<rparr>))"

definition capability_get :: "capability_registry \<Rightarrow> capability_name \<Rightarrow> capability_descriptor option" where
  "capability_get r n = bt_get (by_name r) n"

definition register_builtin ::
  "string \<Rightarrow> string \<Rightarrow> capability_registry \<Rightarrow> capability_registry option" where
  "register_builtin i n r = (case (capability_id_parse i, capability_name_parse n) of
     (Inr i', Inr n') \<Rightarrow> (case capability_register r (descriptor_builtin i' n') of
        (Inr _, r') \<Rightarrow> Some r' | (Inl _, _) \<Rightarrow> None)
   | _ \<Rightarrow> None)"

definition registry_with_v04_builtins :: "capability_registry option" where
  "registry_with_v04_builtins =
     Option.bind (register_builtin ''config-lint-builtin'' ''config.lint'' capability_registry_new)
       (register_builtin ''runtime-echo-builtin'' ''runtime.echo'')"

subsection \<open>Permission gate (gate.rs)\<close>

definition ensure_capability_allowed :: "permission_set \<Rightarrow> capability_name \<Rightarrow> unit res" where
  "ensure_capability_allowed perms c =
     (if explicitly_allows_capability perms c then Inr ()
      else Inl (with_context (with_context (err_permission_denied ''capability is not explicitly allowed'')
             ''capability'' (cap_name c)) ''gate'' ''capability''))"

definition ensure_required_adapter_capabilities_allowed :: "permission_set \<Rightarrow> provider_plan \<Rightarrow> unit res" where
  "ensure_required_adapter_capabilities_allowed perms plan =
     res_all (\<lambda>c. if explicitly_allows_capability perms c then Inr ()
       else Inl (with_context (with_context (with_context
              (err_permission_denied ''required adapter capability is not explicitly allowed'')
              ''capability'' (cap_name (plan_capability plan)))
              ''required_capability'' (cap_name c)) ''gate'' ''adapter_capability''))
       (plan_required_adapter_capabilities plan)"

definition provider_denied :: "string \<Rightarrow> string \<Rightarrow> provider_plan \<Rightarrow> provider_candidate \<Rightarrow> eva_error" where
  "provider_denied message gate plan c =
     with_context (with_context (with_context (with_context (err_permission_denied message)
       ''capability'' (cap_name (plan_capability plan)))
       ''provider'' (adapter_id_str (cc_provider c)))
       ''provider_source'' (provider_source_as_str (cc_source c))) ''gate'' gate"

definition ensure_provider_allowed :: "permission_set \<Rightarrow> provider_plan \<Rightarrow> provider_candidate \<Rightarrow> unit res" where
  "ensure_provider_allowed perms plan c =
     res_bind (ensure_capability_allowed perms (plan_capability plan)) (\<lambda>_.
     res_bind (ensure_required_adapter_capabilities_allowed perms plan) (\<lambda>_.
     if \<not> explicitly_allows_adapter perms (cc_provider c)
     then Inl (provider_denied ''adapter provider is not explicitly allowed'' ''adapter'' plan c)
     else if \<not> allows_manifest_provider plan (cc_provider c)
     then Inl (provider_denied ''adapter provider is not allowed by capability manifest'' ''manifest'' plan c)
     else Inr ()))"

definition ensure_plan_allowed :: "permission_set \<Rightarrow> provider_plan \<Rightarrow> unit res" where
  "ensure_plan_allowed perms plan =
     res_bind (ensure_capability_allowed perms (plan_capability plan)) (\<lambda>_.
     res_bind (ensure_required_adapter_capabilities_allowed perms plan) (\<lambda>_.
     res_all (ensure_provider_allowed perms plan) (plan_providers plan)))"

subsection \<open>Routing (router.rs, host\_api.rs)\<close>

definition descriptor_for_request :: "capability_registry \<Rightarrow> invoke_request \<Rightarrow> capability_descriptor res" where
  "descriptor_for_request r q = (case rq_target q of
     InvokeCapability c \<Rightarrow>
       ok_or (with_context (err_not_found ''capability is not registered'') ''capability'' (cap_name c))
         (capability_get r c)
   | _ \<Rightarrow> Inl (err_invalid_argument ''capability router requires capability target''))"

definition ensure_enabled :: "capability_descriptor \<Rightarrow> unit res" where
  "ensure_enabled d =
     (if cd_enabled d then Inr ()
      else Inl (with_context (err_permission_denied ''capability is disabled'')
             ''capability'' (cap_name (cd_name d))))"

definition router_provider_plan ::
  "capability_registry \<Rightarrow> invoke_request \<Rightarrow> adapter_id option \<Rightarrow> provider_plan res" where
  "router_provider_plan r q explicit_provider =
     res_bind (descriptor_for_request r q) (\<lambda>d.
     res_bind (ensure_enabled d) (\<lambda>_.
     Inr (descriptor_provider_plan d explicit_provider)))"

definition authorized_provider_plan ::
  "capability_registry \<Rightarrow> invoke_request \<Rightarrow> adapter_id option \<Rightarrow> permission_set \<Rightarrow> provider_plan res" where
  "authorized_provider_plan r q explicit_provider perms =
     res_bind (router_provider_plan r q explicit_provider) (\<lambda>plan.
     res_bind (ensure_plan_allowed perms plan) (\<lambda>_. Inr plan))"

fun escape_json :: "string \<Rightarrow> string" where
  "escape_json [] = []"
| "escape_json (c # cs) =
     (if c = CHR 0x22 then [CHR 0x5C, CHR 0x22]
      else if c = CHR 0x5C then [CHR 0x5C, CHR 0x5C]
      else if c = CHR 0x0A then [CHR 0x5C, CHR ''n'']
      else if c = CHR 0x0D then [CHR 0x5C, CHR ''r'']
      else if c = CHR 0x09 then [CHR 0x5C, CHR ''t'']
      else [c]) @ escape_json cs"

definition quoted :: "string \<Rightarrow> string" where
  "quoted s = [CHR 0x22] @ s @ [CHR 0x22]"

definition invoke_descriptor :: "capability_descriptor \<Rightarrow> invoke_request \<Rightarrow> invoke_response res" where
  "invoke_descriptor d q =
     res_bind (ensure_enabled d) (\<lambda>_.
     let txt = (case payload_as_text (rq_input q) of None \<Rightarrow> [] | Some t \<Rightarrow> t);
         done = (\<lambda>output. Inr (response_completed (rq_request_id q) (PayloadText output))) in
     if cap_name (cd_name d) = ''config.lint''
     then done (''{'' @ quoted ''valid'' @ '':true,'' @ quoted ''findings'' @ '':[],'' @ quoted ''input'' @ '':'' @
            quoted (escape_json txt) @ ''}'')
     else if cap_name (cd_name d) = ''runtime.echo''
     then done (''{'' @ quoted ''echo'' @ '':'' @ quoted (escape_json txt) @ ''}'')
     else Inl (with_context (err_unsupported ''capability has no builtin provider'')
            ''capability'' (cap_name (cd_name d))))"

definition router_invoke :: "capability_registry \<Rightarrow> invoke_request \<Rightarrow> invoke_response res" where
  "router_invoke r q = res_bind (descriptor_for_request r q) (\<lambda>d. invoke_descriptor d q)"

text \<open>The default method of the host interface, over any implementation of \<^verbatim>\<open>invoke\<close>.\<close>

definition invoke_with_provider ::
  "(invoke_request \<Rightarrow> invoke_response res) \<Rightarrow> invoke_request \<Rightarrow> adapter_id option \<Rightarrow> invoke_response res" where
  "invoke_with_provider invoke q explicit_provider = (case explicit_provider of
     Some p \<Rightarrow> Inl (with_context (err_unsupported ''capability host does not support explicit provider routing'')
       ''provider'' (adapter_id_str p))
   | None \<Rightarrow> invoke q)"

subsection \<open>The registry is a registry\<close>

interpretation capability_reg: unique_registry capability_get capability_register "\<lambda>_. True" cd_name "\<lambda>d. d"
  by unfold_locales (auto simp: capability_get_def capability_register_def fun_eq_iff)

subsection \<open>Plans\<close>

text \<open>The providers a descriptor declares, in the order of preference, and the mentions of a plan.\<close>

definition declared :: "provider_selection \<Rightarrow> provider_candidate list" where
  "declared sel =
     (case sel_manifest_provider sel of None \<Rightarrow> [] | Some p \<Rightarrow> [\<lparr>cc_provider = p, cc_source = ManifestProvider\<rparr>]) @
     (case sel_default_provider sel of None \<Rightarrow> [] | Some p \<Rightarrow> [\<lparr>cc_provider = p, cc_source = DefaultProvider\<rparr>]) @
     map (\<lambda>p. \<lparr>cc_provider = p, cc_source = FallbackProvider\<rparr>) (sel_fallback_providers sel)"

definition mentions :: "provider_selection \<Rightarrow> adapter_id option \<Rightarrow> provider_candidate list" where
  "mentions sel explicit_provider =
     (case explicit_provider of None \<Rightarrow> [] | Some p \<Rightarrow> [\<lparr>cc_provider = p, cc_source = ExplicitRequest\<rparr>]) @
     declared sel"

definition push_candidate :: "provider_candidate \<Rightarrow> provider_candidate list \<Rightarrow> provider_candidate list" where
  "push_candidate c cs = push_unique cs (cc_provider c) (cc_source c)"

lemma fold_declare:
  "fold (declare_provider s) ps (cs, as) =
     (fold push_candidate (map (\<lambda>p. \<lparr>cc_provider = p, cc_source = s\<rparr>) ps) cs, fold (\<lambda>p as. push_allowed as p) ps as)"
  by (induction ps arbitrary: cs as) (simp_all add: declare_provider_def push_candidate_def)

lemma plan_for_folds:
  "plan_providers (plan_for sel c ex) = fold push_candidate (mentions sel ex) []"
  "plan_manifest_allowed_providers (plan_for sel c ex) =
     fold (\<lambda>p as. push_allowed as p) (map cc_provider (declared sel)) []"
  by (simp_all add: plan_for_def Let_def mentions_def declared_def declare_provider_def fold_declare
      push_candidate_def comp_def fold_map split: option.split)

text \<open>The first mention of every provider, in order.\<close>

function first_mentions :: "provider_candidate list \<Rightarrow> provider_candidate list" where
  "first_mentions [] = []"
| "first_mentions (c # cs) = c # first_mentions (filter (\<lambda>d. cc_provider d \<noteq> cc_provider c) cs)"
  by pat_completeness auto
termination by (relation "measure length") (simp_all add: le_imp_less_Suc)

lemma fold_push_candidate:
  "fold push_candidate cs acc = acc @ first_mentions (filter (\<lambda>d. cc_provider d \<notin> cc_provider ` set acc) cs)"
proof (induction cs arbitrary: acc)
  case (Cons c cs)
  have "filter (\<lambda>d. cc_provider d \<notin> cc_provider ` set (acc @ [c])) cs =
      filter (\<lambda>d. cc_provider d \<noteq> cc_provider c) (filter (\<lambda>d. cc_provider d \<notin> cc_provider ` set acc) cs)"
    by (simp add: conj_commute)
  moreover have "push_candidate c acc = (if cc_provider c \<in> cc_provider ` set acc then acc else acc @ [c])"
    by (simp add: push_candidate_def push_unique_def list_ex_iff image_iff eq_commute [of _ "cc_provider c"])
  ultimately show ?case using Cons [of acc] Cons [of "acc @ [c]"] by simp
qed simp

lemma first_mentions_ids:
  "distinct (map cc_provider (first_mentions cs)) \<and> cc_provider ` set (first_mentions cs) = cc_provider ` set cs"
  by (induction cs rule: first_mentions.induct) (auto simp: image_iff)

lemma set_push_allowed: "set (fold (\<lambda>p as. push_allowed as p) ps acc) = set acc \<union> set ps"
  by (induction ps arbitrary: acc) (auto simp: push_allowed_def)

lemma plan_for_parts:
  "plan_providers (plan_for sel c ex) = first_mentions (mentions sel ex)"
  "set (plan_manifest_allowed_providers (plan_for sel c ex)) = cc_provider ` set (declared sel)"
  "plan_capability (plan_for sel c ex) = c"
  "plan_required_adapter_capabilities (plan_for sel c ex) = sel_required_adapter_capabilities sel"
  unfolding plan_for_folds fold_push_candidate set_push_allowed by (simp_all add: plan_for_def Let_def)

subsection \<open>The gate\<close>

lemma ensure_plan_allowed_iff:
  "ensure_plan_allowed perms plan = Inr u \<longleftrightarrow>
     explicitly_allows_capability perms (plan_capability plan) \<and>
     (\<forall>c \<in> set (plan_required_adapter_capabilities plan). explicitly_allows_capability perms c) \<and>
     (\<forall>c \<in> set (plan_providers plan). explicitly_allows_adapter perms (cc_provider c) \<and>
        allows_manifest_provider plan (cc_provider c))"
  by (auto simp: ensure_plan_allowed_def ensure_capability_allowed_def ensure_provider_allowed_def
      ensure_required_adapter_capabilities_allowed_def res_simps res_all_ok split: if_splits)

lemma router_plan_iff:
  "router_provider_plan r q ex = Inr plan \<longleftrightarrow>
     (\<exists>c d. rq_target q = InvokeCapability c \<and> capability_get r c = Some d \<and> cd_enabled d \<and>
        plan = plan_for (cd_provider_selection d) (cd_name d) ex)"
  by (auto simp: router_provider_plan_def descriptor_for_request_def ensure_enabled_def
      descriptor_provider_plan_def res_simps split: invoke_target.splits if_splits)

subsection \<open>Escaping\<close>

text \<open>Reading a JSON string body: the escapes the writer uses, up to the closing quote.\<close>

fun unescape_json :: "string \<Rightarrow> (string \<times> string) option" where
  "unescape_json [] = None"
| "unescape_json (c # cs) =
     (if c = CHR 0x22 then Some ([], cs)
      else if c = CHR 0x5C then (case cs of
          [] \<Rightarrow> None
        | e # rest \<Rightarrow>
            map_option (\<lambda>(s, t). ((if e = CHR ''n'' then CHR 0x0A else if e = CHR ''r'' then CHR 0x0D
              else if e = CHR ''t'' then CHR 0x09 else e) # s, t)) (unescape_json rest))
      else map_option (\<lambda>(s, t). (c # s, t)) (unescape_json cs))"

lemma unescape_escape: "unescape_json (escape_json s @ CHR 0x22 # rest) = Some (s, rest)"
  by (induction s) simp_all

subsection \<open>Builtins\<close>

lemma builtin_names:
  "capability_name_parse ''config.lint'' = Inr (CapabilityName ''config.lint'' [''config'', ''lint''])"
  "capability_name_parse ''runtime.echo'' = Inr (CapabilityName ''runtime.echo'' [''runtime'', ''echo''])"
  unfolding capability_name_parse_iff capability_wf_def capability_segment_def is_capability_char_def
    is_ascii_alphanumeric_def by simp_all

lemma builtin_ids:
  "capability_id_parse ''config-lint-builtin'' = Inr (CapabilityId ''config-lint-builtin'')"
  "capability_id_parse ''runtime-echo-builtin'' = Inr (CapabilityId ''runtime-echo-builtin'')"
proof -
  have "validate_id ''capability'' ''config-lint-builtin'' = Inr ()"
    and "validate_id ''capability'' ''runtime-echo-builtin'' = Inr ()"
    unfolding validate_id_iff stable_id_def is_stable_id_char_def is_ascii_alphanumeric_def
    by (simp_all add: MAX_ID_LEN_def)
  then show "capability_id_parse ''config-lint-builtin'' = Inr (CapabilityId ''config-lint-builtin'')"
    and "capability_id_parse ''runtime-echo-builtin'' = Inr (CapabilityId ''runtime-echo-builtin'')"
    by (simp_all add: capability_id_parse_def)
qed

lemma builtin_registry:
  obtains r where "registry_with_v04_builtins = Some r"
    "capability_get r (CapabilityName ''runtime.echo'' [''runtime'', ''echo'']) =
       Some (descriptor_builtin (CapabilityId ''runtime-echo-builtin'')
         (CapabilityName ''runtime.echo'' [''runtime'', ''echo'']))"
proof -
  let ?lint = "descriptor_builtin (CapabilityId ''config-lint-builtin'') (CapabilityName ''config.lint'' [''config'', ''lint''])"
  let ?echo = "descriptor_builtin (CapabilityId ''runtime-echo-builtin'') (CapabilityName ''runtime.echo'' [''runtime'', ''echo''])"
  have names: "cd_name ?lint = CapabilityName ''config.lint'' [''config'', ''lint'']"
    "cd_name ?echo = CapabilityName ''runtime.echo'' [''runtime'', ''echo'']"
    by (simp_all add: descriptor_builtin_def)
  obtain r1 where r1: "capability_register capability_registry_new ?lint = (Inr (), r1)"
    "capability_get r1 (cd_name ?echo) = None"
    by (simp add: capability_register_def capability_registry_new_def names capability_get_def bt_get_def)
  obtain r2 where r2: "capability_register r1 ?echo = (Inr (), r2)" "capability_get r2 (cd_name ?echo) = Some ?echo"
    using r1(2)
    by (simp add: capability_register_def capability_get_def)
  show ?thesis
    by (rule that [of r2]) (use r1 r2 in \<open>simp_all add: registry_with_v04_builtins_def register_builtin_def
        builtin_names builtin_ids names\<close>)
qed

subsection \<open>Properties\<close>

text \<open>
  C24. An authorized plan exists exactly when the request names a registered and enabled
  capability, the capability and everything its adapters require are explicitly allowed, and every
  provider of the plan is both explicitly allowed and declared by the manifest; so an explicit
  provider changes the order but never widens the choice. The plan lists the first mention of every
  provider: the explicit one, then those of the manifest in the order of preference.
\<close>
theorem authorized_plan_exact:
  "authorized_provider_plan r q ex perms = Inr plan \<longleftrightarrow>
     (\<exists>c d. rq_target q = InvokeCapability c \<and> capability_get r c = Some d \<and> cd_enabled d \<and>
        plan_capability plan = cd_name d \<and>
        plan_providers plan = first_mentions (mentions (cd_provider_selection d) ex) \<and>
        plan = plan_for (cd_provider_selection d) (cd_name d) ex \<and>
        distinct (provider_ids plan) \<and>
        explicitly_allows_capability perms (cd_name d) \<and>
        list_all (explicitly_allows_capability perms) (sel_required_adapter_capabilities (cd_provider_selection d)) \<and>
        list_all (\<lambda>p. explicitly_allows_adapter perms p \<and> p \<in> cc_provider ` set (declared (cd_provider_selection d)))
          (provider_ids plan))"
proof -
  have "authorized_provider_plan r q ex perms = Inr plan \<longleftrightarrow>
      router_provider_plan r q ex = Inr plan \<and> ensure_plan_allowed perms plan = Inr ()"
    by (auto simp: authorized_provider_plan_def res_simps)
  then show ?thesis
    unfolding router_plan_iff ensure_plan_allowed_iff
    by (auto simp: plan_for_parts allows_manifest_provider_def list_all_iff provider_ids_def
        first_mentions_ids)
qed

text \<open>
  The capability registry keeps the first descriptor registered under a name, whatever is
  registered after it.
\<close>
theorem first_capability_wins:
  "capability_get (register_run capability_register capability_registry_new ds) n =
     find (\<lambda>d. cd_name d = n) ds"
  using capability_reg.first_registration_wins [of capability_registry_new ds n]
  by (simp add: capability_get_def capability_registry_new_def option.map_ident)

text \<open>
  Invoking a builtin. With the builtin registry, an invocation of \<open>runtime.echo\<close> completes
  with a JSON object whose member is the escaped input, and reading that member back gives the
  input text: nothing in the input can end the string early.
\<close>
theorem echo_roundtrip:
  "\<exists>r c rest. registry_with_v04_builtins = Some r \<and> capability_name_parse ''runtime.echo'' = Inr c \<and>
     router_invoke r (invoke_request_new i (InvokeCapability c) (PayloadText s)) =
       Inr (response_completed i (PayloadText (''{'' @ quoted ''echo'' @ '':'' @ [CHR 0x22] @ rest))) \<and>
     unescape_json rest = Some (s, ''}'')"
proof -
  let ?c = "CapabilityName ''runtime.echo'' [''runtime'', ''echo'']"
  obtain r where r: "registry_with_v04_builtins = Some r"
    "capability_get r ?c = Some (descriptor_builtin (CapabilityId ''runtime-echo-builtin'') ?c)"
    by (rule builtin_registry)
  have "router_invoke r (invoke_request_new i (InvokeCapability ?c) (PayloadText s)) =
      Inr (response_completed i (PayloadText (''{'' @ quoted ''echo'' @ '':'' @ [CHR 0x22] @
        (escape_json s @ CHR 0x22 # ''}''))))"
    by (simp add: router_invoke_def descriptor_for_request_def invoke_request_new_def r(2)
        invoke_descriptor_def ensure_enabled_def descriptor_builtin_def quoted_def)
  then show ?thesis using r(1) builtin_names(2) unescape_escape [of s "''}''"] by blast
qed

end
