(* ===== verification/Lifecycle_Generation.thy ===== *)
theory Lifecycle_Generation
  imports Core_Capability
begin

section \<open>Generations, draining, rollback plans and the supervisor (eva-lifecycle)\<close>

text \<open>
  The state machine of runtime generations (generation.rs), drain plans (drain.rs), rollback plans
  (rollback.rs) and the in-memory supervisor that owns the state machine (supervisor.rs).
\<close>

subsection \<open>Generations (generation.rs)\<close>

datatype generation_state = GenPending | GenActive | GenDraining | GenRetired | GenFailed

fun generation_state_as_str :: "generation_state \<Rightarrow> string" where
  "generation_state_as_str GenPending = ''pending''"
| "generation_state_as_str GenActive = ''active''"
| "generation_state_as_str GenDraining = ''draining''"
| "generation_state_as_str GenRetired = ''retired''"
| "generation_state_as_str GenFailed = ''failed''"

record runtime_generation =
  rg_id :: generation_id
  rg_release_ref :: string
  rg_state :: generation_state

record generation_controller =
  gc_active :: runtime_generation
  gc_candidate :: "runtime_generation option"
  gc_retired :: "runtime_generation list"
  gc_audit :: "string list"

definition runtime_generation_new :: "generation_id \<Rightarrow> string \<Rightarrow> generation_state \<Rightarrow> runtime_generation res" where
  "runtime_generation_new i release_ref st =
     (if trim release_ref = [] then Inl (err_invalid_argument ''runtime release ref is required'')
      else Inr \<lparr>rg_id = i, rg_release_ref = release_ref, rg_state = st\<rparr>)"

definition controller_new :: "runtime_generation \<Rightarrow> generation_controller res" where
  "controller_new active =
     (if rg_state active \<noteq> GenActive
      then Inl (with_context (with_context (err_invalid_argument ''initial generation must be active'')
             ''generation'' (generation_id_str (rg_id active)))
             ''state'' (generation_state_as_str (rg_state active)))
      else Inr \<lparr>gc_active = active, gc_candidate = None, gc_retired = [],
                gc_audit = [''generation:controller_created'']\<rparr>)"

definition controller_start_candidate ::
  "generation_controller \<Rightarrow> runtime_generation \<Rightarrow> unit res \<times> generation_controller" where
  "controller_start_candidate s candidate =
     (if gc_candidate s \<noteq> None then (Inl (err_conflict ''candidate generation already exists''), s)
      else (Inr (), s\<lparr>gc_audit := gc_audit s @ [''candidate:'' @ generation_id_str (rg_id candidate) @ '':started''],
                      gc_candidate := Some (candidate\<lparr>rg_state := GenPending\<rparr>)\<rparr>))"

definition promote_candidate :: "generation_controller \<Rightarrow> unit res \<times> generation_controller" where
  "promote_candidate s = (case gc_candidate s of
     None \<Rightarrow> (Inl (err_not_found ''candidate generation does not exist''), s)
   | Some candidate \<Rightarrow>
       (Inr (), s\<lparr>gc_candidate := None,
          gc_audit := gc_audit s @ [''generation:'' @ generation_id_str (rg_id candidate) @ '':promoted''],
          gc_retired := gc_retired s @ [(gc_active s)\<lparr>rg_state := GenDraining\<rparr>],
          gc_active := candidate\<lparr>rg_state := GenActive\<rparr>\<rparr>))"

definition fail_candidate ::
  "generation_controller \<Rightarrow> string \<Rightarrow> runtime_generation res \<times> generation_controller" where
  "fail_candidate s reason = (case gc_candidate s of
     None \<Rightarrow> (Inl (err_not_found ''candidate generation does not exist''), s)
   | Some candidate \<Rightarrow>
       (Inr (candidate\<lparr>rg_state := GenFailed\<rparr>),
        s\<lparr>gc_candidate := None,
          gc_audit := gc_audit s @
            [''candidate:'' @ generation_id_str (rg_id candidate) @ '':failed:'' @ reason]\<rparr>))"

subsection \<open>Draining (drain.rs)\<close>

datatype drain_status = DrainPlanned | DrainCompleted | DrainTimedOut

fun drain_status_as_str :: "drain_status \<Rightarrow> string" where
  "drain_status_as_str DrainPlanned = ''planned''"
| "drain_status_as_str DrainCompleted = ''completed''"
| "drain_status_as_str DrainTimedOut = ''timed_out''"

record drain_plan =
  dp_generation_id :: generation_id
  dp_inflight_tasks :: nat
  dp_timeout_ms :: u64
  dp_accepts_new_work :: bool
  dp_status :: drain_status
  dp_audit :: "string list"

record generation_drain_evidence =
  de_from_generation :: generation_id
  de_to_generation :: generation_id
  de_plan :: drain_plan
  de_audit :: "string list"

definition plan_drain :: "generation_id \<Rightarrow> nat \<Rightarrow> u64 \<Rightarrow> drain_plan res" where
  "plan_drain i inflight timeout_ms =
     (if timeout_ms = 0 then Inl (err_invalid_argument ''drain timeout must be positive'')
      else Inr \<lparr>dp_generation_id = i, dp_inflight_tasks = inflight, dp_timeout_ms = timeout_ms,
             dp_accepts_new_work = False,
             dp_status = (if inflight = 0 then DrainCompleted else DrainPlanned),
             dp_audit = [''drain:planned'']\<rparr>)"

definition plan_generation_swap_drain ::
  "generation_id \<Rightarrow> generation_id \<Rightarrow> nat \<Rightarrow> u64 \<Rightarrow> generation_drain_evidence res" where
  "plan_generation_swap_drain from to inflight timeout_ms =
     (if from = to
      then Inl (with_context (err_conflict ''generation drain requires distinct source and target generations'')
             ''generation'' (generation_id_str from))
      else res_bind (plan_drain from inflight timeout_ms) (\<lambda>plan.
        let plan = plan\<lparr>dp_audit := dp_audit plan @
              [''generation:'' @ generation_id_str from @ '':draining_after_swap_to:'' @ generation_id_str to]\<rparr>
        in Inr \<lparr>de_from_generation = from, de_to_generation = to, de_plan = plan, de_audit = dp_audit plan\<rparr>))"

definition complete_drain :: "drain_plan \<Rightarrow> drain_plan" where
  "complete_drain p = p\<lparr>dp_inflight_tasks := 0, dp_status := DrainCompleted, dp_audit := dp_audit p @ [''drain:completed'']\<rparr>"

definition timeout_drain :: "drain_plan \<Rightarrow> drain_plan" where
  "timeout_drain p = p\<lparr>dp_status := DrainTimedOut, dp_audit := dp_audit p @ [''drain:timed_out'']\<rparr>"

subsection \<open>Rollback plans (rollback.rs)\<close>

text \<open>Of a restore plan the coordinator reads the snapshot and the risks.\<close>

record restore_plan =
  rp_snapshot_id :: string
  rp_risks :: "string list"

record rollback_plan =
  rb_from_generation :: generation_id
  rb_to_generation :: generation_id
  rb_snapshot_id :: "string option"
  rb_reason :: string
  rb_status :: string
  rb_steps :: "string list"
  rb_risks :: "string list"
  rb_audit :: "string list"

definition plan_failed_handoff ::
  "generation_id \<Rightarrow> generation_id \<Rightarrow> string \<Rightarrow> restore_plan option \<Rightarrow> rollback_plan res" where
  "plan_failed_handoff from to reason restore =
     (if trim reason = [] then Inl (err_invalid_argument ''rollback reason is required'')
      else Inr \<lparr>rb_from_generation = from, rb_to_generation = to,
             rb_snapshot_id = map_option rp_snapshot_id restore, rb_reason = reason,
             rb_status = ''planned'',
             rb_steps = [''stop candidate ingress'', ''keep previous generation active'',
               ''verify restore snapshot if present'', ''emit rollback audit''],
             rb_risks = ''rollback is planned only; lifecycle apply remains explicit'' #
               (case restore of Some p \<Rightarrow> rp_risks p | None \<Rightarrow> [''no restore snapshot was attached'']),
             rb_audit = [''rollback:planned'']\<rparr>)"

definition plan_generation_lifecycle_rollback ::
  "generation_id \<Rightarrow> generation_id \<Rightarrow> string \<Rightarrow> generation_drain_evidence option \<Rightarrow> restore_plan option \<Rightarrow>
     rollback_plan res" where
  "plan_generation_lifecycle_rollback failed restored reason evidence restore =
     res_bind (plan_failed_handoff failed restored reason restore) (\<lambda>plan.
     let plan = plan\<lparr>rb_steps := ''keep scheduler route on previous healthy generation'' # rb_steps plan,
                     rb_audit := rb_audit plan @
                       [''rollback:generation:'' @ generation_id_str failed @ '':to:'' @ generation_id_str restored]\<rparr>
     in Inr (case evidence of
          Some ev \<Rightarrow> plan\<lparr>rb_audit := rb_audit plan @
            map (\<lambda>entry. ''rollback:observed_drain:'' @ generation_id_str (de_from_generation ev) @ '':'' @ entry)
              (de_audit ev)\<rparr>
        | None \<Rightarrow> plan\<lparr>rb_risks := rb_risks plan @ [''no generation drain evidence was attached'']\<rparr>))"

subsection \<open>The supervisor (supervisor.rs)\<close>

record runtime_health =
  rh_generation_id :: generation_id
  rh_healthy :: bool
  rh_message :: string

definition runtime_health_healthy :: "generation_id \<Rightarrow> runtime_health" where
  "runtime_health_healthy i = \<lparr>rh_generation_id = i, rh_healthy = True, rh_message = ''healthy''\<rparr>"

record supervisor_report =
  sr_active_generation :: generation_id
  sr_candidate_generation :: "generation_id option"
  sr_healthy :: bool
  sr_audit :: "string list"

type_synonym supervisor = generation_controller

definition supervisor_new :: "runtime_generation \<Rightarrow> supervisor res" where
  "supervisor_new active = controller_new active"

definition supervisor_start_candidate ::
  "supervisor \<Rightarrow> generation_id \<Rightarrow> string \<Rightarrow> unit res \<times> supervisor" where
  "supervisor_start_candidate s i release_ref = (case runtime_generation_new i release_ref GenPending of
     Inl e \<Rightarrow> (Inl e, s)
   | Inr candidate \<Rightarrow> controller_start_candidate s candidate)"

definition commit_candidate :: "supervisor \<Rightarrow> runtime_health \<Rightarrow> unit res \<times> supervisor" where
  "commit_candidate s health =
     (if \<not> rh_healthy health
      then (Inl (with_context (err_unavailable ''candidate runtime is not healthy'')
              ''generation'' (generation_id_str (rh_generation_id health))), s)
      else (case gc_candidate s of
          None \<Rightarrow> (Inl (err_not_found ''candidate generation does not exist''), s)
        | Some candidate \<Rightarrow>
            if rg_id candidate \<noteq> rh_generation_id health
            then (Inl (with_context (with_context
                    (err_conflict ''health check does not match candidate generation'')
                    ''candidate'' (generation_id_str (rg_id candidate)))
                    ''health'' (generation_id_str (rh_generation_id health))), s)
            else promote_candidate s))"

definition supervisor_report_of :: "supervisor \<Rightarrow> supervisor_report" where
  "supervisor_report_of s =
     \<lparr>sr_active_generation = rg_id (gc_active s),
      sr_candidate_generation = map_option rg_id (gc_candidate s),
      sr_healthy = True, sr_audit = gc_audit s\<rparr>"

subsection \<open>Runs of the supervisor\<close>

datatype supervisor_op =
    StartGeneration generation_id string
  | CommitGeneration runtime_health
  | FailGeneration string

definition supervisor_step :: "supervisor_op \<Rightarrow> supervisor \<Rightarrow> supervisor" where
  "supervisor_step op s = (case op of
     StartGeneration i r \<Rightarrow> snd (supervisor_start_candidate s i r)
   | CommitGeneration h \<Rightarrow> snd (commit_candidate s h)
   | FailGeneration reason \<Rightarrow> snd (fail_candidate s reason))"

definition controller_wf :: "generation_controller \<Rightarrow> bool" where
  "controller_wf s \<longleftrightarrow> rg_state (gc_active s) = GenActive \<and>
     (\<forall>c. gc_candidate s = Some c \<longrightarrow> rg_state c = GenPending) \<and>
     (\<forall>g \<in> set (gc_retired s). rg_state g = GenDraining)"

lemmas supervisor_defs = supervisor_step_def supervisor_start_candidate_def runtime_generation_new_def
  controller_start_candidate_def commit_candidate_def promote_candidate_def fail_candidate_def

lemma supervisor_step_wf: "controller_wf s \<Longrightarrow> controller_wf (supervisor_step op s)"
  by (cases op) (auto simp: supervisor_defs controller_wf_def split: option.splits)

lemma supervisor_run_wf: "controller_wf s \<Longrightarrow> controller_wf (fold supervisor_step ops s)"
  by (induction ops arbitrary: s) (simp_all add: supervisor_step_wf)

text \<open>The generations that a run made active one after the other, and what made them so.\<close>

definition promoted_by :: "supervisor \<Rightarrow> supervisor_op \<Rightarrow> generation_id list" where
  "promoted_by s op = (case op of
     CommitGeneration h \<Rightarrow>
       (case gc_candidate s of
          Some c \<Rightarrow> if rh_healthy h \<and> rh_generation_id h = rg_id c then [rg_id c] else []
        | None \<Rightarrow> [])
   | _ \<Rightarrow> [])"

fun promotions :: "supervisor_op list \<Rightarrow> supervisor \<Rightarrow> generation_id list" where
  "promotions [] s = []"
| "promotions (op # ops) s = promoted_by s op @ promotions ops (supervisor_step op s)"

definition lineage :: "generation_controller \<Rightarrow> generation_id list" where
  "lineage s = map rg_id (gc_retired s) @ [rg_id (gc_active s)]"

lemma lineage_step: "lineage (supervisor_step op s) = lineage s @ promoted_by s op"
  by (cases op) (auto simp: supervisor_defs lineage_def promoted_by_def split: option.splits)

lemma lineage_run: "lineage (fold supervisor_step ops s) = lineage s @ promotions ops s"
  by (induction ops arbitrary: s) (simp_all add: lineage_step)

subsection \<open>Properties\<close>

text \<open>
  C28. The supervisor over any sequence of calls. The generations it has had, oldest first and the
  active one last, are the initial one followed by exactly the candidates that were committed with
  a healthy report for their own id; nothing else changes the active generation. There is always
  one active generation, a candidate is pending and the former ones are draining.
\<close>
theorem supervisor_lineage:
  assumes "supervisor_new g = Inr s"
  shows "lineage (fold supervisor_step ops s) = rg_id g # promotions ops s \<and>
         rg_state (gc_active (fold supervisor_step ops s)) = GenActive \<and>
         list_all (\<lambda>r. rg_state r = GenDraining) (gc_retired (fold supervisor_step ops s)) \<and>
         (\<forall>c. gc_candidate (fold supervisor_step ops s) = Some c \<longrightarrow> rg_state c = GenPending)"
proof -
  have "lineage s = [rg_id g]" and "controller_wf s"
    using assms by (auto simp: supervisor_new_def controller_new_def lineage_def controller_wf_def split: if_splits)
  then show ?thesis using lineage_run [of ops s] supervisor_run_wf [of s ops]
    by (simp add: controller_wf_def list_all_iff)
qed

definition first_generation :: runtime_generation where
  "first_generation = \<lparr>rg_id = GenerationId ''g1'', rg_release_ref = ''r1'', rg_state = GenActive\<rparr>"

definition upgrade_ops :: "supervisor_op list" where
  "upgrade_ops = [StartGeneration (GenerationId ''g2'') ''r2'',
     CommitGeneration (runtime_health_healthy (GenerationId ''g9'')),
     CommitGeneration (runtime_health_healthy (GenerationId ''g2''))]"

theorem supervisor_lineage_witness:
  "\<exists>s. supervisor_new first_generation = Inr s \<and>
     lineage (fold supervisor_step upgrade_ops s) = [GenerationId ''g1'', GenerationId ''g2'']"
proof -
  obtain s where s: "supervisor_new first_generation = Inr s" "s = \<lparr>gc_active = first_generation, gc_candidate = None,
      gc_retired = [], gc_audit = [''generation:controller_created'']\<rparr>"
    by (simp add: supervisor_new_def controller_new_def first_generation_def)
  have "trim ''r2'' = ''r2''" by (rule trim_graphic) (simp add: is_graphic_def)
  then have "promotions upgrade_ops s = [GenerationId ''g2'']"
    by (simp add: upgrade_ops_def s(2) promoted_by_def supervisor_defs runtime_health_healthy_def)
  then show ?thesis using supervisor_lineage [OF s(1), of upgrade_ops] s(1)
    by (simp add: first_generation_def)
qed

end
