(* ===== verification/Lifecycle_Handoff.thy ===== *)
theory Lifecycle_Handoff
  imports Lifecycle_Generation Policy_Gate Eva_Interfaces
begin

section \<open>Upgrade locks and the supervisor handoff (eva-lifecycle: apply\_lock.rs, handoff.rs)\<close>

text \<open>
  The lock an upgrade takes, in memory and as an exclusively created file, and the blue-green
  handoff that promotes a candidate generation and moves the release pointer. The state store of a
  handoff is an interface: a record of its three operations over a state of any type. A directory
  maps file names to contents, and every file operation has its outcome as a parameter.
\<close>

subsection \<open>Plans and locks (apply\_lock.rs)\<close>

record upgrade_apply_plan =
  up_plan_id :: string
  up_from_generation :: generation_id
  up_to_generation :: generation_id
  up_from_release :: string
  up_to_release :: string

record upgrade_apply_lock =
  ul_lock_id :: string
  ul_plan_id :: string
  ul_owner :: string
  ul_from_generation :: generation_id
  ul_to_generation :: generation_id
  ul_status :: string
  ul_audit :: "string list"

record upgrade_apply_report =
  ua_plan_id :: string
  ua_status :: string
  ua_apply_allowed :: bool
  ua_lock :: upgrade_apply_lock
  ua_steps :: "string list"
  ua_risks :: "string list"
  ua_audit :: "string list"

definition field_value_error :: "string \<Rightarrow> string \<Rightarrow> string \<Rightarrow> eva_error" where
  "field_value_error message field v =
     with_context (with_context (err_invalid_argument message) ''field'' field) ''value'' v"

definition validate_token :: "string \<Rightarrow> string \<Rightarrow> string res" where
  "validate_token field v =
     (if trim v = [] \<or> trim v \<noteq> v
      then Inl (field_value_error ''upgrade apply token must be non-empty and trimmed'' field v)
      else if str_contains ''..'' v \<or>
        \<not> list_all (\<lambda>c. is_ascii_alphanumeric c \<or> c = CHR ''.'' \<or> c = CHR ''_'' \<or> c = CHR ''-'') v
      then Inl (field_value_error ''upgrade apply token must be a stable slug'' field v)
      else Inr v)"

definition validate_release_ref :: "string \<Rightarrow> string \<Rightarrow> string res" where
  "validate_release_ref field v =
     (if trim v = [] \<or> trim v \<noteq> v \<or> CHR 0x0A \<in> set v \<or> CHR 0x0D \<in> set v
      then Inl (field_value_error ''upgrade apply release ref must be non-empty and single-line'' field v)
      else Inr v)"

definition upgrade_apply_plan_new ::
  "string \<Rightarrow> generation_id \<Rightarrow> generation_id \<Rightarrow> string \<Rightarrow> string \<Rightarrow> upgrade_apply_plan res" where
  "upgrade_apply_plan_new plan_id from to from_release to_release =
     res_bind (validate_token ''plan_id'' plan_id) (\<lambda>plan_id.
     if from = to
     then Inl (with_context (with_context
            (err_invalid_argument ''upgrade apply plan must target a different generation'')
            ''plan_id'' plan_id) ''generation'' (generation_id_str from))
     else
       res_bind (validate_release_ref ''from_release'' from_release) (\<lambda>from_release.
       res_bind (validate_release_ref ''to_release'' to_release) (\<lambda>to_release.
       Inr \<lparr>up_plan_id = plan_id, up_from_generation = from, up_to_generation = to,
            up_from_release = from_release, up_to_release = to_release\<rparr>)))"

definition plan_lock_id :: "upgrade_apply_plan \<Rightarrow> string" where
  "plan_lock_id p = ''upgrade-apply-'' @ up_plan_id p"

definition build_lock :: "upgrade_apply_plan \<Rightarrow> string \<Rightarrow> upgrade_apply_lock res" where
  "build_lock p owner =
     res_bind (validate_token ''owner'' owner) (\<lambda>owner.
     Inr \<lparr>ul_lock_id = plan_lock_id p, ul_plan_id = up_plan_id p, ul_owner = owner,
          ul_from_generation = up_from_generation p, ul_to_generation = up_to_generation p,
          ul_status = ''acquired'',
          ul_audit = [''lock:acquired'', ''plan:'' @ up_plan_id p,
            ''from:'' @ generation_id_str (up_from_generation p),
            ''to:'' @ generation_id_str (up_to_generation p)]\<rparr>)"

definition lock_path :: "string \<Rightarrow> string \<Rightarrow> string" where
  "lock_path root plan_id = root @ ''/'' @ plan_id @ ''.lock''"

definition payload_line :: "string \<Rightarrow> string \<Rightarrow> string" where
  "payload_line k v = k @ ''='' @ v @ [CHR 0x0A]"

definition lock_payload :: "upgrade_apply_plan \<Rightarrow> upgrade_apply_lock \<Rightarrow> string" where
  "lock_payload p l =
     payload_line ''lock_id'' (ul_lock_id l) @ payload_line ''plan_id'' (up_plan_id p) @
     payload_line ''owner'' (ul_owner l) @
     payload_line ''from_generation'' (generation_id_str (up_from_generation p)) @
     payload_line ''to_generation'' (generation_id_str (up_to_generation p)) @
     payload_line ''from_release'' (up_from_release p) @ payload_line ''to_release'' (up_to_release p) @
     payload_line ''status'' (ul_status l)"

definition lock_conflict :: "string \<Rightarrow> string option \<Rightarrow> eva_error" where
  "lock_conflict plan_id path =
     (let e = with_context (err_conflict ''upgrade apply lock already exists'') ''plan_id'' plan_id
      in case path of Some p \<Rightarrow> with_context e ''lock_path'' p | None \<Rightarrow> e)"

type_synonym memory_locks = "(string, upgrade_apply_lock) btree_map"

definition memory_acquire_lock ::
  "memory_locks \<Rightarrow> upgrade_apply_plan \<Rightarrow> string \<Rightarrow> upgrade_apply_lock res \<times> memory_locks" where
  "memory_acquire_lock s p owner =
     (if bt_get s (up_plan_id p) \<noteq> None then (Inl (lock_conflict (up_plan_id p) None), s)
      else (case build_lock p owner of
          Inl e \<Rightarrow> (Inl e, s)
        | Inr l \<Rightarrow> (Inr l, bt_insert (up_plan_id p) l s)))"

text \<open>
  The outcomes of the file operations of one acquisition: an error text when the directory cannot
  be made or the file cannot be opened for another reason than its existence, and, when writing
  fails, how much was written before.
\<close>

record lock_io =
  li_mkdir_error :: "string option"
  li_open_error :: "string option"
  li_write_error :: "(nat \<times> string) option"

type_synonym directory_files = "string \<Rightarrow> string option"

definition file_acquire_lock ::
  "lock_io \<Rightarrow> string \<Rightarrow> directory_files \<Rightarrow> upgrade_apply_plan \<Rightarrow> string \<Rightarrow>
     upgrade_apply_lock res \<times> directory_files" where
  "file_acquire_lock io root fs p owner = (case build_lock p owner of
     Inl e \<Rightarrow> (Inl e, fs)
   | Inr l \<Rightarrow> (case li_mkdir_error io of
       Some err \<Rightarrow> (Inl (with_context (with_context (err_internal ''failed to create upgrade apply lock store'')
           ''lock_store'' root) ''io_error'' err), fs)
     | None \<Rightarrow>
       (let path = lock_path root (up_plan_id p) in
        if fs path \<noteq> None then (Inl (lock_conflict (up_plan_id p) (Some path)), fs)
        else (case li_open_error io of
            Some err \<Rightarrow> (Inl (with_context (with_context (with_context
                (err_internal ''failed to create upgrade apply lock'') ''plan_id'' (up_plan_id p))
                ''lock_path'' path) ''io_error'' err), fs)
          | None \<Rightarrow> (case li_write_error io of
                Some (n, err) \<Rightarrow> (Inl (with_context (with_context (with_context
                    (err_internal ''failed to write upgrade apply lock'') ''plan_id'' (up_plan_id p))
                    ''lock_path'' path) ''io_error'' err), fs(path \<mapsto> take n (lock_payload p l)))
              | None \<Rightarrow> (Inr l, fs(path \<mapsto> lock_payload p l)))))))"

definition coordinator_acquire_lock ::
  "(upgrade_apply_plan \<Rightarrow> string \<Rightarrow> upgrade_apply_lock res \<times> 's) \<Rightarrow> upgrade_apply_plan \<Rightarrow> string \<Rightarrow>
     upgrade_apply_report res \<times> 's" where
  "coordinator_acquire_lock acquire p owner = (case acquire p owner of
     (Inl e, s) \<Rightarrow> (Inl e, s)
   | (Inr l, s) \<Rightarrow>
       (Inr \<lparr>ua_plan_id = up_plan_id p, ua_status = ''locked'', ua_apply_allowed = False, ua_lock = l,
          ua_steps = [''acquire upgrade apply lock'', ''verify backup evidence before destructive apply'',
            ''keep runtime mutation disabled until apply gates are complete''],
          ua_risks = [''upgrade apply is locked only; no runtime process is started'',
            ''destructive generation handoff still requires backup evidence and policy approval''],
          ua_audit = [''upgrade.apply:plan_parsed'', ''upgrade.apply:lock_acquired'', ''apply_allowed:false'']\<rparr>, s))"

subsection \<open>The handoff (handoff.rs)\<close>

record runtime_binary_probe =
  pb_binary_path :: string
  pb_status :: string
  pb_audit :: "string list"

record release_pointer_mutation =
  pm_pointer_path :: string
  pm_previous_generation :: string
  pm_active_generation :: string
  pm_release_ref :: string
  pm_status :: string
  pm_audit :: "string list"

record handoff_report =
  hr_plan_id :: string
  hr_status :: string
  hr_apply_allowed :: bool
  hr_mutation_executed :: bool
  hr_lock :: upgrade_apply_lock
  hr_runtime_binary :: runtime_binary_probe
  hr_active_generation :: string
  hr_previous_generation :: string
  hr_release_ref :: string
  hr_release_pointer :: "release_pointer_mutation option"
  hr_rollback_plan :: "rollback_plan option"
  hr_steps :: "string list"
  hr_risks :: "string list"
  hr_audit :: "string list"

record handoff_request =
  hq_plan :: upgrade_apply_plan
  hq_lock :: upgrade_apply_lock
  hq_supervisor_policy :: policy_decision
  hq_pointer_policy :: policy_decision
  hq_runtime_binary :: runtime_binary_probe
  hq_health :: runtime_health

record 's state_store =
  st_prepare_handoff :: "'s \<Rightarrow> handoff_report \<Rightarrow> unit res \<times> 's"
  st_commit_handoff :: "'s \<Rightarrow> handoff_report \<Rightarrow> unit res \<times> 's"
  st_write_release_pointer :: "'s \<Rightarrow> release_pointer_mutation \<Rightarrow> unit res \<times> 's"

definition probe_simulated :: "string \<Rightarrow> runtime_binary_probe" where
  "probe_simulated path =
     \<lparr>pb_binary_path = path, pb_status = ''ready'',
      pb_audit = [''runtime.binary:simulated'', ''runtime.binary:'' @ path]\<rparr>"

definition ensure_ready :: "runtime_binary_probe \<Rightarrow> unit res" where
  "ensure_ready p =
     (if pb_status p = ''ready'' then Inr ()
      else Inl (with_context (with_context (err_unavailable ''runtime binary probe failed'')
             ''runtime_binary'' (pb_binary_path p)) ''status'' (pb_status p)))"

datatype blocked_handoff_reason = RuntimeBinaryUnavailable | CandidateHealthFailed

fun blocked_audit_marker :: "blocked_handoff_reason \<Rightarrow> string" where
  "blocked_audit_marker RuntimeBinaryUnavailable = ''supervisor.handoff:runtime_binary_unavailable''"
| "blocked_audit_marker CandidateHealthFailed = ''supervisor.handoff:candidate_health_failed''"

fun blocked_steps :: "blocked_handoff_reason \<Rightarrow> string list" where
  "blocked_steps RuntimeBinaryUnavailable =
     [''verify supervisor and release pointer policies'', ''probe candidate runtime binary'',
      ''block handoff before candidate start'', ''emit rollback plan'']"
| "blocked_steps CandidateHealthFailed =
     [''verify supervisor and release pointer policies'', ''probe candidate runtime binary'',
      ''start candidate runtime generation'', ''block handoff on candidate health failure'',
      ''emit rollback plan'']"

fun blocked_risks :: "blocked_handoff_reason \<Rightarrow> string list" where
  "blocked_risks RuntimeBinaryUnavailable =
     [''candidate runtime binary was unavailable before handoff'', ''previous generation remains active'']"
| "blocked_risks CandidateHealthFailed =
     [''candidate runtime health failed before release pointer mutation'', ''previous generation remains active'']"

definition policy_audit :: "policy_decision \<Rightarrow> string list" where
  "policy_audit d = map (\<lambda>entry. ''policy:'' @ entry) (pd_audit d)"

definition blocked_report :: "handoff_request \<Rightarrow> rollback_plan \<Rightarrow> blocked_handoff_reason \<Rightarrow> handoff_report" where
  "blocked_report q rollback reason = (let plan = hq_plan q in
     \<lparr>hr_plan_id = up_plan_id plan, hr_status = ''blocked'', hr_apply_allowed = False,
      hr_mutation_executed = False, hr_lock = hq_lock q, hr_runtime_binary = hq_runtime_binary q,
      hr_active_generation = generation_id_str (up_from_generation plan),
      hr_previous_generation = generation_id_str (up_from_generation plan),
      hr_release_ref = up_from_release plan, hr_release_pointer = None,
      hr_rollback_plan = Some rollback, hr_steps = blocked_steps reason, hr_risks = blocked_risks reason,
      hr_audit = [''supervisor.handoff:plan_parsed'', ''supervisor.handoff:policy_allowed'',
          ''release.pointer:policy_allowed'', blocked_audit_marker reason,
          ''supervisor.handoff:rollback_required''] @
        policy_audit (hq_supervisor_policy q) @ policy_audit (hq_pointer_policy q) @
        pb_audit (hq_runtime_binary q)\<rparr>)"

definition pointer_mutation :: "upgrade_apply_plan \<Rightarrow> release_pointer_mutation" where
  "pointer_mutation plan =
     \<lparr>pm_pointer_path = ''state/release-pointer'',
      pm_previous_generation = generation_id_str (up_from_generation plan),
      pm_active_generation = generation_id_str (up_to_generation plan),
      pm_release_ref = up_to_release plan, pm_status = ''committed'',
      pm_audit = [''release.pointer:policy_allowed'', ''release.pointer:written'',
        ''from:'' @ generation_id_str (up_from_generation plan),
        ''to:'' @ generation_id_str (up_to_generation plan)]\<rparr>"

definition committed_report ::
  "handoff_request \<Rightarrow> generation_drain_evidence \<Rightarrow> supervisor \<Rightarrow> handoff_report" where
  "committed_report q drain supervisor = (let plan = hq_plan q in
     \<lparr>hr_plan_id = up_plan_id plan, hr_status = ''committed'', hr_apply_allowed = True,
      hr_mutation_executed = True, hr_lock = hq_lock q, hr_runtime_binary = hq_runtime_binary q,
      hr_active_generation = generation_id_str (up_to_generation plan),
      hr_previous_generation = generation_id_str (up_from_generation plan),
      hr_release_ref = up_to_release plan, hr_release_pointer = Some (pointer_mutation plan),
      hr_rollback_plan = None,
      hr_steps = [''verify supervisor and release pointer policies'', ''probe candidate runtime binary'',
        ''start candidate runtime generation'', ''commit healthy candidate generation'',
        ''drain previous active generation'', ''write release pointer'', ''persist supervisor handoff state''],
      hr_risks =
        [''V1.10.5 uses a local supervisor adapter smoke rather than a daemonized service manager'',
         ''release pointer mutation is scoped to the configured supervisor state store''],
      hr_audit = [''supervisor.handoff:plan_parsed'', ''supervisor.handoff:policy_allowed'',
          ''release.pointer:policy_allowed'', ''supervisor.handoff:lock_reused'',
          ''supervisor.handoff:candidate_started'', ''supervisor.handoff:health_check_passed'',
          ''supervisor.handoff:old_generation_drained'', ''release.pointer:committed''] @
        policy_audit (hq_supervisor_policy q) @ policy_audit (hq_pointer_policy q) @
        pb_audit (hq_runtime_binary q) @ de_audit drain @ sr_audit (supervisor_report_of supervisor)\<rparr>)"

text \<open>
  What the gates decide, before anything is stored: a blocked report, or a committed report with
  the mutation of the release pointer.
\<close>

datatype handoff_outcome =
    HandoffBlocked handoff_report
  | HandoffCommitted handoff_report release_pointer_mutation

definition block_handoff ::
  "handoff_request \<Rightarrow> string \<Rightarrow> blocked_handoff_reason \<Rightarrow> handoff_outcome res" where
  "block_handoff q message reason =
     res_bind (plan_generation_lifecycle_rollback (up_to_generation (hq_plan q))
                 (up_from_generation (hq_plan q)) message None None) (\<lambda>rollback.
     Inr (HandoffBlocked (blocked_report q rollback reason)))"

definition handoff_gates :: "handoff_request \<Rightarrow> handoff_outcome res" where
  "handoff_gates q = (let plan = hq_plan q; health = hq_health q in
     res_bind (decision_ensure_allowed (hq_supervisor_policy q)) (\<lambda>_.
     res_bind (decision_ensure_allowed (hq_pointer_policy q)) (\<lambda>_.
     if is_err (ensure_ready (hq_runtime_binary q))
     then block_handoff q ''runtime binary probe failed'' RuntimeBinaryUnavailable
     else
       res_bind (runtime_generation_new (up_from_generation plan) (up_from_release plan) GenActive) (\<lambda>active.
       res_bind (supervisor_new active) (\<lambda>supervisor.
       case supervisor_start_candidate supervisor (up_to_generation plan) (up_to_release plan) of
         (Inl e, _) \<Rightarrow> Inl e
       | (Inr _, supervisor) \<Rightarrow>
           if \<not> rh_healthy health then block_handoff q (rh_message health) CandidateHealthFailed
           else (case commit_candidate supervisor health of
               (Inl e, _) \<Rightarrow> Inl e
             | (Inr _, supervisor) \<Rightarrow>
                 res_bind (plan_generation_swap_drain (up_from_generation plan) (up_to_generation plan) 0 30000)
                   (\<lambda>drain.
                 if dp_status (de_plan drain) \<noteq> DrainCompleted
                 then Inl (with_context (with_context (err_unavailable ''old generation drain did not complete'')
                        ''generation'' (generation_id_str (up_from_generation plan)))
                        ''status'' (drain_status_as_str (dp_status (de_plan drain))))
                 else Inr (HandoffCommitted (committed_report q drain supervisor) (pointer_mutation plan)))))))))"

definition handoff :: "'s state_store \<Rightarrow> 's \<Rightarrow> handoff_request \<Rightarrow> handoff_report res \<times> 's" where
  "handoff store s q = (case handoff_gates q of
     Inl e \<Rightarrow> (Inl e, s)
   | Inr (HandoffBlocked report) \<Rightarrow>
       (case st_prepare_handoff store s report of
          (Inl e, s) \<Rightarrow> (Inl e, s) | (Inr _, s) \<Rightarrow> (Inr report, s))
   | Inr (HandoffCommitted report mutation) \<Rightarrow>
       (case st_prepare_handoff store s report of
          (Inl e, s) \<Rightarrow> (Inl e, s)
        | (Inr _, s) \<Rightarrow>
            (case st_write_release_pointer store s mutation of
               (Inl e, s) \<Rightarrow> (Inl e, s)
             | (Inr _, s) \<Rightarrow>
                 (case st_commit_handoff store s report of
                    (Inl e, s) \<Rightarrow> (Inl e, s) | (Inr _, s) \<Rightarrow> (Inr report, s)))))"

subsection \<open>State stores\<close>

record memory_state =
  mst_prepared :: "handoff_report option"
  mst_committed :: "handoff_report option"
  mst_pointer :: "release_pointer_mutation option"

definition memory_store :: "memory_state state_store" where
  "memory_store =
     \<lparr>st_prepare_handoff = (\<lambda>s r. (Inr (), s\<lparr>mst_prepared := Some r\<rparr>)),
      st_commit_handoff = (\<lambda>s r. (Inr (), s\<lparr>mst_committed := Some r\<rparr>)),
      st_write_release_pointer = (\<lambda>s m. (Inr (), s\<lparr>mst_pointer := Some m\<rparr>))\<rparr>"

definition bool_str :: "bool \<Rightarrow> string" where
  "bool_str b = (if b then ''true'' else ''false'')"

definition report_payload :: "handoff_report \<Rightarrow> string" where
  "report_payload r =
     payload_line ''plan_id'' (hr_plan_id r) @ payload_line ''status'' (hr_status r) @
     payload_line ''apply_allowed'' (bool_str (hr_apply_allowed r)) @
     payload_line ''mutation_executed'' (bool_str (hr_mutation_executed r)) @
     payload_line ''active_generation'' (hr_active_generation r) @
     payload_line ''previous_generation'' (hr_previous_generation r) @
     payload_line ''release_ref'' (hr_release_ref r) @ payload_line ''lock_id'' (ul_lock_id (hr_lock r)) @
     payload_line ''rollback'' (case hr_rollback_plan r of Some p \<Rightarrow> rb_status p | None \<Rightarrow> ''none'')"

definition pointer_payload :: "release_pointer_mutation \<Rightarrow> string" where
  "pointer_payload m =
     payload_line ''active_generation'' (pm_active_generation m) @
     payload_line ''previous_generation'' (pm_previous_generation m) @
     payload_line ''release_ref'' (pm_release_ref m) @ payload_line ''status'' (pm_status m)"

text \<open>
  The outcomes of the file operations of one call of the file store. A write that fails leaves the
  truncated file with what was written before.
\<close>

record state_io =
  si_root_error :: "string option"
  si_parent_error :: "string option"
  si_open_error :: "string option"
  si_write_error :: "(nat \<times> string) option"

definition state_path_error :: "string \<Rightarrow> string \<Rightarrow> string \<Rightarrow> eva_error" where
  "state_path_error message path err =
     with_context (with_context (err_internal message) ''path'' path) ''io_error'' err"

definition path_parent :: "string \<Rightarrow> string" where
  "path_parent path = rev (drop 1 (dropWhile (\<lambda>c. c \<noteq> CHR ''/'') (rev path)))"

definition write_state_file ::
  "state_io \<Rightarrow> string \<Rightarrow> string \<Rightarrow> directory_files \<Rightarrow> unit res \<times> directory_files" where
  "write_state_file io path payload fs = (case si_parent_error io of
     Some err \<Rightarrow> (Inl (state_path_error ''failed to create supervisor state directory'' (path_parent path) err), fs)
   | None \<Rightarrow> (case si_open_error io of
       Some err \<Rightarrow> (Inl (state_path_error ''failed to open supervisor state file'' path err), fs)
     | None \<Rightarrow> (case si_write_error io of
         Some (n, err) \<Rightarrow> (Inl (state_path_error ''failed to write supervisor state file'' path err),
           fs(path \<mapsto> take n payload))
       | None \<Rightarrow> (Inr (), fs(path \<mapsto> payload)))))"

definition write_in_root ::
  "state_io \<Rightarrow> string \<Rightarrow> string \<Rightarrow> string \<Rightarrow> directory_files \<Rightarrow> unit res \<times> directory_files" where
  "write_in_root io root path payload fs = (case si_root_error io of
     Some err \<Rightarrow> (Inl (with_context (with_context (err_internal ''failed to create supervisor state store'')
         ''state_store'' root) ''io_error'' err), fs)
   | None \<Rightarrow> write_state_file io path payload fs)"

definition file_store :: "state_io \<Rightarrow> state_io \<Rightarrow> state_io \<Rightarrow> string \<Rightarrow> directory_files state_store" where
  "file_store io_prepare io_pointer io_commit root =
     \<lparr>st_prepare_handoff = (\<lambda>fs r.
        write_in_root io_prepare root (root @ ''/handoff.prepared'') (report_payload r) fs),
      st_commit_handoff = (\<lambda>fs r.
        write_in_root io_commit root (root @ ''/handoff.committed'') (report_payload r) fs),
      st_write_release_pointer = (\<lambda>fs m.
        write_in_root io_pointer root (root @ ''/'' @ pm_pointer_path m) (pointer_payload m) fs)\<rparr>"

subsection \<open>The gates\<close>

definition gates_pass :: "handoff_request \<Rightarrow> bool" where
  "gates_pass q \<longleftrightarrow>
     pd_allowed (hq_supervisor_policy q) \<and> pd_allowed (hq_pointer_policy q) \<and>
     pb_status (hq_runtime_binary q) = ''ready'' \<and>
     trim (up_from_release (hq_plan q)) \<noteq> [] \<and> trim (up_to_release (hq_plan q)) \<noteq> [] \<and>
     rh_healthy (hq_health q) \<and> rh_generation_id (hq_health q) = up_to_generation (hq_plan q) \<and>
     up_from_generation (hq_plan q) \<noteq> up_to_generation (hq_plan q)"

lemma block_handoff_forms:
  "block_handoff q message reason = Inr out \<longleftrightarrow>
     trim message \<noteq> [] \<and> (\<exists>rollback. out = HandoffBlocked (blocked_report q rollback reason) \<and>
       rb_from_generation rollback = up_to_generation (hq_plan q) \<and>
       plan_generation_lifecycle_rollback (up_to_generation (hq_plan q)) (up_from_generation (hq_plan q))
         message None None = Inr rollback)"
  by (auto simp: block_handoff_def plan_generation_lifecycle_rollback_def plan_failed_handoff_def Let_def)

lemmas gate_defs = handoff_gates_def decision_ensure_allowed_def ensure_ready_def runtime_generation_new_def
  supervisor_new_def controller_new_def supervisor_start_candidate_def controller_start_candidate_def
  commit_candidate_def promote_candidate_def plan_generation_swap_drain_def plan_drain_def

lemma gates_committed_iff:
  "(\<exists>r. handoff_gates q = Inr (HandoffCommitted r m)) \<longleftrightarrow> gates_pass q \<and> m = pointer_mutation (hq_plan q)"
  by (auto simp: gate_defs gates_pass_def Let_def block_handoff_def plan_generation_lifecycle_rollback_def
      plan_failed_handoff_def split: if_splits)

lemma gates_reports:
  "handoff_gates q = Inr (HandoffCommitted r m) \<Longrightarrow>
     gates_pass q \<and> m = pointer_mutation (hq_plan q) \<and> hr_status r = ''committed'' \<and>
     hr_release_pointer r = Some m \<and> hr_active_generation r = generation_id_str (up_to_generation (hq_plan q))"
  "handoff_gates q = Inr (HandoffBlocked r) \<Longrightarrow>
     \<not> gates_pass q \<and> hr_status r = ''blocked'' \<and> hr_release_pointer r = None \<and> \<not> hr_mutation_executed r \<and>
     hr_active_generation r = generation_id_str (up_from_generation (hq_plan q)) \<and> hr_rollback_plan r \<noteq> None"
  by (auto simp: gate_defs gates_pass_def Let_def block_handoff_def plan_generation_lifecycle_rollback_def
      plan_failed_handoff_def committed_report_def blocked_report_def split: if_splits)

lemma gates_cases:
  obtains (refused) e where "handoff_gates q = Inl e"
  | (blocked) r where "handoff_gates q = Inr (HandoffBlocked r)"
  | (committed) r where "handoff_gates q = Inr (HandoffCommitted r (pointer_mutation (hq_plan q)))"
proof (cases "handoff_gates q")
  case (Inr out)
  show ?thesis
  proof (cases out)
    case (HandoffCommitted r m)
    then show ?thesis using Inr gates_reports(1) [of q r m] committed by blast
  qed (use Inr blocked in blast)
qed (rule refused)

subsection \<open>What a state store promises\<close>

text \<open>
  The handoff relies on a store through three records, which it can read back as payloads. A
  successful operation has written its own record, and no operation, failed or not, touches the
  records of the other two. \<open>encr\<close> and \<open>encm\<close> are the payloads of a report and of a mutation.
\<close>

definition records_follow ::
  "handoff_request \<Rightarrow> (handoff_report \<Rightarrow> 'p) \<Rightarrow> (release_pointer_mutation \<Rightarrow> 'q) \<Rightarrow> handoff_report res \<Rightarrow>
     'p option \<times> 'q option \<times> 'p option \<Rightarrow> 'p option \<times> 'q option \<times> 'p option \<Rightarrow> bool" where
  "records_follow q encr encm res old new = (case (old, new) of ((prep, ptr, com), (prep', ptr', com')) \<Rightarrow>
     let m = pointer_mutation (hq_plan q) in
     (ptr' \<noteq> ptr \<longrightarrow> (\<exists>r. handoff_gates q = Inr (HandoffCommitted r m) \<and> prep' = Some (encr r))) \<and>
     (com' \<noteq> com \<longrightarrow> (\<exists>r. handoff_gates q = Inr (HandoffCommitted r m) \<and> prep' = Some (encr r) \<and> ptr' = Some (encm m))) \<and>
     (\<forall>r. res = Inr r \<longrightarrow> prep' = Some (encr r) \<and>
        (handoff_gates q = Inr (HandoffBlocked r) \<and> ptr' = ptr \<and> com' = com \<or>
         handoff_gates q = Inr (HandoffCommitted r m) \<and> ptr' = Some (encm m) \<and> com' = Some (encr r))))"

locale handoff_store =
  fixes store :: "'s state_store"
    and prepared :: "'s \<Rightarrow> 'p option"
    and committed :: "'s \<Rightarrow> 'p option"
    and pointer :: "'s \<Rightarrow> 'q option"
    and encr :: "handoff_report \<Rightarrow> 'p"
    and encm :: "release_pointer_mutation \<Rightarrow> 'q"
  assumes prepare_ok: "\<not> is_err (fst (st_prepare_handoff store s r)) \<Longrightarrow>
      prepared (snd (st_prepare_handoff store s r)) = Some (encr r)"
    and prepare_keeps: "committed (snd (st_prepare_handoff store s r)) = committed s"
      "pointer (snd (st_prepare_handoff store s r)) = pointer s"
    and commit_ok: "\<not> is_err (fst (st_commit_handoff store s r)) \<Longrightarrow>
      committed (snd (st_commit_handoff store s r)) = Some (encr r)"
    and commit_keeps: "prepared (snd (st_commit_handoff store s r)) = prepared s"
      "pointer (snd (st_commit_handoff store s r)) = pointer s"
    and pointer_ok: "\<not> is_err (fst (st_write_release_pointer store s (pointer_mutation p))) \<Longrightarrow>
      pointer (snd (st_write_release_pointer store s (pointer_mutation p))) = Some (encm (pointer_mutation p))"
    and pointer_keeps: "prepared (snd (st_write_release_pointer store s (pointer_mutation p))) = prepared s"
      "committed (snd (st_write_release_pointer store s (pointer_mutation p))) = committed s"
begin

lemma handoff_records:
  "records_follow q encr encm (fst (handoff store s q)) (prepared s, pointer s, committed s)
     (prepared (snd (handoff store s q)), pointer (snd (handoff store s q)), committed (snd (handoff store s q)))"
proof (cases rule: gates_cases [of q])
  case (refused e)
  then show ?thesis by (simp add: handoff_def records_follow_def)
next
  case (blocked r)
  obtain res1 s1 where p: "st_prepare_handoff store s r = (res1, s1)" by fastforce
  show ?thesis using blocked p prepare_ok [of s r] prepare_keeps [of s r]
    by (cases res1) (simp_all add: handoff_def records_follow_def)
next
  case (committed r)
  let ?m = "pointer_mutation (hq_plan q)"
  obtain res1 s1 where p: "st_prepare_handoff store s r = (res1, s1)" by fastforce
  obtain res2 s2 where w: "st_write_release_pointer store s1 ?m = (res2, s2)" by fastforce
  obtain res3 s3 where c: "st_commit_handoff store s2 r = (res3, s3)" by fastforce
  note laws = prepare_ok [of s r] prepare_keeps [of s r] pointer_ok [of s1 "hq_plan q"]
    pointer_keeps [of s1 "hq_plan q"] commit_ok [of s2 r] commit_keeps [of s2 r]
  show ?thesis using committed p w c laws
    by (cases res1; cases res2; cases res3) (simp_all add: handoff_def records_follow_def)
qed

end

interpretation memory_handoff: handoff_store memory_store mst_prepared mst_committed mst_pointer "\<lambda>r. r" "\<lambda>m. m"
  by unfold_locales (simp_all add: memory_store_def)

lemma write_in_root_effect:
  "\<not> is_err (fst (write_in_root io root path payload fs)) \<Longrightarrow> snd (write_in_root io root path payload fs) path = Some payload"
  "path' \<noteq> path \<Longrightarrow> snd (write_in_root io root path payload fs) path' = fs path'"
  by (auto simp: write_in_root_def write_state_file_def split: option.splits)

interpretation file_handoff: handoff_store "file_store io1 io2 io3 root" "\<lambda>fs. fs (root @ ''/handoff.prepared'')"
  "\<lambda>fs. fs (root @ ''/handoff.committed'')" "\<lambda>fs. fs (root @ ''/state/release-pointer'')" report_payload pointer_payload
  for io1 io2 io3 root
  by unfold_locales (simp_all add: file_store_def write_in_root_effect pointer_mutation_def)

subsection \<open>Locks\<close>

interpretation memory_lock: unique_registry bt_get "\<lambda>s (p, owner). map_prod (map_sum id (\<lambda>_. ())) id (memory_acquire_lock s p owner)"
  "\<lambda>(p, owner). \<not> is_err (build_lock p owner)" "\<lambda>(p, owner). up_plan_id p" "\<lambda>(p, owner). projr (build_lock p owner)"
  by unfold_locales (auto simp: memory_acquire_lock_def is_err_def fun_eq_iff split: sum.splits if_splits)

text \<open>
  Processes that compete for locks in one directory, one exclusive creation after the other, each
  with its own outcomes of the file operations, and the owners that got the lock of a given plan.
\<close>

fun lock_winners ::
  "string \<Rightarrow> string \<Rightarrow> directory_files \<Rightarrow> (lock_io \<times> upgrade_apply_plan \<times> string) list \<Rightarrow> string list" where
  "lock_winners root plan_id fs [] = []"
| "lock_winners root plan_id fs ((io, p, owner) # rest) = (case file_acquire_lock io root fs p owner of
     (res, fs') \<Rightarrow> (if \<not> is_err res \<and> up_plan_id p = plan_id then [owner] else []) @
       lock_winners root plan_id fs' rest)"

lemma file_acquire_keeps:
  "fs path \<noteq> None \<Longrightarrow> snd (file_acquire_lock io root fs p owner) path \<noteq> None"
  by (auto simp: file_acquire_lock_def Let_def split: sum.splits option.splits)

lemma file_acquire_success:
  "\<not> is_err (fst (file_acquire_lock io root fs p owner)) \<Longrightarrow>
     fs (lock_path root (up_plan_id p)) = None \<and>
     snd (file_acquire_lock io root fs p owner) (lock_path root (up_plan_id p)) \<noteq> None"
  by (auto simp: file_acquire_lock_def Let_def split: sum.splits option.splits if_splits)

lemma no_winner_when_held: "fs (lock_path root plan_id) \<noteq> None \<Longrightarrow> lock_winners root plan_id fs xs = []"
proof (induction xs arbitrary: fs)
  case (Cons x xs)
  obtain io p owner where x: "x = (io, p, owner)" by (cases x)
  obtain res fs' where r: "file_acquire_lock io root fs p owner = (res, fs')" by fastforce
  have "fs' (lock_path root plan_id) \<noteq> None" using file_acquire_keeps [of fs "lock_path root plan_id" io root p owner] Cons.prems r by simp
  moreover have "is_err res \<or> up_plan_id p \<noteq> plan_id" using file_acquire_success [of io root fs p owner] r Cons.prems by auto
  ultimately show ?case using Cons.IH [of fs'] r x by auto
qed simp

subsection \<open>Properties\<close>

text \<open>
  C25. What a handoff leaves on disk, for every outcome of every file operation. The pointer file
  changes only after both policies allowed it, the binary was ready, the candidate healthy under
  its own id and different from the active generation, and the complete prepared record is there.
  The committed record changes only after the complete pointer was written. A report that is
  returned is prepared on disk, and is either blocked, with pointer and committed record
  untouched, or committed, with both complete.
\<close>
theorem handoff_order:
  assumes "handoff (file_store io1 io2 io3 root) fs q = (res, fs')"
  defines "prep \<equiv> root @ ''/handoff.prepared''" and "com \<equiv> root @ ''/handoff.committed''"
    and "ptr \<equiv> root @ ''/state/release-pointer''" and "m \<equiv> pointer_mutation (hq_plan q)"
  shows "(fs' ptr \<noteq> fs ptr \<longrightarrow> gates_pass q \<and>
            (\<exists>r. hr_status r = ''committed'' \<and> hr_release_pointer r = Some m \<and> fs' prep = Some (report_payload r))) \<and>
         (fs' com \<noteq> fs com \<longrightarrow> gates_pass q \<and> fs' ptr = Some (pointer_payload m)) \<and>
         (\<forall>r. res = Inr r \<longrightarrow> fs' prep = Some (report_payload r) \<and>
            (hr_status r = ''blocked'' \<and> \<not> gates_pass q \<and> fs' ptr = fs ptr \<and> fs' com = fs com \<or>
             hr_status r = ''committed'' \<and> gates_pass q \<and> fs' ptr = Some (pointer_payload m) \<and>
             fs' com = Some (report_payload r)))"
proof -
  have "records_follow q report_payload pointer_payload res (fs prep, fs ptr, fs com) (fs' prep, fs' ptr, fs' com)"
  proof -
    let ?h = "handoff (file_store io1 io2 io3 root) fs q"
    have "records_follow q report_payload pointer_payload (fst ?h) (fs prep, fs ptr, fs com)
        (snd ?h prep, snd ?h ptr, snd ?h com)"
      unfolding prep_def ptr_def com_def by (rule file_handoff.handoff_records)
    then show ?thesis using assms(1) by simp
  qed
  then show ?thesis unfolding records_follow_def prod.case Let_def m_def [symmetric]
    using gates_reports [of q] by blast
qed

definition sample_plan :: upgrade_apply_plan where
  "sample_plan = \<lparr>up_plan_id = ''p'', up_from_generation = GenerationId ''g1'', up_to_generation = GenerationId ''g2'',
     up_from_release = ''r1'', up_to_release = ''r2''\<rparr>"

definition sample_request :: "bool \<Rightarrow> string \<Rightarrow> handoff_request" where
  "sample_request healthy message =
     \<lparr>hq_plan = sample_plan,
      hq_lock = \<lparr>ul_lock_id = ''l'', ul_plan_id = ''p'', ul_owner = ''o'', ul_from_generation = GenerationId ''g1'',
        ul_to_generation = GenerationId ''g2'', ul_status = ''acquired'', ul_audit = []\<rparr>,
      hq_supervisor_policy = allowed SupervisorHandoff ''ok'', hq_pointer_policy = allowed ReleasePointerMutation ''ok'',
      hq_runtime_binary = probe_simulated ''eva'',
      hq_health = \<lparr>rh_generation_id = GenerationId ''g2'', rh_healthy = healthy, rh_message = message\<rparr>\<rparr>"

definition good_io :: state_io where
  "good_io = \<lparr>si_root_error = None, si_parent_error = None, si_open_error = None, si_write_error = None\<rparr>"

lemma sample_refs: "trim ''r1'' = ''r1''" "trim ''r2'' = ''r2''"
  by (rule trim_graphic, simp add: is_graphic_def)+

theorem handoff_order_witness:
  "\<exists>r fs'. handoff (file_store good_io good_io good_io ''s'') (\<lambda>_. None) (sample_request True ''ok'') = (Inr r, fs') \<and>
     hr_status r = ''committed'' \<and> fs' (''s'' @ ''/handoff.committed'') = Some (report_payload r)"
proof -
  let ?q = "sample_request True ''ok''" and ?st = "file_store good_io good_io good_io ''s''"
  have g: "gates_pass ?q"
    by (simp add: gates_pass_def sample_request_def sample_plan_def probe_simulated_def sample_refs)
  then obtain r where "handoff_gates ?q = Inr (HandoffCommitted r (pointer_mutation (hq_plan ?q)))"
    using gates_committed_iff [of ?q "pointer_mutation (hq_plan ?q)"] by blast
  then obtain fs' where h: "handoff ?st (\<lambda>_. None) ?q = (Inr r, fs')"
    by (simp add: handoff_def file_store_def write_in_root_def write_state_file_def good_io_def)
  show ?thesis using handoff_order [OF h] h g by auto
qed

text \<open>
  An unhealthy candidate whose report carries no reason. Every other gate has passed, and yet
  no blocked report is returned and nothing is stored: planning the rollback fails on the empty
  reason, so the handoff ends with an argument error and the state untouched, in every store.
\<close>
theorem unhealthy_without_reason:
  assumes "pd_allowed (hq_supervisor_policy q)" and "pd_allowed (hq_pointer_policy q)"
    and "pb_status (hq_runtime_binary q) = ''ready''"
    and "trim (up_from_release (hq_plan q)) \<noteq> []" and "trim (up_to_release (hq_plan q)) \<noteq> []"
    and "\<not> rh_healthy (hq_health q)" and "trim (rh_message (hq_health q)) = []"
  shows "handoff store s q = (Inl (err_invalid_argument ''rollback reason is required''), s)"
proof -
  have "handoff_gates q = Inl (err_invalid_argument ''rollback reason is required'')"
    using assms by (simp add: gate_defs block_handoff_def plan_generation_lifecycle_rollback_def
        plan_failed_handoff_def Let_def)
  then show ?thesis by (simp add: handoff_def)
qed

theorem unhealthy_without_reason_witness:
  "handoff memory_store \<lparr>mst_prepared = None, mst_committed = None, mst_pointer = None\<rparr> (sample_request False []) =
     (Inl (err_invalid_argument ''rollback reason is required''),
      \<lparr>mst_prepared = None, mst_committed = None, mst_pointer = None\<rparr>)"
  by (rule unhealthy_without_reason)
    (simp_all add: sample_request_def sample_plan_def probe_simulated_def sample_refs)

text \<open>
  C27. The file lock of an upgrade is exclusive. Whatever processes compete for locks in a
  directory, in whatever order and with whatever failures of their file operations, at most one
  acquisition of a plan succeeds, and none does when the lock file already exists, be it complete
  or cut short by a failed write.
\<close>
theorem upgrade_lock_exclusive:
  "length (lock_winners root plan_id fs xs) \<le> 1 \<and>
   (fs (lock_path root plan_id) \<noteq> None \<longrightarrow> lock_winners root plan_id fs xs = [])"
proof (rule conjI)
  show "length (lock_winners root plan_id fs xs) \<le> 1"
  proof (induction xs arbitrary: fs)
    case (Cons x xs)
    obtain io p owner where x: "x = (io, p, owner)" by (cases x)
    obtain res fs' where r: "file_acquire_lock io root fs p owner = (res, fs')" by fastforce
    have "lock_winners root plan_id fs' xs = []" if "\<not> is_err res" "up_plan_id p = plan_id"
      using file_acquire_success [of io root fs p owner] that r by (intro no_winner_when_held) simp
    then show ?case using Cons.IH [of fs'] r x by auto
  qed simp
  show "fs (lock_path root plan_id) \<noteq> None \<longrightarrow> lock_winners root plan_id fs xs = []"
    using no_winner_when_held by blast
qed

definition no_errors :: lock_io where
  "no_errors = \<lparr>li_mkdir_error = None, li_open_error = None, li_write_error = None\<rparr>"

theorem upgrade_lock_exclusive_witness:
  "lock_winners ''locks'' ''p'' (\<lambda>f. if f = lock_path ''locks'' ''p'' then Some ''cut'' else None)
     [(no_errors, sample_plan, ''a''), (no_errors, sample_plan, ''b'')] = []"
  using upgrade_lock_exclusive [of "''locks''" "''p''" "\<lambda>f. if f = lock_path ''locks'' ''p'' then Some ''cut'' else None"]
  by (simp del: lock_winners.simps)

end
