(* ===== verification/Hardware_Devices.thy ===== *)
theory Hardware_Devices
  imports Core_Ids Core_Topic Core_Capability Eva_Map Eva_Interfaces
begin

section \<open>Hardware devices, leases and hotplug states (eva-hardware)\<close>

text \<open>
  Models state.rs, the candidate of discovery.rs, registry.rs and hotplug.rs: device identities, the
  registry that grants exclusive leases, and the hotplug state machine of one device.
\<close>

subsection \<open>Device values (state.rs)\<close>

datatype device_bus = Usb | Serial | Ble | Socket | Network | VendorSdk

datatype device_trust = TrustManifest | TrustObserved | TrustRejected

datatype device_health = Candidate | Available | Claimed | Disconnected | Failed

datatype device_id = DeviceId (device_id_str: string)

record device_identity =
  di_id :: device_id
  di_logical_name :: string
  di_device_class :: string
  di_bus :: device_bus
  di_adapter_id :: adapter_id
  di_trust :: device_trust

fun bus_as_str :: "device_bus \<Rightarrow> string" where
  "bus_as_str Usb = ''usb''"
| "bus_as_str Serial = ''serial''"
| "bus_as_str Ble = ''ble''"
| "bus_as_str Socket = ''socket''"
| "bus_as_str Network = ''network''"
| "bus_as_str VendorSdk = ''vendor_sdk''"

definition bus_parse :: "string \<Rightarrow> device_bus res" where
  "bus_parse v =
     (if v = ''usb'' then Inr Usb
      else if v = ''serial'' then Inr Serial
      else if v = ''ble'' then Inr Ble
      else if v = ''socket'' then Inr Socket
      else if v = ''network'' then Inr Network
      else if v = ''vendor_sdk'' then Inr VendorSdk
      else Inl (with_context (err_unsupported ''unsupported hardware bus'') ''bus'' v))"

fun health_as_str :: "device_health \<Rightarrow> string" where
  "health_as_str Candidate = ''candidate''"
| "health_as_str Available = ''available''"
| "health_as_str Claimed = ''claimed''"
| "health_as_str Disconnected = ''disconnected''"
| "health_as_str Failed = ''failed''"

definition health_parse :: "string \<Rightarrow> device_health res" where
  "health_parse v =
     (if v = ''candidate'' then Inr Candidate
      else if v = ''available'' then Inr Available
      else if v = ''claimed'' then Inr Claimed
      else if v = ''disconnected'' then Inr Disconnected
      else if v = ''failed'' then Inr Failed
      else Inl (with_context (err_unsupported ''unsupported device health'') ''health'' v))"

definition device_id_parse :: "string \<Rightarrow> device_id res" where
  "device_id_parse v =
     (if trim v = [] then Inl (err_invalid_argument ''device id cannot be empty'')
      else if trim v \<noteq> v \<or> CHR ''/'' \<in> set v \<or> CHR 0x5C \<in> set v
      then Inl (err_invalid_argument ''device id must be a stable slug'')
      else Inr (DeviceId v))"

definition device_identity_new ::
  "device_id \<Rightarrow> string \<Rightarrow> string \<Rightarrow> device_bus \<Rightarrow> adapter_id \<Rightarrow> device_trust \<Rightarrow> device_identity res" where
  "device_identity_new i logical_name device_class bus adapter trust =
     (if trim logical_name = [] \<or> trim device_class = []
      then Inl (err_invalid_argument ''device logical name and class are required'')
      else Inr \<lparr>di_id = i, di_logical_name = logical_name, di_device_class = device_class,
             di_bus = bus, di_adapter_id = adapter, di_trust = trust\<rparr>)"

instantiation device_id :: linorder
begin

definition less_eq_device_id :: "device_id \<Rightarrow> device_id \<Rightarrow> bool" where
  "less_eq_device_id a b \<longleftrightarrow> device_id_str a \<le> device_id_str b"

definition less_device_id :: "device_id \<Rightarrow> device_id \<Rightarrow> bool" where
  "less_device_id a b \<longleftrightarrow> device_id_str a < device_id_str b"

instance
  by standard (auto simp: less_eq_device_id_def less_device_id_def intro: device_id.expand)

end

subsection \<open>Candidates (discovery.rs)\<close>

record device_candidate =
  dc_identity :: device_identity
  dc_vendor_id :: "string option"
  dc_product_id :: "string option"
  dc_serial :: "string option"
  dc_protocol :: "string option"
  dc_health :: device_health
  dc_source_path :: string
  dc_handle_granted :: bool
  dc_rejected_reason :: "string option"

abbreviation dc_id :: "device_candidate \<Rightarrow> device_id" where
  "dc_id c \<equiv> di_id (dc_identity c)"

definition candidate_for_adapter :: "adapter_id \<Rightarrow> string \<Rightarrow> device_candidate res" where
  "candidate_for_adapter adapter logical_name =
     res_bind (device_id_parse (adapter_id_str adapter @ '':'' @ logical_name)) (\<lambda>i.
     res_bind (device_identity_new i logical_name ''simulated'' Usb adapter TrustManifest) (\<lambda>identity.
       Inr \<lparr>dc_identity = identity, dc_vendor_id = None, dc_product_id = None, dc_serial = None,
            dc_protocol = Some ''simulated'', dc_health = Available, dc_source_path = ''test'',
            dc_handle_granted = False, dc_rejected_reason = None\<rparr>))"

subsection \<open>The registry and its leases (registry.rs)\<close>

record registered_device =
  rd_identity :: device_identity
  rd_health :: device_health
  rd_source_path :: string
  rd_claimed_by :: "request_id option"

record device_lease =
  lease_device_id :: device_id
  lease_request_id :: request_id
  lease_exclusive :: bool

type_synonym device_registry = "(device_id, registered_device) btree_map"

definition device_error :: "eva_error \<Rightarrow> device_id \<Rightarrow> eva_error" where
  "device_error e d = with_context e ''device_id'' (device_id_str d)"

definition registered_from :: "device_candidate \<Rightarrow> registered_device" where
  "registered_from c =
     \<lparr>rd_identity = dc_identity c, rd_health = dc_health c, rd_source_path = dc_source_path c,
      rd_claimed_by = None\<rparr>"

definition register_device :: "device_registry \<Rightarrow> device_candidate \<Rightarrow> unit res \<times> device_registry" where
  "register_device r c =
     (if di_trust (dc_identity c) = TrustRejected
      then (Inl (device_error (err_permission_denied ''rejected hardware candidate cannot be registered'')
              (dc_id c)), r)
      else if bt_get r (dc_id c) \<noteq> None
      then (Inl (device_error (err_conflict ''device already registered'') (dc_id c)), r)
      else (Inr (), bt_insert (dc_id c) (registered_from c) r))"

fun register_candidates :: "device_registry \<Rightarrow> device_candidate list \<Rightarrow> device_registry res" where
  "register_candidates r [] = Inr r"
| "register_candidates r (c # cs) =
     (if di_trust (dc_identity c) = TrustRejected then register_candidates r cs
      else (case register_device r c of
          (Inl e, _) \<Rightarrow> Inl e
        | (Inr _, r') \<Rightarrow> register_candidates r' cs))"

definition registry_from_candidates :: "device_candidate list \<Rightarrow> device_registry res" where
  "registry_from_candidates cs = register_candidates [] cs"

definition claim_device :: "device_registry \<Rightarrow> device_id \<Rightarrow> request_id \<Rightarrow> device_lease res \<times> device_registry" where
  "claim_device r d q = (case bt_get r d of
     None \<Rightarrow> (Inl (device_error (err_not_found ''device is not registered'') d), r)
   | Some dev \<Rightarrow>
       if rd_claimed_by dev \<noteq> None
       then (Inl (device_error (err_conflict ''device is already claimed'') d), r)
       else if rd_health dev \<noteq> Available \<and> rd_health dev \<noteq> Candidate
       then (Inl (with_context (device_error (err_unavailable ''device is not claimable'') d)
               ''health'' (health_as_str (rd_health dev))), r)
       else (Inr \<lparr>lease_device_id = d, lease_request_id = q, lease_exclusive = True\<rparr>,
             bt_insert d (dev\<lparr>rd_claimed_by := Some q, rd_health := Claimed\<rparr>) r))"

definition release_device :: "device_registry \<Rightarrow> device_lease \<Rightarrow> unit res \<times> device_registry" where
  "release_device r l = (case bt_get r (lease_device_id l) of
     None \<Rightarrow> (Inl (device_error (err_not_found ''device is not registered'') (lease_device_id l)), r)
   | Some dev \<Rightarrow>
       if rd_claimed_by dev \<noteq> Some (lease_request_id l)
       then (Inl (device_error (err_permission_denied ''device lease does not match claimant'')
               (lease_device_id l)), r)
       else (Inr (), bt_insert (lease_device_id l) (dev\<lparr>rd_claimed_by := None, rd_health := Available\<rparr>) r))"

subsection \<open>Hotplug (hotplug.rs)\<close>

datatype hotplug_action = Insert | Remove | Reconnect | Fail

record hotplug_event =
  he_device_id :: device_id
  he_action :: hotplug_action
  he_previous :: device_health
  he_next :: device_health
  he_topic :: topic
  he_reason :: string

record hotplug_machine =
  hm_device_id :: device_id
  hm_health :: device_health

fun hotplug_action_as_str :: "hotplug_action \<Rightarrow> string" where
  "hotplug_action_as_str Insert = ''insert''"
| "hotplug_action_as_str Remove = ''remove''"
| "hotplug_action_as_str Reconnect = ''reconnect''"
| "hotplug_action_as_str Fail = ''fail''"

definition machine_new :: "device_id \<Rightarrow> hotplug_machine" where
  "machine_new d = \<lparr>hm_device_id = d, hm_health = Disconnected\<rparr>"

definition hotplug_topic :: "hotplug_action \<Rightarrow> topic res" where
  "hotplug_topic a = topic_parse (case a of
       Insert \<Rightarrow> ''/hardware/connected''
     | Reconnect \<Rightarrow> ''/hardware/connected''
     | Remove \<Rightarrow> ''/hardware/disconnected''
     | Fail \<Rightarrow> ''/hardware/failed'')"

definition hotplug_next :: "hotplug_machine \<Rightarrow> hotplug_action \<Rightarrow> device_health res" where
  "hotplug_next m a = (case a of
       Insert \<Rightarrow> Inr Available
     | Remove \<Rightarrow> Inr Disconnected
     | Reconnect \<Rightarrow>
         if hm_health m \<noteq> Disconnected \<and> hm_health m \<noteq> Failed
         then Inl (with_context (device_error (err_conflict ''reconnect requires disconnected or failed state'')
                (hm_device_id m)) ''health'' (health_as_str (hm_health m)))
         else Inr Available
     | Fail \<Rightarrow> Inr Failed)"

definition hotplug_apply ::
  "hotplug_machine \<Rightarrow> hotplug_action \<Rightarrow> string \<Rightarrow> hotplug_event res \<times> hotplug_machine" where
  "hotplug_apply m a reason = (case hotplug_next m a of
     Inl e \<Rightarrow> (Inl e, m)
   | Inr h \<Rightarrow>
       (res_bind (hotplug_topic a) (\<lambda>t.
          Inr \<lparr>he_device_id = hm_device_id m, he_action = a, he_previous = hm_health m, he_next = h,
               he_topic = t, he_reason = reason\<rparr>),
        m\<lparr>hm_health := h\<rparr>))"

subsection \<open>Facts about device values\<close>

lemma bus_parse_as_str: "bus_parse v = Inr b \<longleftrightarrow> v = bus_as_str b"
  by (cases b) (auto simp: bus_parse_def)

lemma health_parse_as_str: "health_parse v = Inr h \<longleftrightarrow> v = health_as_str h"
  by (cases h) (auto simp: health_parse_def)

lemma device_id_parse_str: "device_id_parse v = Inr d \<Longrightarrow> device_id_str d = v"
  by (auto simp: device_id_parse_def split: if_splits)

lemma hotplug_topic_ok:
  "hotplug_topic a = Inr (case a of
       Remove \<Rightarrow> \<lparr>topic_path = ''/hardware/disconnected'', topic_segments = [''hardware'', ''disconnected'']\<rparr>
     | Fail \<Rightarrow> \<lparr>topic_path = ''/hardware/failed'', topic_segments = [''hardware'', ''failed'']\<rparr>
     | _ \<Rightarrow> \<lparr>topic_path = ''/hardware/connected'', topic_segments = [''hardware'', ''connected'']\<rparr>)"
  by (cases a) (simp_all add: hotplug_topic_def topic_parse_iff plain_segment_def path_of_def
      has_whitespace_graphic is_graphic_def del: has_whitespace.simps)

subsection \<open>Registry laws\<close>

text \<open>The device registry provides the contract of a registry with unique keys.\<close>

interpretation device_reg: unique_registry bt_get register_device
  "\<lambda>c. di_trust (dc_identity c) \<noteq> TrustRejected" "\<lambda>c. dc_id c" registered_from
  by unfold_locales (auto simp: register_device_def)

lemma register_candidates_fresh:
  assumes "register_candidates r cs = Inr r'" and "\<forall>d dev. bt_get r d = Some dev \<longrightarrow> rd_claimed_by dev = None"
  shows "\<forall>d dev. bt_get r' d = Some dev \<longrightarrow> rd_claimed_by dev = None"
  using assms
proof (induction cs arbitrary: r)
  case (Cons c cs)
  show ?case
  proof (cases "di_trust (dc_identity c) = TrustRejected \<or> bt_get r (dc_id c) \<noteq> None")
    case True
    then show ?thesis using Cons by (auto simp: register_device_def split: if_splits)
  next
    case False
    then have "register_candidates (bt_insert (dc_id c) (registered_from c) r) cs = Inr r'"
      using Cons.prems(1) by (simp add: register_device_def)
    moreover have "\<forall>d dev. bt_get (bt_insert (dc_id c) (registered_from c) r) d = Some dev \<longrightarrow>
        rd_claimed_by dev = None"
      using Cons.prems(2) by (auto simp: registered_from_def)
    ultimately show ?thesis by (rule Cons.IH)
  qed
qed simp

lemma claim_device_ok_iff:
  "claim_device r d q = (Inr l, r') \<longleftrightarrow>
     (\<exists>dev. bt_get r d = Some dev \<and> rd_claimed_by dev = None \<and> rd_health dev \<in> {Available, Candidate} \<and>
        l = \<lparr>lease_device_id = d, lease_request_id = q, lease_exclusive = True\<rparr> \<and>
        r' = bt_insert d (dev\<lparr>rd_claimed_by := Some q, rd_health := Claimed\<rparr>) r)"
  by (auto simp: claim_device_def split: option.splits if_splits)

lemma claim_device_refused: "claim_device r d q = (Inl e, r') \<Longrightarrow> r' = r"
  by (auto simp: claim_device_def split: option.splits if_splits)

end
