(* ===== verification/Observe_Audit.thy ===== *)
theory Observe_Audit
  imports Core_Event
begin

section \<open>Audit events and trace fields (eva-observability)\<close>

text \<open>
  The values of audit.rs and trace.rs that other components hand to an audit sink. The trait
  \<^verbatim>\<open>AuditSink\<close> is a function from the event and the state of the sink to a result and the new state;
  the in-memory sink is the instance that never fails.
\<close>

datatype audit_action =
    ConfigLoaded | ConfigValidated | PolicyEvaluated | RuntimeStarted | RuntimeRecovered
  | RuntimeControl | RuntimeStopped | RestoreApply | RestoreRollback | SchedulerRetry
  | EventAccepted | EventDelivered | TaskLifecycle | LuaHostLog | LuaHostAudit | CapabilityInvoked
  | AdapterInvoked | ProviderSupervised | ProviderCredentialSession | SkillRunStarted | SkillRunCompleted
  | SkillRunFailed | McpSessionStarted | McpSessionStopped | McpStreamAborted | McpProxyDenied
  | MemoryWrite | MemoryRead | MemorySearch | MemoryContext | MemoryMaintenance
  | HardwareDriverStarted | HardwareDriverStopped | HardwareHotplugPublished | SecurityDenied

datatype audit_outcome = OutcomeOk | OutcomePlanned | OutcomeBlocked | OutcomeFailed

datatype span_id = SpanId (span_id_str: string)

record trace_fields =
  tf_event_id :: "event_id option"
  tf_request_id :: "request_id option"
  tf_topic :: "topic option"
  tf_agent_id :: "agent_id option"
  tf_adapter_id :: "adapter_id option"
  tf_capability :: "capability_name option"
  tf_provider :: "string option"
  tf_correlation_id :: "event_id option"
  tf_causation_id :: "event_id option"
  tf_generation_id :: "generation_id option"
  tf_span_id :: "span_id option"

definition trace_fields_default :: trace_fields where
  "trace_fields_default =
     \<lparr>tf_event_id = None, tf_request_id = None, tf_topic = None, tf_agent_id = None,
      tf_adapter_id = None, tf_capability = None, tf_provider = None, tf_correlation_id = None,
      tf_causation_id = None, tf_generation_id = None, tf_span_id = None\<rparr>"

definition tf_with_request_id :: "trace_fields \<Rightarrow> request_id \<Rightarrow> trace_fields" where
  "tf_with_request_id t r = t\<lparr>tf_request_id := Some r\<rparr>"

record audit_event =
  ae_action :: audit_action
  ae_outcome :: audit_outcome
  ae_trace :: trace_fields
  ae_message :: "string option"
  ae_fields :: "(string \<times> string) list"
  ae_recorded_at :: system_time

definition audit_event_new ::
  "system_time \<Rightarrow> audit_action \<Rightarrow> audit_outcome \<Rightarrow> trace_fields \<Rightarrow> audit_event" where
  "audit_event_new now action outcome trace =
     \<lparr>ae_action = action, ae_outcome = outcome, ae_trace = trace, ae_message = None, ae_fields = [],
      ae_recorded_at = now\<rparr>"

definition ae_with_message :: "audit_event \<Rightarrow> string \<Rightarrow> audit_event" where
  "ae_with_message e m = e\<lparr>ae_message := Some m\<rparr>"

definition ae_with_field :: "audit_event \<Rightarrow> string \<Rightarrow> string \<Rightarrow> audit_event" where
  "ae_with_field e k v = e\<lparr>ae_fields := ae_fields e @ [(k, v)]\<rparr>"

type_synonym 'k audit_sink = "audit_event \<Rightarrow> 'k \<Rightarrow> unit res \<times> 'k"

definition memory_sink :: "audit_event list audit_sink" where
  "memory_sink e events = (Inr (), events @ [e])"

end
