(* ===== verification/Hardware_Drivers.thy ===== *)
theory Hardware_Drivers
  imports Hardware_Devices Policy_Gate Observe_Audit
begin

section \<open>Driver sessions: policy, permission, lease and audit (eva-hardware, lifecycle.rs)\<close>

text \<open>
  The coordinator that opens and closes driver sessions. The permission provider is the argument
  \<open>check\<close>; the two providers of the crate are instances. The audit sink is the argument \<open>sink\<close>,
  with its state \<open>k\<close>, and \<open>now\<close> is the clock reading of the audit event. A method returns its result
  and the new states of coordinator and sink.
\<close>

subsection \<open>Permissions of the operating system\<close>

record os_permission_check =
  oc_device_id :: device_id
  oc_bus :: string
  oc_permission :: string
  oc_granted :: bool
  oc_os :: string
  oc_user :: string
  oc_source :: string
  oc_device_path :: string
  oc_remediation :: "string list"
  oc_raw_device_path_exposed :: bool

type_synonym permission_provider = "registered_device \<Rightarrow> os_permission_check res"

definition permission_name_for_bus :: "string \<Rightarrow> string" where
  "permission_name_for_bus bus =
     (if bus = ''usb'' then ''usb-device-access''
      else if bus = ''serial'' then ''serial-port-access''
      else if bus = ''ble'' then ''bluetooth-device-access''
      else if bus = ''socket'' \<or> bus = ''network'' then ''network-socket-access''
      else if bus = ''vendor_sdk'' then ''vendor-sdk-access''
      else ''hardware-device-access'')"

definition permission_source :: "string \<Rightarrow> string \<Rightarrow> string" where
  "permission_source os bus =
     (if os = ''windows'' then ''Windows device interface ACL or driver installation''
      else if os = ''linux'' \<and> bus = ''serial'' then ''Linux udev rule and dialout group''
      else if os = ''linux'' then ''Linux udev rule and device node permission''
      else if os = ''macos'' \<and> bus = ''ble'' then ''macOS Bluetooth permission''
      else if os = ''macos'' then ''macOS device entitlement or device node permission''
      else ''platform hardware permission provider'')"

definition permission_remediation :: "string \<Rightarrow> string \<Rightarrow> string \<Rightarrow> string \<Rightarrow> string list" where
  "permission_remediation os bus user permission =
     [''grant '' @ permission @ '' to user '' @ user @ '' before starting a hardware driver'',
      if os = ''windows''
      then ''install the vendor driver and grant the service account access to the device interface''
      else if os = ''linux'' \<and> bus = ''serial''
      then ''add the service account to the serial device group and install a udev rule''
      else if os = ''linux''
      then ''install a udev rule that matches the device identity and grants least-privilege access''
      else if os = ''macos'' \<and> bus = ''ble''
      then ''grant Bluetooth permission to the runtime process before enabling the driver''
      else if os = ''macos''
      then ''grant device entitlement or device node access to the runtime process''
      else ''configure an explicit platform permission provider before enabling this driver'']"

abbreviation rd_bus :: "registered_device \<Rightarrow> string" where
  "rd_bus dev \<equiv> bus_as_str (di_bus (rd_identity dev))"

definition safe_device_locator :: "registered_device \<Rightarrow> string" where
  "safe_device_locator dev =
     ''logical://hardware/'' @ rd_bus dev @ ''/'' @ device_id_str (di_id (rd_identity dev))"

record static_provider =
  sp_permission :: string
  sp_granted :: bool

definition static_check :: "static_provider \<Rightarrow> permission_provider" where
  "static_check p dev = Inr
     \<lparr>oc_device_id = di_id (rd_identity dev), oc_bus = rd_bus dev, oc_permission = sp_permission p,
      oc_granted = sp_granted p, oc_os = ''test'', oc_user = ''test-user'', oc_source = ''static'',
      oc_device_path = safe_device_locator dev,
      oc_remediation = permission_remediation ''test'' (rd_bus dev) ''test-user'' (sp_permission p),
      oc_raw_device_path_exposed = False\<rparr>"

record platform_provider =
  pp_os :: string
  pp_user :: string
  pp_default_granted :: bool

definition platform_check :: "platform_provider \<Rightarrow> permission_provider" where
  "platform_check p dev = (let permission = permission_name_for_bus (rd_bus dev) in Inr
     \<lparr>oc_device_id = di_id (rd_identity dev), oc_bus = rd_bus dev, oc_permission = permission,
      oc_granted = pp_default_granted p, oc_os = pp_os p, oc_user = pp_user p,
      oc_source = permission_source (pp_os p) (rd_bus dev),
      oc_device_path = safe_device_locator dev,
      oc_remediation = permission_remediation (pp_os p) (rd_bus dev) (pp_user p) permission,
      oc_raw_device_path_exposed = False\<rparr>)"

definition ensure_os_permission :: "os_permission_check \<Rightarrow> unit res" where
  "ensure_os_permission c =
     (if oc_granted c then Inr ()
      else Inl (with_context (with_context (with_context (with_context (with_context
             (device_error (err_permission_denied ''hardware OS permission is missing'') (oc_device_id c))
             ''bus'' (oc_bus c)) ''permission'' (oc_permission c)) ''os'' (oc_os c))
             ''source'' (oc_source c)) ''remediation'' (join '' | '' (oc_remediation c))))"

subsection \<open>The coordinator\<close>

record driver_start_request =
  ds_device_id :: device_id
  ds_request_id :: request_id
  ds_capability :: capability_name
  ds_driver_id :: string
  ds_timeout_ms :: "u64 option"

datatype driver_state = Opened | Stopped | Crashed

fun driver_state_as_str :: "driver_state \<Rightarrow> string" where
  "driver_state_as_str Opened = ''opened''"
| "driver_state_as_str Stopped = ''stopped''"
| "driver_state_as_str Crashed = ''crashed''"

record driver_report =
  dr_device_id :: device_id
  dr_request_id :: request_id
  dr_driver_id :: string
  dr_state :: driver_state
  dr_audit :: "string list"

record driver_session =
  as_lease :: device_lease
  as_driver_id :: string
  as_capability :: capability_name

record coordinator =
  co_registry :: device_registry
  co_active :: "(device_id, driver_session) btree_map"

definition coordinator_new :: "device_registry \<Rightarrow> coordinator" where
  "coordinator_new r = \<lparr>co_registry = r, co_active = []\<rparr>"

definition active_session :: "coordinator \<Rightarrow> device_id \<Rightarrow> driver_session option" where
  "active_session c d = bt_get (co_active c) d"

definition lifecycle_audit_event ::
  "system_time \<Rightarrow> audit_action \<Rightarrow> audit_outcome \<Rightarrow> driver_report \<Rightarrow> audit_event" where
  "lifecycle_audit_event now action outcome r =
     ae_with_field (ae_with_field (ae_with_field (ae_with_message
       (audit_event_new now action outcome (tf_with_request_id trace_fields_default (dr_request_id r)))
       ''hardware driver lifecycle transition'')
       ''device_id'' (device_id_str (dr_device_id r)))
       ''driver_id'' (dr_driver_id r))
       ''state'' (driver_state_as_str (dr_state r))"

definition record_lifecycle_audit ::
  "'k audit_sink \<Rightarrow> system_time \<Rightarrow> audit_action \<Rightarrow> audit_outcome \<Rightarrow> driver_report \<Rightarrow> 'k \<Rightarrow>
     driver_report res \<times> 'k" where
  "record_lifecycle_audit sink now action outcome r k =
     (case sink (lifecycle_audit_event now action outcome r) k of
        (Inl e, k') \<Rightarrow> (Inl e, k')
      | (Inr _, k') \<Rightarrow> (Inr r, k'))"

definition bind_request :: "registered_device \<Rightarrow> driver_start_request \<Rightarrow> runtime_policy_request" where
  "bind_request dev q =
     (let r = rq_with_capability (rq_with_bus (policy_request_new HardwareBind) (rd_bus dev)) (ds_capability q)
      in case ds_timeout_ms q of Some t \<Rightarrow> rq_with_timeout_ms r t | None \<Rightarrow> r)"

text \<open>The checks before the lease: they read the state and change nothing.\<close>

definition start_gates ::
  "permission_provider \<Rightarrow> policy_domain_set \<Rightarrow> coordinator \<Rightarrow> driver_start_request \<Rightarrow>
     (policy_decision \<times> os_permission_check) res" where
  "start_gates check gate c q =
     (if bt_get (co_active c) (ds_device_id q) \<noteq> None
      then Inl (device_error (err_conflict ''hardware driver is already active'') (ds_device_id q))
      else
        res_bind (ok_or (device_error (err_not_found ''device is not registered'') (ds_device_id q))
          (bt_get (co_registry c) (ds_device_id q))) (\<lambda>dev.
        let decision = decide gate (bind_request dev q) in
        res_bind (decision_ensure_allowed decision) (\<lambda>_.
        res_bind (check dev) (\<lambda>permission.
        res_bind (ensure_os_permission permission) (\<lambda>_. Inr (decision, permission))))))"

definition opened_report ::
  "driver_start_request \<Rightarrow> policy_decision \<Rightarrow> os_permission_check \<Rightarrow> driver_report" where
  "opened_report q decision permission =
     \<lparr>dr_device_id = ds_device_id q, dr_request_id = ds_request_id q, dr_driver_id = ds_driver_id q,
      dr_state = Opened,
      dr_audit = [''policy:'' @ pd_reason decision, ''os_permission:'' @ oc_permission permission,
        ''lease:claimed'', ''driver:opened'']\<rparr>"

definition start_driver ::
  "'k audit_sink \<Rightarrow> system_time \<Rightarrow> permission_provider \<Rightarrow> policy_domain_set \<Rightarrow>
     coordinator \<times> 'k \<Rightarrow> driver_start_request \<Rightarrow> driver_report res \<times> coordinator \<times> 'k" where
  "start_driver sink now check gate s q = (case s of (c, k) \<Rightarrow>
     (case start_gates check gate c q of
        Inl e \<Rightarrow> (Inl e, c, k)
      | Inr (decision, permission) \<Rightarrow>
          (case claim_device (co_registry c) (ds_device_id q) (ds_request_id q) of
             (Inl e, r) \<Rightarrow> (Inl e, c\<lparr>co_registry := r\<rparr>, k)
           | (Inr lease, r) \<Rightarrow>
               let session = \<lparr>as_lease = lease, as_driver_id = ds_driver_id q, as_capability = ds_capability q\<rparr>;
                   (res, k') = record_lifecycle_audit sink now HardwareDriverStarted OutcomeOk
                     (opened_report q decision permission) k
               in (res, c\<lparr>co_registry := r,
                          co_active := bt_insert (ds_device_id q) session (co_active c)\<rparr>, k'))))"

text \<open>
  The common end of stopping and crashing: the session has been taken out of the active ones, its
  lease is released, and the report goes to the audit sink.
\<close>

definition close_session ::
  "'k audit_sink \<Rightarrow> system_time \<Rightarrow> audit_outcome \<Rightarrow> coordinator \<times> 'k \<Rightarrow> driver_session \<Rightarrow> device_id \<Rightarrow>
     driver_report \<Rightarrow> driver_report res \<times> coordinator \<times> 'k" where
  "close_session sink now outcome s session d r = (case s of (c, k) \<Rightarrow>
     (let c' = c\<lparr>co_active := bt_remove d (co_active c)\<rparr> in
      case release_device (co_registry c') (as_lease session) of
        (Inl e, reg) \<Rightarrow> (Inl e, c'\<lparr>co_registry := reg\<rparr>, k)
      | (Inr _, reg) \<Rightarrow>
          let (res, k') = record_lifecycle_audit sink now HardwareDriverStopped outcome r k
          in (res, c'\<lparr>co_registry := reg\<rparr>, k')))"

definition not_active :: "device_id \<Rightarrow> eva_error" where
  "not_active d = device_error (err_not_found ''hardware driver is not active'') d"

definition stop_driver ::
  "'k audit_sink \<Rightarrow> system_time \<Rightarrow> coordinator \<times> 'k \<Rightarrow> device_id \<Rightarrow> request_id \<Rightarrow>
     driver_report res \<times> coordinator \<times> 'k" where
  "stop_driver sink now s d q = (case bt_get (co_active (fst s)) d of
     None \<Rightarrow> (Inl (not_active d), s)
   | Some session \<Rightarrow>
       if lease_request_id (as_lease session) \<noteq> q
       then (Inl (with_context (device_error (err_permission_denied ''device lease does not match claimant'') d)
               ''request_id'' (request_id_str q)), s)
       else close_session sink now OutcomeOk s session d
         \<lparr>dr_device_id = d, dr_request_id = q, dr_driver_id = as_driver_id session, dr_state = Stopped,
          dr_audit = [''driver:stopped'', ''lease:released'']\<rparr>)"

definition record_crash ::
  "'k audit_sink \<Rightarrow> system_time \<Rightarrow> coordinator \<times> 'k \<Rightarrow> device_id \<Rightarrow> string \<Rightarrow> string \<Rightarrow>
     driver_report res \<times> coordinator \<times> 'k" where
  "record_crash sink now s d reason source = (case bt_get (co_active (fst s)) d of
     None \<Rightarrow> (Inl (not_active d), s)
   | Some session \<Rightarrow>
       close_session sink now OutcomeFailed s session d
         \<lparr>dr_device_id = d, dr_request_id = lease_request_id (as_lease session),
          dr_driver_id = as_driver_id session, dr_state = Crashed,
          dr_audit = [source @ '':crashed:'' @ reason, ''lease:released'']\<rparr>)"

definition record_driver_crash ::
  "'k audit_sink \<Rightarrow> system_time \<Rightarrow> coordinator \<times> 'k \<Rightarrow> device_id \<Rightarrow> string \<Rightarrow>
     driver_report res \<times> coordinator \<times> 'k" where
  "record_driver_crash sink now s d reason = record_crash sink now s d reason ''driver''"

definition record_hotplug_watcher_crash ::
  "'k audit_sink \<Rightarrow> system_time \<Rightarrow> coordinator \<times> 'k \<Rightarrow> device_id \<Rightarrow> string \<Rightarrow>
     driver_report res \<times> coordinator \<times> 'k" where
  "record_hotplug_watcher_crash sink now s d reason = record_crash sink now s d reason ''hotplug_watcher''"

subsection \<open>Runs of the coordinator\<close>

text \<open>
  A call on the coordinator, with the permission provider, the policy and the clock reading it
  meets, and a run of calls with one audit sink, which may fail at any of them.
\<close>

datatype driver_call =
    StartDriver permission_provider policy_domain_set driver_start_request
  | StopDriver device_id request_id
  | DriverCrash device_id string
  | WatcherCrash device_id string

fun driver_step :: "'k audit_sink \<Rightarrow> system_time \<times> driver_call \<Rightarrow> coordinator \<times> 'k \<Rightarrow> coordinator \<times> 'k" where
  "driver_step sink (now, StartDriver check gate q) s = snd (start_driver sink now check gate s q)"
| "driver_step sink (now, StopDriver d q) s = snd (stop_driver sink now s d q)"
| "driver_step sink (now, DriverCrash d reason) s = snd (record_driver_crash sink now s d reason)"
| "driver_step sink (now, WatcherCrash d reason) s = snd (record_hotplug_watcher_crash sink now s d reason)"

abbreviation driver_run :: "'k audit_sink \<Rightarrow> (system_time \<times> driver_call) list \<Rightarrow> coordinator \<times> 'k \<Rightarrow> coordinator \<times> 'k" where
  "driver_run sink calls s \<equiv> fold (driver_step sink) calls s"

subsection \<open>What one call does\<close>

text \<open>A request that passed the gates of a start, for the device as it is registered.\<close>

definition vetted :: "permission_provider \<Rightarrow> policy_domain_set \<Rightarrow> registered_device \<Rightarrow> driver_start_request \<Rightarrow> bool" where
  "vetted check gate dev q \<longleftrightarrow> pd_allowed (decide gate (bind_request dev q)) \<and>
     (\<exists>p. check dev = Inr p \<and> oc_granted p)"

definition session_of :: "driver_start_request \<Rightarrow> driver_session" where
  "session_of q =
     \<lparr>as_lease = \<lparr>lease_device_id = ds_device_id q, lease_request_id = ds_request_id q, lease_exclusive = True\<rparr>,
      as_driver_id = ds_driver_id q, as_capability = ds_capability q\<rparr>"

definition opened :: "coordinator \<Rightarrow> registered_device \<Rightarrow> driver_start_request \<Rightarrow> coordinator" where
  "opened c dev q = c\<lparr>
     co_registry := bt_insert (ds_device_id q)
       (dev\<lparr>rd_claimed_by := Some (ds_request_id q), rd_health := Claimed\<rparr>) (co_registry c),
     co_active := bt_insert (ds_device_id q) (session_of q) (co_active c)\<rparr>"

definition closed :: "coordinator \<Rightarrow> registered_device \<Rightarrow> device_id \<Rightarrow> coordinator" where
  "closed c dev d = c\<lparr>
     co_active := bt_remove d (co_active c),
     co_registry := bt_insert d (dev\<lparr>rd_claimed_by := None, rd_health := Available\<rparr>) (co_registry c)\<rparr>"

lemma opened_fields [simp]:
  "bt_get (co_registry (opened c dev q)) = (bt_get (co_registry c))
     (ds_device_id q \<mapsto> dev\<lparr>rd_claimed_by := Some (ds_request_id q), rd_health := Claimed\<rparr>)"
  "bt_get (co_active (opened c dev q)) = (bt_get (co_active c))(ds_device_id q \<mapsto> session_of q)"
  by (simp_all add: opened_def)

lemma closed_fields [simp]:
  "bt_get (co_registry (closed c dev d)) =
     (bt_get (co_registry c))(d \<mapsto> dev\<lparr>rd_claimed_by := None, rd_health := Available\<rparr>)"
  "bt_get (co_active (closed c dev d)) = (bt_get (co_active c))(d := None)"
  by (simp_all add: closed_def)

lemma start_gates_ok_iff:
  "start_gates check gate c q = Inr (dec, p) \<longleftrightarrow>
     (\<exists>dev. bt_get (co_active c) (ds_device_id q) = None \<and> bt_get (co_registry c) (ds_device_id q) = Some dev \<and>
        dec = decide gate (bind_request dev q) \<and> pd_allowed dec \<and> check dev = Inr p \<and> oc_granted p)"
  by (auto simp: start_gates_def ok_or_def Let_def decision_ensure_allowed_def ensure_os_permission_def
      split: option.splits if_splits elim!: res_bind.elims)

text \<open>
  A start either changes nothing, neither coordinator nor sink, and is refused, or it opens the
  session of a vetted request on a free and claimable device.
\<close>

lemma start_driver_cases:
  obtains (refused) e where "start_driver sink now check gate (c, k) q = (Inl e, c, k)"
  | (opened) dev res k' where "start_driver sink now check gate (c, k) q = (res, opened c dev q, k')"
      and "bt_get (co_active c) (ds_device_id q) = None" and "bt_get (co_registry c) (ds_device_id q) = Some dev"
      and "rd_claimed_by dev = None" and "vetted check gate dev q"
proof (cases "start_gates check gate c q")
  case (Inl e)
  then show thesis using refused by (simp add: start_driver_def)
next
  case (Inr x)
  obtain dec p where x: "x = (dec, p)" by fastforce
  then obtain dev where dev: "bt_get (co_active c) (ds_device_id q) = None"
      "bt_get (co_registry c) (ds_device_id q) = Some dev" and vet: "vetted check gate dev q"
    using Inr start_gates_ok_iff [of check gate c q dec p] by (auto simp: vetted_def)
  obtain cl r where claim: "claim_device (co_registry c) (ds_device_id q) (ds_request_id q) = (cl, r)" by fastforce
  show thesis
  proof (cases cl)
    case (Inl e)
    then have "start_driver sink now check gate (c, k) q = (Inl e, c, k)"
      using \<open>start_gates check gate c q = Inr x\<close> x claim claim_device_refused by (simp add: start_driver_def)
    then show thesis by (rule refused)
  next
    case (Inr lease)
    have claimed: "rd_claimed_by dev = None"
        "lease = \<lparr>lease_device_id = ds_device_id q, lease_request_id = ds_request_id q, lease_exclusive = True\<rparr>"
        "r = bt_insert (ds_device_id q) (dev\<lparr>rd_claimed_by := Some (ds_request_id q), rd_health := Claimed\<rparr>) (co_registry c)"
      using claim dev(2) unfolding Inr claim_device_ok_iff by auto
    obtain res k' where "record_lifecycle_audit sink now HardwareDriverStarted OutcomeOk (opened_report q dec p) k = (res, k')"
      by fastforce
    then have "start_driver sink now check gate (c, k) q = (res, opened c dev q, k')"
      using \<open>start_gates check gate c q = Inr x\<close> claim
      by (simp add: start_driver_def opened_def session_of_def x Inr claimed)
    then show thesis by (rule opened) (use dev vet claimed in auto)
  qed
qed

text \<open>What the sessions and the registry say of one device agree.\<close>

fun slot_match :: "device_id \<Rightarrow> driver_session option \<Rightarrow> registered_device option \<Rightarrow> bool" where
  "slot_match d None None = True"
| "slot_match d None (Some dev) = (rd_claimed_by dev = None)"
| "slot_match d (Some s) None = False"
| "slot_match d (Some s) (Some dev) = (lease_device_id (as_lease s) = d \<and>
     rd_claimed_by dev = Some (lease_request_id (as_lease s)) \<and> rd_health dev = Claimed)"

definition sessions_match :: "coordinator \<Rightarrow> bool" where
  "sessions_match c \<longleftrightarrow> (\<forall>d. slot_match d (bt_get (co_active c) d) (bt_get (co_registry c) d))"

lemma slot_match_SomeD:
  "slot_match d (Some s) x \<Longrightarrow> \<exists>dev. x = Some dev \<and> lease_device_id (as_lease s) = d \<and>
     rd_claimed_by dev = Some (lease_request_id (as_lease s)) \<and> rd_health dev = Claimed"
  by (cases x) auto

lemma sessions_matchD:
  assumes "sessions_match c" and "bt_get (co_active c) d = Some s"
  obtains dev where "lease_device_id (as_lease s) = d" and "bt_get (co_registry c) d = Some dev"
    and "rd_claimed_by dev = Some (lease_request_id (as_lease s))" and "rd_health dev = Claimed"
  using assms slot_match_SomeD [of d s "bt_get (co_registry c) d"] unfolding sessions_match_def by metis

text \<open>With matching sessions the release of a lease cannot fail, so closing always frees the device.\<close>

lemma close_session_eq:
  assumes "sessions_match c" and "bt_get (co_active c) d = Some s" and "bt_get (co_registry c) d = Some dev"
  shows "close_session sink now out (c, k) s d r =
    (case record_lifecycle_audit sink now HardwareDriverStopped out r k of (res, k') \<Rightarrow> (res, closed c dev d, k'))"
proof -
  have "lease_device_id (as_lease s) = d" "rd_claimed_by dev = Some (lease_request_id (as_lease s))"
    using sessions_matchD [OF assms(1,2)] assms(3) by (metis option.inject)+
  then show ?thesis using assms(3)
    by (simp add: close_session_def release_device_def closed_def Let_def)
qed

lemma close_session_closed:
  assumes "sessions_match c" and "bt_get (co_active c) d = Some s" and "bt_get (co_registry c) d = Some dev"
  shows "fst (snd (close_session sink now out (c, k) s d r)) = closed c dev d"
  by (simp add: close_session_eq [OF assms] split: prod.splits)

text \<open>
  Stopping and crashing either change nothing or close the session of the device; the owner of the
  lease can always close it.
\<close>

lemma stop_driver_eq:
  assumes "sessions_match c"
  shows "(\<exists>s dev. bt_get (co_active c) d = Some s \<and> bt_get (co_registry c) d = Some dev \<and>
            lease_request_id (as_lease s) = q \<and> fst (snd (stop_driver sink now (c, k) d q)) = closed c dev d) \<or>
         (bt_get (co_active c) d = None \<or> lease_request_id (as_lease (the (bt_get (co_active c) d))) \<noteq> q) \<and>
            is_err (fst (stop_driver sink now (c, k) d q)) \<and> snd (stop_driver sink now (c, k) d q) = (c, k)"
proof (cases "bt_get (co_active c) d")
  case None
  then show ?thesis by (simp add: stop_driver_def)
next
  case (Some s)
  obtain dev where dev: "bt_get (co_registry c) d = Some dev" by (rule sessions_matchD [OF assms Some])
  then show ?thesis
    by (cases "lease_request_id (as_lease s) = q")
      (simp_all add: stop_driver_def Some close_session_closed [OF assms Some dev])
qed

lemma record_crash_eq:
  assumes "sessions_match c"
  shows "(\<exists>s dev. bt_get (co_active c) d = Some s \<and> bt_get (co_registry c) d = Some dev \<and>
            fst (snd (record_crash sink now (c, k) d reason source)) = closed c dev d) \<or>
         snd (record_crash sink now (c, k) d reason source) = (c, k)"
proof (cases "bt_get (co_active c) d")
  case None
  then show ?thesis by (simp add: record_crash_def)
next
  case (Some s)
  obtain dev where dev: "bt_get (co_registry c) d = Some dev" by (rule sessions_matchD [OF assms Some])
  then show ?thesis by (simp add: record_crash_def Some close_session_closed [OF assms Some dev])
qed

subsection \<open>Invariants of a run\<close>

lemma driver_step_cases:
  assumes "sessions_match c"
  obtains (same) "fst (driver_step sink x (c, k)) = c"
  | (opens) now check gate q dev where "x = (now, StartDriver check gate q)"
      and "fst (driver_step sink x (c, k)) = opened c dev q"
      and "bt_get (co_registry c) (ds_device_id q) = Some dev" and "vetted check gate dev q"
  | (closes) d dev where "fst (driver_step sink x (c, k)) = closed c dev d" and "bt_get (co_registry c) d = Some dev"
proof -
  obtain now call where x: "x = (now, call)" by fastforce
  show thesis
  proof (cases call)
    case (StartDriver check gate q)
    show thesis
    proof (cases rule: start_driver_cases [of sink now check gate c k q])
      case (refused e)
      then show thesis using same x StartDriver by simp
    next
      case (opened dev res k')
      then show thesis using opens x StartDriver by simp
    qed
  next
    case (StopDriver d q)
    then show thesis using stop_driver_eq [OF assms, of d q sink now k] same closes x by auto
  next
    case (DriverCrash d reason)
    then show thesis using record_crash_eq [OF assms, of d sink now k reason "''driver''"] same closes x
      by (auto simp: record_driver_crash_def)
  next
    case (WatcherCrash d reason)
    then show thesis using record_crash_eq [OF assms, of d sink now k reason "''hotplug_watcher''"] same closes x
      by (auto simp: record_hotplug_watcher_crash_def)
  qed
qed

lemma opened_match: "sessions_match c \<Longrightarrow> sessions_match (opened c dev q)"
  by (simp add: sessions_match_def session_of_def)

lemma closed_match: "sessions_match c \<Longrightarrow> sessions_match (closed c dev d)"
  by (simp add: sessions_match_def)

text \<open>
  The second invariant: every session was opened by a start of the run whose gates passed for a
  device with the registered identity.
\<close>

definition sessions_vetted :: "(system_time \<times> driver_call) list \<Rightarrow> coordinator \<Rightarrow> bool" where
  "sessions_vetted calls c \<longleftrightarrow> (\<forall>d s. bt_get (co_active c) d = Some s \<longrightarrow>
     (\<exists>now check gate q dev. (now, StartDriver check gate q) \<in> set calls \<and> ds_device_id q = d \<and>
        s = session_of q \<and> vetted check gate dev q \<and>
        map_option rd_identity (bt_get (co_registry c) d) = Some (rd_identity dev)))"

lemma driver_step_match: "sessions_match c \<Longrightarrow> sessions_match (fst (driver_step sink x (c, k)))"
  by (cases rule: driver_step_cases [of c sink x k]) (simp_all add: opened_match closed_match)

lemma sessions_vetted_mono: "sessions_vetted calls c \<Longrightarrow> set calls \<subseteq> set calls' \<Longrightarrow> sessions_vetted calls' c"
  unfolding sessions_vetted_def by blast

lemma driver_step_vetted:
  assumes "sessions_match c" and "sessions_vetted calls c"
  shows "sessions_vetted (calls @ [x]) (fst (driver_step sink x (c, k)))"
proof -
  have old: "sessions_vetted (calls @ [x]) c" using assms(2) by (rule sessions_vetted_mono) auto
  show ?thesis
    using assms(1)
  proof (cases rule: driver_step_cases [of c sink x k])
    case same
    then show ?thesis using old by simp
  next
    case (opens now check gate q dev)
    show ?thesis unfolding sessions_vetted_def
    proof (intro allI impI)
      fix d s
      assume s: "bt_get (co_active (fst (driver_step sink x (c, k)))) d = Some s"
      show "\<exists>now check gate q dev. (now, StartDriver check gate q) \<in> set (calls @ [x]) \<and> ds_device_id q = d \<and>
          s = session_of q \<and> vetted check gate dev q \<and>
          map_option rd_identity (bt_get (co_registry (fst (driver_step sink x (c, k)))) d) = Some (rd_identity dev)"
      proof (cases "d = ds_device_id q")
        case True
        then show ?thesis using s opens by (intro exI [of _ now] exI [of _ check] exI [of _ gate] exI [of _ q] exI [of _ dev]) auto
      next
        case False
        then show ?thesis using s opens(2) old unfolding sessions_vetted_def by simp
      qed
    qed
  next
    case (closes d dev)
    then show ?thesis using old unfolding sessions_vetted_def by auto
  qed
qed

lemma driver_run_invariant:
  assumes "sessions_match c" and "co_active c = []"
  shows "sessions_match (fst (driver_run sink calls (c, k))) \<and> sessions_vetted calls (fst (driver_run sink calls (c, k)))"
proof (induction calls rule: rev_induct)
  case Nil
  then show ?case using assms by (simp add: sessions_vetted_def)
next
  case (snoc x calls)
  obtain c' k' where "driver_run sink calls (c, k) = (c', k')" by fastforce
  then show ?case using snoc.IH driver_step_match [of c' sink x k'] driver_step_vetted [of c' calls x sink k']
    by simp
qed

lemma coordinator_new_match:
  assumes "registry_from_candidates cs = Inr r"
  shows "sessions_match (coordinator_new r)"
  unfolding sessions_match_def
proof
  fix d
  show "slot_match d (bt_get (co_active (coordinator_new r)) d) (bt_get (co_registry (coordinator_new r)) d)"
    using register_candidates_fresh [of "[]" cs r] assms
    by (cases "bt_get r d") (simp_all add: registry_from_candidates_def coordinator_new_def)
qed

lemma slot_match_requests:
  "slot_match d x y \<Longrightarrow> map_option (\<lambda>s. lease_request_id (as_lease s)) x = Option.bind y rd_claimed_by"
  by (cases x; cases y) auto

lemma owner_stop_frees:
  assumes "sessions_match c" and "bt_get (co_active c) d = Some s"
  shows "active_session (fst (snd (stop_driver sink now (c, k) d (lease_request_id (as_lease s))))) d = None \<and>
     (\<exists>dev. bt_get (co_registry (fst (snd (stop_driver sink now (c, k) d (lease_request_id (as_lease s)))))) d = Some dev \<and>
        rd_claimed_by dev = None \<and> rd_health dev = Available)"
  using stop_driver_eq [OF assms(1), of d "lease_request_id (as_lease s)" sink now k] assms(2)
  by (auto simp: active_session_def)

lemma crash_frees:
  assumes "sessions_match c" and "bt_get (co_active c) d = Some s"
  shows "active_session (fst (snd (record_crash sink now (c, k) d reason source))) d = None \<and>
     (\<exists>dev. bt_get (co_registry (fst (snd (record_crash sink now (c, k) d reason source)))) d = Some dev \<and>
        rd_claimed_by dev = None \<and> rd_health dev = Available)"
proof -
  obtain dev where dev: "bt_get (co_registry c) d = Some dev" by (rule sessions_matchD [OF assms])
  show ?thesis
    by (simp add: record_crash_def assms(2) close_session_closed [OF assms dev] active_session_def)
qed

text \<open>
  C20. Driver sessions are exclusive and vetted, over any sequence of calls on a coordinator, with any
  policies, permission providers and audit failures. A device has a session exactly when the registry
  has it leased, to the same request. Every session was opened by a call of the sequence for that
  device and request whose policy allowed it and whose permission was granted. A start on a device in
  use is refused and changes nothing, and so is a stop by another request. A stop by the owner always
  ends the session and makes the device available, even when the audit fails; so does a report that
  the driver or its hotplug watcher crashed, whoever makes it and whatever the reason.
\<close>
theorem driver_sessions:
  assumes "registry_from_candidates cs = Inr r" and "driver_run sink calls (coordinator_new r, k) = (c, k')"
  shows "map_option (\<lambda>s. lease_request_id (as_lease s)) (active_session c d) =
           Option.bind (bt_get (co_registry c) d) rd_claimed_by \<and>
         (\<forall>s. active_session c d = Some s \<longrightarrow>
           (\<exists>now check gate q dev. (now, StartDriver check gate q) \<in> set calls \<and> ds_device_id q = d \<and>
              s = session_of q \<and> vetted check gate dev q \<and>
              map_option rd_identity (bt_get (co_registry c) d) = Some (rd_identity dev)) \<and>
           (\<forall>now check gate q. ds_device_id q = d \<longrightarrow> start_driver sink now check gate (c, k') q =
              (Inl (device_error (err_conflict ''hardware driver is already active'') d), c, k')) \<and>
           (\<forall>now q. q \<noteq> lease_request_id (as_lease s) \<longrightarrow> is_err (fst (stop_driver sink now (c, k') d q)) \<and>
              snd (stop_driver sink now (c, k') d q) = (c, k')) \<and>
           (\<forall>now c'. fst (snd (stop_driver sink now (c, k') d (lease_request_id (as_lease s)))) = c' \<longrightarrow>
              active_session c' d = None \<and> (\<exists>dev. bt_get (co_registry c') d = Some dev \<and>
                rd_claimed_by dev = None \<and> rd_health dev = Available)) \<and>
           (\<forall>now reason c'. c' \<in> {fst (snd (record_driver_crash sink now (c, k') d reason)),
                fst (snd (record_hotplug_watcher_crash sink now (c, k') d reason))} \<longrightarrow>
              active_session c' d = None \<and> (\<exists>dev. bt_get (co_registry c') d = Some dev \<and>
                rd_claimed_by dev = None \<and> rd_health dev = Available)))"
proof -
  have inv: "sessions_match c" "sessions_vetted calls c"
    using driver_run_invariant [OF coordinator_new_match [OF assms(1)], of sink calls k] assms(2)
    by (simp_all add: coordinator_new_def)
  show ?thesis
  proof (intro conjI allI impI, goal_cases)
    case 1
    show ?case using inv(1) unfolding sessions_match_def active_session_def by (blast intro: slot_match_requests)
  next
    case (2 s)
    then show ?case using inv(2) unfolding sessions_vetted_def active_session_def by blast
  next
    case (3 s now check gate q)
    then show ?case by (simp add: start_driver_def start_gates_def active_session_def)
  next
    case (4 s now q)
    then show ?case using stop_driver_eq [OF inv(1), of d q sink now k'] by (auto simp: active_session_def)
  next
    case (5 s now q)
    then show ?case using stop_driver_eq [OF inv(1), of d q sink now k'] by (auto simp: active_session_def)
  next
    case (6 s now c')
    then show ?case using owner_stop_frees [OF inv(1), of d s sink now k'] by (simp add: active_session_def)
  next
    case (7 s now c')
    then show ?case using owner_stop_frees [OF inv(1), of d s sink now k'] by (simp add: active_session_def)
  next
    case (8 s now reason c')
    then show ?case using crash_frees [OF inv(1), of d s sink now k' reason]
      by (auto simp: active_session_def record_driver_crash_def record_hotplug_watcher_crash_def)
  next
    case (9 s now reason c')
    then show ?case using crash_frees [OF inv(1), of d s sink now k' reason]
      by (auto simp: active_session_def record_driver_crash_def record_hotplug_watcher_crash_def)
  qed
qed

definition sample_device :: device_candidate where
  "sample_device =
     \<lparr>dc_identity = \<lparr>di_id = DeviceId ''a'', di_logical_name = ''a'', di_device_class = ''a'', di_bus = Usb,
        di_adapter_id = AdapterId ''a'', di_trust = TrustManifest\<rparr>,
      dc_vendor_id = None, dc_product_id = None, dc_serial = None, dc_protocol = None,
      dc_health = Available, dc_source_path = [], dc_handle_granted = False, dc_rejected_reason = None\<rparr>"

definition sample_start :: "string \<Rightarrow> system_time \<times> driver_call" where
  "sample_start r = (0, StartDriver (static_check \<lparr>sp_permission = [], sp_granted = True\<rparr>)
     (policy_domain_set_default\<lparr>pds_hardware := hardware_policy_default\<lparr>hw_enabled := True, hw_allowed_buses := {''usb''}\<rparr>\<rparr>)
     \<lparr>ds_device_id = DeviceId ''a'', ds_request_id = RequestId r,
      ds_capability = CapabilityName ''a.b'' [''a'', ''b''], ds_driver_id = ''d'', ds_timeout_ms = None\<rparr>)"

definition sample_registry :: device_registry where
  "sample_registry = [(DeviceId ''a'', registered_from sample_device)]"

lemma sample_registry_built: "registry_from_candidates [sample_device] = Inr sample_registry"
  by (simp add: registry_from_candidates_def register_device_def sample_registry_def sample_device_def)

lemma sample_session:
  "active_session (fst (driver_run memory_sink [sample_start ''r'', sample_start ''q''] (coordinator_new sample_registry, [])))
     (DeviceId ''a'') \<noteq> None"
  by (simp add: sample_start_def sample_registry_def registered_from_def sample_device_def coordinator_new_def start_driver_def start_gates_def
      bt_get_def ok_or_def decide_def bind_request_def policy_request_new_def rq_with_bus_def rq_with_capability_def
      decide_hardware_bind_def policy_domain_set_default_def hardware_policy_default_def outside_def over_limit_def allowed_def decision_ensure_allowed_def
      static_check_def ensure_os_permission_def claim_device_def record_lifecycle_audit_def memory_sink_def active_session_def Let_def)

theorem driver_sessions_witness:
  "let c = fst (driver_run memory_sink [sample_start ''r'', sample_start ''q''] (coordinator_new sample_registry, []))
   in \<exists>s. active_session c (DeviceId ''a'') = Some s \<and>
        Option.bind (bt_get (co_registry c) (DeviceId ''a'')) rd_claimed_by = Some (lease_request_id (as_lease s)) \<and>
        (\<exists>now check gate q. (now, StartDriver check gate q) \<in> set [sample_start ''r'', sample_start ''q''] \<and> s = session_of q)"
proof -
  obtain c k' where run: "driver_run memory_sink [sample_start ''r'', sample_start ''q''] (coordinator_new sample_registry, []) = (c, k')"
    by (rule prod.exhaust)
  obtain s where s: "active_session c (DeviceId ''a'') = Some s" using sample_session unfolding run by auto
  show ?thesis unfolding run
    using driver_sessions [OF sample_registry_built run, of "DeviceId ''a''"] s by (auto simp del: fold.simps)
qed

end
