(* ===== verification/Hardware_Hotplug.thy ===== *)
theory Hardware_Hotplug
  imports Hardware_Devices Observe_Audit Event_Bus Storage_EventRoundtrip
begin

section \<open>The hotplug subscriber and its state file (eva-hardware, lifecycle.rs)\<close>

text \<open>
  One scan of the subscriber compares the candidates with the state of the previous scan, publishes
  an event for every device that changed, and returns the new state, which is kept in a text file.
  Bus and audit sink are interfaces: \<open>publish\<close> and \<open>sink\<close>, with their states \<open>b\<close> and \<open>k\<close>. Each
  publication reads the clock for the event and for its audit event; \<open>clock n\<close> gives the two readings
  of publication \<open>n\<close> of the scan.
\<close>

type_synonym 'b publisher = "event \<Rightarrow> 'b \<Rightarrow> event_receipt res \<times> 'b"

subsection \<open>Publishing one event\<close>

record publish_report =
  pr_event :: hotplug_event
  pr_receipt :: event_receipt

definition json_escape :: "string \<Rightarrow> string" where
  "json_escape v = concat (map (\<lambda>c.
     if c = CHR 0x5C \<or> c = CHR 0x22 then [CHR 0x5C, c] else [c]) v)"

definition quoted :: "string \<Rightarrow> string" where
  "quoted v = CHR 0x22 # v @ [CHR 0x22]"

definition hotplug_payload :: "hotplug_event \<Rightarrow> string" where
  "hotplug_payload e =
     ''{'' @ quoted ''device_id'' @ '':'' @ quoted (json_escape (device_id_str (he_device_id e))) @
     '','' @ quoted ''action'' @ '':'' @ quoted (hotplug_action_as_str (he_action e)) @
     '','' @ quoted ''previous'' @ '':'' @ quoted (health_as_str (he_previous e)) @
     '','' @ quoted ''next'' @ '':'' @ quoted (health_as_str (he_next e)) @
     '','' @ quoted ''reason'' @ '':'' @ quoted (json_escape (he_reason e)) @ ''}''"

definition hotplug_audit_event :: "system_time \<Rightarrow> request_id \<Rightarrow> hotplug_event \<Rightarrow> audit_event" where
  "hotplug_audit_event now q e =
     ae_with_field (ae_with_field (ae_with_field (ae_with_message
       (audit_event_new now HardwareHotplugPublished OutcomeOk (tf_with_request_id trace_fields_default q))
       ''hardware hotplug event published'')
       ''device_id'' (device_id_str (he_device_id e)))
       ''topic'' (topic_path (he_topic e)))
       ''action'' (hotplug_action_as_str (he_action e))"

definition publish_hotplug_event ::
  "'b publisher \<Rightarrow> 'k audit_sink \<Rightarrow> system_time \<times> system_time \<Rightarrow> hotplug_machine \<Rightarrow> 'b \<times> 'k \<Rightarrow>
     hotplug_action \<Rightarrow> string \<Rightarrow> request_id \<Rightarrow> publish_report res \<times> hotplug_machine \<times> 'b \<times> 'k" where
  "publish_hotplug_event publish sink now m w a reason q = (case (w, hotplug_apply m a reason) of
     (_, Inl e, m') \<Rightarrow> (Inl e, m', w)
   | ((b, k), Inr ev, m') \<Rightarrow>
       (case event_id_parse (''hotplug:'' @ device_id_str (he_device_id ev) @ '':'' @ request_id_str q) of
          Inl e \<Rightarrow> (Inl e, m', w)
        | Inr i \<Rightarrow>
            (case publish (event_with_trace (event_with_request_id
                    (event_new (fst now) i (he_topic ev) (PayloadText (hotplug_payload ev))) q)
                    trace_context_default) b of
               (Inl e, b') \<Rightarrow> (Inl e, m', b', k)
             | (Inr receipt, b') \<Rightarrow>
                 (case sink (hotplug_audit_event (snd now) q ev) k of
                    (Inl e, k') \<Rightarrow> (Inl e, m', b', k')
                  | (Inr _, k') \<Rightarrow> (Inr \<lparr>pr_event = ev, pr_receipt = receipt\<rparr>, m', b', k')))))"

subsection \<open>One scan\<close>

record hotplug_device_state =
  hs_device_id :: device_id
  hs_bus :: string
  hs_health :: device_health
  hs_source_path :: string

record subscriber_report =
  sr_status :: string
  sr_watcher_kind :: string
  sr_devices_seen :: nat
  sr_events_published :: "publish_report list"
  sr_state :: "hotplug_device_state list"
  sr_raw_handles_exposed :: bool
  sr_audit :: "string list"

definition hotplug_action_for_transition ::
  "bool \<Rightarrow> device_health \<Rightarrow> device_health \<Rightarrow> hotplug_action option" where
  "hotplug_action_for_transition has_previous previous current =
     (if \<not> has_previous then
        (case current of
           Available \<Rightarrow> Some Insert
         | Candidate \<Rightarrow> Some Insert
         | Disconnected \<Rightarrow> Some Remove
         | Failed \<Rightarrow> Some Fail
         | Claimed \<Rightarrow> None)
      else if previous = current then None
      else (case current of
           Available \<Rightarrow> if previous = Disconnected \<or> previous = Failed then Some Reconnect else Some Insert
         | Candidate \<Rightarrow> if previous = Disconnected \<or> previous = Failed then Some Reconnect else Some Insert
         | Disconnected \<Rightarrow> Some Remove
         | Failed \<Rightarrow> Some Fail
         | Claimed \<Rightarrow> None))"

definition transition_reason :: "device_health \<Rightarrow> device_health \<Rightarrow> string" where
  "transition_reason previous current =
     ''manifest snapshot '' @ health_as_str previous @ '' -> '' @ health_as_str current"

definition publish_subscriber_event ::
  "'b publisher \<Rightarrow> 'k audit_sink \<Rightarrow> (nat \<Rightarrow> system_time \<times> system_time) \<Rightarrow> string \<Rightarrow>
     device_id \<Rightarrow> device_health \<Rightarrow> hotplug_action \<Rightarrow> string \<Rightarrow> publish_report list \<Rightarrow> 'b \<times> 'k \<Rightarrow>
     publish_report list res \<times> 'b \<times> 'k" where
  "publish_subscriber_event publish sink clock prefix d previous a reason events w =
     (case request_id_parse (prefix @ ''-'' @ nat_str (length events + 1)) of
        Inl e \<Rightarrow> (Inl e, w)
      | Inr q \<Rightarrow>
          (case publish_hotplug_event publish sink (clock (length events))
              ((machine_new d)\<lparr>hm_health := previous\<rparr>) w a reason q of
             (Inl e, _, w') \<Rightarrow> (Inl e, w')
           | (Inr report, _, w') \<Rightarrow> (Inr (events @ [report]), w')))"

definition candidate_state :: "device_candidate \<Rightarrow> hotplug_device_state" where
  "candidate_state c =
     \<lparr>hs_device_id = dc_id c, hs_bus = bus_as_str (di_bus (dc_identity c)), hs_health = dc_health c,
      hs_source_path = dc_source_path c\<rparr>"

fun scan_candidates ::
  "'b publisher \<Rightarrow> 'k audit_sink \<Rightarrow> (nat \<Rightarrow> system_time \<times> system_time) \<Rightarrow> string \<Rightarrow>
     (device_id, hotplug_device_state) btree_map \<Rightarrow> device_candidate list \<Rightarrow>
     device_id set \<times> hotplug_device_state list \<times> publish_report list \<Rightarrow> 'b \<times> 'k \<Rightarrow>
     (device_id set \<times> hotplug_device_state list \<times> publish_report list) res \<times> 'b \<times> 'k" where
  "scan_candidates publish sink clock prefix previous_by_id [] acc w = (Inr acc, w)"
| "scan_candidates publish sink clock prefix previous_by_id (c # cs) (seen, state, events) w =
     (let previous = bt_get previous_by_id (dc_id c);
          previous_health = (case previous of Some p \<Rightarrow> hs_health p | None \<Rightarrow> Disconnected);
          seen = insert (dc_id c) seen;
          state = state @ [candidate_state c]
      in case hotplug_action_for_transition (previous \<noteq> None) previous_health (dc_health c) of
           None \<Rightarrow> scan_candidates publish sink clock prefix previous_by_id cs (seen, state, events) w
         | Some a \<Rightarrow>
             (case publish_subscriber_event publish sink clock prefix (dc_id c) previous_health a
                 (transition_reason previous_health (dc_health c)) events w of
                (Inl e, w') \<Rightarrow> (Inl e, w')
              | (Inr events, w') \<Rightarrow>
                  scan_candidates publish sink clock prefix previous_by_id cs (seen, state, events) w'))"

fun scan_removed ::
  "'b publisher \<Rightarrow> 'k audit_sink \<Rightarrow> (nat \<Rightarrow> system_time \<times> system_time) \<Rightarrow> string \<Rightarrow>
     device_id set \<Rightarrow> hotplug_device_state list \<Rightarrow>
     hotplug_device_state list \<times> publish_report list \<Rightarrow> 'b \<times> 'k \<Rightarrow>
     (hotplug_device_state list \<times> publish_report list) res \<times> 'b \<times> 'k" where
  "scan_removed publish sink clock prefix seen [] acc w = (Inr acc, w)"
| "scan_removed publish sink clock prefix seen (p # ps) (state, events) w =
     (if hs_device_id p \<in> seen then scan_removed publish sink clock prefix seen ps (state, events) w
      else
        (let state = state @ [p\<lparr>hs_health := Disconnected\<rparr>] in
         if hs_health p \<noteq> Disconnected then
           (case publish_subscriber_event publish sink clock prefix (hs_device_id p) (hs_health p) Remove
               ''manifest candidate removed'' events w of
              (Inl e, w') \<Rightarrow> (Inl e, w')
            | (Inr events, w') \<Rightarrow> scan_removed publish sink clock prefix seen ps (state, events) w')
         else scan_removed publish sink clock prefix seen ps (state, events) w))"

definition previous_states :: "hotplug_device_state list \<Rightarrow> (device_id, hotplug_device_state) btree_map" where
  "previous_states ps = fold (\<lambda>p. bt_insert (hs_device_id p) p) ps []"

definition scan_report :: "device_candidate list \<Rightarrow> hotplug_device_state list \<Rightarrow> publish_report list \<Rightarrow> subscriber_report" where
  "scan_report cs state events =
     \<lparr>sr_status = ''ready'', sr_watcher_kind = ''manifest_snapshot'', sr_devices_seen = length cs,
      sr_events_published = events, sr_state = sort_key hs_device_id state, sr_raw_handles_exposed = False,
      sr_audit = [''hardware_hotplug:subscriber_scan'',
        ''hardware_hotplug:events_published:'' @ nat_str (length events),
        ''hardware_hotplug:raw_handles_not_exposed'']\<rparr>"

definition run_hotplug_subscriber_once ::
  "'b publisher \<Rightarrow> 'k audit_sink \<Rightarrow> (nat \<Rightarrow> system_time \<times> system_time) \<Rightarrow>
     device_candidate list \<Rightarrow> hotplug_device_state list \<Rightarrow> string \<Rightarrow> 'b \<times> 'k \<Rightarrow>
     subscriber_report res \<times> 'b \<times> 'k" where
  "run_hotplug_subscriber_once publish sink clock cs ps prefix w =
     (case request_id_parse prefix of
        Inl e \<Rightarrow> (Inl e, w)
      | Inr _ \<Rightarrow>
          (case scan_candidates publish sink clock prefix (previous_states ps) (sort_key dc_id cs) ({}, [], []) w of
             (Inl e, w') \<Rightarrow> (Inl e, w')
           | (Inr (seen, state, events), w') \<Rightarrow>
               (case scan_removed publish sink clock prefix seen ps (state, events) w' of
                  (Inl e, w'') \<Rightarrow> (Inl e, w'')
                | (Inr (state, events), w'') \<Rightarrow> (Inr (scan_report cs state events), w''))))"

subsection \<open>The state file\<close>

definition encode_field :: "string \<Rightarrow> string" where
  "encode_field v = concat (map (\<lambda>c. [hex_digit (of_char c div 16), hex_digit (of_char c mod 16)]) v)"

text \<open>
  \<^verbatim>\<open>u8::from_str_radix\<close> on two bytes accepts a plus sign before one digit. Slicing a text at a
  position inside a character panics, and so does the decoder then.
\<close>

definition u8_from_hex :: "char \<Rightarrow> char \<Rightarrow> nat option" where
  "u8_from_hex a b =
     (if a = CHR ''+'' then hex_value b
      else Option.bind (hex_value a) (\<lambda>high. map_option (\<lambda>low. high * 16 + low) (hex_value b)))"

definition inside_char :: "string \<Rightarrow> bool" where
  "inside_char s = (case s of [] \<Rightarrow> False | c # _ \<Rightarrow> utf8_cont (of_char c))"

fun decode_bytes :: "nat \<Rightarrow> string \<Rightarrow> nat list run" where
  "decode_bytes index (a # b # rest) =
     (if inside_char (a # b # rest) \<or> inside_char rest then Inl Panics
      else res_bind (lift_res (ok_or
             (with_context (err_conflict ''hardware hotplug encoded field is not hex'') ''offset'' (nat_str index))
             (u8_from_hex a b))) (\<lambda>v.
           res_bind (decode_bytes (index + 2) rest) (\<lambda>bs. Inr (v # bs))))"
| "decode_bytes index _ = Inr []"

text \<open>The message of \<^verbatim>\<open>FromUtf8Error\<close>: where the first invalid sequence starts and how long it is.\<close>

fun utf8_error_text :: "nat \<Rightarrow> nat list \<Rightarrow> string" where
  "utf8_error_text i [] = []"
| "utf8_error_text i (a # rest) =
     (let bad = (\<lambda>n. ''invalid utf-8 sequence of '' @ nat_str n @ '' bytes from index '' @ nat_str i);
          cut = ''incomplete utf-8 byte sequence from index '' @ nat_str i
      in if a < 0x80 then utf8_error_text (i + 1) rest
         else if 0xC2 \<le> a \<and> a \<le> 0xDF then
           (case rest of [] \<Rightarrow> cut
            | b # r \<Rightarrow> if utf8_cont b then utf8_error_text (i + 2) r else bad 1)
         else if 0xE0 \<le> a \<and> a \<le> 0xEF then
           (case rest of [] \<Rightarrow> cut
            | b # r \<Rightarrow>
                if \<not> (utf8_cont b \<and> (a = 0xE0 \<longrightarrow> 0xA0 \<le> b) \<and> (a = 0xED \<longrightarrow> b \<le> 0x9F)) then bad 1
                else (case r of [] \<Rightarrow> cut
                  | c # r \<Rightarrow> if utf8_cont c then utf8_error_text (i + 3) r else bad 2))
         else if 0xF0 \<le> a \<and> a \<le> 0xF4 then
           (case rest of [] \<Rightarrow> cut
            | b # r \<Rightarrow>
                if \<not> (utf8_cont b \<and> (a = 0xF0 \<longrightarrow> 0x90 \<le> b) \<and> (a = 0xF4 \<longrightarrow> b \<le> 0x8F)) then bad 1
                else (case r of [] \<Rightarrow> cut
                  | c # r \<Rightarrow> if \<not> utf8_cont c then bad 2
                      else (case r of [] \<Rightarrow> cut
                        | d # r \<Rightarrow> if utf8_cont d then utf8_error_text (i + 4) r else bad 3)))
         else bad 1)"

definition decode_field :: "string \<Rightarrow> string run" where
  "decode_field v =
     (if odd (length v) then Inl (Fails (err_conflict ''hardware hotplug encoded field has odd length''))
      else res_bind (decode_bytes 0 v) (\<lambda>bs.
        if utf8_valid bs then Inr (bytes_str bs)
        else Inl (Fails (with_context (err_conflict ''hardware hotplug encoded field is not utf-8'')
               ''utf8_error'' (utf8_error_text 0 bs)))))"

definition tab :: string where
  "tab = [CHR 0x09]"

definition state_line :: "hotplug_device_state \<Rightarrow> string" where
  "state_line s = join tab [''device'', encode_field (device_id_str (hs_device_id s)),
     health_as_str (hs_health s), encode_field (hs_bus s), encode_field (hs_source_path s)]"

definition render_hotplug_subscriber_state :: "hotplug_device_state list \<Rightarrow> string" where
  "render_hotplug_subscriber_state states =
     ''version=1'' @ [CHR 0x0A] @ concat (map (\<lambda>s. state_line s @ [CHR 0x0A]) (sort_key hs_device_id states))"

definition at_line :: "nat \<Rightarrow> 'a res \<Rightarrow> 'a res" where
  "at_line n r = (case r of Inl e \<Rightarrow> Inl (with_context e ''line'' (nat_str n)) | Inr x \<Rightarrow> Inr x)"

definition parse_state_line :: "nat \<Rightarrow> string \<Rightarrow> hotplug_device_state run" where
  "parse_state_line line_no line = (case split_on CHR 0x09 line of
     [f0, f1, f2, f3, f4] \<Rightarrow>
       if f0 \<noteq> ''device''
       then lift_res (at_line line_no (Inl (err_conflict ''hardware hotplug state record is invalid'')))
       else
         res_bind (decode_field f1) (\<lambda>i.
         res_bind (lift_res (at_line line_no (device_id_parse i))) (\<lambda>d.
         res_bind (lift_res (at_line line_no (health_parse f2))) (\<lambda>h.
         res_bind (decode_field f3) (\<lambda>bus.
         res_bind (decode_field f4) (\<lambda>source_path.
           Inr \<lparr>hs_device_id = d, hs_bus = bus, hs_health = h, hs_source_path = source_path\<rparr>)))))
   | _ \<Rightarrow> lift_res (at_line line_no (Inl (err_conflict ''hardware hotplug state record is invalid''))))"

fun parse_state_lines ::
  "nat \<Rightarrow> string list \<Rightarrow> bool \<times> hotplug_device_state list \<Rightarrow> (bool \<times> hotplug_device_state list) run" where
  "parse_state_lines line_no [] acc = Inr acc"
| "parse_state_lines line_no (line # rest) (version_seen, states) =
     (if trim line = [] then parse_state_lines (line_no + 1) rest (version_seen, states)
      else if line = ''version=1'' then parse_state_lines (line_no + 1) rest (True, states)
      else if \<not> version_seen
      then lift_res (at_line line_no (Inl (err_conflict ''hardware hotplug state missing version'')))
      else res_bind (parse_state_line line_no line) (\<lambda>s.
             parse_state_lines (line_no + 1) rest (version_seen, states @ [s])))"

definition parse_hotplug_subscriber_state :: "string \<Rightarrow> hotplug_device_state list run" where
  "parse_hotplug_subscriber_state data =
     res_bind (parse_state_lines 1 (lines data) (False, [])) (\<lambda>(version_seen, states).
       if \<not> version_seen \<and> trim data \<noteq> []
       then Inl (Fails (err_conflict ''hardware hotplug state missing version''))
       else Inr (sort_key hs_device_id states))"

subsection \<open>Reading back what was written\<close>

text \<open>
  A field with an odd number of bytes before a two-byte character: slicing it cuts the character, and
  the reader of a damaged state file panics instead of reporting an error.
\<close>

lemma decode_field_panics: "decode_field [CHR ''a'', CHR 0xC3, CHR 0xA9, CHR ''b''] = Inl Panics"
  by (simp add: decode_field_def inside_char_def)

lemma encode_field_hex: "encode_field v = hex_text v"
  by (induction v) (simp_all add: encode_field_def hex_text_def str_bytes_def)

lemma hex_not_inside: "\<forall>b \<in> set bs. b < 256 \<Longrightarrow> \<not> inside_char (hex_encode bs)"
proof (cases bs)
  case (Cons b r)
  assume "\<forall>b \<in> set bs. b < 256"
  with Cons have "b div 16 < 16" by auto
  then show ?thesis using Cons by (simp add: inside_char_def byte_hex_digit)
qed (simp add: inside_char_def)

lemma u8_from_hex_digits:
  "b < 256 \<Longrightarrow> u8_from_hex (hex_digit (b div 16)) (hex_digit (b mod 16)) = Some b"
proof -
  assume "b < 256"
  then have "b div 16 < 16" by simp
  then have "byte (hex_digit (b div 16)) \<noteq> byte CHR ''+''" by (simp add: byte_hex_digit)
  then have "hex_digit (b div 16) \<noteq> CHR ''+''" by metis
  with \<open>b div 16 < 16\<close> show ?thesis by (simp add: u8_from_hex_def)
qed

lemma decode_bytes_encode: "\<forall>b \<in> set bs. b < 256 \<Longrightarrow> decode_bytes i (hex_encode bs) = Inr bs"
proof (induction bs arbitrary: i)
  case (Cons b bs)
  then have "\<not> inside_char (hex_encode (b # bs))" "\<not> inside_char (hex_encode bs)"
    using hex_not_inside [of "b # bs"] hex_not_inside [of bs] by auto
  then show ?case using Cons by (simp add: u8_from_hex_digits ok_or_def)
qed simp

lemma decode_encode_field: "text_ok v \<Longrightarrow> decode_field (encode_field v) = Inr v"
  using even_length_hex_encode [of "str_bytes v"]
  by (simp add: decode_field_def encode_field_hex hex_text_def decode_bytes_encode str_bytes_small)

text \<open>What a state read from a file satisfies: a device id that parses, and texts.\<close>

definition state_ok :: "hotplug_device_state \<Rightarrow> bool" where
  "state_ok s \<longleftrightarrow> device_id_parse (device_id_str (hs_device_id s)) = Inr (hs_device_id s) \<and>
     text_ok (device_id_str (hs_device_id s)) \<and> text_ok (hs_bus s) \<and> text_ok (hs_source_path s)"

lemma state_fields_graphic:
  "\<forall>f \<in> set [''device'', encode_field a, health_as_str h, encode_field b, encode_field c]. \<forall>x \<in> set f. is_graphic x"
proof -
  have "\<forall>x \<in> set (health_as_str h). is_graphic x" by (cases h) (simp_all add: is_graphic_def)
  moreover have "\<forall>x \<in> set ''device''. is_graphic x" by (simp add: is_graphic_def)
  ultimately show ?thesis using hex_text_graphic by (simp add: encode_field_hex)
qed

lemma parse_state_line_render:
  assumes "state_ok s"
  shows "parse_state_line n (state_line s) = Inr s"
proof -
  let ?fs = "[''device'', encode_field (device_id_str (hs_device_id s)), health_as_str (hs_health s),
    encode_field (hs_bus s), encode_field (hs_source_path s)]"
  have "\<forall>f \<in> set ?fs. CHR 0x09 \<notin> set f" using state_fields_graphic by (fastforce simp: is_graphic_def)
  then have "split_on CHR 0x09 (state_line s) = ?fs"
    unfolding state_line_def tab_def by (intro split_on_join) simp_all
  moreover have "health_parse (health_as_str (hs_health s)) = Inr (hs_health s)" by (simp add: health_parse_as_str)
  ultimately show ?thesis using assms
    by (simp add: parse_state_line_def decode_encode_field state_ok_def at_line_def)
qed

lemma state_line_plain:
  "CHR 0x0A \<notin> set (state_line s)" "CHR 0x0D \<notin> set (state_line s)" "trim (state_line s) \<noteq> []"
  "state_line s \<noteq> ''version=1''"
proof -
  have "set (state_line s) \<subseteq> insert CHR 0x09 {x. is_graphic x}"
    using set_join [of tab] state_fields_graphic unfolding state_line_def by (fastforce simp: tab_def)
  then show "CHR 0x0A \<notin> set (state_line s)" "CHR 0x0D \<notin> set (state_line s)" by (auto simp: is_graphic_def)
  have "CHR ''d'' \<in> set (state_line s)" by (simp add: state_line_def)
  then show "trim (state_line s) \<noteq> []" using trim_keeps_graphic [of "CHR ''d''" "state_line s"] by (auto simp: is_graphic_def)
  show "state_line s \<noteq> ''version=1''" by (simp add: state_line_def)
qed

lemma parse_state_lines_render:
  "\<forall>s \<in> set ss. state_ok s \<Longrightarrow>
   parse_state_lines n (lines (concat (map (\<lambda>s. state_line s @ [CHR 0x0A]) ss))) (True, acc) = Inr (True, acc @ ss)"
proof (induction ss arbitrary: n acc)
  case (Cons s ss)
  then show ?case
    by (simp add: lines_append_line strip_cr_id state_line_plain parse_state_line_render)
qed simp

text \<open>
  The hotplug state file. Reading the text written for a list of states whose device ids are
  valid and whose fields are texts gives exactly these states, sorted by device id, whatever
  characters the fields contain.
\<close>
theorem hotplug_state_roundtrip:
  assumes "\<forall>s \<in> set ss. state_ok s"
  shows "parse_hotplug_subscriber_state (render_hotplug_subscriber_state ss) = Inr (sort_key hs_device_id ss)"
proof -
  let ?body = "concat (map (\<lambda>s. state_line s @ [CHR 0x0A]) (sort_key hs_device_id ss))"
  have "lines (render_hotplug_subscriber_state ss) = ''version=1'' # lines ?body"
    using lines_append_line [of "''version=1''" ?body] strip_cr_id [of "''version=1''"]
    by (simp add: render_hotplug_subscriber_state_def)
  moreover have "trim ''version=1'' \<noteq> []"
    using trim_keeps_graphic [of "CHR ''v''" "''version=1''"] by (auto simp: is_graphic_def)
  ultimately show ?thesis using assms
    by (simp add: parse_hotplug_subscriber_state_def parse_state_lines_render sort_key_id_if_sorted)
qed

subsection \<open>What a scan publishes and keeps\<close>

definition previous_health :: "hotplug_device_state option \<Rightarrow> device_health" where
  "previous_health p = (case p of Some s \<Rightarrow> hs_health s | None \<Rightarrow> Disconnected)"

abbreviation event_key :: "publish_report \<Rightarrow> device_id \<times> hotplug_action" where
  "event_key r \<equiv> (he_device_id (pr_event r), he_action (pr_event r))"

definition candidate_transitions ::
  "(device_id \<Rightarrow> hotplug_device_state option) \<Rightarrow> device_candidate list \<Rightarrow> (device_id \<times> hotplug_action) list" where
  "candidate_transitions old cs = List.map_filter (\<lambda>c. map_option (Pair (dc_id c))
     (hotplug_action_for_transition (old (dc_id c) \<noteq> None) (previous_health (old (dc_id c))) (dc_health c))) cs"

lemma publish_subscriber_event_ok:
  assumes "publish_subscriber_event publish sink clock prefix d h a reason events w = (Inr events', w')"
  shows "\<exists>r. events' = events @ [r] \<and> event_key r = (d, a)"
proof -
  have "he_device_id ev = d \<and> he_action ev = a"
    if "hotplug_apply ((machine_new d)\<lparr>hm_health := h\<rparr>) a reason = (Inr ev, m)" for ev m
    using that by (auto simp: hotplug_apply_def machine_new_def res_bind_Inr split: sum.splits elim: res_bind.elims)
  then show ?thesis using assms
    by (auto simp: publish_subscriber_event_def publish_hotplug_event_def split: sum.splits prod.splits)
qed

lemma scan_candidates_ok:
  assumes "scan_candidates publish sink clock prefix old cs (seen, state, events) w = (Inr (seen', state', events'), w')"
  shows "seen' = seen \<union> dc_id ` set cs \<and> state' = state @ map candidate_state cs \<and>
    map event_key events' = map event_key events @ candidate_transitions (bt_get old) cs"
  using assms
proof (induction cs arbitrary: seen state events w)
  case Nil
  then show ?case by (simp add: candidate_transitions_def List.map_filter_def)
next
  case (Cons c cs)
  show ?case
  proof (cases "hotplug_action_for_transition (bt_get old (dc_id c) \<noteq> None) (previous_health (bt_get old (dc_id c))) (dc_health c)")
    case None
    then show ?thesis using Cons.prems Cons.IH [of "insert (dc_id c) seen" "state @ [candidate_state c]" events w]
      by (simp add: previous_health_def candidate_transitions_def map_filter_simps)
  next
    case (Some a)
    obtain res w1 where p: "publish_subscriber_event publish sink clock prefix (dc_id c) (previous_health (bt_get old (dc_id c))) a
        (transition_reason (previous_health (bt_get old (dc_id c))) (dc_health c)) events w = (res, w1)" by (rule prod.exhaust)
    then obtain events1 where e: "res = Inr events1"
      using Cons.prems Some by (cases res) (simp_all add: previous_health_def)
    obtain r where r: "events1 = events @ [r]" "event_key r = (dc_id c, a)"
      using publish_subscriber_event_ok p e by blast
    show ?thesis using Cons.prems Some p e r Cons.IH [of "insert (dc_id c) seen" "state @ [candidate_state c]" events1 w1]
      by (simp add: previous_health_def candidate_transitions_def map_filter_simps)
  qed
qed

lemma scan_removed_ok:
  assumes "scan_removed publish sink clock prefix seen ps (state, events) w = (Inr (state', events'), w')"
  shows "state' = state @ map (hs_health_update (\<lambda>_. Disconnected)) (filter (\<lambda>p. hs_device_id p \<notin> seen) ps) \<and>
    map event_key events' = map event_key events @ map (\<lambda>p. (hs_device_id p, Remove))
      (filter (\<lambda>p. hs_device_id p \<notin> seen \<and> hs_health p \<noteq> Disconnected) ps)"
  using assms
proof (induction ps arbitrary: state events w)
  case (Cons p ps)
  show ?case
  proof (cases "hs_device_id p \<in> seen \<or> hs_health p = Disconnected")
    case True
    then show ?thesis using Cons.prems Cons.IH [of state events w]
        Cons.IH [of "state @ [p\<lparr>hs_health := Disconnected\<rparr>]" events w]
      by (cases "hs_device_id p \<in> seen") simp_all
  next
    case False
    obtain res w1 where r: "publish_subscriber_event publish sink clock prefix (hs_device_id p) (hs_health p) Remove
        ''manifest candidate removed'' events w = (res, w1)" by (rule prod.exhaust)
    then obtain events1 where e: "res = Inr events1" using Cons.prems False by (cases res) simp_all
    obtain x where "events1 = events @ [x]" "event_key x = (hs_device_id p, Remove)"
      using publish_subscriber_event_ok r e by blast
    then show ?thesis using Cons.prems False r e
        Cons.IH [of "state @ [p\<lparr>hs_health := Disconnected\<rparr>]" events1 w1] by simp
  qed
qed simp

text \<open>A scan that meets nothing new publishes nothing, whatever bus and sink would do.\<close>

lemma scan_candidates_quiet:
  assumes "\<forall>c \<in> set cs. \<exists>p. bt_get old (dc_id c) = Some p \<and> hs_health p = dc_health c"
  shows "scan_candidates publish sink clock prefix old cs (seen, state, events) w =
    (Inr (seen \<union> dc_id ` set cs, state @ map candidate_state cs, events), w)"
  using assms
proof (induction cs arbitrary: seen state)
  case (Cons c cs)
  then obtain p where "bt_get old (dc_id c) = Some p" "hs_health p = dc_health c" by auto
  then show ?case using Cons by (simp add: hotplug_action_for_transition_def)
qed simp

lemma scan_removed_quiet:
  assumes "\<forall>p \<in> set ps. hs_device_id p \<in> seen \<or> hs_health p = Disconnected"
  shows "scan_removed publish sink clock prefix seen ps (state, events) w =
    (Inr (state @ filter (\<lambda>p. hs_device_id p \<notin> seen) ps, events), w)"
  using assms by (induction ps arbitrary: state) (auto simp: Let_def)

lemma previous_states_get:
  "bt_get (previous_states ps) d = find (\<lambda>p. hs_device_id p = d) (rev ps)"
  by (induction ps rule: rev_induct) (simp_all add: previous_states_def)

lemma find_distinct:
  "distinct (map f xs) \<Longrightarrow> x \<in> set xs \<Longrightarrow> find (\<lambda>y. f y = f x) xs = Some x"
  by (induction xs) auto

lemma find_rev_distinct:
  assumes "distinct (map f xs)"
  shows "find (\<lambda>y. f y = k) (rev xs) = find (\<lambda>y. f y = k) xs"
proof (cases "k \<in> f ` set xs")
  case True
  then obtain x where "x \<in> set xs" "k = f x" by blast
  then show ?thesis using find_distinct [of f xs x] find_distinct [of f "rev xs" x] assms
    by (simp flip: rev_map)
next
  case False
  then have "find (\<lambda>y. f y = k) ys = None" if "set ys = set xs" for ys using that by (auto simp: find_None_iff)
  then show ?thesis by simp
qed

lemma scan_ok:
  assumes "run_hotplug_subscriber_once publish sink clock cs ps prefix w = (Inr rep, w')"
    and "distinct (map hs_device_id ps)"
  shows "map event_key (sr_events_published rep) =
      candidate_transitions (\<lambda>d. find (\<lambda>p. hs_device_id p = d) ps) (sort_key dc_id cs) @
      map (\<lambda>p. (hs_device_id p, Remove))
        (filter (\<lambda>p. hs_device_id p \<notin> dc_id ` set cs \<and> hs_health p \<noteq> Disconnected) ps) \<and>
    sr_state rep = sort_key hs_device_id (map candidate_state (sort_key dc_id cs) @
      map (hs_health_update (\<lambda>_. Disconnected)) (filter (\<lambda>p. hs_device_id p \<notin> dc_id ` set cs) ps))"
proof -
  obtain seen st ev w1 where a: "scan_candidates publish sink clock prefix (previous_states ps) (sort_key dc_id cs) ({}, [], []) w =
      (Inr (seen, st, ev), w1)"
    using assms(1) by (auto simp: run_hotplug_subscriber_once_def split: sum.splits prod.splits)
  then obtain st' ev' where b: "scan_removed publish sink clock prefix seen ps (st, ev) w1 = (Inr (st', ev'), w')"
      and rep: "rep = scan_report cs st' ev'"
    using assms(1) by (auto simp: run_hotplug_subscriber_once_def split: sum.splits prod.splits)
  have "bt_get (previous_states ps) = (\<lambda>d. find (\<lambda>p. hs_device_id p = d) ps)"
    using find_rev_distinct [OF assms(2)] by (simp add: fun_eq_iff previous_states_get)
  then show ?thesis using scan_candidates_ok [OF a] scan_removed_ok [OF b]
    by (simp add: rep scan_report_def)
qed

lemma sort_key_unique:
  assumes "distinct (map f xs)" and "distinct (map f ys)" and "set xs = set ys"
  shows "sort_key f xs = sort_key f ys"
proof (rule map_sorted_distinct_set_unique [where f = f])
  show "inj_on f (set (sort_key f xs) \<union> set (sort_key f ys))" using assms by (simp add: distinct_map)
  show "sorted (map f (sort_key f xs))" "sorted (map f (sort_key f ys))" by simp_all
  show "distinct (map f (sort_key f xs))" "distinct (map f (sort_key f ys))"
    using assms by (simp_all add: distinct_map)
  show "set (sort_key f xs) = set (sort_key f ys)" using assms(3) by simp
qed

definition settled :: "device_candidate list \<Rightarrow> hotplug_device_state list \<Rightarrow> bool" where
  "settled cs state \<longleftrightarrow> distinct (map hs_device_id state) \<and> sorted (map hs_device_id state) \<and>
     candidate_state ` set cs \<subseteq> set state \<and>
     (\<forall>p \<in> set state. hs_device_id p \<in> dc_id ` set cs \<or> hs_health p = Disconnected)"

lemma candidate_state_id [simp]: "hs_device_id (candidate_state c) = dc_id c" "hs_health (candidate_state c) = dc_health c"
  by (simp_all add: candidate_state_def)

lemma merged_distinct:
  assumes "distinct (map dc_id cs)" and "distinct (map hs_device_id ps)"
    and "map hs_device_id old = map hs_device_id (filter (\<lambda>p. hs_device_id p \<notin> dc_id ` set cs) ps)"
  shows "distinct (map hs_device_id (map candidate_state (sort_key dc_id cs) @ old))"
proof -
  have "map hs_device_id (map candidate_state (sort_key dc_id cs) @ old) =
      map dc_id (sort_key dc_id cs) @ map hs_device_id (filter (\<lambda>p. hs_device_id p \<notin> dc_id ` set cs) ps)"
    using assms(3) by simp
  moreover have "distinct (map dc_id (sort_key dc_id cs))" using assms(1) by (simp add: distinct_map)
  moreover have "distinct (map hs_device_id (filter (\<lambda>p. hs_device_id p \<notin> dc_id ` set cs) ps))"
    using assms(2) by (rule distinct_map_filter)
  moreover have "set (map dc_id (sort_key dc_id cs)) \<inter>
      set (map hs_device_id (filter (\<lambda>p. hs_device_id p \<notin> dc_id ` set cs) ps)) = {}"
    by force
  ultimately show ?thesis by (simp only: distinct_append)
qed

text \<open>A scan over a settled state is quiet and keeps the state.\<close>

lemma settled_quiet:
  assumes "settled cs state" and "distinct (map dc_id cs)" and "request_id_parse prefix = Inr q"
  shows "run_hotplug_subscriber_once publish sink clock cs state prefix w = (Inr (scan_report cs state []), w)"
proof -
  have get: "bt_get (previous_states state) (dc_id c) = Some (candidate_state c)" if "c \<in> set cs" for c
    using that assms(1) find_distinct [of hs_device_id "rev state" "candidate_state c"]
    by (auto simp: previous_states_get settled_def simp flip: rev_map)
  let ?new = "map candidate_state (sort_key dc_id cs) @ filter (\<lambda>p. hs_device_id p \<notin> dc_id ` set cs) state"
  have "run_hotplug_subscriber_once publish sink clock cs state prefix w = (Inr (scan_report cs ?new []), w)"
    using assms(1) get
    by (simp add: run_hotplug_subscriber_once_def assms(3) scan_candidates_quiet scan_removed_quiet settled_def)
  moreover have "sort_key hs_device_id ?new = sort_key hs_device_id state"
  proof (rule sort_key_unique)
    show "distinct (map hs_device_id ?new)" using assms(1,2) by (intro merged_distinct) (auto simp: settled_def)
    show "distinct (map hs_device_id state)" using assms(1) by (simp add: settled_def)
    have inj: "inj_on hs_device_id (set state)" and sub: "candidate_state ` set cs \<subseteq> set state"
      using assms(1) by (simp_all add: settled_def distinct_map)
    have "p \<in> set ?new" if p: "p \<in> set state" for p
    proof (cases "hs_device_id p \<in> dc_id ` set cs")
      case True
      then obtain c where c: "c \<in> set cs" "hs_device_id p = hs_device_id (candidate_state c)" by auto
      then have "p = candidate_state c" using inj_onD [OF inj c(2) p] sub by blast
      then show ?thesis using c(1) by simp
    qed (use p in simp)
    then show "set ?new = set state" using sub by auto
  qed
  ultimately show ?thesis by (simp add: scan_report_def)
qed

lemma scan_settles:
  assumes "run_hotplug_subscriber_once publish sink clock cs ps prefix w = (Inr rep, w')"
    and "distinct (map dc_id cs)" and "distinct (map hs_device_id ps)"
  shows "settled cs (sr_state rep)" and "set (map hs_device_id (sr_state rep)) = dc_id ` set cs \<union> hs_device_id ` set ps"
proof -
  let ?old = "filter (\<lambda>p. hs_device_id p \<notin> dc_id ` set cs) ps"
  let ?new = "map candidate_state (sort_key dc_id cs) @ map (hs_health_update (\<lambda>_. Disconnected)) ?old"
  have st: "sr_state rep = sort_key hs_device_id ?new" using scan_ok [OF assms(1,3)] by simp
  have "distinct (map hs_device_id ?new)" using assms(2,3) by (rule merged_distinct) simp
  then have "distinct (map hs_device_id (sr_state rep))" unfolding st by (simp only: distinct_map distinct_sort set_sort)
  then show "settled cs (sr_state rep)" unfolding settled_def by (auto simp: st)
  show "set (map hs_device_id (sr_state rep)) = dc_id ` set cs \<union> hs_device_id ` set ps"
  proof -
    have "hs_device_id ` set ?old = hs_device_id ` set ps - dc_id ` set cs" by auto
    then show ?thesis unfolding st by (simp add: image_Un image_image)
  qed
qed


definition sample_candidate :: "string \<Rightarrow> device_health \<Rightarrow> device_candidate" where
  "sample_candidate i h =
     \<lparr>dc_identity = \<lparr>di_id = DeviceId i, di_logical_name = ''a'', di_device_class = ''a'', di_bus = Usb,
        di_adapter_id = AdapterId ''a'', di_trust = TrustManifest\<rparr>,
      dc_vendor_id = None, dc_product_id = None, dc_serial = None, dc_protocol = None,
      dc_health = h, dc_source_path = ''m'', dc_handle_granted = False, dc_rejected_reason = None\<rparr>"

definition sample_previous :: "hotplug_device_state list" where
  "sample_previous = [\<lparr>hs_device_id = DeviceId ''b'', hs_bus = ''usb'', hs_health = Available, hs_source_path = ''m''\<rparr>]"

lemma sample_ids:
  "request_id_parse ''r'' = Inr (RequestId ''r'')"
  "request_id_parse ''r-1'' = Inr (RequestId ''r-1'')" "request_id_parse ''r-2'' = Inr (RequestId ''r-2'')"
  "event_id_parse ''hotplug:a:r-1'' = Inr (EventId ''hotplug:a:r-1'')"
  "event_id_parse ''hotplug:b:r-2'' = Inr (EventId ''hotplug:b:r-2'')"
  by (simp_all add: id_parse_iff stable_id_def MAX_ID_LEN_def is_stable_id_char_def is_ascii_alphanumeric_def is_ascii_digit_def)

lemma sample_numbers: "nat_str 1 = ''1''" "nat_str 2 = ''2''" "nat_str (Suc 0) = ''1''" "nat_str (Suc (Suc 0)) = ''2''"
  by (simp_all add: nat_str.simps digit_char_def char_of_def bit_iff_odd)

lemma sample_scan:
  "\<not> is_err (fst (run_hotplug_subscriber_once (\<lambda>e b. bus_publish b e) memory_sink (\<lambda>_. (0, 0))
     [sample_candidate ''a'' Available] sample_previous ''r'' (bus_new, [])))"
  by (simp add: run_hotplug_subscriber_once_def sample_ids sample_candidate_def sample_previous_def previous_states_def
      bt_get_def hotplug_action_for_transition_def publish_subscriber_event_def publish_hotplug_event_def
      hotplug_apply_def hotplug_next_def hotplug_topic_ok machine_new_def sample_numbers candidate_state_def
      bus_publish_def im_append_def contains_event_def bus_new_def bus_with_log_def in_memory_log_new_def
      record_appended_def event_with_trace_def event_with_request_id_def event_new_def memory_sink_def Let_def)

theorem hotplug_state_roundtrip_witness:
  "parse_hotplug_subscriber_state (render_hotplug_subscriber_state sample_previous) = Inr sample_previous"
proof -
  have "trim ''b'' = ''b''" by (simp add: trim_graphic is_graphic_def)
  then have "\<forall>s \<in> set sample_previous. state_ok s"
    by (simp add: sample_previous_def state_ok_def device_id_parse_def str_bytes_def)
  then show ?thesis using hotplug_state_roundtrip [of sample_previous] by (simp add: sample_previous_def)
qed


end
