(* ===== verification/Adapter_Restart.thy ===== *)
theory Adapter_Restart
  imports Eva_Text
begin

section \<open>Restart decisions for providers (eva-adapter, restart.rs)\<close>

text \<open>
  The bounded policy calculation of the provider supervisor: exponential backoff with a deterministic
  jitter, on 32-bit counters and 64-bit delays. The signed 128-bit intermediate values are integers;
  they stay far from their bounds.
\<close>

unbundle bit_operations_syntax

datatype restart_mode = RestartNone | OnFailure | Always

record restart_config =
  rc_mode :: restart_mode
  rc_max_attempts :: u32
  rc_backoff_ms :: u64

datatype restart_outcome = StableSuccess | Failure

datatype restart_decision = NoRestart | Restart (restart_attempt: u32) (restart_delay: u64) | BudgetExhausted

definition MAX_RESTART_BACKOFF_MS :: u64 where
  "MAX_RESTART_BACKOFF_MS = 24 * 60 * 60 * 1000"

definition fnv1a64 :: "string \<Rightarrow> u64" where
  "fnv1a64 bytes = fold (\<lambda>b hash. (hash XOR of_nat (byte b)) * 0x100000001b3) bytes 0xcbf29ce484222325"

definition restart_delay_ms :: "u64 \<Rightarrow> u32 \<Rightarrow> string \<Rightarrow> u64" where
  "restart_delay_ms backoff attempt seed =
     (let exponent = min (sat_sub attempt 1) 63;
          exponential = sat_mul backoff (if unat exponent < 64 then push_bit (unat exponent) 1 else - 1);
          capped = min exponential MAX_RESTART_BACKOFF_MS;
          jitter_window = max (capped div 4) 1;
          span = sat_add (sat_mul jitter_window 2) 1;
          jitter = uint (fnv1a64 (seed @ '':'' @ nat_str (unat attempt)) mod span) - uint jitter_window
      in word_of_int (max 0 (min (uint MAX_RESTART_BACKOFF_MS) (uint capped + jitter))))"

definition decide_restart :: "restart_config \<Rightarrow> u32 \<Rightarrow> restart_outcome \<Rightarrow> string \<Rightarrow> restart_decision" where
  "decide_restart config consumed outcome seed =
     (if outcome = StableSuccess then NoRestart
      else if rc_mode config \<noteq> OnFailure \<and> rc_mode config \<noteq> Always then NoRestart
      else if consumed \<ge> rc_max_attempts config then BudgetExhausted
      else (let attempt = sat_add consumed 1
            in Restart attempt (restart_delay_ms (rc_backoff_ms config) attempt seed)))"

definition due_at_ms :: "u128 \<Rightarrow> u64 \<Rightarrow> u128" where
  "due_at_ms now_ms delay_ms = sat_add now_ms (ucast delay_ms)"

subsection \<open>The delay\<close>

text \<open>The delay that the policy means, without saturation, shifts and wrap-around.\<close>

definition base_delay :: "restart_config \<Rightarrow> nat \<Rightarrow> nat" where
  "base_delay config n = min (unat (rc_backoff_ms config) * 2 ^ n) 86400000"

lemma unat_max_backoff: "unat MAX_RESTART_BACKOFF_MS = 86400000"
  by (simp add: MAX_RESTART_BACKOFF_MS_def)

lemma capped_exact:
  fixes backoff :: u64 and attempt :: u32
  assumes "unat attempt = Suc n"
  defines "exponent \<equiv> min (sat_sub attempt 1) 63 :: u32"
  shows "unat (min (sat_mul backoff (if unat exponent < 64 then push_bit (unat exponent) 1 else - 1))
           MAX_RESTART_BACKOFF_MS) = min (unat backoff * 2 ^ n) 86400000"
proof -
  have e: "unat exponent = min n 63" unfolding exponent_def
    using assms(1) by (simp add: min_def word_le_nat_alt unat_sat_sub)
  have p: "unat (push_bit (unat exponent) 1 :: u64) = 2 ^ min n 63"
  proof -
    have "(2 :: nat) ^ min n 63 < 2 ^ 64" by (rule power_strict_increasing) simp_all
    then have "unat (of_nat (2 ^ min n 63) :: u64) = 2 ^ min n 63"
      by (simp only: unsigned_of_nat) (simp add: take_bit_nat_eq_self)
    then show ?thesis by (simp add: e push_bit_eq_mult)
  qed
  have "unat (sat_mul backoff (if unat exponent < 64 then push_bit (unat exponent) 1 else - 1)) =
      min (unat backoff * 2 ^ min n 63) (2 ^ 64 - 1)"
  proof -
    have "min n 63 < 64" by linarith
    then show ?thesis using p
      by (simp add: e unat_sat_mul)
  qed
  then have "unat (min (sat_mul backoff (if unat exponent < 64 then push_bit (unat exponent) 1 else - 1))
           MAX_RESTART_BACKOFF_MS) = min (min (unat backoff * 2 ^ min n 63) (2 ^ 64 - 1)) 86400000"
    by (simp add: min_def word_le_nat_alt unat_max_backoff)
  also have "\<dots> = min (unat backoff * 2 ^ n) 86400000"
  proof (cases "n \<le> 63 \<or> backoff = 0")
    case True
    then show ?thesis by (auto simp: min_def)
  next
    case False
    then have "1 \<le> unat backoff" by (simp add: Suc_leI unat_gt_0)
    then have big: "2 ^ 63 \<le> unat backoff * 2 ^ k" if "63 \<le> k" for k
      using mult_le_mono [of 1 "unat backoff" "2 ^ 63" "2 ^ k"] power_increasing [OF that, of "2 :: nat"] by simp
    have "min n 63 = 63" using False by simp
    then show ?thesis using big [of 63] big [of n] False by simp
  qed
  finally show ?thesis .
qed

lemma unat_word_of_small: "0 \<le> x \<Longrightarrow> x < 2 ^ 64 \<Longrightarrow> unat (word_of_int x :: u64) = nat x"
  by (simp add: unat_eq_nat_uint uint_word_of_int_eq take_bit_int_eq_self)

lemma clamp_near:
  fixes c w j :: int
  assumes "0 \<le> c" and "c \<le> m" and "0 \<le> j" and "j \<le> 2 * w"
  shows "0 \<le> max 0 (min m (c + (j - w)))" and "max 0 (min m (c + (j - w))) \<le> m"
    and "c - w \<le> max 0 (min m (c + (j - w)))" and "max 0 (min m (c + (j - w))) \<le> c + w"
  using assms by linarith+

lemma restart_delay_near:
  fixes backoff :: u64
  assumes "unat attempt = Suc n"
  defines "base \<equiv> min (unat backoff * 2 ^ n) 86400000"
  shows "unat (restart_delay_ms backoff attempt seed) \<le> 86400000 \<and>
    base - max (base div 4) 1 \<le> unat (restart_delay_ms backoff attempt seed) \<and>
    unat (restart_delay_ms backoff attempt seed) \<le> base + max (base div 4) 1"
proof -
  define capped where "capped = min (sat_mul backoff (if unat (min (sat_sub attempt 1) 63) < 64
    then push_bit (unat (min (sat_sub attempt 1) 63)) 1 else - 1)) MAX_RESTART_BACKOFF_MS"
  define w where "w = max (capped div 4) (1 :: u64)"
  define span where "span = sat_add (sat_mul w 2) 1"
  define h where "h = fnv1a64 (seed @ '':'' @ nat_str (unat attempt)) mod span"
  have c: "unat capped = base" unfolding capped_def base_def by (rule capped_exact [OF assms(1)])
  have le: "base \<le> 86400000" by (simp add: base_def)
  have wn: "unat w = max (base div 4) 1"
    unfolding w_def by (simp add: max_def word_le_nat_alt unat_div c)
  have "unat w \<le> 21600000" using le wn by linarith
  then have "unat span = 2 * unat w + 1" by (simp add: span_def unat_sat_add unat_sat_mul)
  then have hn: "unat h \<le> 2 * unat w"
    unfolding h_def by (simp add: unat_mod)
  define x where "x = max 0 (min (uint MAX_RESTART_BACKOFF_MS) (uint capped + (uint h - uint w)))"
  have d: "restart_delay_ms backoff attempt seed = word_of_int x"
    by (simp only: restart_delay_ms_def Let_def capped_def w_def span_def h_def x_def)
  have "uint MAX_RESTART_BACKOFF_MS = 86400000" by (simp add: MAX_RESTART_BACKOFF_MS_def)
  moreover have "uint capped = int base" using c by (metis uint_nat)
  moreover have "0 \<le> uint h" "uint h \<le> 2 * uint w" using hn uint_nat [of h] uint_nat [of w] by linarith+
  ultimately have near: "0 \<le> x" "x \<le> 86400000" "int base - uint w \<le> x" "x \<le> int base + uint w"
    using clamp_near [of "int base" 86400000 "uint h" "uint w"] le by (simp_all add: x_def)
  have "unat (word_of_int x :: u64) = nat x" by (rule unat_word_of_small) (use near in simp_all)
  moreover have "uint w = int (max (base div 4) 1)" using wn by (metis uint_nat)
  ultimately show ?thesis using near unfolding d by linarith
qed

subsection \<open>A crash loop\<close>

lemma decide_restart_iff:
  "decide_restart config n outcome seed = Restart a d \<longleftrightarrow>
     outcome = Failure \<and> rc_mode config \<noteq> RestartNone \<and> n < rc_max_attempts config \<and>
     a = n + 1 \<and> d = restart_delay_ms (rc_backoff_ms config) a seed"
proof -
  have "sat_add n 1 = n + 1" if "n < rc_max_attempts config"
  proof -
    have "unat n + 1 < 2 ^ 32" using that unat_bound [of "rc_max_attempts config"] by (simp add: word_less_nat_alt)
    then show ?thesis by (simp add: sat_add_def)
  qed
  then show ?thesis
    by (cases outcome; cases "rc_mode config") (auto simp: decide_restart_def Let_def not_le)
qed

lemma restart_counts:
  assumes "decide_restart config n outcome seed = Restart a d"
  shows "unat a = Suc (unat n)" and "unat n < unat (rc_max_attempts config)"
proof -
  have n: "n < rc_max_attempts config" "a = n + 1" using assms by (simp_all add: decide_restart_iff)
  then show "unat n < unat (rc_max_attempts config)" by (simp add: word_less_nat_alt)
  then have "unat n + 1 < 2 ^ 32" using unat_bound [of "rc_max_attempts config"] by simp
  then show "unat a = Suc (unat n)" using n(2) by (simp add: unat_word_ariths)
qed

text \<open>
  A provider that fails after every start: the supervisor stores the attempt of each decision and
  asks again with it. The delays are collected until no restart follows.
\<close>

function crash_loop :: "restart_config \<Rightarrow> string \<Rightarrow> u32 \<Rightarrow> u64 list \<times> restart_decision" where
  "crash_loop config seed n = (case decide_restart config n Failure seed of
     Restart a d \<Rightarrow> apfst (Cons d) (crash_loop config seed a)
   | decision \<Rightarrow> ([], decision))"
  by pat_completeness auto
termination
proof (relation "measure (\<lambda>(config, seed, n). unat (rc_max_attempts config) - unat n)")
  fix config seed n a d
  assume "decide_restart config n Failure seed = Restart a d"
  note restart_counts [OF this]
  then show "((config, seed, a), config, seed, n) \<in>
      measure (\<lambda>(config, seed, n). unat (rc_max_attempts config) - unat n)"
    by simp
qed simp

declare crash_loop.simps [simp del]

lemma crash_loop_exact:
  assumes "rc_mode config \<noteq> RestartNone"
  shows "length (fst (crash_loop config seed n)) = unat (rc_max_attempts config) - unat n \<and>
    snd (crash_loop config seed n) = BudgetExhausted \<and>
    (\<forall>k < length (fst (crash_loop config seed n)).
       (let base = base_delay config (unat n + k); d = unat (fst (crash_loop config seed n) ! k)
        in d \<le> 86400000 \<and> base - max (base div 4) 1 \<le> d \<and> d \<le> base + max (base div 4) 1))"
  using assms
proof (induction config seed n rule: crash_loop.induct)
  case (1 config seed n)
  show ?case
  proof (cases "n < rc_max_attempts config")
    case False
    then have "rc_max_attempts config \<le> n" by simp
    then have "crash_loop config seed n = ([], BudgetExhausted)" using "1.prems"
      by (cases "rc_mode config") (simp_all add: crash_loop.simps [of config seed n] decide_restart_def)
    then show ?thesis using False by (simp add: not_less word_le_nat_alt)
  next
    case True
    define a where "a = n + 1"
    define d where "d = restart_delay_ms (rc_backoff_ms config) a seed"
    have dec: "decide_restart config n Failure seed = Restart a d"
      using True "1.prems" by (simp add: decide_restart_iff a_def d_def)
    have run: "crash_loop config seed n = apfst (Cons d) (crash_loop config seed a)"
      by (simp add: crash_loop.simps [of config seed n] dec)
    note IH = "1.IH" [OF dec "1.prems"]
    have ua: "unat a = Suc (unat n)" "unat n < unat (rc_max_attempts config)" using restart_counts [OF dec] by simp_all
    have near: "let base = base_delay config (unat n) in unat d \<le> 86400000 \<and>
        base - max (base div 4) 1 \<le> unat d \<and> unat d \<le> base + max (base div 4) 1"
      using restart_delay_near [OF ua(1), of "rc_backoff_ms config" seed] by (simp add: base_delay_def d_def Let_def)
    show ?thesis
    proof (intro conjI allI impI)
      show "length (fst (crash_loop config seed n)) = unat (rc_max_attempts config) - unat n"
        using IH ua by (simp add: run)
      show "snd (crash_loop config seed n) = BudgetExhausted" using IH by (simp add: run)
      fix k
      assume "k < length (fst (crash_loop config seed n))"
      then show "let base = base_delay config (unat n + k); d = unat (fst (crash_loop config seed n) ! k)
          in d \<le> 86400000 \<and> base - max (base div 4) 1 \<le> d \<and> d \<le> base + max (base div 4) 1"
        using IH near ua by (cases k) (simp_all add: run Let_def)
    qed
  qed
qed

text \<open>
  C32. A provider that keeps failing is restarted exactly as often as the budget allows and then
  stopped. The loop of decisions ends, with the budget exhausted, after the attempts that were left;
  the delay before restart number \<open>k\<close> is within a quarter (and at least one millisecond) of the base
  delay doubled \<open>k\<close> times and cut at a day, and never more than a day: the saturating arithmetic, the
  cut of the exponent and the jitter change nothing else. With restarts disabled there is none, and
  a successful exit never causes one, in any mode.
\<close>
theorem restart_budget:
  "(case crash_loop config seed n of (delays, decision) \<Rightarrow>
      if rc_mode config = RestartNone then delays = [] \<and> decision = NoRestart
      else length delays = unat (rc_max_attempts config) - unat n \<and> decision = BudgetExhausted \<and>
        list_all (\<lambda>(k, d). unat d \<le> 86400000 \<and>
            base_delay config k - max (base_delay config k div 4) 1 \<le> unat d \<and>
            unat d \<le> base_delay config k + max (base_delay config k div 4) 1)
          (zip [unat n ..< unat (rc_max_attempts config)] delays)) \<and>
   decide_restart config n StableSuccess seed = NoRestart"
proof -
  have s: "decide_restart config n StableSuccess seed = NoRestart" by (simp add: decide_restart_def)
  show ?thesis
  proof (cases "rc_mode config = RestartNone")
    case True
    then have "crash_loop config seed n = ([], NoRestart)"
      by (simp add: crash_loop.simps [of config seed n] decide_restart_def)
    then show ?thesis using True s by simp
  next
    case False
    note crash_loop_exact [OF this, of seed n]
    then show ?thesis using False s
      by (auto simp: Let_def list_all_length split: prod.split)
  qed
qed

end
