(* ===== verification/Storage_Admission.thy ===== *)
theory Storage_Admission
  imports Core_Ids
begin

section \<open>Admission of provider sessions across processes (eva-storage, provider\_admission.rs)\<close>

text \<open>
  The table of time-limited reservations that bounds the concurrent sessions of a provider. A call
  takes the lock file of the adapter by exclusive creation, reads the snapshot, decides, and replaces
  the snapshot by a rename. This theory has the file format, the decisions and each call as one
  transition, with the outcomes of its file operations as the record \<open>io\<close>; the single file operations
  of calls that run at the same time, with the lock as a file, are in the theory
  Storage\_AdmissionLock. A directory maps file names to contents. The SHA-256 of the crate \<^verbatim>\<open>sha2\<close> that
  names the files is the parameter \<open>digest\<close>. Here the existence test before a read is taken to answer
  for the file that is there.
\<close>

type_synonym admission_files = "string \<Rightarrow> string option"

record reservation =
  rv_reservation_id :: string
  rv_session_id :: string
  rv_expires_at_ms :: u128

record admission_snapshot =
  sn_adapter_id :: adapter_id
  sn_max_concurrency :: nat
  sn_reservations :: "reservation list"

subsection \<open>The file format\<close>

definition reservation_line :: "reservation \<Rightarrow> string" where
  "reservation_line r = ''reservation='' @ join [CHR 0x09]
     [rv_reservation_id r, rv_session_id r, nat_str (unat (rv_expires_at_ms r))]"

definition encode_snapshot :: "admission_snapshot \<Rightarrow> string" where
  "encode_snapshot s =
     ''version=1'' @ [CHR 0x0A] @ ''max='' @ nat_str (sn_max_concurrency s) @ [CHR 0x0A] @
     concat (map (\<lambda>r. reservation_line r @ [CHR 0x0A]) (sn_reservations s))"

definition decode_reservation :: "string \<Rightarrow> reservation res" where
  "decode_reservation v = (case split_on CHR 0x09 v of
     [p0, p1, p2] \<Rightarrow>
       (case parse_unsigned (2 ^ 128) p2 of
          Some n \<Rightarrow> Inr \<lparr>rv_reservation_id = p0, rv_session_id = p1, rv_expires_at_ms = of_nat n\<rparr>
        | None \<Rightarrow> Inl (err_invalid_argument ''invalid admission expiry''))
   | _ \<Rightarrow> Inl (err_invalid_argument ''invalid admission reservation''))"

fun decode_lines :: "string list \<Rightarrow> nat \<times> reservation list \<Rightarrow> (nat \<times> reservation list) res" where
  "decode_lines [] acc = Inr acc"
| "decode_lines (line # rest) (m, rs) = (case strip_prefix ''max='' line of
     Some v \<Rightarrow>
       (case parse_unsigned (2 ^ 64) v of
          Some n \<Rightarrow> decode_lines rest (n, rs)
        | None \<Rightarrow> Inl (err_invalid_argument ''invalid admission max''))
   | None \<Rightarrow>
       (case strip_prefix ''reservation='' line of
          Some v \<Rightarrow> res_bind (decode_reservation v) (\<lambda>r. decode_lines rest (m, rs @ [r]))
        | None \<Rightarrow> decode_lines rest (m, rs)))"

definition decode_snapshot :: "adapter_id \<Rightarrow> string \<Rightarrow> admission_snapshot res" where
  "decode_snapshot a text = res_bind (decode_lines (lines text) (0, [])) (\<lambda>(m, rs).
     Inr \<lparr>sn_adapter_id = a, sn_max_concurrency = m, sn_reservations = rs\<rparr>)"

subsection \<open>Files and lock\<close>

datatype open_attempt = LockCreated | LockExists | LockFails string

datatype admission_write =
    CreateFails string
  | WriteFails string string
  | RenameFails string
  | Published

record admission_io =
  ai_lock :: "nat \<Rightarrow> open_attempt"
  ai_read_error :: "string option"
  ai_write :: admission_write

fun lock_loop :: "(nat \<Rightarrow> open_attempt) \<Rightarrow> nat \<Rightarrow> nat \<Rightarrow> unit res" where
  "lock_loop attempt i 0 = Inl (err_timeout ''provider admission lock acquisition timed out'')"
| "lock_loop attempt i (Suc k) = (case attempt i of
     LockCreated \<Rightarrow> Inr ()
   | LockExists \<Rightarrow> lock_loop attempt (Suc i) k
   | LockFails e \<Rightarrow> Inl (with_context (err_internal ''acquire provider admission lock'') ''error'' e))"

definition acquire_lock :: "admission_io \<Rightarrow> unit res" where
  "acquire_lock io = lock_loop (ai_lock io) 0 200"

definition admission_path :: "(string \<Rightarrow> string) \<Rightarrow> adapter_id \<Rightarrow> string" where
  "admission_path digest a = digest (adapter_id_str a) @ ''.admission''"

definition admission_tmp :: "(string \<Rightarrow> string) \<Rightarrow> adapter_id \<Rightarrow> string" where
  "admission_tmp digest a = digest (adapter_id_str a) @ ''.admission.tmp''"

definition read_snapshot ::
  "(string \<Rightarrow> string) \<Rightarrow> admission_io \<Rightarrow> admission_files \<Rightarrow> adapter_id \<Rightarrow> admission_snapshot res" where
  "read_snapshot digest io fs a = (case fs (admission_path digest a) of
     None \<Rightarrow> Inr \<lparr>sn_adapter_id = a, sn_max_concurrency = 0, sn_reservations = []\<rparr>
   | Some text \<Rightarrow>
       (case ai_read_error io of
          Some e \<Rightarrow> Inl (with_context (err_internal ''read provider admission'') ''error'' e)
        | None \<Rightarrow> decode_snapshot a text))"

definition write_snapshot ::
  "(string \<Rightarrow> string) \<Rightarrow> admission_io \<Rightarrow> admission_files \<Rightarrow> adapter_id \<Rightarrow> admission_snapshot \<Rightarrow>
     unit res \<times> admission_files" where
  "write_snapshot digest io fs a s = (let tmp = admission_tmp digest a in
     case ai_write io of
       CreateFails e \<Rightarrow> (Inl (with_context (err_internal ''write provider admission'') ''error'' e), fs)
     | WriteFails e partial \<Rightarrow>
         (Inl (with_context (err_internal ''write provider admission'') ''error'' e), fs(tmp \<mapsto> partial))
     | RenameFails e \<Rightarrow>
         (Inl (with_context (err_internal ''publish provider admission'') ''error'' e),
          fs(tmp \<mapsto> encode_snapshot s))
     | Published \<Rightarrow> (Inr (), fs(tmp := None, admission_path digest a \<mapsto> encode_snapshot s)))"

text \<open>
  The frame of every call: lock, read, decide, and write when the decision carries a new snapshot.
\<close>

definition locked_update ::
  "(string \<Rightarrow> string) \<Rightarrow> admission_io \<Rightarrow> admission_files \<Rightarrow> adapter_id \<Rightarrow>
     (admission_snapshot \<Rightarrow> ('r \<times> admission_snapshot option) res) \<Rightarrow> 'r res \<times> admission_files" where
  "locked_update digest io fs a decide =
     (case res_bind (acquire_lock io) (\<lambda>_. res_bind (read_snapshot digest io fs a) decide) of
        Inl e \<Rightarrow> (Inl e, fs)
      | Inr (x, None) \<Rightarrow> (Inr x, fs)
      | Inr (x, Some s) \<Rightarrow>
          (case write_snapshot digest io fs a s of
             (Inl e, fs') \<Rightarrow> (Inl e, fs')
           | (Inr _, fs') \<Rightarrow> (Inr x, fs')))"

subsection \<open>The calls\<close>

definition unexpired :: "u128 \<Rightarrow> reservation list \<Rightarrow> reservation list" where
  "unexpired now rs = filter (\<lambda>r. now < rv_expires_at_ms r) rs"

definition new_reservation :: "string \<Rightarrow> u128 \<Rightarrow> u128 \<Rightarrow> reservation" where
  "new_reservation session now ttl =
     \<lparr>rv_reservation_id = session @ ''-'' @ nat_str (unat now), rv_session_id = session,
      rv_expires_at_ms = sat_add now (max ttl 1)\<rparr>"

definition reserve_decision ::
  "nat \<Rightarrow> string \<Rightarrow> u128 \<Rightarrow> u128 \<Rightarrow> admission_snapshot \<Rightarrow> (reservation \<times> admission_snapshot option) res" where
  "reserve_decision m session now ttl s =
     (let rs = unexpired now (sn_reservations s) in
      case find (\<lambda>r. rv_session_id r = session) rs of
        Some r \<Rightarrow> Inr (r, None)
      | None \<Rightarrow>
          if length rs \<ge> m
          then Inl (with_context (with_retryable
                 (err_unavailable ''provider concurrency limit is exhausted'') True)
                 ''provider_code'' ''provider_concurrency_limited'')
          else (let r = new_reservation session now ttl
                in Inr (r, Some (s\<lparr>sn_max_concurrency := m, sn_reservations := rs @ [r]\<rparr>))))"

definition reserve ::
  "(string \<Rightarrow> string) \<Rightarrow> admission_io \<Rightarrow> admission_files \<Rightarrow> adapter_id \<Rightarrow> nat \<Rightarrow> string \<Rightarrow> u128 \<Rightarrow> u128 \<Rightarrow>
     reservation res \<times> admission_files" where
  "reserve digest io fs a m session now ttl =
     (if m = 0 \<or> session = [] then (Inl (err_invalid_argument ''provider admission reservation is invalid''), fs)
      else locked_update digest io fs a (reserve_decision m session now ttl))"

definition release_decision :: "string \<Rightarrow> admission_snapshot \<Rightarrow> (unit \<times> admission_snapshot option) res" where
  "release_decision session s =
     Inr ((), Some (s\<lparr>sn_reservations := filter (\<lambda>r. rv_session_id r \<noteq> session) (sn_reservations s)\<rparr>))"

definition release ::
  "(string \<Rightarrow> string) \<Rightarrow> admission_io \<Rightarrow> admission_files \<Rightarrow> adapter_id \<Rightarrow> string \<Rightarrow> unit res \<times> admission_files" where
  "release digest io fs a session = locked_update digest io fs a (release_decision session)"

definition owned :: "string \<Rightarrow> string \<Rightarrow> reservation \<Rightarrow> bool" where
  "owned rid session r \<longleftrightarrow> rv_reservation_id r = rid \<and> rv_session_id r = session"

fun remove_first :: "('a \<Rightarrow> bool) \<Rightarrow> 'a list \<Rightarrow> 'a list" where
  "remove_first p [] = []"
| "remove_first p (x # xs) = (if p x then xs else x # remove_first p xs)"

fun update_first :: "('a \<Rightarrow> bool) \<Rightarrow> ('a \<Rightarrow> 'a) \<Rightarrow> 'a list \<Rightarrow> 'a list" where
  "update_first p f [] = []"
| "update_first p f (x # xs) = (if p x then f x # xs else x # update_first p f xs)"

definition release_owned_decision ::
  "string \<Rightarrow> string \<Rightarrow> admission_snapshot \<Rightarrow> (unit \<times> admission_snapshot option) res" where
  "release_owned_decision rid session s =
     (if find (owned rid session) (sn_reservations s) = None then Inl (err_conflict ''provider admission reservation is not owned'')
      else Inr ((), Some (s\<lparr>sn_reservations := remove_first (owned rid session) (sn_reservations s)\<rparr>)))"

definition release_owned ::
  "(string \<Rightarrow> string) \<Rightarrow> admission_io \<Rightarrow> admission_files \<Rightarrow> adapter_id \<Rightarrow> string \<Rightarrow> string \<Rightarrow>
     unit res \<times> admission_files" where
  "release_owned digest io fs a rid session = locked_update digest io fs a (release_owned_decision rid session)"

definition renew_decision ::
  "string \<Rightarrow> string \<Rightarrow> u128 \<Rightarrow> u128 \<Rightarrow> admission_snapshot \<Rightarrow> (reservation \<times> admission_snapshot option) res" where
  "renew_decision rid session now ttl s = (case find (owned rid session) (sn_reservations s) of
     None \<Rightarrow> Inl (err_conflict ''provider admission reservation is not owned'')
   | Some r \<Rightarrow>
       if rv_expires_at_ms r \<le> now
       then Inl (err_conflict ''provider admission reservation has expired'')
       else (let f = (\<lambda>r. r\<lparr>rv_expires_at_ms := sat_add now (max ttl 1)\<rparr>)
             in Inr (f r, Some (s\<lparr>sn_reservations :=
                  update_first (owned rid session) f (sn_reservations s)\<rparr>))))"

definition renew ::
  "(string \<Rightarrow> string) \<Rightarrow> admission_io \<Rightarrow> admission_files \<Rightarrow> adapter_id \<Rightarrow> string \<Rightarrow> string \<Rightarrow> u128 \<Rightarrow> u128 \<Rightarrow>
     reservation res \<times> admission_files" where
  "renew digest io fs a rid session now ttl = locked_update digest io fs a (renew_decision rid session now ttl)"

definition view_decision :: "u128 \<Rightarrow> admission_snapshot \<Rightarrow> (admission_snapshot \<times> admission_snapshot option) res" where
  "view_decision now s =
     (let s' = s\<lparr>sn_reservations := unexpired now (sn_reservations s)\<rparr> in Inr (s', Some s'))"

definition admission_view ::
  "(string \<Rightarrow> string) \<Rightarrow> admission_io \<Rightarrow> admission_files \<Rightarrow> adapter_id \<Rightarrow> u128 \<Rightarrow>
     admission_snapshot res \<times> admission_files" where
  "admission_view digest io fs a now = locked_update digest io fs a (view_decision now)"

subsection \<open>Reading back a snapshot\<close>

definition plain_field :: "string \<Rightarrow> bool" where
  "plain_field s \<longleftrightarrow> CHR 0x09 \<notin> set s \<and> CHR 0x0A \<notin> set s"

definition reservation_ok :: "reservation \<Rightarrow> bool" where
  "reservation_ok r \<longleftrightarrow> plain_field (rv_reservation_id r) \<and> plain_field (rv_session_id r)"

lemma nat_str_plain: "plain_field (nat_str n)" "CHR 0x0D \<notin> set (nat_str n)"
  using nat_str_graphic [of n] by (auto simp: plain_field_def is_graphic_def)

lemma last_digit: "last (nat_str n) \<noteq> CHR 0x0D"
  using nat_str_plain(2) [of n] last_in_set [of "nat_str n"] by (metis nat_str_not_Nil)

lemma decode_reservation_line:
  assumes "reservation_ok r"
  shows "decode_reservation (join [CHR 0x09] [rv_reservation_id r, rv_session_id r, nat_str (unat (rv_expires_at_ms r))]) = Inr r"
proof -
  let ?fs = "[rv_reservation_id r, rv_session_id r, nat_str (unat (rv_expires_at_ms r))]"
  have "split_on CHR 0x09 (join [CHR 0x09] ?fs) = ?fs"
    using assms nat_str_plain by (intro split_on_join) (auto simp: reservation_ok_def plain_field_def)
  moreover have "unat (rv_expires_at_ms r) < 2 ^ 128" using unat_bound [of "rv_expires_at_ms r"] by simp
  ultimately show ?thesis
    by (simp add: decode_reservation_def parse_unsigned_nat_str)
qed

lemma reservation_line_plain:
  assumes "reservation_ok r"
  shows "CHR 0x0A \<notin> set (reservation_line r)" and "strip_cr (reservation_line r) = reservation_line r"
proof -
  show "CHR 0x0A \<notin> set (reservation_line r)"
    using assms nat_str_plain by (auto simp: reservation_line_def reservation_ok_def plain_field_def)
  show "strip_cr (reservation_line r) = reservation_line r"
    using last_digit by (simp add: strip_cr_def reservation_line_def)
qed

lemma decode_lines_reservations:
  "\<forall>r \<in> set rs. reservation_ok r \<Longrightarrow>
   decode_lines (lines (concat (map (\<lambda>r. reservation_line r @ [CHR 0x0A]) rs))) (m, acc) = Inr (m, acc @ rs)"
proof (induction rs arbitrary: acc)
  case (Cons r rs)
  have "strip_prefix ''max='' (reservation_line r) = None" by (simp add: strip_prefix_def reservation_line_def)
  moreover have "strip_prefix ''reservation='' (reservation_line r) = Some (join [CHR 0x09]
      [rv_reservation_id r, rv_session_id r, nat_str (unat (rv_expires_at_ms r))])"
    unfolding reservation_line_def by (rule strip_prefix_append)
  ultimately show ?case using Cons decode_reservation_line [of r]
    by (simp add: lines_append_line reservation_line_plain)
qed simp

lemma decode_encode:
  assumes "\<forall>r \<in> set (sn_reservations s). reservation_ok r" and "sn_max_concurrency s < 2 ^ 64"
  shows "decode_snapshot a (encode_snapshot s) = Inr (s\<lparr>sn_adapter_id := a\<rparr>)"
proof -
  let ?m = "''max='' @ nat_str (sn_max_concurrency s)"
  let ?body = "concat (map (\<lambda>r. reservation_line r @ [CHR 0x0A]) (sn_reservations s))"
  have "CHR 0x0A \<notin> set ?m" using nat_str_plain by (simp add: plain_field_def)
  then have "lines (encode_snapshot s) = ''version=1'' # ?m # lines ?body"
    using lines_append_line [of "''version=1''" "?m @ CHR 0x0A # ?body"] lines_append_line [of ?m ?body]
    by (simp add: encode_snapshot_def strip_cr_def last_digit)
  moreover have "strip_prefix ''max='' ?m = Some (nat_str (sn_max_concurrency s))" by (rule strip_prefix_append)
  moreover have "strip_prefix ''max='' ''version=1'' = None" "strip_prefix ''reservation='' ''version=1'' = None"
    by (simp_all add: strip_prefix_def)
  ultimately show ?thesis using assms
    by (simp add: decode_snapshot_def decode_lines_reservations parse_unsigned_nat_str del: append.simps)
qed

subsection \<open>What the files hold\<close>

text \<open>
  The reservations of an adapter that a directory holds: none when there is no file, and otherwise
  those of the snapshot whose text the file is.
\<close>

definition holds :: "(string \<Rightarrow> string) \<Rightarrow> admission_files \<Rightarrow> adapter_id \<Rightarrow> reservation list \<Rightarrow> bool" where
  "holds digest fs a rs \<longleftrightarrow> (case fs (admission_path digest a) of
     None \<Rightarrow> rs = []
   | Some text \<Rightarrow> \<exists>s. text = encode_snapshot s \<and> sn_reservations s = rs \<and>
       sn_max_concurrency s < 2 ^ 64 \<and> (\<forall>r \<in> set rs. reservation_ok r))"

lemma read_holds:
  assumes "holds digest fs a rs"
  shows "is_err (read_snapshot digest io fs a) \<and> ai_read_error io \<noteq> None \<or>
    (\<exists>s. read_snapshot digest io fs a = Inr s \<and> sn_reservations s = rs \<and> sn_max_concurrency s < 2 ^ 64)"
proof (cases "fs (admission_path digest a)")
  case None
  then show ?thesis using assms by (simp add: read_snapshot_def holds_def)
next
  case (Some data)
  then obtain s where "data = encode_snapshot s" "sn_reservations s = rs" "sn_max_concurrency s < 2 ^ 64"
      "\<forall>r \<in> set rs. reservation_ok r"
    using assms by (auto simp: holds_def)
  then show ?thesis using Some decode_encode [of s a]
    by (cases "ai_read_error io") (auto simp: read_snapshot_def is_err_def)
qed

lemma path_not_tmp: "admission_path digest a \<noteq> admission_tmp digest b"
proof
  assume "admission_path digest a = admission_tmp digest b"
  then have "last (admission_path digest a) = last (admission_tmp digest b)" by simp
  then show False by (simp add: admission_path_def admission_tmp_def)
qed

lemma write_holds:
  assumes "write_snapshot digest io fs a s = (res, fs')" and "sn_max_concurrency s < 2 ^ 64"
    and "\<forall>r \<in> set (sn_reservations s). reservation_ok r"
  shows "if is_err res then fs' (admission_path digest a) = fs (admission_path digest a)
    else holds digest fs' a (sn_reservations s)"
  using assms path_not_tmp [of digest a a]
  by (auto simp: write_snapshot_def Let_def holds_def is_err_def split: admission_write.splits)

text \<open>
  One call on the reservations alone: it fails and keeps them, answers without writing, or answers and
  replaces them. A decision is sound when the snapshot it writes can be read back.
\<close>

definition sound_decision :: "(admission_snapshot \<Rightarrow> ('r \<times> admission_snapshot option) res) \<Rightarrow> bool" where
  "sound_decision decide \<longleftrightarrow> (\<forall>s x s'. decide s = Inr (x, Some s') \<longrightarrow> sn_max_concurrency s < 2 ^ 64 \<longrightarrow>
     (\<forall>r \<in> set (sn_reservations s). reservation_ok r) \<longrightarrow>
     sn_max_concurrency s' < 2 ^ 64 \<and> (\<forall>r \<in> set (sn_reservations s'). reservation_ok r))"

lemma holds_ok: "holds digest fs a rs \<Longrightarrow> \<forall>r \<in> set rs. reservation_ok r"
  by (auto simp: holds_def split: option.splits)

lemma locked_update_cases:
  assumes "holds digest fs a rs" and "sound_decision decide" and "locked_update digest io fs a decide = (res, fs')"
  obtains (fails) e where "res = Inl e" and "holds digest fs' a rs"
  | (answers) s x where "res = Inr x" and "sn_reservations s = rs" and "decide s = Inr (x, None)" and "fs' = fs"
  | (writes) s x s' where "res = Inr x" and "sn_reservations s = rs" and "decide s = Inr (x, Some s')"
      and "holds digest fs' a (sn_reservations s')"
proof (cases "res_bind (acquire_lock io) (\<lambda>_. res_bind (read_snapshot digest io fs a) decide)")
  case (Inl e)
  then show thesis using assms(1,3) by (intro fails [of e]) (auto simp: locked_update_def)
next
  case (Inr y)
  then obtain s where s: "read_snapshot digest io fs a = Inr s" "decide s = Inr y"
    by (cases "acquire_lock io"; cases "read_snapshot digest io fs a") auto
  then have rs: "sn_reservations s = rs" "sn_max_concurrency s < 2 ^ 64"
    using read_holds [OF assms(1), of io] by (auto simp: is_err_def)
  obtain x w where y: "y = (x, w)" by fastforce
  show thesis
  proof (cases w)
    case None
    have "res = Inr x" "fs' = fs" using assms(3) Inr y None by (simp_all add: locked_update_def)
    then show thesis using s(2) rs(1) y None by (intro answers [of x s]) simp_all
  next
    case (Some s')
    note dec = \<open>res_bind (acquire_lock io) (\<lambda>_. res_bind (read_snapshot digest io fs a) decide) = Inr y\<close>
    have ok: "sn_max_concurrency s' < 2 ^ 64" "\<forall>r \<in> set (sn_reservations s'). reservation_ok r"
      using assms(2) s(2) rs y Some holds_ok [OF assms(1)] unfolding sound_decision_def by blast+
    obtain r' fs'' where wr: "write_snapshot digest io fs a s' = (r', fs'')" by fastforce
    show thesis
    proof (cases r')
      case (Inl e)
      then have "fs'' (admission_path digest a) = fs (admission_path digest a)"
        using write_holds [OF wr ok] by (simp add: is_err_def)
      then have "holds digest fs'' a rs" using assms(1) by (simp add: holds_def)
      moreover have "res = Inl e" "fs' = fs''"
        using assms(3) dec y Some wr Inl by (simp_all add: locked_update_def)
      ultimately show thesis by (intro fails [of e]) simp_all
    next
      case (Inr u)
      then have "holds digest fs'' a (sn_reservations s')" using write_holds [OF wr ok] by (simp add: is_err_def)
      moreover have "res = Inr x" "fs' = fs''"
        using assms(3) dec y Some wr Inr by (simp_all add: locked_update_def)
      ultimately show thesis using s(2) rs(1) y Some by (intro writes [of x s s']) simp_all
    qed
  qed
qed

lemma holds_cong:
  "fs (admission_path digest a) = fs' (admission_path digest a) \<Longrightarrow> holds digest fs a = holds digest fs' a"
  by (simp add: holds_def fun_eq_iff)

subsection \<open>Calls and their invariant\<close>

datatype admission_call =
    Reserve nat string u128 u128
  | Release string
  | ReleaseOwned string string
  | Renew string string u128 u128
  | View u128

text \<open>
  Beside the files a run of calls on one adapter keeps, per session, the reservation the session was
  last given and has not given back.
\<close>

type_synonym admission_state = "admission_files \<times> (string \<rightharpoonup> reservation)"

definition granted :: "reservation res \<Rightarrow> (string \<rightharpoonup> reservation) \<Rightarrow> (string \<rightharpoonup> reservation)" where
  "granted res g = (case res of Inl _ \<Rightarrow> g | Inr r \<Rightarrow> g(rv_session_id r \<mapsto> r))"

definition given_back :: "unit res \<Rightarrow> string \<Rightarrow> (string \<rightharpoonup> reservation) \<Rightarrow> (string \<rightharpoonup> reservation)" where
  "given_back res session g = (case res of Inl _ \<Rightarrow> g | Inr _ \<Rightarrow> g(session := None))"

fun run_call :: "(string \<Rightarrow> string) \<Rightarrow> admission_io \<Rightarrow> adapter_id \<Rightarrow> admission_call \<Rightarrow> admission_state \<Rightarrow> admission_state" where
  "run_call digest io a (Reserve m session now ttl) (fs, g) =
     (case reserve digest io fs a m session now ttl of (res, fs') \<Rightarrow> (fs', granted res g))"
| "run_call digest io a (Release session) (fs, g) =
     (case release digest io fs a session of (res, fs') \<Rightarrow> (fs', given_back res session g))"
| "run_call digest io a (ReleaseOwned rid session) (fs, g) =
     (case release_owned digest io fs a rid session of (res, fs') \<Rightarrow> (fs', given_back res session g))"
| "run_call digest io a (Renew rid session now ttl) (fs, g) =
     (case renew digest io fs a rid session now ttl of (res, fs') \<Rightarrow> (fs', granted res g))"
| "run_call digest io a (View now) (fs, g) = (snd (admission_view digest io fs a now), g)"

text \<open>
  A call is regular for the limit \<open>m\<close>, the longest time to live \<open>ttl_max\<close> and the time \<open>t\<close>: its reading
  of the clock is not after \<open>t\<close>, a reservation asks with a limit of at most \<open>m\<close> and for at most that
  long, and its session name is free of tabs and newlines.
\<close>

definition call_regular :: "nat \<Rightarrow> u128 \<Rightarrow> u128 \<Rightarrow> admission_call \<Rightarrow> bool" where
  "call_regular m ttl_max t call = (case call of
     Reserve n session now ttl \<Rightarrow> n \<le> m \<and> plain_field session \<and> ttl \<le> ttl_max \<and> now \<le> t
   | Renew _ _ now ttl \<Rightarrow> ttl \<le> ttl_max \<and> now \<le> t
   | View now \<Rightarrow> now \<le> t
   | _ \<Rightarrow> True)"

text \<open>
  The invariant: the file holds at most \<open>m\<close> reservations of distinct sessions, which end within the
  longest time to live after \<open>t\<close>, and among them is every reservation a session still counts on at \<open>t\<close>.
\<close>

definition admission_inv :: "(string \<Rightarrow> string) \<Rightarrow> adapter_id \<Rightarrow> nat \<Rightarrow> u128 \<Rightarrow> u128 \<Rightarrow> admission_state \<Rightarrow> bool" where
  "admission_inv digest a m ttl_max t s \<longleftrightarrow> (\<exists>rs. holds digest (fst s) a rs \<and> length rs \<le> m \<and>
     distinct (map rv_session_id rs) \<and> (\<forall>r \<in> set rs. rv_expires_at_ms r \<le> sat_add t (max ttl_max 1)) \<and>
     (\<forall>session r. snd s session = Some r \<longrightarrow> rv_session_id r = session \<and> (t < rv_expires_at_ms r \<longrightarrow> r \<in> set rs)))"

lemma sat_add_mono: "(x :: 'a::len word) \<le> y \<Longrightarrow> x' \<le> y' \<Longrightarrow> sat_add x x' \<le> sat_add y y'"
  by (simp add: word_le_nat_alt unat_sat_add)

lemma new_expiry: "ttl \<le> l \<Longrightarrow> now \<le> t \<Longrightarrow> sat_add now (max ttl 1) \<le> sat_add t (max l 1 :: u128)"
  by (rule sat_add_mono) (auto simp: max_def)

lemma sound_decisions:
  "m < 2 ^ 64 \<Longrightarrow> plain_field session \<Longrightarrow> sound_decision (reserve_decision m session now ttl)"
  "sound_decision (release_decision session)" "sound_decision (release_owned_decision rid session)"
  "sound_decision (view_decision now)" "sound_decision (renew_decision rid session now ttl)"
proof -
  have sub: "set (remove_first p rs) \<subseteq> set rs" for p and rs :: "reservation list"
    by (induction rs) auto
  have renewed: "reservation_ok r"
    if "\<forall>r \<in> set rs. reservation_ok r" "r \<in> set (update_first p (\<lambda>r. r\<lparr>rv_expires_at_ms := x\<rparr>) rs)" for p x r rs
    using that by (induction rs) (auto simp: reservation_ok_def split: if_splits)
  show "m < 2 ^ 64 \<Longrightarrow> plain_field session \<Longrightarrow> sound_decision (reserve_decision m session now ttl)"
    using nat_str_plain(1) unfolding sound_decision_def reserve_decision_def
    by (auto simp: Let_def unexpired_def new_reservation_def reservation_ok_def plain_field_def
        split: option.splits if_splits)
  show "sound_decision (release_decision session)"
    by (simp add: sound_decision_def release_decision_def)
  show "sound_decision (release_owned_decision rid session)"
    using sub unfolding sound_decision_def release_owned_decision_def by (auto split: if_splits)
  show "sound_decision (view_decision now)"
    by (auto simp: sound_decision_def view_decision_def Let_def unexpired_def)
  show "sound_decision (renew_decision rid session now ttl)"
    using renewed unfolding sound_decision_def renew_decision_def by (auto simp: Let_def split: option.splits if_splits)
qed

text \<open>The list operations keep the sessions apart and the reservations of other sessions.\<close>

lemma remove_first_keeps:
  "distinct (map f xs) \<Longrightarrow> distinct (map f (remove_first p xs))" "length (remove_first p xs) \<le> length xs"
  "x \<in> set xs \<Longrightarrow> \<not> p x \<Longrightarrow> x \<in> set (remove_first p xs)"
  "set (remove_first p xs) \<subseteq> set xs"
proof -
  have sub: "set (remove_first p xs) \<subseteq> set xs" for xs by (induction xs) auto
  show "distinct (map f xs) \<Longrightarrow> distinct (map f (remove_first p xs))"
  proof (induction xs)
    case (Cons x xs)
    then show ?case using sub [of xs] by auto
  qed simp
  show "set (remove_first p xs) \<subseteq> set xs" by (rule sub)
  show "length (remove_first p xs) \<le> length xs" by (induction xs) auto
  show "x \<in> set xs \<Longrightarrow> \<not> p x \<Longrightarrow> x \<in> set (remove_first p xs)" by (induction xs) auto
qed

lemma update_first_keeps:
  assumes "\<And>x. k (f x) = k x"
  shows "map k (update_first p f xs) = map k xs" "length (update_first p f xs) = length xs"
    "x \<in> set xs \<Longrightarrow> \<not> p x \<Longrightarrow> x \<in> set (update_first p f xs)"
    "find p xs = Some y \<Longrightarrow> f y \<in> set (update_first p f xs)"
  using assms by (induction xs) auto

lemma update_first_set: "set (update_first p f xs) \<subseteq> set xs \<union> f ` set xs"
  by (induction xs) auto

lemma find_sessions:
  "find p xs = Some x \<Longrightarrow> x \<in> set xs \<and> p x" "find p xs = None \<Longrightarrow> \<forall>x \<in> set xs. \<not> p x"
  by (auto simp: find_Some_iff find_None_iff)

lemma inv_intro:
  assumes "holds digest fs a rs" and "length rs \<le> m" and "distinct (map rv_session_id rs)"
    and "\<And>r. r \<in> set rs \<Longrightarrow> rv_expires_at_ms r \<le> sat_add t (max ttl_max 1)"
    and "\<And>session r. g session = Some r \<Longrightarrow> rv_session_id r = session \<and> (t < rv_expires_at_ms r \<longrightarrow> r \<in> set rs)"
  shows "admission_inv digest a m ttl_max t (fs, g)"
  using assms unfolding admission_inv_def by auto

lemma reserve_inv:
  assumes inv: "admission_inv digest a m ttl_max t (fs, g)" and "m < 2 ^ 64" and "plain_field session" and "now \<le> t"
    and "ttl \<le> ttl_max" and "n \<le> m"
  shows "admission_inv digest a m ttl_max t (run_call digest io a (Reserve n session now ttl) (fs, g))"
proof (cases "n = 0 \<or> session = []")
  case True
  then show ?thesis using inv by (simp add: reserve_def granted_def)
next
  case False
  obtain rs where rs: "holds digest fs a rs" "length rs \<le> m" "distinct (map rv_session_id rs)"
    and ex: "\<And>r. r \<in> set rs \<Longrightarrow> rv_expires_at_ms r \<le> sat_add t (max ttl_max 1)"
    and g: "\<And>session r. g session = Some r \<Longrightarrow> rv_session_id r = session \<and> (t < rv_expires_at_ms r \<longrightarrow> r \<in> set rs)"
    using inv unfolding admission_inv_def by auto
  have g': "rv_session_id r = ses \<and> (t < rv_expires_at_ms r \<longrightarrow> r \<in> set (unexpired now rs))"
    if "g ses = Some r" for ses r
    using g [OF that] assms(4) by (auto simp: unexpired_def intro: le_less_trans)
  obtain res fs' where run: "locked_update digest io fs a (reserve_decision n session now ttl) = (res, fs')" by fastforce
  have "n < 2 ^ 64" using assms(2,6) by simp
  note sound = sound_decisions(1) [OF this assms(3)]
  have "admission_inv digest a m ttl_max t (fs', granted res g)"
    using rs(1) sound run
  proof (cases rule: locked_update_cases)
    case (fails e)
    then show ?thesis using rs g ex by (intro inv_intro [where rs = rs]) (auto simp: granted_def)
  next
    case (answers s x)
    then have "find (\<lambda>r. rv_session_id r = session) (unexpired now rs) = Some x"
      by (auto simp: reserve_decision_def Let_def split: option.splits if_splits)
    then have "x \<in> set rs" using find_sessions(1) by (fastforce simp: unexpired_def)
    then show ?thesis using answers rs g ex
      by (intro inv_intro [where rs = rs]) (auto simp: granted_def split: if_splits)
  next
    case (writes s x s')
    then have none: "find (\<lambda>r. rv_session_id r = session) (unexpired now rs) = None"
      and len: "length (unexpired now rs) < m" and x: "x = new_reservation session now ttl"
      and s': "sn_reservations s' = unexpired now rs @ [x]"
      using assms(6) by (auto simp: reserve_decision_def Let_def split: option.splits if_splits)
    have ses: "rv_session_id x = session" by (simp add: x new_reservation_def)
    have exx: "rv_expires_at_ms x \<le> sat_add t (max ttl_max 1)"
      using new_expiry [OF assms(5,4)] by (simp add: x new_reservation_def)
    have "distinct (map rv_session_id (unexpired now rs @ [x]))"
      using rs(3) find_sessions(2) [OF none] ses by (auto simp: unexpired_def distinct_map_filter)
    then show ?thesis using writes(1,4) len g' ses ex exx unfolding s'
      by (intro inv_intro [where rs = "unexpired now rs @ [x]"]) (auto simp: granted_def unexpired_def split: if_splits)
  qed
  then show ?thesis using False run by (simp add: reserve_def)
qed

lemma release_inv:
  assumes inv: "admission_inv digest a m ttl_max t (fs, g)"
  shows "admission_inv digest a m ttl_max t (run_call digest io a (Release session) (fs, g))"
    and "admission_inv digest a m ttl_max t (run_call digest io a (ReleaseOwned rid session) (fs, g))"
proof -
  obtain rs where rs: "holds digest fs a rs" "length rs \<le> m" "distinct (map rv_session_id rs)"
    and ex: "\<And>r. r \<in> set rs \<Longrightarrow> rv_expires_at_ms r \<le> sat_add t (max ttl_max 1)"
    and g: "\<And>session r. g session = Some r \<Longrightarrow> rv_session_id r = session \<and> (t < rv_expires_at_ms r \<longrightarrow> r \<in> set rs)"
    using inv unfolding admission_inv_def by auto
  show "admission_inv digest a m ttl_max t (run_call digest io a (Release session) (fs, g))"
  proof -
    obtain res fs' where run: "locked_update digest io fs a (release_decision session) = (res, fs')" by (rule prod.exhaust)
    have "admission_inv digest a m ttl_max t (fs', given_back res session g)"
      using rs(1) sound_decisions(2) run
    proof (cases rule: locked_update_cases)
      case (writes s x s')
      then have "sn_reservations s' = filter (\<lambda>r. rv_session_id r \<noteq> session) rs" by (auto simp: release_decision_def)
      then show ?thesis using writes rs g ex
        by (intro inv_intro [where rs = "filter (\<lambda>r. rv_session_id r \<noteq> session) rs"])
          (auto simp: given_back_def distinct_map_filter le_trans [OF length_filter_le] split: if_splits)
    qed (use rs g ex in \<open>auto simp: given_back_def release_decision_def intro!: inv_intro [where rs = rs]\<close>)
    then show ?thesis using run by (simp add: release_def)
  qed
  show "admission_inv digest a m ttl_max t (run_call digest io a (ReleaseOwned rid session) (fs, g))"
  proof -
    obtain res fs' where run: "locked_update digest io fs a (release_owned_decision rid session) = (res, fs')"
      by (rule prod.exhaust)
    have "admission_inv digest a m ttl_max t (fs', given_back res session g)"
      using rs(1) sound_decisions(3) run
    proof (cases rule: locked_update_cases)
      case (writes s x s')
      then have "sn_reservations s' = remove_first (owned rid session) rs"
        by (auto simp: release_owned_decision_def split: if_splits)
      then show ?thesis using writes rs g ex remove_first_keeps(4) [of "owned rid session" rs] remove_first_keeps(2) [of "owned rid session" rs]
        by (intro inv_intro [where rs = "remove_first (owned rid session) rs"])
          (auto simp: given_back_def remove_first_keeps(1) owned_def intro!: remove_first_keeps(3) split: if_splits)
    qed (use rs g ex in \<open>auto simp: given_back_def release_owned_decision_def intro!: inv_intro [where rs = rs] split: if_splits\<close>)
    then show ?thesis using run by (simp add: release_owned_def)
  qed
qed

lemma view_inv:
  assumes inv: "admission_inv digest a m ttl_max t (fs, g)" and "now \<le> t"
  shows "admission_inv digest a m ttl_max t (run_call digest io a (View now) (fs, g))"
proof -
  obtain rs where rs: "holds digest fs a rs" "length rs \<le> m" "distinct (map rv_session_id rs)"
    and ex: "\<And>r. r \<in> set rs \<Longrightarrow> rv_expires_at_ms r \<le> sat_add t (max ttl_max 1)"
    and g: "\<And>session r. g session = Some r \<Longrightarrow> rv_session_id r = session \<and> (t < rv_expires_at_ms r \<longrightarrow> r \<in> set rs)"
    using inv unfolding admission_inv_def by auto
  obtain res fs' where run: "locked_update digest io fs a (view_decision now) = (res, fs')"
    by (rule prod.exhaust)
  have "admission_inv digest a m ttl_max t (fs', g)"
    using rs(1) sound_decisions(4) run
  proof (cases rule: locked_update_cases)
    case (writes s x s')
    then have "sn_reservations s' = unexpired now rs" by (auto simp: view_decision_def Let_def)
    then show ?thesis using writes rs g ex assms(2)
      by (intro inv_intro [where rs = "unexpired now rs"])
        (auto simp: unexpired_def distinct_map_filter le_trans [OF length_filter_le] intro: le_less_trans)
  qed (use rs g ex in \<open>auto simp: view_decision_def Let_def intro!: inv_intro [where rs = rs]\<close>)
  then show ?thesis using run by (simp add: admission_view_def)
qed

lemma renew_inv:
  assumes inv: "admission_inv digest a m ttl_max t (fs, g)" and "now \<le> t" and "ttl \<le> ttl_max"
  shows "admission_inv digest a m ttl_max t (run_call digest io a (Renew rid session now ttl) (fs, g))"
proof -
  obtain rs where rs: "holds digest fs a rs" "length rs \<le> m" "distinct (map rv_session_id rs)"
    and ex: "\<And>r. r \<in> set rs \<Longrightarrow> rv_expires_at_ms r \<le> sat_add t (max ttl_max 1)"
    and g: "\<And>session r. g session = Some r \<Longrightarrow> rv_session_id r = session \<and> (t < rv_expires_at_ms r \<longrightarrow> r \<in> set rs)"
    using inv unfolding admission_inv_def by auto
  let ?f = "\<lambda>r. r\<lparr>rv_expires_at_ms := sat_add now (max ttl 1)\<rparr>" and ?p = "owned rid session"
  obtain res fs' where run: "locked_update digest io fs a (renew_decision rid session now ttl) = (res, fs')"
    by (rule prod.exhaust)
  have exx: "rv_expires_at_ms r \<le> sat_add t (max ttl_max 1)" if "r \<in> set (update_first ?p ?f rs)" for r
    using that ex new_expiry [OF assms(3,2)] update_first_set [of ?p ?f rs] by fastforce
  have "admission_inv digest a m ttl_max t (fs', granted res g)"
    using rs(1) sound_decisions(5) run
  proof (cases rule: locked_update_cases)
    case (writes s x s')
    then obtain r where r: "find ?p rs = Some r" "x = ?f r" "sn_reservations s' = update_first ?p ?f rs"
      by (auto simp: renew_decision_def Let_def split: option.splits if_splits)
    then have ses: "rv_session_id x = session" using find_sessions(1) [OF r(1)] by (simp add: owned_def)
    have "x \<in> set (update_first ?p ?f rs)" using update_first_keeps(4) [of rv_session_id ?f ?p rs r] r by simp
    then show ?thesis using writes(1,4) rs g exx ses r(3) update_first_keeps(1,2) [of rv_session_id ?f ?p rs]
      by (intro inv_intro [where rs = "update_first ?p ?f rs"])
        (auto simp: granted_def owned_def intro!: update_first_keeps(3) [of rv_session_id] split: if_splits)
  qed (use rs g ex in \<open>auto simp: granted_def renew_decision_def Let_def intro!: inv_intro [where rs = rs]
      split: option.splits if_splits\<close>)
  then show ?thesis using run by (simp add: renew_def)
qed

lemma run_call_inv:
  assumes "admission_inv digest a m ttl_max t (fs, g)" and "m < 2 ^ 64" and "call_regular m ttl_max t call"
  shows "admission_inv digest a m ttl_max t (run_call digest io a call (fs, g))"
proof (cases call)
  case (Reserve n session now ttl)
  then show ?thesis using reserve_inv [OF assms(1,2)] assms(3) by (simp add: call_regular_def del: run_call.simps)
next
  case (Renew rid session now ttl)
  then show ?thesis using renew_inv [OF assms(1)] assms(3) by (simp add: call_regular_def del: run_call.simps)
next
  case (View now)
  then show ?thesis using view_inv [OF assms(1)] assms(3) by (simp add: call_regular_def del: run_call.simps)
qed (use release_inv [OF assms(1)] in \<open>simp_all del: run_call.simps\<close>)

definition own_file :: "(string \<Rightarrow> string) \<Rightarrow> adapter_id \<Rightarrow> bool" where
  "own_file digest a \<longleftrightarrow> (\<forall>b. digest (adapter_id_str b) = digest (adapter_id_str a) \<longrightarrow> b = a)"

text \<open>The file operations of a call all succeed; the lock is free within its 200 attempts.\<close>

definition io_works :: "admission_io \<Rightarrow> bool" where
  "io_works io \<longleftrightarrow> acquire_lock io = Inr () \<and> ai_read_error io = None \<and> ai_write io = Published"

definition sample_io :: admission_io where
  "sample_io = \<lparr>ai_lock = (\<lambda>_. LockCreated), ai_read_error = None, ai_write = Published\<rparr>"

lemma sample_io_works: "io_works sample_io"
  using lock_loop.simps(2) [of "\<lambda>_. LockCreated" 0 199] by (simp add: io_works_def acquire_lock_def sample_io_def)

subsection \<open>Session names with tabs\<close>

lemma length_split_on: "length (split_on d s) = Suc (length (filter ((=) d) s))"
  by (induction s) (auto split: list.splits)

lemma decode_tab_session:
  assumes "CHR 0x09 \<in> set session" and "CHR 0x0A \<notin> set session" and "m < 2 ^ 64"
  shows "decode_snapshot a (encode_snapshot \<lparr>sn_adapter_id = b, sn_max_concurrency = m,
     sn_reservations = [new_reservation session now ttl]\<rparr>) = Inl (err_invalid_argument ''invalid admission reservation'')"
proof -
  let ?r = "new_reservation session now ttl"
  let ?v = "join [CHR 0x09] [rv_reservation_id ?r, rv_session_id ?r, nat_str (unat (rv_expires_at_ms ?r))]"
  obtain p q where session: "session = p @ CHR 0x09 # q" using split_list [OF assms(1)] by blast
  have "4 < length (split_on CHR 0x09 ?v)"
    by (simp add: length_split_on new_reservation_def session)
  then have bad: "decode_reservation ?v = Inl (err_invalid_argument ''invalid admission reservation'')"
    by (auto simp: decode_reservation_def split: list.splits)
  let ?m = "''max='' @ nat_str m"
  have nl: "CHR 0x0A \<notin> set ?m" "CHR 0x0A \<notin> set (reservation_line ?r)"
    using assms(2) nat_str_plain by (simp_all add: plain_field_def reservation_line_def new_reservation_def)
  have "strip_cr (reservation_line ?r) = reservation_line ?r"
    using last_digit by (simp add: strip_cr_def reservation_line_def)
  then have "lines (encode_snapshot \<lparr>sn_adapter_id = b, sn_max_concurrency = m, sn_reservations = [?r]\<rparr>) =
      [''version=1'', ?m, reservation_line ?r]"
    using nl lines_append_line [of "''version=1''" "?m @ CHR 0x0A # reservation_line ?r @ [CHR 0x0A]"]
      lines_append_line [of ?m "reservation_line ?r @ [CHR 0x0A]"] lines_append_line [of "reservation_line ?r" "[]"]
    by (simp add: encode_snapshot_def strip_cr_def last_digit)
  moreover have "strip_prefix ''max='' ?m = Some (nat_str m)" "strip_prefix ''reservation='' (reservation_line ?r) = Some ?v"
    unfolding reservation_line_def by (rule strip_prefix_append)+
  moreover have "strip_prefix ''max='' ''version=1'' = None" "strip_prefix ''reservation='' ''version=1'' = None"
    "strip_prefix ''max='' (reservation_line ?r) = None"
    by (simp_all add: strip_prefix_def reservation_line_def)
  ultimately show ?thesis using assms(3) bad
    by (simp add: decode_snapshot_def parse_unsigned_nat_str del: append.simps join.simps)
qed

lemma unreadable_update:
  assumes "is_err (read_snapshot digest io fs a)"
  shows "is_err (fst (locked_update digest io fs a decide))" and "snd (locked_update digest io fs a decide) = fs"
proof -
  obtain e where "read_snapshot digest io fs a = Inl e" using assms by (auto simp: is_err_def split: sum.splits)
  then show "is_err (fst (locked_update digest io fs a decide))" "snd (locked_update digest io fs a decide) = fs"
    by (cases "acquire_lock io"; simp add: locked_update_def)+
qed

lemma granted_err: "is_err res \<Longrightarrow> granted res g = g" "is_err res' \<Longrightarrow> given_back res' session g = g"
  by (auto simp: granted_def given_back_def is_err_def split: sum.splits)

lemma unreadable_call:
  "is_err (read_snapshot digest io fs a) \<Longrightarrow> run_call digest io a call (fs, g) = (fs, g)"
  by (cases call) (simp_all add: reserve_def release_def release_owned_def renew_def admission_view_def
      case_prod_beta unreadable_update granted_err)



end
