(* ===== verification/Storage_AdmissionLock.thy ===== *)
theory Storage_AdmissionLock
  imports Storage_Admission
begin

section \<open>Admission calls that run at the same time (eva-storage, provider\_admission.rs)\<close>

text \<open>
  The calls of the admission table one file operation at a time. The lock is a file of the directory:
  \<^verbatim>\<open>create_new\<close> fails exactly when the file is there, and dropping the guard removes it. A process is in
  a stage of at most one call; an event starts a call or lets one process make its next file
  operation, with the outcome the operating system gives it. Events of different processes come in
  any order, and a process that is killed is one that has no further events. Opening and reading a
  snapshot is one operation, because a rename replaces the file and leaves the opened one alone.
\<close>

subsection \<open>Stages of a call\<close>

datatype admission_answer =
    Reserved reservation
  | Released
  | Viewed admission_snapshot

definition answer_with ::
  "('r \<Rightarrow> admission_answer) \<Rightarrow> ('r \<times> admission_snapshot option) res \<Rightarrow> (admission_answer \<times> admission_snapshot option) res" where
  "answer_with f d = map_sum id (map_prod f id) d"

fun call_decision :: "admission_call \<Rightarrow> admission_snapshot \<Rightarrow> (admission_answer \<times> admission_snapshot option) res" where
  "call_decision (Reserve m session now ttl) s = answer_with Reserved (reserve_decision m session now ttl s)"
| "call_decision (Release session) s = answer_with (\<lambda>_. Released) (release_decision session s)"
| "call_decision (ReleaseOwned rid session) s = answer_with (\<lambda>_. Released) (release_owned_decision rid session s)"
| "call_decision (Renew rid session now ttl) s = answer_with Reserved (renew_decision rid session now ttl s)"
| "call_decision (View now) s = answer_with Viewed (view_decision now s)"

text \<open>
  The outcome of one file operation: an error, if it has one; the error of reading the metadata of the
  snapshot, which \<^verbatim>\<open>Path::exists\<close> takes for absence; and what a failing write leaves in the file.
\<close>

record os_outcome =
  oc_error :: "string option"
  oc_stat_error :: "string option"
  oc_partial :: string

datatype stage =
    Idle
  | Locking adapter_id admission_call nat
  | Checking adapter_id admission_call
  | Reading adapter_id admission_call
  | Creating adapter_id admission_call admission_answer admission_snapshot
  | Filling adapter_id admission_call admission_answer admission_snapshot
  | Renaming adapter_id admission_call admission_answer admission_snapshot
  | Unlocking adapter_id "admission_answer res"
  | Done "admission_answer res"

definition lock_file :: "(string \<Rightarrow> string) \<Rightarrow> adapter_id \<Rightarrow> string" where
  "lock_file digest a = digest (adapter_id_str a) @ ''.lock''"

definition valid_call :: "admission_call \<Rightarrow> bool" where
  "valid_call call = (case call of Reserve m session now ttl \<Rightarrow> m \<noteq> 0 \<and> session \<noteq> [] | _ \<Rightarrow> True)"

definition begin_call :: "adapter_id \<Rightarrow> admission_call \<Rightarrow> stage" where
  "begin_call a call =
     (if valid_call call then Locking a call 200
      else Done (Inl (err_invalid_argument ''provider admission reservation is invalid'')))"

text \<open>
  A note is the effect a step has on what the sessions hold: the call and the answer it will return.
  It is taken when the answer is settled, which is the rename, or the decision of a call that does not
  write.
\<close>

type_synonym grant_note = "(adapter_id \<times> admission_call \<times> admission_answer) option"

definition decided :: "adapter_id \<Rightarrow> admission_call \<Rightarrow> admission_snapshot \<Rightarrow> stage \<times> grant_note" where
  "decided a call s = (case call_decision call s of
     Inl e \<Rightarrow> (Unlocking a (Inl e), None)
   | Inr (x, None) \<Rightarrow> (Unlocking a (Inr x), Some (a, call, x))
   | Inr (x, Some s') \<Rightarrow> (Creating a call x s', None))"

definition io_failure :: "string \<Rightarrow> string \<Rightarrow> eva_error" where
  "io_failure message e = with_context (err_internal message) ''error'' e"

fun call_step :: "(string \<Rightarrow> string) \<Rightarrow> os_outcome \<Rightarrow> stage \<Rightarrow> admission_files \<Rightarrow> stage \<times> admission_files \<times> grant_note" where
  "call_step digest oc (Locking a call 0) fs =
     (Done (Inl (err_timeout ''provider admission lock acquisition timed out'')), fs, None)"
| "call_step digest oc (Locking a call (Suc k)) fs = (case oc_error oc of
     Some e \<Rightarrow> (Done (Inl (io_failure ''acquire provider admission lock'' e)), fs, None)
   | None \<Rightarrow>
       if fs (lock_file digest a) \<noteq> None then (Locking a call k, fs, None)
       else (Checking a call, fs(lock_file digest a \<mapsto> []), None))"
| "call_step digest oc (Checking a call) fs =
     (if fs (admission_path digest a) \<noteq> None \<and> oc_stat_error oc = None then (Reading a call, fs, None)
      else (case decided a call \<lparr>sn_adapter_id = a, sn_max_concurrency = 0, sn_reservations = []\<rparr> of
          (st, note) \<Rightarrow> (st, fs, note)))"
| "call_step digest oc (Reading a call) fs =
     (case (case oc_error oc of Some e \<Rightarrow> Inl (io_failure ''read provider admission'' e)
            | None \<Rightarrow> (case fs (admission_path digest a) of
                None \<Rightarrow> Inl (io_failure ''read provider admission'' ''No such file or directory (os error 2)'')
              | Some data \<Rightarrow> decode_snapshot a data)) of
        Inl e \<Rightarrow> (Unlocking a (Inl e), fs, None)
      | Inr s \<Rightarrow> (case decided a call s of (st, note) \<Rightarrow> (st, fs, note)))"
| "call_step digest oc (Creating a call x s) fs = (case oc_error oc of
     Some e \<Rightarrow> (Unlocking a (Inl (io_failure ''write provider admission'' e)), fs, None)
   | None \<Rightarrow> (Filling a call x s, fs(admission_tmp digest a \<mapsto> []), None))"
| "call_step digest oc (Filling a call x s) fs = (case oc_error oc of
     Some e \<Rightarrow> (Unlocking a (Inl (io_failure ''write provider admission'' e)),
       fs(admission_tmp digest a \<mapsto> oc_partial oc), None)
   | None \<Rightarrow> (Renaming a call x s, fs(admission_tmp digest a \<mapsto> encode_snapshot s), None))"
| "call_step digest oc (Renaming a call x s) fs =
     (case (case oc_error oc of Some e \<Rightarrow> Inl e
            | None \<Rightarrow> (case fs (admission_tmp digest a) of
                None \<Rightarrow> Inl ''No such file or directory (os error 2)'' | Some data \<Rightarrow> Inr data)) of
        Inl e \<Rightarrow> (Unlocking a (Inl (io_failure ''publish provider admission'' e)), fs, None)
      | Inr data \<Rightarrow> (Unlocking a (Inr x),
          fs(admission_tmp digest a := None, admission_path digest a \<mapsto> data), Some (a, call, x)))"
| "call_step digest oc (Unlocking a res) fs =
     (Done res, if oc_error oc = None then fs(lock_file digest a := None) else fs, None)"
| "call_step digest oc st fs = (st, fs, None)"

subsection \<open>Processes\<close>

text \<open>
  The world: the directory, the stage of every process and, for every adapter, the reservation each
  session was last given and has not given back.
\<close>

record admission_world =
  aw_files :: admission_files
  aw_stage :: "nat \<Rightarrow> stage"
  aw_grants :: "adapter_id \<Rightarrow> string \<rightharpoonup> reservation"

datatype admission_event =
    Start nat adapter_id admission_call
  | Act nat os_outcome

fun note_answer :: "admission_call \<Rightarrow> admission_answer \<Rightarrow> (string \<rightharpoonup> reservation) \<Rightarrow> (string \<rightharpoonup> reservation)" where
  "note_answer call (Reserved r) g = g(rv_session_id r \<mapsto> r)"
| "note_answer (Release session) Released g = g(session := None)"
| "note_answer (ReleaseOwned rid session) Released g = g(session := None)"
| "note_answer call x g = g"

definition noted :: "grant_note \<Rightarrow> (adapter_id \<Rightarrow> string \<rightharpoonup> reservation) \<Rightarrow> adapter_id \<Rightarrow> string \<rightharpoonup> reservation" where
  "noted note grants = (case note of
     None \<Rightarrow> grants
   | Some (a, call, x) \<Rightarrow> grants(a := note_answer call x (grants a)))"

definition at_rest :: "stage \<Rightarrow> bool" where
  "at_rest st = (case st of Idle \<Rightarrow> True | Done _ \<Rightarrow> True | _ \<Rightarrow> False)"

fun admission_step :: "(string \<Rightarrow> string) \<Rightarrow> admission_event \<Rightarrow> admission_world \<Rightarrow> admission_world" where
  "admission_step digest (Start p a call) w =
     (if at_rest (aw_stage w p) then w\<lparr>aw_stage := (aw_stage w)(p := begin_call a call)\<rparr> else w)"
| "admission_step digest (Act p oc) w = (case call_step digest oc (aw_stage w p) (aw_files w) of
     (st, fs, note) \<Rightarrow> w\<lparr>aw_files := fs, aw_stage := (aw_stage w)(p := st), aw_grants := noted note (aw_grants w)\<rparr>)"

definition admission_run :: "(string \<Rightarrow> string) \<Rightarrow> admission_event list \<Rightarrow> admission_world \<Rightarrow> admission_world" where
  "admission_run digest es w = fold (admission_step digest) es w"

lemma admission_run_Nil [simp]: "admission_run digest [] w = w"
  by (simp add: admission_run_def)

definition world_start :: "admission_files \<Rightarrow> admission_world" where
  "world_start fs = \<lparr>aw_files = fs, aw_stage = (\<lambda>_. Idle), aw_grants = (\<lambda>_. Map.empty)\<rparr>"

text \<open>A process is inside the critical section of an adapter from the creation of the lock file to its removal.\<close>

fun stage_adapter :: "stage \<Rightarrow> adapter_id option" where
  "stage_adapter (Locking a call k) = Some a"
| "stage_adapter (Checking a call) = Some a"
| "stage_adapter (Reading a call) = Some a"
| "stage_adapter (Creating a call x s) = Some a"
| "stage_adapter (Filling a call x s) = Some a"
| "stage_adapter (Renaming a call x s) = Some a"
| "stage_adapter (Unlocking a res) = Some a"
| "stage_adapter st = None"

definition critical :: "adapter_id \<Rightarrow> stage \<Rightarrow> bool" where
  "critical a st \<longleftrightarrow> stage_adapter st = Some a \<and> (case st of Locking b call k \<Rightarrow> False | _ \<Rightarrow> True)"

lemma critical_simps [simp]:
  "critical a (Locking b call k) = False" "critical a Idle = False" "critical a (Done res) = False"
  "critical a (Checking b call) = (b = a)" "critical a (Reading b call) = (b = a)"
  "critical a (Creating b call x s) = (b = a)" "critical a (Filling b call x s) = (b = a)"
  "critical a (Renaming b call x s) = (b = a)" "critical a (Unlocking b res) = (b = a)"
  by (simp_all add: critical_def)

subsection \<open>Names of files\<close>

lemma file_names [simp]:
  "admission_path digest a \<noteq> admission_tmp digest b" "admission_path digest a \<noteq> lock_file digest b"
  "admission_tmp digest a \<noteq> lock_file digest b" "admission_tmp digest a \<noteq> admission_path digest b"
  "lock_file digest a \<noteq> admission_path digest b" "lock_file digest a \<noteq> admission_tmp digest b"
proof -
  have "last (admission_path digest c) = CHR ''n''" "last (admission_tmp digest c) = CHR ''p''"
    "last (lock_file digest c) = CHR ''k''" for c
    by (simp_all add: admission_path_def admission_tmp_def lock_file_def)
  note ends = this
  show "admission_path digest a \<noteq> admission_tmp digest b" "admission_path digest a \<noteq> lock_file digest b"
    "admission_tmp digest a \<noteq> lock_file digest b" "admission_tmp digest a \<noteq> admission_path digest b"
    "lock_file digest a \<noteq> admission_path digest b" "lock_file digest a \<noteq> admission_tmp digest b"
    using ends [of a] ends [of b] by auto
qed

lemma own_names:
  assumes "own_file digest a" and "b \<noteq> a"
  shows "admission_path digest a \<noteq> admission_path digest b" "admission_tmp digest a \<noteq> admission_tmp digest b"
    "lock_file digest a \<noteq> lock_file digest b"
  using assms by (auto simp: own_file_def admission_path_def admission_tmp_def lock_file_def)

subsection \<open>What a step touches\<close>

lemma decided_stage:
  "decided a call s = (st, note) \<Longrightarrow> critical c st = (c = a) \<and> (\<forall>b call' x. note = Some (b, call', x) \<longrightarrow> b = a)"
  by (auto simp: decided_def split: sum.splits option.splits prod.splits)

lemma act_elsewhere:
  assumes "own_file digest a" and "stage_adapter st \<noteq> Some a" and "call_step digest oc st fs = (st', fs', note)"
  shows "fs' (admission_path digest a) = fs (admission_path digest a)" "fs' (admission_tmp digest a) = fs (admission_tmp digest a)"
    "fs' (lock_file digest a) = fs (lock_file digest a)" "noted note grants a = grants a" "stage_adapter st' \<noteq> Some a"
  using assms own_names [OF assms(1)]
  by (induct digest oc st fs rule: call_step.induct)
    (auto simp: noted_def decided_def split: option.splits sum.splits if_splits prod.splits)

subsection \<open>A settled call is a call in one piece\<close>

text \<open>
  What the files say: the snapshot a read that works returns. A call that is settled has the effect on
  the files and on the reservations of the same call in one piece, with working file operations.
\<close>

definition current_snapshot :: "(string \<Rightarrow> string) \<Rightarrow> admission_files \<Rightarrow> adapter_id \<Rightarrow> admission_snapshot res" where
  "current_snapshot digest fs a = read_snapshot digest sample_io fs a"

lemma locked_update_settled:
  assumes "current_snapshot digest fs a = Inr s"
  shows "decide s = Inr (x, None) \<Longrightarrow> locked_update digest sample_io fs a decide = (Inr x, fs)"
    and "decide s = Inr (x, Some s') \<Longrightarrow> locked_update digest sample_io fs a decide =
      (Inr x, fs(admission_tmp digest a := None, admission_path digest a \<mapsto> encode_snapshot s'))"
  using assms sample_io_works
  by (simp_all add: locked_update_def current_snapshot_def io_works_def write_snapshot_def Let_def)

lemma answer_with_Inr:
  "answer_with f d = Inr (x, s) \<longleftrightarrow> (\<exists>y. d = Inr (y, s) \<and> x = f y)"
  by (cases d) (auto simp: answer_with_def)

lemma call_settled:
  assumes "current_snapshot digest fs a = Inr s" and "valid_call call"
  shows "call_decision call s = Inr (x, None) \<Longrightarrow> run_call digest sample_io a call (fs, g) = (fs, note_answer call x g)"
    and "call_decision call s = Inr (x, Some s') \<Longrightarrow> run_call digest sample_io a call (fs, g) =
      (fs(admission_tmp digest a := None, admission_path digest a \<mapsto> encode_snapshot s'), note_answer call x g)"
  using locked_update_settled [OF assms(1)] assms(2)
  by (cases call; fastforce simp: answer_with_Inr valid_call_def reserve_def release_def release_owned_def renew_def
      admission_view_def granted_def given_back_def)+

subsection \<open>The invariant of the interleaving\<close>

text \<open>
  What is known of a process: the calls it still has to settle are regular, and once it has decided to
  write, its decision is the one for the snapshot that is on disk now; when it is about to rename, the
  temporary file is complete.
\<close>

definition decides :: "(string \<Rightarrow> string) \<Rightarrow> adapter_id \<Rightarrow> admission_files \<Rightarrow> admission_call \<Rightarrow> admission_answer \<Rightarrow> admission_snapshot \<Rightarrow> bool" where
  "decides digest a fs call x s' \<longleftrightarrow>
     (\<exists>s. current_snapshot digest fs a = Inr s \<and> call_decision call s = Inr (x, Some s'))"

fun stage_ok :: "(string \<Rightarrow> string) \<Rightarrow> adapter_id \<Rightarrow> (admission_call \<Rightarrow> bool) \<Rightarrow> admission_files \<Rightarrow> stage \<Rightarrow> bool" where
  "stage_ok digest a pending fs (Locking b call k) = (b = a \<longrightarrow> pending call)"
| "stage_ok digest a pending fs (Checking b call) = (b = a \<longrightarrow> pending call)"
| "stage_ok digest a pending fs (Reading b call) = (b = a \<longrightarrow> pending call)"
| "stage_ok digest a pending fs (Creating b call x s) = (b = a \<longrightarrow> pending call \<and> decides digest a fs call x s)"
| "stage_ok digest a pending fs (Filling b call x s) = (b = a \<longrightarrow> pending call \<and> decides digest a fs call x s)"
| "stage_ok digest a pending fs (Renaming b call x s) = (b = a \<longrightarrow> pending call \<and> decides digest a fs call x s \<and>
     fs (admission_tmp digest a) = Some (encode_snapshot s))"
| "stage_ok digest a pending fs st = True"

lemma decides_cong:
  "fs (admission_path digest a) = fs' (admission_path digest a) \<Longrightarrow> decides digest a fs = decides digest a fs'"
  by (simp add: decides_def current_snapshot_def read_snapshot_def fun_eq_iff)

lemma stage_ok_cong:
  assumes "fs (admission_path digest a) = fs' (admission_path digest a)"
    and "fs (admission_tmp digest a) = fs' (admission_tmp digest a)"
  shows "stage_ok digest a pending fs st = stage_ok digest a pending fs' st"
  using decides_cong [of fs digest a fs'] assms by (cases st) simp_all

lemma stage_ok_elsewhere: "stage_adapter st \<noteq> Some a \<Longrightarrow> stage_ok digest a pending fs st"
  by (cases st) simp_all

lemma stage_ok_waiting: "\<not> critical a st \<Longrightarrow> stage_ok digest a pending fs st = stage_ok digest a pending fs' st"
  by (cases st) simp_all

lemma inv_cong:
  "fs (admission_path digest a) = fs' (admission_path digest a) \<Longrightarrow>
   admission_inv digest a m ttl_max t (fs, g) = admission_inv digest a m ttl_max t (fs', g)"
  using holds_cong [of fs digest a fs'] by (simp add: admission_inv_def)

lemma decided_inv:
  assumes inv: "admission_inv digest a m ttl_max t (fs, g)" and m: "m < 2 ^ 64"
    and call: "valid_call call" "call_regular m ttl_max t call"
    and s: "current_snapshot digest fs a = Inr s" and d: "decided a call s = (st, note)"
  shows "admission_inv digest a m ttl_max t (fs, noted note (\<lambda>_. g) a)"
    and "stage_ok digest a (\<lambda>call. valid_call call \<and> call_regular m ttl_max t call) fs st" and "critical a st"
proof -
  show "critical a st" using decided_stage [OF d] by simp
  show "stage_ok digest a (\<lambda>call. valid_call call \<and> call_regular m ttl_max t call) fs st"
    using d call s by (auto simp: decided_def decides_def split: sum.splits option.splits prod.splits)
  show "admission_inv digest a m ttl_max t (fs, noted note (\<lambda>_. g) a)"
  proof (cases "call_decision call s")
    case (Inr y)
    obtain x w where y: "y = (x, w)" by (rule prod.exhaust)
    show ?thesis
    proof (cases w)
      case None
      then have "run_call digest sample_io a call (fs, g) = (fs, note_answer call x g)"
        using call_settled(1) [OF s call(1)] Inr y by simp
      then have "admission_inv digest a m ttl_max t (fs, note_answer call x g)"
        using run_call_inv [OF inv m call(2), of sample_io] by simp
      then show ?thesis using d Inr y None by (auto simp: decided_def noted_def)
    next
      case (Some s')
      then show ?thesis using d Inr y inv by (auto simp: decided_def noted_def)
    qed
  qed (use d inv in \<open>auto simp: decided_def noted_def\<close>)
qed

lemma act_deciding:
  assumes inv: "admission_inv digest a m ttl_max t (fs, g)" and m: "m < 2 ^ 64" and oc: "oc_stat_error oc = None"
    and call: "valid_call call" "call_regular m ttl_max t call"
    and st: "st = Checking a call \<or> st = Reading a call" and step: "call_step digest oc st fs = (st', fs', note)"
  shows "admission_inv digest a m ttl_max t (fs', noted note (\<lambda>_. g) a) \<and>
    stage_ok digest a (\<lambda>call. valid_call call \<and> call_regular m ttl_max t call) fs' st' \<and> fs' = fs"
proof -
  have settled: ?thesis if "current_snapshot digest fs a = Inr s" and "call_step digest oc st fs = (case decided a call s of (st, note) \<Rightarrow> (st, fs, note))" for s
    using decided_inv [OF inv m call that(1), of "fst (decided a call s)" "snd (decided a call s)"] that(2) step
    by (auto split: prod.splits)
  from st show ?thesis
  proof
    assume check: "st = Checking a call"
    show ?thesis
    proof (cases "fs (admission_path digest a)")
      case None
      then show ?thesis using check by (intro settled) (simp_all add: current_snapshot_def read_snapshot_def)
    next
      case (Some data)
      then show ?thesis using step oc check call inv by (auto simp: noted_def)
    qed
  next
    assume read: "st = Reading a call"
    show ?thesis
    proof (cases "oc_error oc = None \<and> (\<exists>data s. fs (admission_path digest a) = Some data \<and> decode_snapshot a data = Inr s)")
      case True
      then obtain data s where "oc_error oc = None" "fs (admission_path digest a) = Some data" "decode_snapshot a data = Inr s"
        by blast
      then show ?thesis using read
        by (intro settled [of s]) (simp_all add: current_snapshot_def read_snapshot_def sample_io_def)
    next
      case False
      then show ?thesis using step read inv by (auto simp: noted_def split: option.splits sum.splits)
    qed
  qed
qed

lemma act_inside:
  assumes inv: "admission_inv digest a m ttl_max t (fs, g)" and m: "m < 2 ^ 64" and oc: "oc_stat_error oc = None"
    and ok: "stage_ok digest a (\<lambda>call. valid_call call \<and> call_regular m ttl_max t call) fs st"
    and crit: "critical a st" and step: "call_step digest oc st fs = (st', fs', note)"
  shows "admission_inv digest a m ttl_max t (fs', noted note (\<lambda>_. g) a) \<and>
    stage_ok digest a (\<lambda>call. valid_call call \<and> call_regular m ttl_max t call) fs' st' \<and>
    (critical a st' \<longrightarrow> fs' (lock_file digest a) = fs (lock_file digest a))"
proof -
  have keep: "decides digest a (fs(admission_tmp digest a \<mapsto> data)) = decides digest a fs"
    "admission_inv digest a m ttl_max t (fs(admission_tmp digest a \<mapsto> data), g)" for data
    using inv decides_cong [of "fs(admission_tmp digest a \<mapsto> data)" digest a fs]
      inv_cong [of "fs(admission_tmp digest a \<mapsto> data)" digest a fs] by simp_all
  show ?thesis
proof (cases st)
  case (Checking b call)
  then show ?thesis using act_deciding [OF inv m oc, of call st] crit ok step by auto
next
  case (Reading b call)
  then show ?thesis using act_deciding [OF inv m oc, of call st] crit ok step by auto
next
  case (Creating b call x s)
  then show ?thesis using crit ok step inv keep by (auto simp: noted_def split: option.splits)
next
  case (Filling b call x s)
  then show ?thesis using crit ok step inv keep by (auto simp: noted_def split: option.splits)
next
  case (Renaming b call x s)
  then have "b = a" and call: "valid_call call" "call_regular m ttl_max t call" and dec: "decides digest a fs call x s"
    and tmp: "fs (admission_tmp digest a) = Some (encode_snapshot s)" using crit ok by auto
  obtain s0 where s0: "current_snapshot digest fs a = Inr s0" "call_decision call s0 = Inr (x, Some s)"
    using dec by (auto simp: decides_def)
  have "admission_inv digest a m ttl_max t (fs(admission_tmp digest a := None, admission_path digest a \<mapsto> encode_snapshot s), note_answer call x g)"
    using run_call_inv [OF inv m call(2), of sample_io] call_settled(2) [OF s0(1) call(1) s0(2)] by simp
  then show ?thesis using step Renaming \<open>b = a\<close> tmp inv by (auto simp: noted_def split: option.splits)
next
  case (Unlocking b res)
  then show ?thesis using crit step inv inv_cong [of fs digest a "fs(lock_file digest a := None)"]
    by (auto simp: noted_def split: if_splits)
qed (use crit in auto)
qed

text \<open>
  The world: whoever is inside the critical section has the lock file, nobody else is inside, every
  process is where it should be, and the reservations agree with the file.
\<close>

definition world_inv :: "(string \<Rightarrow> string) \<Rightarrow> adapter_id \<Rightarrow> nat \<Rightarrow> u128 \<Rightarrow> u128 \<Rightarrow> admission_world \<Rightarrow> bool" where
  "world_inv digest a m ttl_max t w \<longleftrightarrow>
     (\<forall>p. critical a (aw_stage w p) \<longrightarrow> aw_files w (lock_file digest a) \<noteq> None) \<and>
     (\<forall>p q. critical a (aw_stage w p) \<and> critical a (aw_stage w q) \<longrightarrow> p = q) \<and>
     (\<forall>p. stage_ok digest a (\<lambda>call. valid_call call \<and> call_regular m ttl_max t call) (aw_files w) (aw_stage w p)) \<and>
     admission_inv digest a m ttl_max t (aw_files w, aw_grants w a)"

definition event_regular :: "adapter_id \<Rightarrow> nat \<Rightarrow> u128 \<Rightarrow> u128 \<Rightarrow> admission_event \<Rightarrow> bool" where
  "event_regular a m ttl_max t ev = (case ev of
     Start p b call \<Rightarrow> b = a \<longrightarrow> call_regular m ttl_max t call
   | Act p oc \<Rightarrow> oc_stat_error oc = None)"

lemma act_waiting:
  assumes "stage_adapter st = Some a" and "\<not> critical a st" and "call_step digest oc st fs = (st', fs', note)"
  shows "fs' (admission_path digest a) = fs (admission_path digest a)" "fs' (admission_tmp digest a) = fs (admission_tmp digest a)"
    "note = None" "critical a st' \<Longrightarrow> fs (lock_file digest a) = None \<and> fs' (lock_file digest a) \<noteq> None"
    "fs (lock_file digest a) \<noteq> None \<Longrightarrow> fs' = fs"
    "stage_ok digest a pending fs st \<Longrightarrow> stage_ok digest a pending fs' st'"
proof -
  obtain call k where st: "st = Locking a call k" using assms(1,2) by (cases st) auto
  note step = assms(3) [unfolded st]
  show "fs' (admission_path digest a) = fs (admission_path digest a)" "fs' (admission_tmp digest a) = fs (admission_tmp digest a)"
    "note = None" "critical a st' \<Longrightarrow> fs (lock_file digest a) = None \<and> fs' (lock_file digest a) \<noteq> None"
    "fs (lock_file digest a) \<noteq> None \<Longrightarrow> fs' = fs"
    "stage_ok digest a pending fs st \<Longrightarrow> stage_ok digest a pending fs' st'"
    using step st by (cases k; auto split: option.splits if_splits)+
qed

lemma noted_other: "noted note (\<lambda>_. grants a) a = noted note grants a"
  by (auto simp: noted_def split: option.splits)

lemma start_inv:
  assumes "world_inv digest a m ttl_max t w" and "event_regular a m ttl_max t (Start p b call)"
  shows "world_inv digest a m ttl_max t (admission_step digest (Start p b call) w)"
proof -
  have "critical a (begin_call b call) = False"
    "stage_ok digest a (\<lambda>call. valid_call call \<and> call_regular m ttl_max t call) (aw_files w) (begin_call b call)"
    using assms(2) by (auto simp: begin_call_def event_regular_def)
  then show ?thesis using assms(1) by (auto simp: world_inv_def)
qed

lemma act_inv:
  assumes own: "own_file digest a" and m: "m < 2 ^ 64" and inv: "world_inv digest a m ttl_max t w"
    and oc: "oc_stat_error oc = None"
  shows "world_inv digest a m ttl_max t (admission_step digest (Act p oc) w)"
proof -
  let ?ok = "stage_ok digest a (\<lambda>call. valid_call call \<and> call_regular m ttl_max t call)" and ?lock = "lock_file digest a"
  let ?path = "admission_path digest a" and ?tmp = "admission_tmp digest a"
  obtain st fs eff where step: "call_step digest oc (aw_stage w p) (aw_files w) = (st, fs, eff)" by (rule prod_cases3)
  have lock: "critical a (aw_stage w q) \<Longrightarrow> aw_files w ?lock \<noteq> None"
    and one: "critical a (aw_stage w q) \<Longrightarrow> critical a (aw_stage w q') \<Longrightarrow> q = q'"
    and ok: "?ok (aw_files w) (aw_stage w q)" and adm: "admission_inv digest a m ttl_max t (aw_files w, aw_grants w a)" for q q'
    using inv unfolding world_inv_def by blast+
  have "admission_inv digest a m ttl_max t (fs, noted eff (aw_grants w) a) \<and> ?ok fs st \<and>
      (critical a st \<longrightarrow> fs ?lock \<noteq> None \<and> (critical a (aw_stage w p) \<or> aw_files w ?lock = None)) \<and>
      (\<forall>q. q \<noteq> p \<longrightarrow> ?ok fs (aw_stage w q) \<and> (critical a (aw_stage w q) \<longrightarrow> fs ?lock \<noteq> None))"
  proof (cases "stage_adapter (aw_stage w p) = Some a")
    case False
    note keep = act_elsewhere [OF own False step]
    have "\<not> critical a st" using keep(5) by (auto simp: critical_def)
    then show ?thesis
      using keep adm ok lock stage_ok_elsewhere [OF keep(5)] inv_cong [of fs digest a "aw_files w"]
        stage_ok_cong [of fs digest a "aw_files w"] by auto
  next
    case here: True
    show ?thesis
    proof (cases "critical a (aw_stage w p)")
      case True
      have others: "\<not> critical a (aw_stage w q)" if "q \<noteq> p" for q using one True that by blast
      then have "?ok fs (aw_stage w q)" if "q \<noteq> p" for q
        using ok stage_ok_waiting [of a "aw_stage w q" digest _ fs "aw_files w"] that by blast
      then show ?thesis using act_inside [OF adm m oc ok True step] lock [OF True] others True
        unfolding noted_other [of eff "aw_grants w" a] by auto
    next
      case False
      note keep = act_waiting [OF here False step]
      have "fs ?lock \<noteq> None" if "critical a (aw_stage w q)" for q using keep(5) lock that by auto
      then show ?thesis
        using keep adm ok stage_ok_cong [of fs digest a "aw_files w"] inv_cong [of fs digest a "aw_files w"]
        by (auto simp: noted_def)
    qed
  qed
  then show ?thesis using step one lock unfolding world_inv_def by (auto split: if_splits)
qed

lemma run_inv:
  assumes "own_file digest a" and "m < 2 ^ 64" and "world_inv digest a m ttl_max t w"
    and "list_all (event_regular a m ttl_max t) es"
  shows "world_inv digest a m ttl_max t (admission_run digest es w)"
  using assms(3,4)
proof (induction es arbitrary: w)
  case (Cons ev es)
  have "world_inv digest a m ttl_max t (admission_step digest ev w)"
    using Cons.prems start_inv act_inv [OF assms(1,2)] by (cases ev) (auto simp: event_regular_def simp del: admission_step.simps)
  then show ?case using Cons by (simp add: admission_run_def)
qed (simp add: admission_run_def)

lemma world_start_inv: "fs (admission_path digest a) = None \<Longrightarrow> world_inv digest a m ttl_max t (world_start fs)"
  by (simp add: world_inv_def world_start_def admission_inv_def holds_def)

subsection \<open>A process that acts alone\<close>

definition works :: os_outcome where
  "works = \<lparr>oc_error = None, oc_stat_error = None, oc_partial = []\<rparr>"

definition alone :: "nat \<Rightarrow> adapter_id \<Rightarrow> admission_call \<Rightarrow> nat \<Rightarrow> admission_event list" where
  "alone p a call n = Start p a call # replicate n (Act p works)"

definition placed :: "admission_world \<Rightarrow> nat \<Rightarrow> admission_files \<Rightarrow> stage \<Rightarrow> (adapter_id \<Rightarrow> string \<rightharpoonup> reservation) \<Rightarrow> admission_world" where
  "placed w p fs st grants = w\<lparr>aw_files := fs, aw_stage := (aw_stage w)(p := st), aw_grants := grants\<rparr>"

lemma placed_simps [simp]:
  "aw_files (placed w p fs st grants) = fs" "aw_stage (placed w p fs st grants) p = st" "aw_grants (placed w p fs st grants) = grants"
  by (simp_all add: placed_def)

lemma run_alone:
  "at_rest (aw_stage w p) \<Longrightarrow> admission_run digest (alone p a call n) w =
     admission_run digest (replicate n (Act p works)) (placed w p (aw_files w) (begin_call a call) (aw_grants w))"
  by (simp add: admission_run_def alone_def placed_def)

lemma run_act:
  "call_step digest works st fs = (st', fs', note) \<Longrightarrow> admission_run digest (replicate (Suc n) (Act p works)) (placed w p fs st grants) =
     admission_run digest (replicate n (Act p works)) (placed w p fs' st' (noted note grants))"
  by (simp add: admission_run_def placed_def)

lemma run_done: "admission_run digest (replicate n (Act p works)) (placed w p fs (Done res) grants) = placed w p fs (Done res) grants"
  by (induction n) (simp_all add: admission_run_def placed_def noted_def)

lemma act_lock:
  "0 < k \<Longrightarrow> fs (lock_file digest a) = None \<Longrightarrow>
   call_step digest works (Locking a call k) fs = (Checking a call, fs(lock_file digest a \<mapsto> []), None)"
  by (cases k) (simp_all add: works_def)

lemma alone_writes:
  assumes "at_rest (aw_stage w p)" and "aw_files w (lock_file digest a) = None" and "valid_call call"
    and "current_snapshot digest (aw_files w) a = Inr s" and "call_decision call s = Inr (x, Some s')"
  shows "aw_stage (admission_run digest (alone p a call 7) w) p = Done (Inr x) \<and>
    aw_files (admission_run digest (alone p a call 7) w) (lock_file digest a) = None \<and>
    aw_grants (admission_run digest (alone p a call 7) w) a = note_answer call x (aw_grants w a)"
proof -
  let ?fs = "(aw_files w)(lock_file digest a \<mapsto> [])" and ?path = "admission_path digest a"
  let ?run = "\<lambda>n. admission_run digest (replicate n (Act p works))"
  have dec: "decided a call s = (Creating a call x s', None)" using assms(5) by (simp add: decided_def)
  have end4: "\<exists>fs. ?run (4 + n) (placed w p ?fs (Creating a call x s') (aw_grants w)) = placed w p fs (Done (Inr x))
      (noted (Some (a, call, x)) (aw_grants w)) \<and> fs (lock_file digest a) = None" for n
  proof -
    have steps: "call_step digest works (Creating a call x s') ?fs = (Filling a call x s', ?fs(admission_tmp digest a \<mapsto> []), None)"
      "call_step digest works (Filling a call x s') (?fs(admission_tmp digest a \<mapsto> [])) =
         (Renaming a call x s', ?fs(admission_tmp digest a \<mapsto> encode_snapshot s'), None)"
      "call_step digest works (Renaming a call x s') (?fs(admission_tmp digest a \<mapsto> encode_snapshot s')) =
         (Unlocking a (Inr x), ?fs(admission_tmp digest a := None, ?path \<mapsto> encode_snapshot s'), Some (a, call, x))"
      "call_step digest works (Unlocking a (Inr x)) fs = (Done (Inr x), fs(lock_file digest a := None), None)" for fs
      by (simp_all add: works_def)
    have "4 + n = Suc (Suc (Suc (Suc n)))" by simp
    then show ?thesis
      unfolding \<open>4 + n = Suc (Suc (Suc (Suc n)))\<close> run_act [OF steps(1)] run_act [OF steps(2)] run_act [OF steps(3)]
        run_act [OF steps(4)] run_done
      by (intro exI [of _ "?fs(admission_tmp digest a := None, ?path \<mapsto> encode_snapshot s', lock_file digest a := None)"])
        (simp add: noted_def)
  qed
  have "call_step digest works (Locking a call 200) (aw_files w) = (Checking a call, ?fs, None)"
    using assms(2) by (intro act_lock) simp_all
  from run_act [OF this, of 6 p w "aw_grants w"]
  have start: "admission_run digest (alone p a call 7) w = ?run 6 (placed w p ?fs (Checking a call) (aw_grants w))"
    using run_alone [OF assms(1), of digest a call 7] assms(3) by (simp add: begin_call_def noted_def)
  show ?thesis
  proof (cases "aw_files w ?path")
    case None
    then have "s = \<lparr>sn_adapter_id = a, sn_max_concurrency = 0, sn_reservations = []\<rparr>"
      using assms(4) by (simp add: current_snapshot_def read_snapshot_def)
    then have "call_step digest works (Checking a call) ?fs = (Creating a call x s', ?fs, None)"
      using None dec by simp
    from run_act [OF this, of 5 p w "aw_grants w"] show ?thesis
      using start end4 [of 1] by (auto simp: noted_def)
  next
    case (Some data)
    then have "call_step digest works (Checking a call) ?fs = (Reading a call, ?fs, None)"
      and "call_step digest works (Reading a call) ?fs = (Creating a call x s', ?fs, None)"
      using assms(4) dec by (simp_all add: works_def current_snapshot_def read_snapshot_def sample_io_def)
    from run_act [OF this(1), of 5 p w "aw_grants w"] run_act [OF this(2), of 4 p w "aw_grants w"] show ?thesis
      using start end4 [of 0] by (auto simp: noted_def)
  qed
qed

lemma alone_waits:
  assumes "fs (lock_file digest a) \<noteq> None"
  shows "admission_run digest (replicate (Suc k) (Act p works)) (placed w p fs (Locking a call k) grants) =
    placed w p fs (Done (Inl (err_timeout ''provider admission lock acquisition timed out''))) grants"
proof (induction k)
  case 0
  show ?case using run_act [of digest "Locking a call 0" fs _ fs None 0 p w grants] by (simp add: noted_def admission_run_def)
next
  case (Suc k)
  have "call_step digest works (Locking a call (Suc k)) fs = (Locking a call k, fs, None)" using assms by (auto simp: works_def)
  from run_act [OF this, of "Suc k" p w grants] Suc show ?case by (simp add: noted_def)
qed

subsection \<open>A lock file nobody removes\<close>

fun event_process :: "admission_event \<Rightarrow> nat" where
  "event_process (Start p a call) = p"
| "event_process (Act p oc) = p"

definition blocked :: "(string \<Rightarrow> string) \<Rightarrow> adapter_id \<Rightarrow> nat set \<Rightarrow> admission_world \<Rightarrow> admission_world \<Rightarrow> bool" where
  "blocked digest a dead w w' \<longleftrightarrow> aw_files w' (lock_file digest a) \<noteq> None \<and> (\<forall>q. critical a (aw_stage w' q) \<longrightarrow> q \<in> dead) \<and>
     aw_files w' (admission_path digest a) = aw_files w (admission_path digest a) \<and> aw_grants w' a = aw_grants w a"

lemma blocked_step:
  assumes own: "own_file digest a" and b: "blocked digest a dead w w'" and live: "event_process ev \<notin> dead"
  shows "blocked digest a dead w (admission_step digest ev w')"
proof (cases ev)
  case (Start p c call)
  then show ?thesis using b by (simp add: blocked_def begin_call_def)
next
  case (Act p oc)
  obtain st fs eff where step: "call_step digest oc (aw_stage w' p) (aw_files w') = (st, fs, eff)" by (rule prod_cases3)
  have out: "\<not> critical a (aw_stage w' p)" using b live Act by (auto simp: blocked_def)
  show ?thesis
  proof (cases "stage_adapter (aw_stage w' p) = Some a")
    case True
    note keep = act_waiting [OF True out step]
    have "fs = aw_files w'" "\<not> critical a st" using keep(4,5) b by (auto simp: blocked_def)
    then show ?thesis using Act step b keep(3) by (auto simp: blocked_def noted_def)
  next
    case False
    note keep = act_elsewhere [OF own False step]
    have "\<not> critical a st" using keep(5) by (auto simp: critical_def)
    then show ?thesis using Act step b keep by (auto simp: blocked_def)
  qed
qed

lemma blocked_run:
  assumes "own_file digest a" and "blocked digest a dead w w'" and "list_all (\<lambda>ev. event_process ev \<notin> dead) es"
  shows "blocked digest a dead w (admission_run digest es w')"
  using assms(2,3)
proof (induction es arbitrary: w')
  case (Cons ev es)
  then show ?case using blocked_step [OF assms(1), of dead w w' ev]
    by (simp add: admission_run_def del: admission_step.simps)
qed (simp add: admission_run_def)

subsection \<open>Properties\<close>

text \<open>
  C21. The admission limit across processes. Any processes make calls on any adapters at the same time,
  their file operations interleaved in any order, failing in any way and stopping at any point, except
  that the existence test of the snapshot does not fail. No two of them are ever inside the critical
  section of one adapter. If the calls on the adapter ask with limits of at most \<open>m\<close>, for sessions whose
  names have no tab or newline, with readings of the clock that are not after \<open>t\<close> (in any order), then
  the file can always be read and holds at most \<open>m\<close> reservations of distinct sessions; every
  reservation that a session was given, has not given back and that ends after \<open>t\<close> is among them; so no
  more than \<open>m\<close> sessions hold the adapter.
\<close>
theorem admission_limit:
  assumes "fs (admission_path digest a) = None" and "own_file digest a" and "m < 2 ^ 64"
    and "list_all (event_regular a m (- 1) t) es" and "admission_run digest es (world_start fs) = w"
  shows "(\<exists>rs. holds digest (aw_files w) a rs \<and> length rs \<le> m \<and> distinct (map rv_session_id rs) \<and>
      (\<forall>session r. aw_grants w a session = Some r \<and> t < rv_expires_at_ms r \<longrightarrow> rv_session_id r = session \<and> r \<in> set rs)) \<and>
    card {session. \<exists>r. aw_grants w a session = Some r \<and> t < rv_expires_at_ms r} \<le> m \<and>
    (\<forall>p q. critical a (aw_stage w p) \<and> critical a (aw_stage w q) \<longrightarrow> p = q)"
proof -
  have inv: "world_inv digest a m (- 1) t w"
    using run_inv [OF assms(2,3) world_start_inv assms(4), of fs] assms(1,5) by simp
  then obtain rs where rs: "holds digest (aw_files w) a rs" "length rs \<le> m" "distinct (map rv_session_id rs)"
    and g: "\<And>session r. aw_grants w a session = Some r \<Longrightarrow> rv_session_id r = session \<and> (t < rv_expires_at_ms r \<longrightarrow> r \<in> set rs)"
    unfolding world_inv_def admission_inv_def by auto
  have "{session. \<exists>r. aw_grants w a session = Some r \<and> t < rv_expires_at_ms r} \<subseteq> rv_session_id ` set rs"
    using g by blast
  then have "card {session. \<exists>r. aw_grants w a session = Some r \<and> t < rv_expires_at_ms r} \<le> card (rv_session_id ` set rs)"
    by (intro card_mono) simp_all
  also have "\<dots> \<le> m" using rs(2) card_image_le [of "set rs" rv_session_id] card_length [of rs] by simp
  finally show ?thesis using rs g inv unfolding world_inv_def by blast
qed

definition sample_events :: "admission_event list" where
  "sample_events = Start 1 (AdapterId ''a'') (Reserve 1 ''q'' 4 10) # alone 0 (AdapterId ''a'') (Reserve 1 ''s'' 5 10) 7"

lemma sample_events_regular:
  "own_file (\<lambda>s. s) (AdapterId ''a'')" "list_all (event_regular (AdapterId ''a'') 1 (- 1) 6) sample_events"
  by (auto simp: own_file_def sample_events_def alone_def event_regular_def call_regular_def plain_field_def works_def
      list_all_iff intro: adapter_id.expand)

lemma sample_events_grant:
  "aw_grants (admission_run (\<lambda>s. s) sample_events (world_start Map.empty)) (AdapterId ''a'') ''s'' = Some (new_reservation ''s'' 5 10)"
proof -
  let ?w = "placed (world_start Map.empty) 1 Map.empty (Locking (AdapterId ''a'') (Reserve 1 ''q'' 4 10) 200) (\<lambda>_. Map.empty)"
  have "admission_run (\<lambda>s. s) sample_events (world_start Map.empty) = admission_run (\<lambda>s. s) (alone 0 (AdapterId ''a'') (Reserve 1 ''s'' 5 10) 7) ?w"
    by (simp add: sample_events_def admission_run_def world_start_def placed_def at_rest_def begin_call_def valid_call_def)
  moreover have "call_decision (Reserve 1 ''s'' 5 10) \<lparr>sn_adapter_id = AdapterId ''a'', sn_max_concurrency = 0, sn_reservations = []\<rparr> =
      Inr (Reserved (new_reservation ''s'' 5 10), Some \<lparr>sn_adapter_id = AdapterId ''a'', sn_max_concurrency = 1,
        sn_reservations = [new_reservation ''s'' 5 10]\<rparr>)"
    by (simp add: answer_with_def reserve_decision_def unexpired_def Let_def)
  moreover have "at_rest (aw_stage ?w 0)" "valid_call (Reserve 1 ''s'' 5 10)"
    "current_snapshot (\<lambda>s. s) (aw_files ?w) (AdapterId ''a'') = Inr \<lparr>sn_adapter_id = AdapterId ''a'', sn_max_concurrency = 0, sn_reservations = []\<rparr>"
    by (simp_all add: placed_def world_start_def at_rest_def valid_call_def current_snapshot_def read_snapshot_def)
  ultimately show ?thesis using alone_writes [of ?w 0 "\<lambda>s. s" "AdapterId ''a''" "Reserve 1 ''s'' 5 10"]
    by (simp add: new_reservation_def)
qed

theorem admission_limit_witness:
  "let held = {session. \<exists>r. aw_grants (admission_run (\<lambda>s. s) sample_events (world_start Map.empty)) (AdapterId ''a'') session = Some r \<and>
     6 < rv_expires_at_ms r}
   in ''s'' \<in> held \<and> card held \<le> 1"
proof -
  have "6 < rv_expires_at_ms (new_reservation ''s'' 5 10)" by (simp add: new_reservation_def sat_add_def)
  then show ?thesis unfolding Let_def
    using admission_limit [OF _ sample_events_regular(1) _ sample_events_regular(2) refl, of Map.empty] sample_events_grant by auto
qed

text \<open>
  C22. No session blocks an adapter for ever. After any such run, with times to live of at most
  \<open>ttl_max\<close>, once that time has passed after the last reading of the clock and no lock file has been left
  behind, a process that acts alone and whose file operations work is granted a reservation for a new
  session, whatever sessions vanished without giving theirs back, and leaves no lock file behind.
\<close>
theorem admission_progress:
  assumes "fs (admission_path digest a) = None" and "own_file digest a" and "m < 2 ^ 64"
    and "list_all (event_regular a m ttl_max t) es" and "admission_run digest es (world_start fs) = w"
    and "aw_files w (lock_file digest a) = None" and "at_rest (aw_stage w p)"
    and "0 < n" and "session \<noteq> []" and "sat_add t (max ttl_max 1) \<le> now"
    and "admission_run digest (alone p a (Reserve n session now ttl) 7) w = w'"
  shows "aw_stage w' p = Done (Inr (Reserved (new_reservation session now ttl))) \<and> aw_files w' (lock_file digest a) = None"
proof -
  have "world_inv digest a m ttl_max t w"
    using run_inv [OF assms(2,3) world_start_inv assms(4), of fs] assms(1,5) by simp
  then obtain rs where rs: "holds digest (aw_files w) a rs" "\<forall>r \<in> set rs. rv_expires_at_ms r \<le> sat_add t (max ttl_max 1)"
    unfolding world_inv_def admission_inv_def by auto
  obtain s where s: "current_snapshot digest (aw_files w) a = Inr s" "sn_reservations s = rs"
    using read_holds [OF rs(1), of sample_io] by (auto simp: current_snapshot_def sample_io_def)
  have "unexpired now rs = []"
    using rs(2) assms(10) by (auto simp: unexpired_def filter_empty_conv not_less intro: order_trans)
  then have "call_decision (Reserve n session now ttl) s = Inr (Reserved (new_reservation session now ttl),
      Some (s\<lparr>sn_max_concurrency := n, sn_reservations := [new_reservation session now ttl]\<rparr>))"
    using s(2) assms(8) by (simp add: reserve_decision_def answer_with_def Let_def)
  moreover have "valid_call (Reserve n session now ttl)" using assms(8,9) by (simp add: valid_call_def)
  ultimately show ?thesis using alone_writes [OF assms(7,6) _ s(1)] assms(11) by auto
qed

theorem admission_progress_witness:
  "aw_stage (admission_run (\<lambda>s. s) (alone 2 (AdapterId ''a'') (Reserve 1 ''q'' 16 10) 7) (world_start Map.empty)) 2 =
     Done (Inr (Reserved (new_reservation ''q'' 16 10)))"
proof -
  have "sat_add 6 (max 10 1) \<le> (16 :: u128)" by (simp add: sat_add_def)
  then show ?thesis
    using admission_progress [of Map.empty "\<lambda>s. s" "AdapterId ''a''" 1 10 6 "[]" "world_start Map.empty" 2 1 "''q''" 16 10]
      sample_events_regular(1) by (simp add: admission_run_def world_start_def at_rest_def)
qed



end
