(* ===== verification/Storage_Effects.thy ===== *)
theory Storage_Effects
  imports Storage_EventFiles
begin

section \<open>The ledger of effects that must not be repeated (eva-storage, effect\_ledger.rs)\<close>

text \<open>
  Before a handler with external effects runs, its task attempt writes a prepared record under the
  idempotency key of the operation; after it, the record is advanced to committed. Every call reads
  the directory again under the lock of the runtime writer, so the ledger objects of a process are
  only views of the directory. The hexadecimal SHA-256 of the crate \<^verbatim>\<open>sha2\<close> is the argument \<open>sha\<close>; the
  verdict of the writer fence and the outcomes of the file operations of a call are the record \<open>env\<close>;
  the task store is a record of the operations the ledger calls. Stored values of type \<^verbatim>\<open>usize\<close> are
  64-bit words.
\<close>

datatype effect_state = EffectPrepared | EffectCommitted

record effect_operation =
  op_idempotency_key :: string
  op_operation_digest :: string
  op_task_kind :: string
  op_agent_id :: string
  op_effect_scope :: string
  op_input_digest :: string

record effect_intent =
  in_operation :: effect_operation
  in_task_id :: string
  in_owner_generation :: u64
  in_attempt :: u64
  in_fence_digest :: string
  in_prepared_at_ms :: u128

record effect_record =
  er_operation :: effect_operation
  er_state :: effect_state
  er_task_id :: string
  er_owner_generation :: u64
  er_attempt :: u64
  er_fence_digest :: string
  er_prepared_at_ms :: u128
  er_committed_at_ms :: "u128 option"
  er_result_digest :: "string option"
  er_result_size_bytes :: "u64 option"

datatype prepare_outcome =
    CreatedEffect effect_record
  | PreparedEffect effect_record
  | CommittedEffect effect_record

abbreviation record_key :: "effect_record \<Rightarrow> string" where
  "record_key r \<equiv> op_idempotency_key (er_operation r)"

abbreviation intent_key :: "effect_intent \<Rightarrow> string" where
  "intent_key i \<equiv> op_idempotency_key (in_operation i)"

subsection \<open>Validation and digests\<close>

fun effect_state_as_str :: "effect_state \<Rightarrow> string" where
  "effect_state_as_str EffectPrepared = ''prepared''"
| "effect_state_as_str EffectCommitted = ''committed''"

definition effect_state_from_storage :: "string \<Rightarrow> effect_state res" where
  "effect_state_from_storage v =
     (if v = ''prepared'' then Inr EffectPrepared
      else if v = ''committed'' then Inr EffectCommitted
      else Inl (with_context (err_conflict ''effect ledger state is invalid'') ''state'' v))"

definition validate_task_kind :: "string \<Rightarrow> unit res" where
  "validate_task_kind v =
     (if v = [] \<or> trim v \<noteq> v \<or> length v > 128
      then Inl (with_context (err_invalid_argument ''task kind must be a stable non-empty dotted name'')
             ''task_kind'' v)
      else res_all (\<lambda>segment.
        if segment = [] \<or> \<not> (\<forall>c \<in> set segment. is_ascii_alphanumeric c \<or> c = CHR ''_'' \<or> c = CHR ''-'')
        then Inl (with_context (err_invalid_argument ''task kind contains an invalid dotted segment'')
               ''task_kind'' v)
        else Inr ()) (split_on CHR ''.'' v))"

text \<open>\<^verbatim>\<open>char::is_control\<close> on UTF-8: the two ASCII ranges, and U+0080 to U+009F in two bytes.\<close>

fun has_control :: "string \<Rightarrow> bool" where
  "has_control [] = False"
| "has_control (c # s) \<longleftrightarrow> byte c < 32 \<or> byte c = 127 \<or>
     byte c = 0xC2 \<and> (case s of d # _ \<Rightarrow> byte d \<le> 0x9F | [] \<Rightarrow> False) \<or> has_control s"

definition validate_fence_field :: "string \<Rightarrow> string \<Rightarrow> unit res" where
  "validate_fence_field field v =
     (if v = [] \<or> trim v \<noteq> v \<or> length v > 512 \<or> has_control v
      then Inl (with_context (err_invalid_argument ''effect task fence field is invalid'') ''field'' field)
      else Inr ())"

definition validate_sha256_digest :: "string \<Rightarrow> string \<Rightarrow> unit res" where
  "validate_sha256_digest field v =
     (let bad = Inl (with_context (err_conflict ''effect digest is not canonical SHA-256'') ''field'' field)
      in case strip_prefix ''sha256:'' v of
           None \<Rightarrow> bad
         | Some hex \<Rightarrow> if length hex \<noteq> 64 \<or> \<not> (\<forall>c \<in> set hex. is_lower_hex c) then bad else Inr ())"

definition framed :: "string \<Rightarrow> string" where
  "framed s = map (\<lambda>i. char_of (length s mod 2 ^ 64 div 256 ^ (7 - i))) [0 ..< 8] @ s"

definition canonical_digest :: "(string \<Rightarrow> string) \<Rightarrow> string \<Rightarrow> string list \<Rightarrow> string" where
  "canonical_digest sha domain parts = ''sha256:'' @ sha (framed domain @ concat (map framed parts))"

definition effect_operation_new ::
  "(string \<Rightarrow> string) \<Rightarrow> string \<Rightarrow> string \<Rightarrow> string \<Rightarrow> string \<Rightarrow> string \<Rightarrow> effect_operation res" where
  "effect_operation_new sha key kind agent scope input =
     res_bind (map_err (\<lambda>e. with_context (err_invalid_argument ''effect idempotency key is invalid'')
       ''cause'' (err_message e)) (request_id_parse key)) (\<lambda>_.
     res_bind (validate_task_kind kind) (\<lambda>_.
     res_bind (agent_id_parse agent) (\<lambda>_.
     res_bind (map_err (\<lambda>e. with_context (err_invalid_argument ''effect scope is invalid'')
       ''cause'' (err_message e)) (request_id_parse scope)) (\<lambda>_.
     res_bind (validate_sha256_digest ''input_digest'' input) (\<lambda>_.
     Inr \<lparr>op_idempotency_key = key,
          op_operation_digest = canonical_digest sha ''eva.effect-operation.v1'' [key, kind, agent, scope, input],
          op_task_kind = kind, op_agent_id = agent, op_effect_scope = scope, op_input_digest = input\<rparr>)))))"

definition fence_digest :: "(string \<Rightarrow> string) \<Rightarrow> string \<Rightarrow> u64 \<Rightarrow> string \<Rightarrow> u64 \<Rightarrow> string \<Rightarrow> string" where
  "fence_digest sha task generation owner attempt token =
     canonical_digest sha ''eva.effect-attempt-fence.v1''
       [task, nat_str (unat generation), owner, nat_str (unat attempt), token]"

definition effect_intent_new ::
  "(string \<Rightarrow> string) \<Rightarrow> effect_operation \<Rightarrow> string \<Rightarrow> u64 \<Rightarrow> string \<Rightarrow> u64 \<Rightarrow> string \<Rightarrow> u128 \<Rightarrow> effect_intent res" where
  "effect_intent_new sha operation task generation owner attempt token now =
     res_bind (request_id_parse task) (\<lambda>_.
     if generation = 0
     then Inl (err_invalid_argument ''effect prepare requires a non-zero writer generation'')
     else if attempt = 0
     then Inl (err_invalid_argument ''effect prepare requires a one-based task attempt'')
     else
       res_bind (validate_fence_field ''execution_owner'' owner) (\<lambda>_.
       res_bind (validate_fence_field ''cancel_token'' token) (\<lambda>_.
       Inr \<lparr>in_operation = operation, in_task_id = task, in_owner_generation = generation,
            in_attempt = attempt, in_fence_digest = fence_digest sha task generation owner attempt token,
            in_prepared_at_ms = now\<rparr>)))"

definition effect_prepared :: "effect_intent \<Rightarrow> effect_record" where
  "effect_prepared i =
     \<lparr>er_operation = in_operation i, er_state = EffectPrepared, er_task_id = in_task_id i,
      er_owner_generation = in_owner_generation i, er_attempt = in_attempt i,
      er_fence_digest = in_fence_digest i, er_prepared_at_ms = in_prepared_at_ms i,
      er_committed_at_ms = None, er_result_digest = None, er_result_size_bytes = None\<rparr>"

definition effect_validate :: "(string \<Rightarrow> string) \<Rightarrow> effect_record \<Rightarrow> unit res" where
  "effect_validate sha r =
     (let operation = er_operation r in
      res_bind (effect_operation_new sha (op_idempotency_key operation) (op_task_kind operation)
        (op_agent_id operation) (op_effect_scope operation) (op_input_digest operation)) (\<lambda>canonical.
      if op_operation_digest canonical \<noteq> op_operation_digest operation
      then Inl (err_conflict ''effect operation digest does not match its immutable identity'')
      else
        res_bind (request_id_parse (er_task_id r)) (\<lambda>_.
        if er_owner_generation r = 0 \<or> er_attempt r = 0
        then Inl (err_conflict ''effect prepared task fence is incomplete'')
        else
          res_bind (validate_sha256_digest ''prepared_fence_digest'' (er_fence_digest r)) (\<lambda>_.
          case er_state r of
            EffectPrepared \<Rightarrow>
              if er_committed_at_ms r \<noteq> None \<or> er_result_digest r \<noteq> None \<or> er_result_size_bytes r \<noteq> None
              then Inl (err_conflict ''prepared effect record contains committed result fields'')
              else Inr ()
          | EffectCommitted \<Rightarrow>
              res_bind (ok_or (err_conflict ''committed effect record is missing commit time'')
                (er_committed_at_ms r)) (\<lambda>at.
              if at < er_prepared_at_ms r
              then Inl (err_conflict ''effect commit time precedes its prepare boundary'')
              else
                res_bind (ok_or (err_conflict ''committed effect record is missing result digest'')
                  (er_result_digest r)) (\<lambda>digest.
                res_bind (validate_sha256_digest ''result_digest'' digest) (\<lambda>_.
                if er_result_size_bytes r = None
                then Inl (err_conflict ''committed effect record is missing result size'')
                else Inr ())))))))"

subsection \<open>The text of a record\<close>

definition opt_str :: "'a::len word option \<Rightarrow> string" where
  "opt_str v = (case v of None \<Rightarrow> [] | Some n \<Rightarrow> nat_str (unat n))"

definition effect_fields :: "effect_record \<Rightarrow> (string \<times> string) list" where
  "effect_fields r =
     [(''format'', ''eva.effect-ledger.v1''),
      (''idempotency_key'', op_idempotency_key (er_operation r)),
      (''operation_digest'', op_operation_digest (er_operation r)),
      (''task_kind'', op_task_kind (er_operation r)),
      (''agent_id'', op_agent_id (er_operation r)),
      (''effect_scope'', op_effect_scope (er_operation r)),
      (''input_digest'', op_input_digest (er_operation r)),
      (''state'', effect_state_as_str (er_state r)),
      (''prepared_task_id'', er_task_id r),
      (''prepared_owner_generation'', nat_str (unat (er_owner_generation r))),
      (''prepared_attempt'', nat_str (unat (er_attempt r))),
      (''prepared_fence_digest'', er_fence_digest r),
      (''prepared_at_ms'', nat_str (unat (er_prepared_at_ms r))),
      (''committed_at_ms'', opt_str (er_committed_at_ms r)),
      (''result_digest'', case er_result_digest r of None \<Rightarrow> [] | Some d \<Rightarrow> d),
      (''result_size_bytes'', opt_str (er_result_size_bytes r))]"

definition effect_record_to_storage :: "effect_record \<Rightarrow> string" where
  "effect_record_to_storage r = concat (map (\<lambda>(k, v). k @ ''='' @ v @ [CHR 0x0A]) (effect_fields r))"

definition effect_field_names :: "string list" where
  "effect_field_names =
     [''format'', ''idempotency_key'', ''operation_digest'', ''task_kind'', ''agent_id'', ''effect_scope'',
      ''input_digest'', ''state'', ''prepared_task_id'', ''prepared_owner_generation'', ''prepared_attempt'',
      ''prepared_fence_digest'', ''prepared_at_ms'', ''committed_at_ms'', ''result_digest'', ''result_size_bytes'']"

fun parse_effect_lines :: "string list \<Rightarrow> fields \<Rightarrow> fields res" where
  "parse_effect_lines [] acc = Inr acc"
| "parse_effect_lines (line # rest) acc = (case split_once CHR ''='' line of
     None \<Rightarrow> Inl (err_conflict ''effect ledger record field is invalid'')
   | Some (key, v) \<Rightarrow>
       if key \<notin> set effect_field_names
       then Inl (with_context (err_conflict ''effect ledger record has unknown field'') ''field'' key)
       else if bt_get acc key \<noteq> None
       then Inl (with_context (err_conflict ''effect ledger record field is duplicated'') ''field'' key)
       else parse_effect_lines rest (bt_insert key v acc))"

definition required_field :: "fields \<Rightarrow> string \<Rightarrow> string res" where
  "required_field fs key =
     ok_or (with_context (err_conflict ''effect ledger record field is missing'') ''field'' key) (bt_get fs key)"

definition optional_text_field :: "fields \<Rightarrow> string \<Rightarrow> string option res" where
  "optional_text_field fs key =
     res_bind (required_field fs key) (\<lambda>v. Inr (if v = [] then None else Some v))"

definition parse_field :: "fields \<Rightarrow> string \<Rightarrow> ('a::len word) res" where
  "parse_field fs key = res_bind (required_field fs key) (\<lambda>v.
     case parse_unsigned (2 ^ LENGTH('a)) v of
       None \<Rightarrow> Inl (with_context (err_conflict ''effect ledger numeric field is invalid'') ''field'' key)
     | Some n \<Rightarrow> Inr (of_nat n))"

definition parse_optional_field :: "fields \<Rightarrow> string \<Rightarrow> ('a::len word option) res" where
  "parse_optional_field fs key = res_bind (required_field fs key) (\<lambda>v.
     if v = [] then Inr None
     else case parse_unsigned (2 ^ LENGTH('a)) v of
       None \<Rightarrow> Inl (with_context (err_conflict ''effect ledger numeric field is invalid'') ''field'' key)
     | Some n \<Rightarrow> Inr (Some (of_nat n)))"

definition effect_record_from_storage :: "(string \<Rightarrow> string) \<Rightarrow> string \<Rightarrow> effect_record res" where
  "effect_record_from_storage sha data =
     res_bind (parse_effect_lines (filter (\<lambda>l. l \<noteq> []) (lines data)) []) (\<lambda>fs.
     if length fs \<noteq> 16 then Inl (err_conflict ''effect ledger record field set is incomplete'') else
     res_bind (required_field fs ''format'') (\<lambda>format.
     if format \<noteq> ''eva.effect-ledger.v1'' then Inl (err_conflict ''effect ledger record format is unsupported'') else
     res_bind (required_field fs ''idempotency_key'') (\<lambda>key.
     res_bind (required_field fs ''task_kind'') (\<lambda>kind.
     res_bind (required_field fs ''agent_id'') (\<lambda>agent.
     res_bind (required_field fs ''effect_scope'') (\<lambda>scope.
     res_bind (required_field fs ''input_digest'') (\<lambda>input.
     res_bind (effect_operation_new sha key kind agent scope input) (\<lambda>operation.
     res_bind (required_field fs ''operation_digest'') (\<lambda>digest.
     if op_operation_digest operation \<noteq> digest
     then Inl (err_conflict ''effect operation digest does not match stored identity'') else
     res_bind (res_bind (required_field fs ''state'') effect_state_from_storage) (\<lambda>state.
     res_bind (required_field fs ''prepared_task_id'') (\<lambda>task.
     res_bind (parse_field fs ''prepared_owner_generation'') (\<lambda>generation.
     res_bind (parse_field fs ''prepared_attempt'') (\<lambda>attempt.
     res_bind (required_field fs ''prepared_fence_digest'') (\<lambda>fence.
     res_bind (parse_field fs ''prepared_at_ms'') (\<lambda>prepared_at.
     res_bind (parse_optional_field fs ''committed_at_ms'') (\<lambda>committed_at.
     res_bind (optional_text_field fs ''result_digest'') (\<lambda>result.
     res_bind (parse_optional_field fs ''result_size_bytes'') (\<lambda>size.
     let r = \<lparr>er_operation = operation, er_state = state, er_task_id = task, er_owner_generation = generation,
              er_attempt = attempt, er_fence_digest = fence, er_prepared_at_ms = prepared_at,
              er_committed_at_ms = committed_at, er_result_digest = result, er_result_size_bytes = size\<rparr>
     in res_bind (effect_validate sha r) (\<lambda>_. Inr r)))))))))))))))))))"

subsection \<open>The directory\<close>

text \<open>
  What the operating system answers during one call: whether the writer lease still holds, the error
  of listing the directory, the error of reaching an entry of the listing, the type of an entry (an
  error, or whether it is a regular file), the error of reading a file, and the outcome of the write.
\<close>

record effect_env =
  ee_verify :: "unit res"
  ee_list_error :: "string option"
  ee_entry_error :: "string \<Rightarrow> string option"
  ee_file_type :: "string \<Rightarrow> string + bool"
  ee_read_error :: "string \<Rightarrow> string option"
  ee_write :: write_outcome

function trim_start_matches :: "string \<Rightarrow> string \<Rightarrow> string" where
  "trim_start_matches p s = (if p \<noteq> [] \<and> s \<noteq> [] \<and> take (length p) s = p
     then trim_start_matches p (drop (length p) s) else s)"
  by pat_completeness auto
termination by (relation "measure (\<lambda>(p, s). length s)") auto

definition effect_record_stem :: "(string \<Rightarrow> string) \<Rightarrow> string \<Rightarrow> string" where
  "effect_record_stem sha key =
     trim_start_matches ''sha256:'' (canonical_digest sha ''eva.effect-record-key.v1'' [key])"

text \<open>\<^verbatim>\<open>Path::file_stem\<close> of a file name: what precedes the last dot, or the name itself.\<close>

definition file_stem :: "string \<Rightarrow> string" where
  "file_stem name = (case split_once CHR ''.'' (rev name) of
     None \<Rightarrow> name
   | Some (_, stem) \<Rightarrow> if stem = [] then name else rev stem)"

definition effect_file :: "(string \<Rightarrow> string) \<Rightarrow> string \<Rightarrow> string" where
  "effect_file sha key = effect_record_stem sha key @ ''.effect''"

definition load_effect_file ::
  "(string \<Rightarrow> string) \<Rightarrow> effect_env \<Rightarrow> string \<Rightarrow> string \<times> string \<Rightarrow> effect_record res" where
  "load_effect_file sha env root f =
     (let path = path_display root (fst f);
          unreadable = (\<lambda>m. Inl (with_context (with_context
            (err_conflict ''failed to read effect ledger record'') ''path'' path) ''io_error'' m))
      in case ee_file_type env (fst f) of
           Inl m \<Rightarrow> Inl (with_context (with_context
             (err_conflict ''failed to inspect effect ledger entry'') ''path'' path) ''io_error'' m)
         | Inr is_file \<Rightarrow>
             if \<not> is_file
             then Inl (with_context (err_conflict ''effect ledger entry is not a regular file'') ''path'' path)
             else case ee_read_error env (fst f) of
               Some m \<Rightarrow> unreadable m
             | None \<Rightarrow>
                 if \<not> utf8_valid (str_bytes (snd f)) then unreadable ''stream did not contain valid UTF-8''
                 else
                   res_bind (map_err (\<lambda>e. with_context e ''path'' path) (effect_record_from_storage sha (snd f))) (\<lambda>r.
                   if file_stem (fst f) \<noteq> effect_record_stem sha (record_key r)
                   then Inl (with_context (err_conflict ''effect ledger file key does not match record'') ''path'' path)
                   else Inr r))"

type_synonym effect_records = "(string, effect_record) btree_map"

fun load_effect_files ::
  "(string \<Rightarrow> string) \<Rightarrow> effect_env \<Rightarrow> string \<Rightarrow> directory \<Rightarrow> effect_records \<Rightarrow> effect_records res" where
  "load_effect_files sha env root [] records = Inr records"
| "load_effect_files sha env root (f # fs) records = (case ee_entry_error env (fst f) of
     Some m \<Rightarrow> Inl (with_context (with_context
       (err_internal ''failed to read effect ledger entry'') ''path'' root) ''io_error'' m)
   | None \<Rightarrow>
       if file_extension (fst f) \<noteq> Some ''effect'' then load_effect_files sha env root fs records
       else res_bind (load_effect_file sha env root f) (\<lambda>r.
         if bt_get records (record_key r) \<noteq> None
         then Inl (err_conflict ''effect ledger idempotency key is duplicated'')
         else load_effect_files sha env root fs (bt_insert (record_key r) r records)))"

definition load_effect_records ::
  "(string \<Rightarrow> string) \<Rightarrow> effect_env \<Rightarrow> string \<Rightarrow> directory \<Rightarrow> effect_records res" where
  "load_effect_records sha env root dir = (case ee_list_error env of
     Some m \<Rightarrow> Inl (with_context (with_context
       (err_internal ''failed to read effect ledger directory'') ''path'' root) ''io_error'' m)
   | None \<Rightarrow> load_effect_files sha env root dir [])"

definition persist_effect_record ::
  "(string \<Rightarrow> string) \<Rightarrow> effect_env \<Rightarrow> string \<Rightarrow> directory \<Rightarrow> effect_record \<Rightarrow> unit res \<times> directory" where
  "persist_effect_record sha env root dir r =
     (let name = effect_file sha (record_key r) in
      case atomic_write (ee_write env) dir name (effect_record_to_storage r) of
        (Inl m, dir') \<Rightarrow> (Inl (with_context (with_context
            (err_internal ''failed to atomically write effect ledger record'')
            ''path'' (path_display root name)) ''io_error'' m), dir')
      | (Inr _, dir') \<Rightarrow> (Inr (), dir'))"

subsection \<open>The ledger\<close>

record ledger_writer =
  lw_root :: string
  lw_generation :: u64

record effect_ledger =
  el_root :: string
  el_records :: effect_records
  el_writer :: "ledger_writer option"

definition open_with_writer ::
  "(string \<Rightarrow> string) \<Rightarrow> effect_env \<Rightarrow> string \<Rightarrow> string \<Rightarrow> ledger_writer \<Rightarrow> path_state \<Rightarrow> (string + unit) \<Rightarrow>
     effect_ledger res" where
  "open_with_writer sha env layout_root state_dir w path created =
     (if lw_root w \<noteq> layout_root
      then Inl (with_context (with_context (err_conflict ''effect ledger writer belongs to a different backend root'')
             ''layout_root'' layout_root) ''writer_root'' (lw_root w))
      else
        (let root = state_dir @ ''/effects'' in
         res_bind (ee_verify env) (\<lambda>_.
         res_bind (case path of
             NotDirectory \<Rightarrow> Inl (with_context (err_conflict ''effect ledger path is not a directory'') ''path'' root)
           | Directory dir \<Rightarrow> load_effect_records sha env root dir
           | Missing \<Rightarrow> (case created of
               Inl m \<Rightarrow> Inl (with_context (with_context (err_internal ''failed to create effect ledger directory'')
                 ''path'' root) ''io_error'' m)
             | Inr _ \<Rightarrow> load_effect_records sha env root [])) (\<lambda>records.
         Inr \<lparr>el_root = root, el_records = records, el_writer = Some w\<rparr>))))"

definition open_read_only ::
  "(string \<Rightarrow> string) \<Rightarrow> effect_env \<Rightarrow> string \<Rightarrow> path_state \<Rightarrow> effect_ledger res" where
  "open_read_only sha env state_dir path =
     (let root = state_dir @ ''/effects'' in
      res_bind (case path of
          NotDirectory \<Rightarrow> Inl (with_context (err_conflict ''effect ledger path is not a directory'') ''path'' root)
        | Directory dir \<Rightarrow> load_effect_records sha env root dir
        | Missing \<Rightarrow> Inr []) (\<lambda>records.
      Inr \<lparr>el_root = root, el_records = records, el_writer = None\<rparr>))"

text \<open>A reading call takes whether the directory exists; without a writer a missing one is empty.\<close>

definition ledger_refresh ::
  "(string \<Rightarrow> string) \<Rightarrow> effect_env \<Rightarrow> bool \<Rightarrow> directory \<Rightarrow> effect_ledger \<Rightarrow> unit res \<times> effect_ledger" where
  "ledger_refresh sha env exists dir l =
     (case (case el_writer l of
              Some _ \<Rightarrow> res_bind (ee_verify env) (\<lambda>_. load_effect_records sha env (el_root l) dir)
            | None \<Rightarrow> if exists then load_effect_records sha env (el_root l) dir else Inr []) of
        Inl e \<Rightarrow> (Inl e, l)
      | Inr records \<Rightarrow> (Inr (), l\<lparr>el_records := records\<rparr>))"

definition ensure_operation_matches :: "effect_record \<Rightarrow> effect_operation \<Rightarrow> unit res" where
  "ensure_operation_matches r operation =
     (if er_operation r = operation then Inr ()
      else Inl (with_context (with_context
             (err_conflict ''effect idempotency key is already bound to another operation'')
             ''existing_operation_digest'' (op_operation_digest (er_operation r)))
             ''requested_operation_digest'' (op_operation_digest operation)))"

definition lookup_effect :: "effect_records \<Rightarrow> effect_operation \<Rightarrow> effect_record option res" where
  "lookup_effect records operation = (case bt_get records (op_idempotency_key operation) of
     None \<Rightarrow> Inr None
   | Some r \<Rightarrow> res_bind (ensure_operation_matches r operation) (\<lambda>_. Inr (Some r)))"

definition inspect ::
  "(string \<Rightarrow> string) \<Rightarrow> effect_env \<Rightarrow> bool \<Rightarrow> directory \<Rightarrow> effect_ledger \<Rightarrow> effect_operation \<Rightarrow>
     effect_record option res \<times> effect_ledger" where
  "inspect sha env exists dir l operation = (case ledger_refresh sha env exists dir l of
     (Inl e, l') \<Rightarrow> (Inl e, l')
   | (Inr _, l') \<Rightarrow> (lookup_effect (el_records l') operation, l'))"

type_synonym 'a effect_result = "'a res \<times> effect_ledger \<times> directory"

definition run_transaction ::
  "(string \<Rightarrow> string) \<Rightarrow> effect_env \<Rightarrow> effect_ledger \<Rightarrow> directory \<Rightarrow> 'c res \<Rightarrow>
     ('c \<Rightarrow> effect_records \<Rightarrow> directory \<Rightarrow> ('a \<times> effect_records) res \<times> directory) \<Rightarrow> 'a effect_result" where
  "run_transaction sha env l dir admitted operation =
     (case res_bind (ee_verify env) (\<lambda>_. res_bind admitted (\<lambda>c.
             res_bind (load_effect_records sha env (el_root l) dir) (\<lambda>records. Inr (c, records)))) of
        Inl e \<Rightarrow> (Inl e, l, dir)
      | Inr (c, records) \<Rightarrow>
          (case operation c records dir of
             (Inl e, dir') \<Rightarrow> (Inl e, l, dir')
           | (Inr (x, records'), dir') \<Rightarrow> (Inr x, l\<lparr>el_records := records'\<rparr>, dir')))"

definition with_write_transaction ::
  "(string \<Rightarrow> string) \<Rightarrow> effect_env \<Rightarrow> effect_ledger \<Rightarrow> directory \<Rightarrow>
     (effect_records \<Rightarrow> directory \<Rightarrow> ('a \<times> effect_records) res \<times> directory) \<Rightarrow> 'a effect_result" where
  "with_write_transaction sha env l dir operation = (case el_writer l of
     None \<Rightarrow> (Inl (err_conflict ''read-only effect ledger cannot mutate records''), l, dir)
   | Some w \<Rightarrow> run_transaction sha env l dir (Inr ()) (\<lambda>_. operation))"

subsection \<open>The claim of a task\<close>

record task_envelope =
  te_kind :: string
  te_agent_id :: string
  te_input_digest :: string
  te_idempotency_key :: string

record task_claim =
  tc_owner_generation :: u64
  tc_task_id :: string
  tc_envelope :: "task_envelope option"
  tc_status :: string
  tc_attempts :: u64
  tc_execution_owner :: "string option"
  tc_cancel_requested :: bool
  tc_cancel_accepted :: bool
  tc_deadline_at_ms :: "u128 option"
  tc_cancel_token :: "string option"

record task_store =
  ts_project_root :: string
  ts_writer_generation :: "u64 option"
  ts_read :: "string \<Rightarrow> task_claim res"

definition deadline_expired :: "task_claim \<Rightarrow> u128 \<Rightarrow> bool" where
  "deadline_expired t now = (case tc_deadline_at_ms t of None \<Rightarrow> False | Some d \<Rightarrow> d \<le> now)"

definition verify_effect_task_claim ::
  "(string \<Rightarrow> string) \<Rightarrow> task_store \<Rightarrow> effect_intent \<Rightarrow> u64 \<Rightarrow> u128 \<Rightarrow> unit res" where
  "verify_effect_task_claim sha store i generation now =
     (let about_task = (\<lambda>e. with_context e ''task_id'' (in_task_id i)) in
      if in_owner_generation i \<noteq> generation
      then Inl (about_task (err_conflict ''effect prepare belongs to another writer generation''))
      else
        res_bind (ts_read store (in_task_id i)) (\<lambda>t.
        if tc_status t \<noteq> ''running'' \<or> tc_cancel_requested t \<or> tc_cancel_accepted t
        then Inl (with_context (about_task (with_retryable
               (err_conflict ''effect prepare requires an uncancelled running task'') False))
               ''status'' (tc_status t))
        else if deadline_expired t now
        then Inl (err_timeout ''effect task deadline expired before prepare'')
        else
          res_bind (ok_or (about_task (err_conflict ''effect task is missing its immutable envelope''))
            (tc_envelope t)) (\<lambda>v.
          if te_idempotency_key v \<noteq> op_idempotency_key (in_operation i) \<or>
             te_kind v \<noteq> op_task_kind (in_operation i) \<or>
             te_agent_id v \<noteq> op_agent_id (in_operation i) \<or>
             te_input_digest v \<noteq> op_input_digest (in_operation i)
          then Inl (with_context (about_task
                 (err_conflict ''effect operation does not match the claimed task envelope''))
                 ''operation_digest'' (op_operation_digest (in_operation i)))
          else
            res_bind (ok_or (about_task (err_conflict ''effect task is missing its execution owner''))
              (tc_execution_owner t)) (\<lambda>owner.
            res_bind (ok_or (about_task (err_conflict ''effect task is missing its cancellation fence''))
              (tc_cancel_token t)) (\<lambda>token.
            if tc_owner_generation t \<noteq> in_owner_generation i \<or> tc_attempts t \<noteq> in_attempt i \<or>
               fence_digest sha (tc_task_id t) (tc_owner_generation t) owner (tc_attempts t) token \<noteq>
                 in_fence_digest i
            then Inl (about_task (err_conflict ''effect prepare task fence does not match the live claim''))
            else Inr ())))))"

definition effect_now_ms :: "string + u128 \<Rightarrow> u128 res" where
  "effect_now_ms clock = (case clock of
     Inl m \<Rightarrow> Inl (with_context (err_internal ''system clock is before the Unix epoch'') ''clock_error'' m)
   | Inr now \<Rightarrow> Inr now)"

definition with_claim_transaction ::
  "(string \<Rightarrow> string) \<Rightarrow> effect_env \<Rightarrow> string + u128 \<Rightarrow> task_store \<Rightarrow> effect_ledger \<Rightarrow> directory \<Rightarrow> effect_intent \<Rightarrow>
     (u128 \<Rightarrow> effect_records \<Rightarrow> directory \<Rightarrow> ('a \<times> effect_records) res \<times> directory) \<Rightarrow> 'a effect_result" where
  "with_claim_transaction sha env clock store l dir i operation = (case el_writer l of
     None \<Rightarrow> (Inl (err_conflict ''read-only effect ledger cannot prepare records''), l, dir)
   | Some w \<Rightarrow>
       if ts_project_root store \<noteq> lw_root w \<or> ts_writer_generation store \<noteq> Some (lw_generation w)
       then (Inl (err_conflict ''effect ledger and task store do not share runtime writer ownership''), l, dir)
       else
         run_transaction sha env l dir
           (res_bind (effect_now_ms clock) (\<lambda>now.
            res_bind (verify_effect_task_claim sha store i (lw_generation w) now) (\<lambda>_. Inr now)))
           operation)"

subsection \<open>Inspection, preparation and commit\<close>

definition inspect_for_claim ::
  "(string \<Rightarrow> string) \<Rightarrow> effect_env \<Rightarrow> string + u128 \<Rightarrow> task_store \<Rightarrow> effect_ledger \<Rightarrow> directory \<Rightarrow> effect_intent \<Rightarrow>
     effect_record option effect_result" where
  "inspect_for_claim sha env clock store l dir i =
     with_claim_transaction sha env clock store l dir i (\<lambda>now records dir.
       (map_sum id (\<lambda>x. (x, records)) (lookup_effect records (in_operation i)), dir))"

definition prepare_effect_record ::
  "(string \<Rightarrow> string) \<Rightarrow> effect_env \<Rightarrow> string \<Rightarrow> effect_intent \<Rightarrow> effect_records \<Rightarrow> directory \<Rightarrow>
     (prepare_outcome \<times> effect_records) res \<times> directory" where
  "prepare_effect_record sha env root i records dir = (case bt_get records (intent_key i) of
     Some r \<Rightarrow>
       (res_bind (ensure_operation_matches r (in_operation i)) (\<lambda>_.
        Inr (case er_state r of EffectPrepared \<Rightarrow> PreparedEffect r | EffectCommitted \<Rightarrow> CommittedEffect r, records)),
        dir)
   | None \<Rightarrow>
       (let r = effect_prepared i in
        case effect_validate sha r of
          Inl e \<Rightarrow> (Inl e, dir)
        | Inr _ \<Rightarrow>
            (case persist_effect_record sha env root dir r of
               (Inl e, dir') \<Rightarrow> (Inl e, dir')
             | (Inr _, dir') \<Rightarrow> (Inr (CreatedEffect r, bt_insert (intent_key i) r records), dir'))))"

definition prepare_for_claim ::
  "(string \<Rightarrow> string) \<Rightarrow> effect_env \<Rightarrow> string + u128 \<Rightarrow> task_store \<Rightarrow> effect_ledger \<Rightarrow> directory \<Rightarrow> effect_intent \<Rightarrow>
     prepare_outcome effect_result" where
  "prepare_for_claim sha env clock store l dir i =
     with_claim_transaction sha env clock store l dir i (\<lambda>now records dir.
       prepare_effect_record sha env (el_root l) (i\<lparr>in_prepared_at_ms := now\<rparr>) records dir)"

definition commit_record ::
  "(string \<Rightarrow> string) \<Rightarrow> effect_env \<Rightarrow> string \<Rightarrow> effect_intent \<Rightarrow> string \<Rightarrow> u64 \<Rightarrow> u128 \<Rightarrow> effect_records \<Rightarrow> directory \<Rightarrow>
     (effect_record \<times> effect_records) res \<times> directory" where
  "commit_record sha env root i digest bytes at records dir =
     (let about_operation = (\<lambda>e. with_context e ''operation_digest'' (op_operation_digest (in_operation i))) in
      case bt_get records (intent_key i) of
        None \<Rightarrow> (Inl (about_operation (err_conflict ''effect cannot commit before prepare'')), dir)
      | Some current \<Rightarrow>
          (case ensure_operation_matches current (in_operation i) of
             Inl e \<Rightarrow> (Inl e, dir)
           | Inr _ \<Rightarrow>
               if er_task_id current \<noteq> in_task_id i \<or> er_owner_generation current \<noteq> in_owner_generation i \<or>
                  er_attempt current \<noteq> in_attempt i \<or> er_fence_digest current \<noteq> in_fence_digest i
               then (Inl (about_operation
                      (err_conflict ''effect commit task fence does not match the prepare owner'')), dir)
               else if er_state current = EffectCommitted
               then if er_result_digest current = Some digest \<and> er_result_size_bytes current = Some bytes
                    then (Inr (current, records), dir)
                    else (Inl (about_operation
                           (err_conflict ''committed effect result identity cannot be rewritten'')), dir)
               else
                 (let committed = current\<lparr>er_state := EffectCommitted, er_committed_at_ms := Some at,
                        er_result_digest := Some digest, er_result_size_bytes := Some bytes\<rparr> in
                  case effect_validate sha committed of
                    Inl e \<Rightarrow> (Inl e, dir)
                  | Inr _ \<Rightarrow>
                      (case persist_effect_record sha env root dir committed of
                         (Inl e, dir') \<Rightarrow> (Inl e, dir')
                       | (Inr _, dir') \<Rightarrow>
                           (Inr (committed, bt_insert (intent_key i) committed records), dir')))))"

definition commit_effect ::
  "(string \<Rightarrow> string) \<Rightarrow> effect_env \<Rightarrow> effect_ledger \<Rightarrow> directory \<Rightarrow> effect_intent \<Rightarrow> string \<Rightarrow> u64 \<Rightarrow> u128 \<Rightarrow>
     effect_record effect_result" where
  "commit_effect sha env l dir i digest bytes at =
     (case validate_sha256_digest ''result_digest'' digest of
        Inl e \<Rightarrow> (Inl e, l, dir)
      | Inr _ \<Rightarrow>
          if map_option lw_generation (el_writer l) \<noteq> Some (in_owner_generation i)
          then (Inl (with_context (err_conflict ''effect commit belongs to another writer generation'')
                  ''operation_digest'' (op_operation_digest (in_operation i))), l, dir)
          else with_write_transaction sha env l dir (commit_record sha env (el_root l) i digest bytes at))"

subsection \<open>Valid records\<close>

text \<open>The documented form of the hexadecimal digest: 64 lower-case digits.\<close>

definition hex_sha :: "(string \<Rightarrow> string) \<Rightarrow> bool" where
  "hex_sha sha \<longleftrightarrow> (\<forall>s. length (sha s) = 64 \<and> (\<forall>c \<in> set (sha s). is_lower_hex c))"

lemma validate_sha256_digest_iff:
  "validate_sha256_digest field v = Inr () \<longleftrightarrow>
     (\<exists>h. v = ''sha256:'' @ h \<and> length h = 64 \<and> (\<forall>c \<in> set h. is_lower_hex c))"
proof -
  have "strip_prefix ''sha256:'' v = Some h \<longleftrightarrow> v = ''sha256:'' @ h" for h
  proof
    assume "strip_prefix ''sha256:'' v = Some h"
    then have "take (length ''sha256:'') v = ''sha256:''" "h = drop (length ''sha256:'') v"
      by (simp_all add: strip_prefix_def split: if_splits)
    then show "v = ''sha256:'' @ h" by (metis append_take_drop_id)
  next
    assume "v = ''sha256:'' @ h"
    then show "strip_prefix ''sha256:'' v = Some h" by (simp only: strip_prefix_append)
  qed
  then show ?thesis
    by (auto simp: validate_sha256_digest_def Let_def simp del: append_Cons split: option.splits if_splits)
qed

lemma digest_graphic: "validate_sha256_digest field v = Inr () \<Longrightarrow> \<forall>c \<in> set v. is_graphic c"
  by (auto simp: validate_sha256_digest_iff lower_hex_graphic) (simp_all add: is_graphic_def)

lemma canonical_digest_ok: "hex_sha sha \<Longrightarrow> validate_sha256_digest field (canonical_digest sha d parts) = Inr ()"
  unfolding validate_sha256_digest_iff canonical_digest_def hex_sha_def by blast

lemma task_kind_graphic:
  assumes "validate_task_kind v = Inr ()" shows "\<forall>c \<in> set v. is_graphic c"
proof
  fix c assume c: "c \<in> set v"
  have "\<forall>x \<in> set (split_on CHR ''.'' v). \<forall>c \<in> set x. is_ascii_alphanumeric c \<or> c = CHR ''_'' \<or> c = CHR ''-''"
    using assms by (auto simp: validate_task_kind_def res_all_ok split: if_splits)
  moreover have "c = CHR ''.'' \<or> (\<exists>x \<in> set (split_on CHR ''.'' v). c \<in> set x)"
    using set_split_on [of v "CHR ''.''"] c by auto
  ultimately have "c = CHR ''.'' \<or> is_ascii_alphanumeric c \<or> c = CHR ''_'' \<or> c = CHR ''-''" by blast
  then show "is_graphic c" using alphanumeric_graphic [of c] by (elim disjE) (simp_all add: is_graphic_def)
qed

lemma map_err_Inr [res_simps]: "map_err f x = Inr y \<longleftrightarrow> x = Inr y"
  by (simp add: map_err_def split: sum.splits)

lemma effect_operation_new_iff:
  "effect_operation_new sha key kind agent scope input = Inr operation \<longleftrightarrow>
     stable_id key \<and> validate_task_kind kind = Inr () \<and> stable_id agent \<and> stable_id scope \<and>
     validate_sha256_digest ''input_digest'' input = Inr () \<and>
     operation = \<lparr>op_idempotency_key = key,
       op_operation_digest = canonical_digest sha ''eva.effect-operation.v1'' [key, kind, agent, scope, input],
       op_task_kind = kind, op_agent_id = agent, op_effect_scope = scope, op_input_digest = input\<rparr>"
  unfolding effect_operation_new_def
  by (auto simp: res_simps request_id_parse_def agent_id_parse_def validate_id_iff)

lemma effect_validate_operation:
  assumes "effect_validate sha r = Inr ()"
  shows "effect_operation_new sha (record_key r) (op_task_kind (er_operation r)) (op_agent_id (er_operation r))
    (op_effect_scope (er_operation r)) (op_input_digest (er_operation r)) = Inr (er_operation r)"
  using assms by (auto simp: effect_validate_def Let_def res_simps effect_operation_new_iff split: if_splits)

lemma effect_validate_fields:
  assumes "effect_validate sha r = Inr ()"
  shows "stable_id (er_task_id r)" and "validate_sha256_digest ''prepared_fence_digest'' (er_fence_digest r) = Inr ()"
    and "\<And>d. er_result_digest r = Some d \<Longrightarrow> validate_sha256_digest ''result_digest'' d = Inr ()"
  using assms
  by (auto simp: effect_validate_def Let_def res_simps request_id_parse_def validate_id_iff
      split: if_splits effect_state.splits)

subsection \<open>Reading back a record\<close>

lemma effect_text: "effect_record_to_storage r = render (effect_fields r)"
  by (simp add: effect_record_to_storage_def render_def)

lemma effect_field_names_eq: "map fst (effect_fields r) = effect_field_names"
  by (simp add: effect_fields_def effect_field_names_def)

lemma distinct_effect_fields: "distinct (map fst (effect_fields r))"
  unfolding effect_field_names_eq by (simp add: effect_field_names_def)

lemma effect_field_names_ok: "\<forall>k \<in> set effect_field_names. k \<noteq> [] \<and> CHR ''='' \<notin> set k \<and> (\<forall>c \<in> set k. is_graphic c)"
  by (simp add: effect_field_names_def is_graphic_def)

definition graphic_text :: "string \<Rightarrow> bool" where
  "graphic_text s \<longleftrightarrow> (\<forall>c \<in> set s. is_graphic c)"

lemma graphic_texts:
  "graphic_text (nat_str n)" "graphic_text (opt_str w)" "graphic_text (effect_state_as_str st)"
  "graphic_text ''eva.effect-ledger.v1''" "stable_id v \<Longrightarrow> graphic_text v"
  "validate_task_kind v = Inr () \<Longrightarrow> graphic_text v" "validate_sha256_digest field v = Inr () \<Longrightarrow> graphic_text v"
proof -
  show "graphic_text (nat_str n)" by (simp add: graphic_text_def nat_str_graphic)
  show "graphic_text (opt_str w)" by (cases w) (simp_all add: opt_str_def graphic_text_def nat_str_graphic)
  show "graphic_text (effect_state_as_str st)" by (cases st) (simp_all add: graphic_text_def is_graphic_def)
qed (simp_all add: graphic_text_def is_graphic_def [of "char_of _"] stable_id_graphic task_kind_graphic digest_graphic,
     simp add: is_graphic_def)

lemma effect_values_graphic:
  assumes v: "effect_validate sha r = Inr ()" and sha: "hex_sha sha"
  shows "list_all (\<lambda>f. graphic_text (snd f)) (effect_fields r)"
proof -
  note operation = effect_validate_operation [OF v, unfolded effect_operation_new_iff]
  have "op_operation_digest (er_operation r) = canonical_digest sha ''eva.effect-operation.v1''
      [record_key r, op_task_kind (er_operation r), op_agent_id (er_operation r), op_effect_scope (er_operation r),
       op_input_digest (er_operation r)]"
    using operation by (metis effect_operation.select_convs(2))
  then have "graphic_text (op_operation_digest (er_operation r))"
    using graphic_texts(7) [OF canonical_digest_ok [OF sha]] by simp
  moreover have "graphic_text (case er_result_digest r of None \<Rightarrow> [] | Some d \<Rightarrow> d)"
    using effect_validate_fields(3) [OF v] graphic_texts(7) [of "''result_digest''"]
    by (cases "er_result_digest r") (simp_all add: graphic_text_def)
  moreover have "graphic_text (er_task_id r)" "graphic_text (er_fence_digest r)"
    using effect_validate_fields(1,2) [OF v] graphic_texts(5,7) by blast+
  moreover have "graphic_text (record_key r)" "graphic_text (op_agent_id (er_operation r))"
    "graphic_text (op_effect_scope (er_operation r))" "graphic_text (op_task_kind (er_operation r))"
    "graphic_text (op_input_digest (er_operation r))"
    using operation graphic_texts(5-7) by blast+
  ultimately show ?thesis by (simp add: effect_fields_def graphic_texts(1-4))
qed

lemma effect_fields_ok:
  assumes "effect_validate sha r = Inr ()" and "hex_sha sha"
  shows "\<forall>f \<in> set (effect_fields r). field_ok f"
proof
  fix f assume f: "f \<in> set (effect_fields r)"
  then have "fst f \<in> set effect_field_names" unfolding effect_field_names_eq [of r, symmetric] by simp
  moreover have "\<forall>c \<in> set (snd f). is_graphic c"
    using effect_values_graphic [OF assms] f by (auto simp: list_all_iff graphic_text_def)
  ultimately show "field_ok f" using effect_field_names_ok by (auto simp: field_ok_def)
qed

lemma parse_effect_lines_render:
  assumes "\<forall>f \<in> set kvs. field_ok f" and "fst ` set kvs \<subseteq> set effect_field_names" and "distinct (map fst kvs)"
    and "\<forall>k \<in> fst ` set kvs. bt_get acc k = None"
  shows "parse_effect_lines (map (\<lambda>(k, v). k @ ''='' @ v) kvs) acc = Inr (insert_all acc kvs) \<and>
    length (insert_all acc kvs) = length acc + length kvs"
  using assms
proof (induction kvs arbitrary: acc)
  case (Cons f kvs)
  obtain k v where f: "f = (k, v)" by (cases f)
  have "CHR ''='' \<notin> set k" using Cons.prems(1) f by (simp add: field_ok_def)
  then have "split_once CHR ''='' (k @ ''='' @ v) = Some (k, v)"
    using split_once_append [of "CHR ''=''" k v] by simp
  moreover have "\<forall>k' \<in> fst ` set kvs. bt_get (bt_insert k v acc) k' = None"
    using Cons.prems(3,4) f by (auto simp: image_iff)
  moreover have "length (bt_insert k v acc) = Suc (length acc)"
    using Cons.prems(4) f by (simp add: length_bt_insert)
  ultimately show ?case using Cons.IH [of "bt_insert k v acc"] Cons.prems f
    by (auto simp: insert_all_def)
qed (simp add: insert_all_def)

lemma parse_word_str [simp]: "parse_unsigned (2 ^ LENGTH('a)) (nat_str (unat (w :: 'a::len word))) = Some (unat w)"
  using unat_bound [of w] by (simp add: parse_unsigned_nat_str)

lemma effect_lookup: "bt_get (insert_all [] (effect_fields r)) k = map_of (effect_fields r) k"
  using bt_get_insert_all [OF distinct_effect_fields, of "[]" r k] by (simp split: option.splits)

lemma parse_field_word:
  fixes w :: "'a::len word"
  assumes "map_of (effect_fields r) k = Some (nat_str (unat w))"
  shows "parse_field (insert_all [] (effect_fields r)) k = Inr w"
  using assms by (simp add: parse_field_def required_field_def effect_lookup)

lemma parse_optional_field_word:
  fixes w :: "'a::len word option"
  assumes "map_of (effect_fields r) k = Some (opt_str w)"
  shows "parse_optional_field (insert_all [] (effect_fields r)) k = Inr w"
  using assms by (cases w) (simp_all add: parse_optional_field_def required_field_def effect_lookup opt_str_def)

lemma optional_text_field_text:
  assumes "map_of (effect_fields r) k = Some (case v of None \<Rightarrow> [] | Some d \<Rightarrow> d)" and "v \<noteq> Some []"
  shows "optional_text_field (insert_all [] (effect_fields r)) k = Inr v"
  using assms by (cases v) (auto simp: optional_text_field_def required_field_def effect_lookup)

lemma state_str_roundtrip [simp]: "effect_state_from_storage (effect_state_as_str st) = Inr st"
  by (cases st) (simp_all add: effect_state_from_storage_def)

lemma effect_map_of:
  "map_of (effect_fields r) ''format'' = Some ''eva.effect-ledger.v1''"
  "map_of (effect_fields r) ''idempotency_key'' = Some (record_key r)"
  "map_of (effect_fields r) ''operation_digest'' = Some (op_operation_digest (er_operation r))"
  "map_of (effect_fields r) ''task_kind'' = Some (op_task_kind (er_operation r))"
  "map_of (effect_fields r) ''agent_id'' = Some (op_agent_id (er_operation r))"
  "map_of (effect_fields r) ''effect_scope'' = Some (op_effect_scope (er_operation r))"
  "map_of (effect_fields r) ''input_digest'' = Some (op_input_digest (er_operation r))"
  "map_of (effect_fields r) ''state'' = Some (effect_state_as_str (er_state r))"
  "map_of (effect_fields r) ''prepared_task_id'' = Some (er_task_id r)"
  "map_of (effect_fields r) ''prepared_owner_generation'' = Some (nat_str (unat (er_owner_generation r)))"
  "map_of (effect_fields r) ''prepared_attempt'' = Some (nat_str (unat (er_attempt r)))"
  "map_of (effect_fields r) ''prepared_fence_digest'' = Some (er_fence_digest r)"
  "map_of (effect_fields r) ''prepared_at_ms'' = Some (nat_str (unat (er_prepared_at_ms r)))"
  "map_of (effect_fields r) ''committed_at_ms'' = Some (opt_str (er_committed_at_ms r))"
  "map_of (effect_fields r) ''result_digest'' = Some (case er_result_digest r of None \<Rightarrow> [] | Some d \<Rightarrow> d)"
  "map_of (effect_fields r) ''result_size_bytes'' = Some (opt_str (er_result_size_bytes r))"
  by (simp_all add: effect_fields_def)

lemma required_effect_field:
  "map_of (effect_fields r) k = Some v \<Longrightarrow> required_field (insert_all [] (effect_fields r)) k = Inr v"
  by (simp add: required_field_def effect_lookup)

lemma effect_record_roundtrip:
  assumes v: "effect_validate sha r = Inr ()" and sha: "hex_sha sha"
  shows "effect_record_from_storage sha (effect_record_to_storage r) = Inr r"
proof -
  let ?fs = "insert_all [] (effect_fields r)"
  have eta: "\<lparr>er_operation = er_operation r, er_state = er_state r, er_task_id = er_task_id r,
      er_owner_generation = er_owner_generation r, er_attempt = er_attempt r, er_fence_digest = er_fence_digest r,
      er_prepared_at_ms = er_prepared_at_ms r, er_committed_at_ms = er_committed_at_ms r,
      er_result_digest = er_result_digest r, er_result_size_bytes = er_result_size_bytes r\<rparr> = r"
    by simp
  have ok: "\<forall>f \<in> set (effect_fields r). field_ok f" by (rule effect_fields_ok [OF v sha])
  have "fst ` set (effect_fields r) \<subseteq> set effect_field_names" unfolding effect_field_names_eq [of r, symmetric] by simp
  then have "parse_effect_lines (map (\<lambda>(k, v). k @ ''='' @ v) (effect_fields r)) [] = Inr ?fs" and "length ?fs = 16"
    using parse_effect_lines_render [OF ok _ distinct_effect_fields, of "[]"] by (auto simp: effect_fields_def)
  moreover have "filter (\<lambda>l. l \<noteq> []) (lines (render (effect_fields r))) = map (\<lambda>(k, v). k @ ''='' @ v) (effect_fields r)"
    unfolding lines_render [OF ok] by (rule filter_True) auto
  moreover have "er_result_digest r \<noteq> Some []"
    using effect_validate_fields(3) [OF v, of "[]"] by (auto simp: validate_sha256_digest_iff)
  ultimately show ?thesis
    unfolding effect_record_from_storage_def effect_text
    using effect_validate_operation [OF v] v
    by (simp add: effect_map_of required_effect_field parse_field_word parse_optional_field_word
        optional_text_field_text Let_def eta)
qed

subsection \<open>What the directory holds\<close>

lemma stem_hex:
  assumes "hex_sha sha" shows "length (effect_record_stem sha key) = 64" "\<forall>c \<in> set (effect_record_stem sha key). is_lower_hex c"
proof -
  let ?h = "sha (framed ''eva.effect-record-key.v1'' @ concat (map framed [key]))"
  have h: "length ?h = 64" "\<forall>c \<in> set ?h. is_lower_hex c" using assms by (auto simp: hex_sha_def)
  have "take (length ''sha256:'') ?h \<noteq> ''sha256:''"
  proof
    assume "take (length ''sha256:'') ?h = ''sha256:''"
    then have "CHR ''s'' \<in> set ?h" by (metis in_set_takeD list.set_intros(1))
    then show False using h(2) by (auto simp: is_lower_hex_def)
  qed
  then have "trim_start_matches ''sha256:'' ?h = ?h" by (subst trim_start_matches.simps) simp
  moreover have "trim_start_matches ''sha256:'' (''sha256:'' @ ?h) = trim_start_matches ''sha256:'' ?h"
    by (subst trim_start_matches.simps) simp
  ultimately have "effect_record_stem sha key = ?h" by (simp only: effect_record_stem_def canonical_digest_def)
  then show "length (effect_record_stem sha key) = 64" "\<forall>c \<in> set (effect_record_stem sha key). is_lower_hex c"
    using h by simp_all
qed

lemma effect_file_parts:
  assumes "hex_sha sha"
  shows "file_extension (effect_file sha key) = Some ''effect''" "file_stem (effect_file sha key) = effect_record_stem sha key"
proof -
  have "split_once CHR ''.'' (rev (effect_file sha key)) = Some (''tceffe'', rev (effect_record_stem sha key))"
    using split_once_append [of "CHR ''.''" "''tceffe''"] by (simp add: effect_file_def)
  moreover have "effect_record_stem sha key \<noteq> []" using stem_hex(1) [OF assms, of key] by auto
  ultimately show "file_extension (effect_file sha key) = Some ''effect''" "file_stem (effect_file sha key) = effect_record_stem sha key"
    by (simp_all add: file_extension_def file_stem_def)
qed

text \<open>
  The directory of a ledger: every effect file is the text of a valid record, under the name of its
  key. What it holds for a key is read off the file of that key.
\<close>

definition ledger_dir :: "(string \<Rightarrow> string) \<Rightarrow> directory \<Rightarrow> bool" where
  "ledger_dir sha dir \<longleftrightarrow> distinct (map fst dir) \<and>
     (\<forall>f \<in> set dir. file_extension (fst f) = Some ''effect'' \<longrightarrow>
        (\<exists>r. effect_validate sha r = Inr () \<and> f = (effect_file sha (record_key r), effect_record_to_storage r)))"

definition effect_in :: "(string \<Rightarrow> string) \<Rightarrow> directory \<Rightarrow> string \<Rightarrow> effect_record option" where
  "effect_in sha dir key = (case map_of dir (effect_file sha key) of
     None \<Rightarrow> None
   | Some data \<Rightarrow> (case effect_record_from_storage sha data of
       Inl _ \<Rightarrow> None
     | Inr r \<Rightarrow> if record_key r = key then Some r else None))"

lemma ledger_dir_Nil [simp]: "ledger_dir sha []" "effect_in sha [] key = None"
  by (simp_all add: ledger_dir_def effect_in_def)

lemma map_of_dir_put: "map_of (dir_put dir n d) = (map_of dir)(n \<mapsto> d)"
  by (induction dir n d rule: dir_put.induct) (auto simp: fun_eq_iff)

lemma fst_dir_put: "fst ` set (dir_put dir n d) = insert n (fst ` set dir)"
  by (induction dir n d rule: dir_put.induct) auto

lemma distinct_dir_put: "distinct (map fst dir) \<Longrightarrow> distinct (map fst (dir_put dir n d))"
  by (induction dir n d rule: dir_put.induct) (auto simp: fst_dir_put)

lemma set_dir_put: "set (dir_put dir n d) \<subseteq> insert (n, d) (set dir)"
  by (induction dir n d rule: dir_put.induct) auto

lemma effect_put:
  assumes "ledger_dir sha dir" and "effect_validate sha r = Inr ()" and "hex_sha sha"
  shows "ledger_dir sha (dir_put dir (effect_file sha (record_key r)) (effect_record_to_storage r))"
    and "effect_in sha (dir_put dir (effect_file sha (record_key r)) (effect_record_to_storage r)) key =
      (if effect_file sha key = effect_file sha (record_key r) then if key = record_key r then Some r else None
       else effect_in sha dir key)"
  using assms set_dir_put [of dir "effect_file sha (record_key r)" "effect_record_to_storage r"]
    effect_record_roundtrip [OF assms(2,3)] distinct_dir_put
  by (auto simp: ledger_dir_def effect_in_def map_of_dir_put)

subsection \<open>What loading returns\<close>

lemma load_effect_file_ok:
  assumes "effect_validate sha r = Inr ()" and "hex_sha sha"
  shows "is_err (load_effect_file sha env root (effect_file sha (record_key r), effect_record_to_storage r)) \<or>
    load_effect_file sha env root (effect_file sha (record_key r), effect_record_to_storage r) = Inr r"
proof -
  have "text_ok (effect_record_to_storage r)"
    unfolding effect_text using graphic_text_ok render_chars [OF effect_fields_ok [OF assms]] by blast
  then show ?thesis
    using effect_record_roundtrip [OF assms] effect_file_parts(2) [OF assms(2)]
    by (simp add: load_effect_file_def map_err_def is_err_def Let_def split: option.splits sum.splits)
qed

lemma load_effect_files_ok:
  assumes "ledger_dir sha dir" and "hex_sha sha" and "load_effect_files sha env root dir acc = Inr records"
  shows "bt_get records key = (case bt_get acc key of Some r \<Rightarrow> Some r | None \<Rightarrow> effect_in sha dir key)"
  using assms
proof (induction dir arbitrary: acc)
  case (Cons f dir)
  have dir: "ledger_dir sha dir" using Cons.prems(1) by (simp add: ledger_dir_def)
  have read: "ee_entry_error env (fst f) = None" using Cons.prems(3) by (simp split: option.splits)
  show ?case
  proof (cases "file_extension (fst f) = Some ''effect''")
    case False
    then have "fst f \<noteq> effect_file sha key" using effect_file_parts(1) [OF assms(2)] by metis
    then have "effect_in sha (f # dir) key = effect_in sha dir key" by (cases f) (simp add: effect_in_def)
    then show ?thesis using Cons.IH [OF dir assms(2)] Cons.prems(3) False read by (simp split: option.splits)
  next
    case True
    then obtain r where r: "effect_validate sha r = Inr ()" "f = (effect_file sha (record_key r), effect_record_to_storage r)"
      using Cons.prems(1) unfolding ledger_dir_def by auto
    have fresh: "effect_file sha (record_key r) \<notin> fst ` set dir" using Cons.prems(1) r(2) by (simp add: ledger_dir_def)
    have "load_effect_file sha env root f = Inr r"
      using load_effect_file_ok [OF r(1) assms(2), of env root] Cons.prems(3) True read r(2)
      by (cases "load_effect_file sha env root f") auto
    then have none: "bt_get acc (record_key r) = None"
      and load: "load_effect_files sha env root dir (bt_insert (record_key r) r acc) = Inr records"
      using Cons.prems(3) True read by (auto split: if_splits)
    have "effect_in sha (f # dir) key = (if key = record_key r then Some r
        else if effect_file sha key = effect_file sha (record_key r) then None else effect_in sha dir key)"
      using effect_record_roundtrip [OF r(1) assms(2)] r(2) by (simp add: effect_in_def)
    moreover have "effect_file sha key = effect_file sha (record_key r) \<Longrightarrow> effect_in sha dir key = None"
      using iffD2 [OF map_of_eq_None_iff fresh] by (simp add: effect_in_def)
    ultimately show ?thesis using Cons.IH [OF dir assms(2) load] none
      by (cases "key = record_key r") (auto split: option.splits if_splits)
  qed
qed (simp add: effect_in_def split: option.splits)

lemma load_effect_records_ok:
  assumes "ledger_dir sha dir" and "hex_sha sha" and "load_effect_records sha env root dir = Inr records"
  shows "bt_get records key = effect_in sha dir key"
  using load_effect_files_ok [OF assms(1,2), of env root "[]"] assms(3)
  by (simp add: load_effect_records_def split: option.splits)

subsection \<open>The life of one key\<close>

text \<open>
  What the directory holds for a key only grows: nothing, then a prepared record, then that record
  committed, and then nothing changes any more.
\<close>

definition same_boundary :: "effect_record \<Rightarrow> effect_record \<Rightarrow> bool" where
  "same_boundary r r' \<longleftrightarrow> er_operation r' = er_operation r \<and> er_task_id r' = er_task_id r \<and>
     er_owner_generation r' = er_owner_generation r \<and> er_attempt r' = er_attempt r \<and>
     er_fence_digest r' = er_fence_digest r \<and> er_prepared_at_ms r' = er_prepared_at_ms r"

fun grows :: "effect_record option \<Rightarrow> effect_record option \<Rightarrow> bool" where
  "grows None x = True"
| "grows (Some r) None = False"
| "grows (Some r) (Some r') \<longleftrightarrow> same_boundary r r' \<and> (er_state r = EffectCommitted \<longrightarrow> r' = r)"

lemma grows_refl [simp]: "grows x x"
  by (cases x) (simp_all add: same_boundary_def)

lemma grows_trans: "grows x y \<Longrightarrow> grows y z \<Longrightarrow> grows x z"
  by (cases x; cases y; cases z) (auto simp: same_boundary_def)

lemma persist_effect:
  assumes "ledger_dir sha dir" and "hex_sha sha" and "effect_validate sha r = Inr ()"
    and "persist_effect_record sha env root dir r = (res, dir')"
  shows "ledger_dir sha dir'"
    and "effect_file sha key \<noteq> effect_file sha (record_key r) \<Longrightarrow> effect_in sha dir' key = effect_in sha dir key"
    and "effect_in sha dir' (record_key r) = Some r \<or>
      is_err res \<and> effect_in sha dir' (record_key r) = effect_in sha dir (record_key r)"
  using assms effect_put [OF assms(1,3,2)]
  by (auto simp: persist_effect_record_def atomic_write_def Let_def split: write_outcome.splits)

lemma ensure_operation_matches_iff: "ensure_operation_matches r operation = Inr u \<longleftrightarrow> er_operation r = operation"
  by (simp add: ensure_operation_matches_def)

lemma prepare_step:
  assumes dir: "ledger_dir sha dir" and sha: "hex_sha sha" and rec: "\<And>k. bt_get records k = effect_in sha dir k"
    and call: "prepare_effect_record sha env root i records dir = (res, dir')"
  shows "ledger_dir sha dir'"
    and "effect_file sha key \<noteq> effect_file sha (intent_key i) \<Longrightarrow> effect_in sha dir' key = effect_in sha dir key"
    and "grows (effect_in sha dir (intent_key i)) (effect_in sha dir' (intent_key i))"
    and "res = Inr (CreatedEffect r, rs) \<Longrightarrow> effect_in sha dir (intent_key i) = None \<and> effect_in sha dir' (intent_key i) = Some r"
    and "res = Inr (PreparedEffect r, rs) \<or> res = Inr (CommittedEffect r, rs) \<Longrightarrow> effect_in sha dir' (intent_key i) = Some r"
proof -
  consider (old) r0 where "effect_in sha dir (intent_key i) = Some r0" "dir' = dir"
      "res = res_bind (ensure_operation_matches r0 (in_operation i)) (\<lambda>_.
        Inr (case er_state r0 of EffectPrepared \<Rightarrow> PreparedEffect r0 | EffectCommitted \<Rightarrow> CommittedEffect r0, records))"
    | (bad) "dir' = dir" "is_err res"
    | (new) res' where "effect_in sha dir (intent_key i) = None" "effect_validate sha (effect_prepared i) = Inr ()"
        "persist_effect_record sha env root dir (effect_prepared i) = (res', dir')"
        "res = map_sum id (\<lambda>_. (CreatedEffect (effect_prepared i), bt_insert (intent_key i) (effect_prepared i) records)) res'"
    using call rec [of "intent_key i"]
    by (cases "effect_in sha dir (intent_key i)"; cases "effect_validate sha (effect_prepared i)")
      (auto simp: prepare_effect_record_def Let_def split: sum.splits prod.splits)
  note cases = this
  have key: "record_key (effect_prepared i) = intent_key i" by (simp add: effect_prepared_def)
  show "ledger_dir sha dir'"
    by (cases rule: cases) (use dir sha in \<open>auto intro: persist_effect(1)\<close>)
  show "effect_in sha dir' key = effect_in sha dir key" if "effect_file sha key \<noteq> effect_file sha (intent_key i)"
    by (cases rule: cases) (use dir sha that persist_effect(2) key in \<open>auto\<close>)
  show "grows (effect_in sha dir (intent_key i)) (effect_in sha dir' (intent_key i))"
    by (cases rule: cases) simp_all
  show "effect_in sha dir (intent_key i) = None \<and> effect_in sha dir' (intent_key i) = Some r"
    if "res = Inr (CreatedEffect r, rs)"
  proof (cases rule: cases)
    case (old r0)
    then show ?thesis using that [unfolded old(3)] by (auto simp: res_simps split: effect_state.splits)
  next
    case bad
    then show ?thesis using that by simp
  next
    case (new res')
    then show ?thesis using that persist_effect(3) [OF dir sha new(2,3)] key by (cases res') auto
  qed
  show "effect_in sha dir' (intent_key i) = Some r"
    if "res = Inr (PreparedEffect r, rs) \<or> res = Inr (CommittedEffect r, rs)"
  proof (cases rule: cases)
    case (old r0)
    then show ?thesis using that [unfolded old(3)] by (auto simp: res_simps split: effect_state.splits)
  next
    case bad
    then show ?thesis using that by auto
  next
    case (new res')
    then show ?thesis using that by (cases res') auto
  qed
qed

definition commits :: "effect_intent \<Rightarrow> string \<Rightarrow> u64 \<Rightarrow> effect_record \<Rightarrow> bool" where
  "commits i digest bytes r \<longleftrightarrow> er_operation r = in_operation i \<and> er_task_id r = in_task_id i \<and>
     er_owner_generation r = in_owner_generation i \<and> er_attempt r = in_attempt i \<and>
     er_fence_digest r = in_fence_digest i \<and> er_state r = EffectCommitted \<and>
     er_result_digest r = Some digest \<and> er_result_size_bytes r = Some bytes"

lemma commit_step:
  assumes dir: "ledger_dir sha dir" and sha: "hex_sha sha" and rec: "\<And>k. bt_get records k = effect_in sha dir k"
    and call: "commit_record sha env root i digest bytes at records dir = (res, dir')"
  shows "ledger_dir sha dir'"
    and "effect_file sha key \<noteq> effect_file sha (intent_key i) \<Longrightarrow> effect_in sha dir' key = effect_in sha dir key"
    and "grows (effect_in sha dir (intent_key i)) (effect_in sha dir' (intent_key i))"
    and "res = Inr (r, rs) \<Longrightarrow> effect_in sha dir' (intent_key i) = Some r \<and> commits i digest bytes r"
proof -
  define committed where "committed r0 = r0\<lparr>er_state := EffectCommitted, er_committed_at_ms := Some at,
    er_result_digest := Some digest, er_result_size_bytes := Some bytes\<rparr>" for r0 :: effect_record
  consider (bad) "dir' = dir" "is_err res"
    | (again) r0 where "effect_in sha dir (intent_key i) = Some r0" "dir' = dir" "res = Inr (r0, records)"
        "commits i digest bytes r0"
    | (new) r0 res' where "effect_in sha dir (intent_key i) = Some r0" "er_state r0 \<noteq> EffectCommitted"
        "er_operation r0 = in_operation i" "commits i digest bytes (committed r0)"
        "effect_validate sha (committed r0) = Inr ()"
        "persist_effect_record sha env root dir (committed r0) = (res', dir')"
        "res = map_sum id (\<lambda>_. (committed r0, bt_insert (intent_key i) (committed r0) records)) res'"
    using call rec [of "intent_key i"]
    by (auto simp: commit_record_def Let_def ensure_operation_matches_def committed_def commits_def
        split: option.splits sum.splits prod.splits if_splits)
  note cases = this
  have boundary: "same_boundary r0 (committed r0)" "er_operation (committed r0) = er_operation r0" for r0
    by (simp_all add: same_boundary_def committed_def)
  show "ledger_dir sha dir'"
    by (cases rule: cases) (use dir sha in \<open>auto intro: persist_effect(1)\<close>)
  show "effect_in sha dir' key = effect_in sha dir key" if "effect_file sha key \<noteq> effect_file sha (intent_key i)"
    by (cases rule: cases) (use dir sha that persist_effect(2) boundary(2) in \<open>auto\<close>)
  show "grows (effect_in sha dir (intent_key i)) (effect_in sha dir' (intent_key i))"
  proof (cases rule: cases)
    case (new r0 res')
    then show ?thesis using persist_effect(3) [OF dir sha new(5,6)] boundary by (auto simp: same_boundary_def)
  qed simp_all
  show "effect_in sha dir' (intent_key i) = Some r \<and> commits i digest bytes r" if "res = Inr (r, rs)"
  proof (cases rule: cases)
    case (new r0 res')
    then show ?thesis using that persist_effect(3) [OF dir sha new(5,6)] boundary by (cases res') auto
  qed (use that in auto)
qed

lemma run_transaction_cases:
  assumes "run_transaction sha env l dir admitted operation = (res, l', dir')"
  obtains (refused) "is_err res" "dir' = dir"
  | (ran) c records res' where "admitted = Inr c" "load_effect_records sha env (el_root l) dir = Inr records"
      "operation c records dir = (res', dir')" "res = map_sum id fst res'"
  using assms
  by (auto simp: run_transaction_def res_simps split: sum.splits prod.splits)

lemma with_claim_cases:
  assumes "with_claim_transaction sha env clock store l dir i operation = (res, l', dir')"
  obtains (refused) "is_err res" "dir' = dir"
  | (ran) w now records res' where "el_writer l = Some w" "clock = Inr now"
      "verify_effect_task_claim sha store i (lw_generation w) now = Inr ()"
      "load_effect_records sha env (el_root l) dir = Inr records"
      "operation now records dir = (res', dir')" "res = map_sum id fst res'"
proof (cases "el_writer l")
  case None
  then show ?thesis using assms refused by (auto simp: with_claim_transaction_def)
next
  case (Some w)
  show ?thesis
  proof (cases "ts_project_root store \<noteq> lw_root w \<or> ts_writer_generation store \<noteq> Some (lw_generation w)")
    case True
    then show ?thesis using assms refused Some by (auto simp: with_claim_transaction_def)
  next
    case False
    then have "run_transaction sha env l dir (res_bind (effect_now_ms clock) (\<lambda>now.
        res_bind (verify_effect_task_claim sha store i (lw_generation w) now) (\<lambda>_. Inr now))) operation = (res, l', dir')"
      using assms Some by (simp add: with_claim_transaction_def)
    then show ?thesis
      by (cases rule: run_transaction_cases)
        (use refused ran Some in \<open>auto simp: res_simps effect_now_ms_def split: sum.splits\<close>)
  qed
qed

subsection \<open>Runs\<close>

text \<open>
  A run is any sequence of calls by any processes, each with its own ledger object, environment and
  view of the tasks, on one directory. A missing directory is an empty one.
\<close>

datatype effect_call =
    Prepare "string + u128" task_store effect_intent
  | InspectForClaim "string + u128" task_store effect_intent
  | Inspect effect_operation
  | Commit effect_intent string u64 u128

datatype effect_reply =
    PrepareReply "prepare_outcome res"
  | InspectReply "effect_record option res"
  | CommitReply "effect_record res"

type_synonym effect_step = "effect_env \<times> effect_ledger \<times> effect_call"

fun call_key :: "effect_call \<Rightarrow> string" where
  "call_key (Prepare _ _ i) = intent_key i"
| "call_key (InspectForClaim _ _ i) = intent_key i"
| "call_key (Inspect operation) = op_idempotency_key operation"
| "call_key (Commit i _ _ _) = intent_key i"

fun perform :: "(string \<Rightarrow> string) \<Rightarrow> effect_step \<Rightarrow> directory \<Rightarrow> effect_reply \<times> directory" where
  "perform sha (env, l, Prepare clock store i) dir =
     (case prepare_for_claim sha env clock store l dir i of (res, _, dir') \<Rightarrow> (PrepareReply res, dir'))"
| "perform sha (env, l, InspectForClaim clock store i) dir =
     (case inspect_for_claim sha env clock store l dir i of (res, _, dir') \<Rightarrow> (InspectReply res, dir'))"
| "perform sha (env, l, Inspect operation) dir =
     (InspectReply (fst (inspect sha env (dir \<noteq> []) dir l operation)), dir)"
| "perform sha (env, l, Commit i digest bytes at) dir =
     (case commit_effect sha env l dir i digest bytes at of (res, _, dir') \<Rightarrow> (CommitReply res, dir'))"

fun effect_run :: "(string \<Rightarrow> string) \<Rightarrow> effect_step list \<Rightarrow> directory \<Rightarrow> (effect_step \<times> effect_reply) list \<times> directory" where
  "effect_run sha [] dir = ([], dir)"
| "effect_run sha (c # cs) dir =
     (let (reply, dir1) = perform sha c dir; (replies, dir2) = effect_run sha cs dir1
      in ((c, reply) # replies, dir2))"

text \<open>What a successful call has seen in the ledger: nothing, or a record.\<close>

fun observed :: "effect_reply \<Rightarrow> effect_record option option" where
  "observed (PrepareReply (Inr (CreatedEffect r))) = Some (Some r)"
| "observed (PrepareReply (Inr (PreparedEffect r))) = Some (Some r)"
| "observed (PrepareReply (Inr (CommittedEffect r))) = Some (Some r)"
| "observed (InspectReply (Inr x)) = Some x"
| "observed (CommitReply (Inr r)) = Some (Some r)"
| "observed _ = None"

fun is_created :: "effect_reply \<Rightarrow> bool" where
  "is_created (PrepareReply (Inr (CreatedEffect r))) = True"
| "is_created _ = False"

definition permits_for :: "string \<Rightarrow> effect_step \<times> effect_reply \<Rightarrow> bool" where
  "permits_for key x \<longleftrightarrow> call_key (snd (snd (fst x))) = key \<and> is_created (snd x)"

definition seen_for :: "string \<Rightarrow> effect_step \<times> effect_reply \<Rightarrow> effect_record option option" where
  "seen_for key x = (if call_key (snd (snd (fst x))) = key then observed (snd x) else None)"

lemma lookup_effect_Inr:
  "lookup_effect records operation = Inr x \<Longrightarrow> bt_get records (op_idempotency_key operation) = x"
  by (auto simp: lookup_effect_def res_simps split: option.splits)

lemma inspect_sees:
  assumes "ledger_dir sha dir" and "hex_sha sha" and "fst (inspect sha env (dir \<noteq> []) dir l operation) = Inr x"
  shows "effect_in sha dir (op_idempotency_key operation) = x"
proof -
  obtain records where "load_effect_records sha env (el_root l) dir = Inr records \<or> dir = [] \<and> records = []"
      "lookup_effect records operation = Inr x"
    using assms(3)
    by (auto simp: inspect_def ledger_refresh_def res_simps split: sum.splits prod.splits option.splits if_splits)
  then show ?thesis
    using lookup_effect_Inr [of records operation x] load_effect_records_ok [OF assms(1,2), of env "el_root l" records]
    by (elim disjE) auto
qed

lemma perform_step:
  assumes dir: "ledger_dir sha dir" and sha: "hex_sha sha" and call: "perform sha (env, l, c) dir = (reply, dir')"
  shows "ledger_dir sha dir'"
    and "call_key c = key \<or> effect_file sha key \<noteq> effect_file sha (call_key c) \<Longrightarrow>
      grows (effect_in sha dir key) (effect_in sha dir' key)"
    and "observed reply = Some x \<Longrightarrow> effect_in sha dir' (call_key c) = x"
    and "is_created reply \<Longrightarrow> effect_in sha dir (call_key c) = None \<and> effect_in sha dir' (call_key c) \<noteq> None"
proof -
  have "ledger_dir sha dir' \<and>
    (call_key c = key \<or> effect_file sha key \<noteq> effect_file sha (call_key c) \<longrightarrow>
       grows (effect_in sha dir key) (effect_in sha dir' key)) \<and>
    (\<forall>x. observed reply = Some x \<longrightarrow> effect_in sha dir' (call_key c) = x) \<and>
    (is_created reply \<longrightarrow> effect_in sha dir (call_key c) = None \<and> effect_in sha dir' (call_key c) \<noteq> None)"
  proof (cases c)
    case (Prepare clock store i)
    then obtain res l' where p: "prepare_for_claim sha env clock store l dir i = (res, l', dir')" "reply = PrepareReply res"
      using call by (auto split: prod.splits)
    from p(1) [unfolded prepare_for_claim_def] show ?thesis
    proof (cases rule: with_claim_cases)
      case refused
      then show ?thesis using p(2) dir Prepare by (cases res) auto
    next
      case (ran w now records res')
      note step = prepare_step [OF dir sha load_effect_records_ok [OF dir sha ran(4)] ran(5)]
      have "grows (effect_in sha dir key) (effect_in sha dir' key)"
        if "call_key c = key \<or> effect_file sha key \<noteq> effect_file sha (call_key c)"
        using that step(2) [of key] step(3) Prepare by auto
      moreover have "observed reply = Some x \<longrightarrow> effect_in sha dir' (call_key c) = x" for x
        using step(4,5) ran(6) p(2) Prepare by (cases res'; cases "fst (projr res')") auto
      moreover have "is_created reply \<longrightarrow> effect_in sha dir (call_key c) = None \<and> effect_in sha dir' (call_key c) \<noteq> None"
        using step(4) ran(6) p(2) Prepare by (cases res'; cases "fst (projr res')") auto
      ultimately show ?thesis using step(1) by blast
    qed
  next
    case (InspectForClaim clock store i)
    then obtain res l' where p: "inspect_for_claim sha env clock store l dir i = (res, l', dir')" "reply = InspectReply res"
      using call by (auto split: prod.splits)
    from p(1) [unfolded inspect_for_claim_def] show ?thesis
    proof (cases rule: with_claim_cases)
      case refused
      then show ?thesis using p(2) dir InspectForClaim by (cases res) auto
    next
      case (ran w now records res')
      then show ?thesis
        using p(2) dir InspectForClaim load_effect_records_ok [OF dir sha ran(4)] lookup_effect_Inr
        by (cases "lookup_effect records (in_operation i)") fastforce+
    qed
  next
    case (Inspect operation)
    then show ?thesis using call dir inspect_sees [OF dir sha]
      by (cases "fst (inspect sha env (dir \<noteq> []) dir l operation)") auto
  next
    case (Commit i digest bytes at)
    then obtain res l' where p: "commit_effect sha env l dir i digest bytes at = (res, l', dir')" "reply = CommitReply res"
      using call by (auto split: prod.splits)
    then consider (bad) "is_err res" "dir' = dir"
      | (run) "run_transaction sha env l dir (Inr ()) (\<lambda>_. commit_record sha env (el_root l) i digest bytes at) = (res, l', dir')"
      by (auto simp: commit_effect_def with_write_transaction_def split: sum.splits option.splits if_splits)
    then show ?thesis
    proof cases
      case bad
      then show ?thesis using p(2) dir Commit by (cases res) auto
    next
      case run
      then show ?thesis
      proof (cases rule: run_transaction_cases)
        case refused
        then show ?thesis using p(2) dir Commit by (cases res) auto
      next
        case (ran u records res')
        note step = commit_step [OF dir sha load_effect_records_ok [OF dir sha ran(2)] ran(3)]
        have "grows (effect_in sha dir key) (effect_in sha dir' key)"
          if "call_key c = key \<or> effect_file sha key \<noteq> effect_file sha (call_key c)"
          using that step(2) [of key] step(3) Commit by auto
        moreover have "observed reply = Some x \<longrightarrow> effect_in sha dir' (call_key c) = x" for x
          using step(4) ran(4) p(2) Commit by (cases res') auto
        ultimately show ?thesis using step(1) p(2) by simp
      qed
    qed
  qed
  then show "ledger_dir sha dir'"
    and "call_key c = key \<or> effect_file sha key \<noteq> effect_file sha (call_key c) \<Longrightarrow>
      grows (effect_in sha dir key) (effect_in sha dir' key)"
    and "observed reply = Some x \<Longrightarrow> effect_in sha dir' (call_key c) = x"
    and "is_created reply \<Longrightarrow> effect_in sha dir (call_key c) = None \<and> effect_in sha dir' (call_key c) \<noteq> None"
    by blast+
qed

fun commit_sound :: "effect_step \<times> effect_reply \<Rightarrow> bool" where
  "commit_sound ((_, _, Commit i digest bytes _), CommitReply (Inr r)) = commits i digest bytes r"
| "commit_sound _ = True"

lemma perform_commit:
  assumes "ledger_dir sha dir" and "hex_sha sha" and "perform sha (env, l, c) dir = (reply, dir')"
  shows "commit_sound ((env, l, c), reply)"
proof (cases "\<exists>i digest bytes at r. c = Commit i digest bytes at \<and> reply = CommitReply (Inr r)")
  case True
  then obtain i digest bytes at r where c: "c = Commit i digest bytes at" "reply = CommitReply (Inr r)" by blast
  then obtain l' where "commit_effect sha env l dir i digest bytes at = (Inr r, l', dir')"
    using assms(3) by (auto split: prod.splits)
  then have "run_transaction sha env l dir (Inr ()) (\<lambda>_. commit_record sha env (el_root l) i digest bytes at) = (Inr r, l', dir')"
    by (auto simp: commit_effect_def with_write_transaction_def split: sum.splits option.splits if_splits)
  then show ?thesis
  proof (cases rule: run_transaction_cases)
    case (ran u records res')
    then show ?thesis
      using commit_step(4) [OF assms(1,2) load_effect_records_ok [OF assms(1,2) ran(2)] ran(3)] c by (cases res') auto
  qed simp
next
  case False
  then show ?thesis by (cases "((env, l, c), reply)" rule: commit_sound.cases) auto
qed

definition own_key :: "(string \<Rightarrow> string) \<Rightarrow> string \<Rightarrow> effect_step list \<Rightarrow> bool" where
  "own_key sha key cs \<longleftrightarrow> (\<forall>(env, l, c) \<in> set cs.
     effect_record_stem sha (call_key c) = effect_record_stem sha key \<longrightarrow> call_key c = key)"

lemma effect_run_ledger:
  assumes "ledger_dir sha dir" and "hex_sha sha" and "own_key sha key cs" and "effect_run sha cs dir = (log, dir')"
  shows "list_all commit_sound log \<and> (\<forall>x \<in> set (List.map_filter (seen_for key) log). grows (effect_in sha dir key) x) \<and>
    sorted_wrt grows (List.map_filter (seen_for key) log) \<and>
    length (filter (permits_for key) log) \<le> (if effect_in sha dir key = None then 1 else 0)"
  using assms
proof (induction cs arbitrary: dir log)
  case (Cons s cs)
  obtain env l c where s: "s = (env, l, c)" by (cases s)
  obtain reply d1 where p: "perform sha (env, l, c) dir = (reply, d1)" by (rule prod.exhaust)
  obtain log' where log': "effect_run sha cs d1 = (log', dir')" "log = ((env, l, c), reply) # log'"
    using Cons.prems(4) p s by (auto split: prod.splits)
  note step = perform_step [OF Cons.prems(1,2) p]
  have own: "call_key c = key \<or> effect_file sha key \<noteq> effect_file sha (call_key c)" and "own_key sha key cs"
    using Cons.prems(3) s by (auto simp: own_key_def effect_file_def)
  then have IH: "list_all commit_sound log'" "sorted_wrt grows (List.map_filter (seen_for key) log')"
      "\<And>x. x \<in> set (List.map_filter (seen_for key) log') \<Longrightarrow> grows (effect_in sha d1 key) x"
      "length (filter (permits_for key) log') \<le> (if effect_in sha d1 key = None then 1 else 0)"
    using Cons.IH [OF step(1) Cons.prems(2) _ log'(1)] by blast+
  have grow: "grows (effect_in sha dir key) (effect_in sha d1 key)" by (rule step(2) [OF own])
  have seen: "effect_in sha d1 key = x" if "seen_for key ((env, l, c), reply) = Some x" for x
    using that step(3) by (auto simp: seen_for_def split: if_splits)
  have later: "grows (effect_in sha dir key) x" if "x \<in> set (List.map_filter (seen_for key) log')" for x
    using grows_trans [OF grow IH(3) [OF that]] .
  have "commit_sound ((env, l, c), reply)" by (rule perform_commit [OF Cons.prems(1,2) p])
  moreover have "length (filter (permits_for key) log) \<le> (if effect_in sha dir key = None then 1 else 0)"
  proof (cases "permits_for key ((env, l, c), reply)")
    case True
    then have "effect_in sha dir key = None" "effect_in sha d1 key \<noteq> None" using step(4) by (auto simp: permits_for_def)
    then show ?thesis using IH(4) log'(2) True by auto
  next
    case False
    then show ?thesis using IH(4) log'(2) grow
      by (cases "effect_in sha dir key"; cases "effect_in sha d1 key") auto
  qed
  moreover have "sorted_wrt grows (List.map_filter (seen_for key) log)"
    using IH(2,3) seen log'(2) by (cases "seen_for key ((env, l, c), reply)") (auto simp: map_filter_simps)
  moreover have "\<forall>x \<in> set (List.map_filter (seen_for key) log). grows (effect_in sha dir key) x"
    using later seen grow log'(2) by (cases "seen_for key ((env, l, c), reply)") (auto simp: map_filter_simps)
  ultimately show ?case using IH(1) log'(2) by simp
qed (simp add: map_filter_simps)

text \<open>
  C3. An effect is permitted at most once. Over any sequence of calls by any processes, with any
  verdicts of the writer fence and any failures of any file operation, on an initially empty ledger
  where the digest of the key collides with no other key in use: at most one call is told that it
  created the record of the key, and only that call may run the handler. What successful calls see
  for the key only grows, from nothing to one prepared record, whose operation and task attempt never
  change, to that record committed, which never changes again. A successful commit was made by the
  very attempt that prepared, with the result it recorded.
\<close>
theorem effect_at_most_once:
  assumes "hex_sha sha" and "own_key sha key cs" and "effect_run sha cs [] = (log, dir)"
  shows "length (filter (permits_for key) log) \<le> 1 \<and> sorted_wrt grows (List.map_filter (seen_for key) log) \<and>
    list_all commit_sound log"
  using effect_run_ledger [OF ledger_dir_Nil(1) assms] by simp

subsection \<open>The attempt behind a permit\<close>

lemma digits_eq:
  "\<forall>j < k. (n div 256 ^ j) mod 256 = (m div 256 ^ j) mod (256 :: nat) \<Longrightarrow> n mod 256 ^ k = m mod 256 ^ k"
proof (induction k)
  case (Suc k)
  have "a mod 256 ^ Suc k = 256 ^ k * (a div 256 ^ k mod 256) + a mod 256 ^ k" for a :: nat
    using mod_mult2_eq [of a "256 ^ k" 256] by (simp add: mult.commute)
  then show ?case using Suc by simp
qed simp

lemma framed_cancel:
  assumes "framed s @ x = framed t @ y" and "length s < 2 ^ 64" and "length t < 2 ^ 64"
  shows "s = t \<and> x = y"
proof -
  let ?d = "\<lambda>s i. char_of (length s mod 2 ^ 64 div 256 ^ (7 - i)) :: char"
  have eq: "map (?d s) [0 ..< 8] = map (?d t) [0 ..< 8]" and rest: "s @ x = t @ y"
    using assms(1) unfolding framed_def append_assoc by (subst (asm) append_eq_append_conv; simp)+
  have "\<forall>i \<in> {0 ..< 8}. length s div 256 ^ (7 - i) mod 256 = length t div 256 ^ (7 - i) mod (256 :: nat)"
    using eq assms(2,3) by simp
  then have "(length s div 256 ^ j) mod 256 = (length t div 256 ^ j) mod 256" if "j < 8" for j
    using that by (auto dest: bspec [of _ _ "7 - j"])
  then have "length s mod 256 ^ 8 = length t mod 256 ^ 8" using digits_eq [of 8 "length s" "length t"] by blast
  then have "length s = length t" using assms(2,3) by simp
  then show ?thesis using rest by simp
qed

definition fence_text :: "string \<Rightarrow> u64 \<Rightarrow> string \<Rightarrow> u64 \<Rightarrow> string \<Rightarrow> string" where
  "fence_text task generation owner attempt token = framed ''eva.effect-attempt-fence.v1'' @
     concat (map framed [task, nat_str (unat generation), owner, nat_str (unat attempt), token])"

lemma fence_digest_text:
  "fence_digest sha task generation owner attempt token = ''sha256:'' @ sha (fence_text task generation owner attempt token)"
  by (simp only: fence_digest_def canonical_digest_def fence_text_def)

lemma fence_text_inj:
  assumes "fence_text task generation owner attempt token = fence_text task' generation owner' attempt token'"
    and "\<forall>s \<in> {task, owner, token, task', owner', token'}. length s < 2 ^ 64"
  shows "task = task' \<and> owner = owner' \<and> token = token'"
proof -
  have sizes: "length task < 2 ^ 64" "length task' < 2 ^ 64" "length owner < 2 ^ 64" "length owner' < 2 ^ 64"
    "length token < 2 ^ 64" "length token' < 2 ^ 64" using assms(2) by simp_all
  have "framed task @ framed (nat_str (unat generation)) @ framed owner @ framed (nat_str (unat attempt)) @ framed token @ [] =
        framed task' @ framed (nat_str (unat generation)) @ framed owner' @ framed (nat_str (unat attempt)) @ framed token' @ []"
    using assms(1) by (simp add: fence_text_def)
  from framed_cancel [OF this sizes(1,2)] have task: "task = task'"
    and "framed owner @ framed (nat_str (unat attempt)) @ framed token @ [] =
         framed owner' @ framed (nat_str (unat attempt)) @ framed token' @ []" by simp_all
  from framed_cancel [OF this(2) sizes(3,4)] have owner: "owner = owner'"
    and "framed token @ [] = framed token' @ []" by simp_all
  from framed_cancel [OF this(2) sizes(5,6)] show ?thesis using task owner by simp
qed

text \<open>The claim of a task as the intent of the attempt describes it.\<close>

definition live_claim :: "task_claim \<Rightarrow> effect_intent \<Rightarrow> string \<Rightarrow> string \<Rightarrow> u128 \<Rightarrow> bool" where
  "live_claim t i owner token now \<longleftrightarrow>
     tc_status t = ''running'' \<and> \<not> tc_cancel_requested t \<and> \<not> tc_cancel_accepted t \<and>
     (\<forall>d. tc_deadline_at_ms t = Some d \<longrightarrow> now < d) \<and>
     tc_task_id t = in_task_id i \<and> tc_owner_generation t = in_owner_generation i \<and> tc_attempts t = in_attempt i \<and>
     tc_execution_owner t = Some owner \<and> tc_cancel_token t = Some token \<and>
     tc_envelope t = Some \<lparr>te_kind = op_task_kind (in_operation i), te_agent_id = op_agent_id (in_operation i),
       te_input_digest = op_input_digest (in_operation i), te_idempotency_key = intent_key i\<rparr>"

lemma verify_claim_ok:
  assumes "verify_effect_task_claim sha store i generation now = Inr ()" and "ts_read store (in_task_id i) = Inr t"
  obtains owner token where "live_claim (t\<lparr>tc_task_id := in_task_id i\<rparr>) i owner token now" "in_owner_generation i = generation"
    "fence_digest sha (tc_task_id t) (in_owner_generation i) owner (in_attempt i) token = in_fence_digest i"
  using assms
  by (auto simp: verify_effect_task_claim_def live_claim_def deadline_expired_def Let_def res_simps not_le
      split: if_splits option.splits)

definition fence_unique ::
  "(string \<Rightarrow> string) \<Rightarrow> task_claim \<Rightarrow> effect_intent \<Rightarrow> string \<Rightarrow> string \<Rightarrow> bool" where
  "fence_unique sha t i owner token \<longleftrightarrow> length (tc_task_id t) < 2 ^ 64 \<and>
     (\<forall>owner' token'. tc_execution_owner t = Some owner' \<and> tc_cancel_token t = Some token' \<longrightarrow>
        length owner' < 2 ^ 64 \<and> length token' < 2 ^ 64 \<and>
        inj_on sha {fence_text (in_task_id i) (in_owner_generation i) owner (in_attempt i) token,
          fence_text (tc_task_id t) (in_owner_generation i) owner' (in_attempt i) token'})"

lemma effect_intent_new_ok:
  assumes "effect_intent_new sha operation task generation owner attempt token now = Inr i"
  shows "in_task_id i = task" "in_owner_generation i = generation" "in_attempt i = attempt"
    "in_fence_digest i = fence_digest sha task generation owner attempt token"
    "length task < 2 ^ 64" "length owner < 2 ^ 64" "length token < 2 ^ 64"
  using assms
  by (auto simp: effect_intent_new_def res_simps request_id_parse_def validate_id_iff stable_id_def MAX_ID_LEN_def
      validate_fence_field_def split: if_splits)

text \<open>
  C26. A permit binds the exact attempt. When preparing succeeds for the intent of a task attempt, the
  task the store holds is running, not cancelled and before its deadline at the time that was read
  under the lock, its writer generation is the one of the ledger, and its task id, attempt number,
  execution owner, cancellation token and envelope are those of the intent, although only a digest of
  them is compared: the framing of the digested parts is injective, so only a collision of SHA-256 on
  the two fences could let another attempt through.
\<close>
theorem prepare_binds_attempt:
  assumes "effect_intent_new sha operation task generation owner attempt token created = Inr i"
    and "prepare_for_claim sha env clock store l dir i = (Inr outcome, l', dir')"
    and "ts_read store task = Inr t" and "fence_unique sha t i owner token"
  shows "\<exists>now. clock = Inr now \<and> live_claim t i owner token now \<and> map_option lw_generation (el_writer l) = Some generation"
proof -
  note intent = effect_intent_new_ok [OF assms(1)]
  from assms(2) [unfolded prepare_for_claim_def] show ?thesis
  proof (cases rule: with_claim_cases)
    case (ran w now records res')
    obtain owner' token' where live: "live_claim (t\<lparr>tc_task_id := in_task_id i\<rparr>) i owner' token' now"
        "in_owner_generation i = lw_generation w"
        "fence_digest sha (tc_task_id t) (in_owner_generation i) owner' (in_attempt i) token' = in_fence_digest i"
      using verify_claim_ok [OF ran(3)] assms(3) intent(1) by blast
    then have t: "tc_execution_owner t = Some owner'" "tc_cancel_token t = Some token'" by (auto simp: live_claim_def)
    have eq: "sha (fence_text (tc_task_id t) generation owner' attempt token') = sha (fence_text task generation owner attempt token)"
      using live(3) unfolding intent(2-4) fence_digest_text by (simp only: same_append_eq)
    have u: "length (tc_task_id t) < 2 ^ 64" "length owner' < 2 ^ 64" "length token' < 2 ^ 64"
      "inj_on sha {fence_text task generation owner attempt token, fence_text (tc_task_id t) generation owner' attempt token'}"
      using assms(4) t unfolding fence_unique_def intent(1-3) by blast+
    have "fence_text (tc_task_id t) generation owner' attempt token' = fence_text task generation owner attempt token"
      by (rule inj_onD [OF u(4) eq]) simp_all
    from fence_text_inj [OF this] have "tc_task_id t = task \<and> owner' = owner \<and> token' = token"
      using u(1-3) intent(5-7) by simp
    then have "live_claim t i owner token now" using live(1) intent(1) by (auto simp: live_claim_def)
    then show ?thesis using ran(1,2) live(2) intent(2) by simp
  qed simp
qed

definition sample_sha :: "string \<Rightarrow> string" where
  "sample_sha s = replicate 64 CHR ''0''"

definition sample_operation :: effect_operation where
  "sample_operation = \<lparr>op_idempotency_key = ''pay-1'', op_operation_digest = ''sha256:'' @ sample_sha [],
     op_task_kind = ''invoice.pay'', op_agent_id = ''agent-a'', op_effect_scope = ''pay'',
     op_input_digest = ''sha256:'' @ sample_sha []\<rparr>"

definition sample_intent :: effect_intent where
  "sample_intent = \<lparr>in_operation = sample_operation, in_task_id = ''task-1'', in_owner_generation = 1, in_attempt = 1,
     in_fence_digest = ''sha256:'' @ sample_sha [], in_prepared_at_ms = 5\<rparr>"

definition sample_claim :: task_claim where
  "sample_claim = \<lparr>tc_owner_generation = 1, tc_task_id = ''task-1'',
     tc_envelope = Some \<lparr>te_kind = ''invoice.pay'', te_agent_id = ''agent-a'',
       te_input_digest = ''sha256:'' @ sample_sha [], te_idempotency_key = ''pay-1''\<rparr>,
     tc_status = ''running'', tc_attempts = 1, tc_execution_owner = Some ''worker'', tc_cancel_requested = False,
     tc_cancel_accepted = False, tc_deadline_at_ms = Some 9, tc_cancel_token = Some ''token''\<rparr>"

definition sample_store :: task_store where
  "sample_store = \<lparr>ts_project_root = ''/p'', ts_writer_generation = Some 1, ts_read = (\<lambda>_. Inr sample_claim)\<rparr>"

definition sample_ledger :: effect_ledger where
  "sample_ledger = \<lparr>el_root = ''/p/effects'', el_records = [],
     el_writer = Some \<lparr>lw_root = ''/p'', lw_generation = 1\<rparr>\<rparr>"

definition sample_env :: effect_env where
  "sample_env = \<lparr>ee_verify = Inr (), ee_list_error = None, ee_entry_error = (\<lambda>_. None),
     ee_file_type = (\<lambda>_. Inr True), ee_read_error = (\<lambda>_. None), ee_write = WriteOk\<rparr>"

lemma prepare_creates:
  assumes "el_writer l = Some w" and "ts_project_root store = lw_root w" and "ts_writer_generation store = Some (lw_generation w)"
    and "ee_verify env = Inr ()" and "clock = Inr now"
    and "verify_effect_task_claim sha store i (lw_generation w) now = Inr ()"
    and "load_effect_records sha env (el_root l) dir = Inr records" and "bt_get records (intent_key i) = None"
    and "effect_validate sha (effect_prepared (i\<lparr>in_prepared_at_ms := now\<rparr>)) = Inr ()" and "ee_write env = WriteOk"
  shows "fst (prepare_for_claim sha env clock store l dir i) = Inr (CreatedEffect (effect_prepared (i\<lparr>in_prepared_at_ms := now\<rparr>)))"
  using assms
  by (simp add: prepare_for_claim_def with_claim_transaction_def run_transaction_def effect_now_ms_def
      prepare_effect_record_def persist_effect_record_def atomic_write_def Let_def)

lemma sample_digest: "canonical_digest sample_sha d parts = ''sha256:'' @ sample_sha []" "hex_sha sample_sha"
  by (simp_all add: canonical_digest_def sample_sha_def hex_sha_def is_lower_hex_def)

lemma sample_effect_ids:
  "stable_id ''pay-1''" "stable_id ''agent-a''" "stable_id ''pay''" "stable_id ''task-1''"
  "validate_task_kind ''invoice.pay'' = Inr ()"
proof -
  show "validate_task_kind ''invoice.pay'' = Inr ()"
    using trim_graphic [of "''invoice.pay''"]
    by (simp add: validate_task_kind_def is_graphic_def is_ascii_alphanumeric_def is_ascii_digit_def)
qed (simp_all add: stable_id_def MAX_ID_LEN_def is_stable_id_char_def is_ascii_alphanumeric_def is_ascii_digit_def)

lemma sample_valid: "effect_validate sample_sha (effect_prepared (sample_intent\<lparr>in_prepared_at_ms := now\<rparr>)) = Inr ()"
proof -
  have d: "validate_sha256_digest field (''sha256:'' @ sample_sha []) = Inr ()" for field
    using canonical_digest_ok [OF sample_digest(2)] unfolding sample_digest(1) .
  have "effect_operation_new sample_sha ''pay-1'' ''invoice.pay'' ''agent-a'' ''pay'' (''sha256:'' @ sample_sha []) =
      Inr sample_operation"
    unfolding effect_operation_new_iff using d sample_effect_ids by (simp only: sample_digest(1) sample_operation_def simp_thms)
  then show ?thesis using d sample_effect_ids(4)
    by (simp only: effect_validate_def effect_prepared_def sample_intent_def) (simp add: sample_operation_def
       request_id_parse_def iffD2 [OF validate_id_iff])
qed

lemma sample_created:
  "fst (prepare_for_claim sample_sha sample_env (Inr 7) sample_store sample_ledger [] sample_intent) =
     Inr (CreatedEffect (effect_prepared (sample_intent\<lparr>in_prepared_at_ms := 7\<rparr>)))"
proof (rule prepare_creates [where w = "\<lparr>lw_root = ''/p'', lw_generation = 1\<rparr>" and records = "[]", OF _ _ _ _ refl _ _ _ sample_valid])
  show "verify_effect_task_claim sample_sha sample_store sample_intent (lw_generation \<lparr>lw_root = ''/p'', lw_generation = 1\<rparr>) 7 = Inr ()"
    by (simp add: verify_effect_task_claim_def sample_store_def sample_claim_def sample_intent_def sample_operation_def
        deadline_expired_def fence_digest_def sample_digest(1))
qed (simp_all add: sample_ledger_def sample_store_def sample_env_def load_effect_records_def)

theorem effect_at_most_once_witness:
  "let s = (sample_env, sample_ledger, Prepare (Inr 7) sample_store sample_intent);
       log = fst (effect_run sample_sha [s, s] [])
   in is_created (snd (hd log)) \<and> length (filter (permits_for ''pay-1'') log) = 1"
proof -
  let ?s = "(sample_env, sample_ledger, Prepare (Inr 7) sample_store sample_intent)"
  obtain reply d1 where p: "perform sample_sha ?s [] = (reply, d1)" by (rule prod.exhaust)
  then have created: "is_created reply" using sample_created by (auto split: prod.splits)
  obtain log dir where run: "effect_run sample_sha [?s, ?s] [] = (log, dir)" by (rule prod.exhaust)
  then obtain log' where log: "log = (?s, reply) # log'" using p by (auto simp: Let_def split: prod.splits)
  have "own_key sample_sha ''pay-1'' [?s, ?s]" by (simp add: own_key_def sample_intent_def sample_operation_def)
  from effect_at_most_once [OF sample_digest(2) this run]
  have "length (filter (permits_for ''pay-1'') log) \<le> 1" by blast
  moreover have "permits_for ''pay-1'' (?s, reply)"
    using created by (simp add: permits_for_def sample_intent_def sample_operation_def)
  ultimately show ?thesis unfolding Let_def run using created log by simp
qed

theorem prepare_binds_attempt_witness:
  "\<exists>now. Inr 7 = (Inr now :: string + u128) \<and> live_claim sample_claim sample_intent ''worker'' ''token'' now"
proof -
  have "validate_fence_field field ''worker'' = Inr ()" "validate_fence_field field ''token'' = Inr ()" for field
    using trim_graphic [of "''worker''"] trim_graphic [of "''token''"]
    by (simp_all add: validate_fence_field_def is_graphic_def)
  then have intent: "effect_intent_new sample_sha sample_operation ''task-1'' 1 ''worker'' 1 ''token'' 5 = Inr sample_intent"
    using sample_effect_ids(4) by (simp add: effect_intent_new_def request_id_parse_def iffD2 [OF validate_id_iff] fence_digest_def
      sample_digest(1) sample_intent_def)
  obtain l' dir' where run: "prepare_for_claim sample_sha sample_env (Inr 7) sample_store sample_ledger [] sample_intent =
      (Inr (CreatedEffect (effect_prepared (sample_intent\<lparr>in_prepared_at_ms := 7\<rparr>))), l', dir')"
    using sample_created by (metis prod.collapse)
  have "fence_unique sample_sha sample_claim sample_intent ''worker'' ''token''"
    by (simp add: fence_unique_def sample_claim_def sample_intent_def)
  from prepare_binds_attempt [OF intent run _ this] show ?thesis by (auto simp: sample_store_def)
qed

end
