(* ===== verification/Storage_Tasks.thy ===== *)
theory Storage_Tasks
  imports Storage_Effects Core_Digest
begin

section \<open>Task snapshots and their lifecycle (eva-storage, task\_state.rs)\<close>

text \<open>
  The snapshot of a durable task: its immutable envelope, the fence of the current attempt, the
  outcome of the last one, and its logs. \<open>task_validate\<close> is the check that every read and every
  commit repeats; the lifecycle operations change a snapshot in memory. An operation of the source
  that takes \<^verbatim>\<open>&mut self\<close> and may fail returns the changed snapshot or the error: the store runs it on
  a clone and drops the clone when it fails. Input bytes are a \<^typ>\<open>string\<close>, \<^verbatim>\<open>usize\<close> values are 64-bit
  words. The digest of inline inputs is an argument \<open>sha\<close> of the definitions: the source uses the digest
  of eva-core, which is \<open>core_sha\<close>, and the properties do not depend on which function it is.
\<close>

definition reject_if :: "bool \<Rightarrow> eva_error \<Rightarrow> unit res" where
  "reject_if bad e = (if bad then Inl e else Inr ())"

lemma reject_if_Inr [res_simps]: "reject_if bad e = Inr u \<longleftrightarrow> \<not> bad"
  by (simp add: reject_if_def)

lemma reject_if_simps [simp]: "reject_if True e = Inl e" "reject_if False e = Inr ()"
  by (simp_all add: reject_if_def)

subsection \<open>Data\<close>

record attempt_policy =
  ap_max_attempts :: u32
  ap_retry_backoff_ms :: u64
  ap_attempt_timeout_ms :: "u64 option"

datatype task_input =
    InlineInput (inline_bytes: string) (input_digest: string)
  | ArtifactInput (artifact_ref: string) (input_digest: string)

record envelope_snapshot =
  ev_kind :: string
  ev_agent_id :: string
  ev_input :: task_input
  ev_idempotency_key :: string
  ev_attempt_policy :: attempt_policy

record replay_delivery =
  rd_replay_event_id :: string
  rd_delivery_index :: u64

record task_log =
  tl_sequence :: u64
  tl_level :: string
  tl_message :: string

record task_dead_letter =
  td_event_id :: string
  td_topic :: string
  td_reason_kind :: string
  td_reason :: string
  td_replay_count :: u64

record task_replay =
  tr_event_id :: string
  tr_sequence :: u64
  tr_topic :: string

record task_state =
  st_record_version :: u64
  st_owner_generation :: u64
  st_task_id :: string
  st_envelope :: "envelope_snapshot option"
  st_replay_delivery :: "replay_delivery option"
  st_status :: string
  st_attempts :: u64
  st_execution_owner :: "string option"
  st_retry_max_attempts :: u64
  st_cancel_requested :: bool
  st_cancel_accepted :: bool
  st_cancel_reason :: "string option"
  st_heartbeat_at_ms :: "u128 option"
  st_deadline_at_ms :: "u128 option"
  st_cancel_token :: "string option"
  st_result_digest :: "string option"
  st_result_size_bytes :: "u64 option"
  st_interrupted_reason :: "string option"
  st_error_kind :: "string option"
  st_error_message :: "string option"
  st_error_retryable :: "bool option"
  st_retry_ready_at_ms :: "u128 option"
  st_logs :: "task_log list"
  st_dead_letters :: "task_dead_letter list"
  st_replayed_events :: "task_replay list"

datatype task_freshness = FreshLive | FreshDegraded | FreshStale | FreshNotApplicable

fun task_freshness_as_str :: "task_freshness \<Rightarrow> string" where
  "task_freshness_as_str FreshLive = ''live''"
| "task_freshness_as_str FreshDegraded = ''degraded''"
| "task_freshness_as_str FreshStale = ''stale''"
| "task_freshness_as_str FreshNotApplicable = ''not_applicable''"

definition COMMITTED_EFFECT_RECOVERY_LOG_PREFIX :: string where
  "COMMITTED_EFFECT_RECOVERY_LOG_PREFIX = ''task recovered from committed effect: operation_digest=''"

definition UNKNOWN_EFFECT_RECOVERY_REASON_PREFIX :: string where
  "UNKNOWN_EFFECT_RECOVERY_REASON_PREFIX =
     ''non-idempotent effect outcome is unknown; operator reconciliation required; operation_digest=''"

subsection \<open>Validation of the parts\<close>

definition validate_canonical_sha256 :: "string \<Rightarrow> string \<Rightarrow> unit res" where
  "validate_canonical_sha256 v field =
     (let bad = Inl (with_context (with_context
            (err_invalid_argument ''task digest must use canonical lowercase SHA-256'') ''field'' field) ''digest'' v)
      in case strip_prefix ''sha256:'' v of
           None \<Rightarrow> bad
         | Some hex \<Rightarrow> if length hex \<noteq> 64 \<or> \<not> (\<forall>c \<in> set hex. is_lower_hex c) then bad else Inr ())"

definition validate_bounded_identity :: "nat \<Rightarrow> string \<Rightarrow> string \<Rightarrow> unit res" where
  "validate_bounded_identity bound message v =
     reject_if (v = [] \<or> trim v \<noteq> v \<or> length v > bound \<or> has_control v) (err_invalid_argument message)"

definition validate_execution_owner :: "string \<Rightarrow> unit res" where
  "validate_execution_owner =
     validate_bounded_identity 512 ''task execution owner is not a stable bounded identity''"

definition validate_cancel_token :: "string \<Rightarrow> unit res" where
  "validate_cancel_token = validate_bounded_identity 256 ''task cancel token is not a stable bounded fence''"

definition is_replay_delivery_task_id :: "string \<Rightarrow> bool" where
  "is_replay_delivery_task_id task = (case strip_prefix ''replay-delivery-'' task of
     None \<Rightarrow> False
   | Some suffix \<Rightarrow> length suffix = 64 \<and> (\<forall>c \<in> set suffix. is_lower_hex c))"

definition validate_artifact_key :: "string \<Rightarrow> unit res" where
  "validate_artifact_key key =
     (let unstable = with_context (err_invalid_argument ''artifact key must be a stable relative path'')
            ''artifact_key'' key
      in if trim key = [] \<or> trim key \<noteq> key \<or> CHR 0x5C \<in> set key then Inl unstable
         else res_all (\<lambda>segment.
           if segment = [] \<or> segment = ''.'' \<or> segment = ''..'' then Inl unstable
           else reject_if (\<not> (\<forall>c \<in> set segment. is_ascii_alphanumeric c \<or> c = CHR ''-'' \<or> c = CHR ''_'' \<or> c = CHR ''.''))
             (with_context (err_invalid_argument ''artifact key contains unsupported filesystem characters'')
               ''artifact_key'' key)) (split_on CHR ''/'' key))"

definition attempt_policy_validate :: "attempt_policy \<Rightarrow> unit res" where
  "attempt_policy_validate p =
     (if ap_max_attempts p = 0
      then Inl (err_invalid_argument ''task attempt policy max_attempts must be at least one'')
      else reject_if (ap_attempt_timeout_ms p = Some 0)
        (err_invalid_argument ''task attempt timeout must be greater than zero when present''))"

definition attempt_policy_new :: "u32 \<Rightarrow> u64 \<Rightarrow> u64 option \<Rightarrow> attempt_policy res" where
  "attempt_policy_new most backoff timeout =
     (let p = \<lparr>ap_max_attempts = most, ap_retry_backoff_ms = backoff, ap_attempt_timeout_ms = timeout\<rparr>
      in res_bind (attempt_policy_validate p) (\<lambda>_. Inr p))"

definition sha256_text :: "(string \<Rightarrow> string) \<Rightarrow> string \<Rightarrow> string" where
  "sha256_text sha data = ''sha256:'' @ sha data"

definition core_sha :: "string \<Rightarrow> string" where
  "core_sha data = drop 7 (sha256_digest (map of_char data))"

lemma sha256_text_core: "sha256_text core_sha data = sha256_digest (map of_char data)"
  unfolding sha256_text_def core_sha_def
  using sha256_digest_shape [of "map of_char data"] append_take_drop_id [of 7 "sha256_digest (map of_char data)"] by metis

lemma core_sha_hex: "hex_sha core_sha"
  unfolding hex_sha_def core_sha_def using sha256_digest_shape by simp

definition MAX_INLINE_TASK_INPUT_BYTES :: nat where
  "MAX_INLINE_TASK_INPUT_BYTES = 1024 * 1024"

definition inline_too_long :: "string \<Rightarrow> eva_error" where
  "inline_too_long data = with_context (with_context
     (err_invalid_argument ''inline task input exceeds the durable size limit'')
     ''size_bytes'' (nat_str (length data))) ''max_size_bytes'' (nat_str MAX_INLINE_TASK_INPUT_BYTES)"

fun task_input_validate :: "(string \<Rightarrow> string) \<Rightarrow> task_input \<Rightarrow> unit res" where
  "task_input_validate sha (InlineInput data digest) =
     (if length data > MAX_INLINE_TASK_INPUT_BYTES then Inl (inline_too_long data)
      else
        res_bind (validate_canonical_sha256 digest ''task input digest'') (\<lambda>_.
        reject_if (digest \<noteq> sha256_text sha data) (with_context (with_context
          (err_invalid_argument ''inline task input digest does not match payload bytes'')
          ''expected_digest'' digest) ''actual_digest'' (sha256_text sha data))))"
| "task_input_validate sha (ArtifactInput key digest) =
     res_bind (validate_artifact_key key) (\<lambda>_. validate_canonical_sha256 digest ''task artifact digest'')"

definition task_input_inline :: "(string \<Rightarrow> string) \<Rightarrow> string \<Rightarrow> task_input res" where
  "task_input_inline sha data =
     (if length data > MAX_INLINE_TASK_INPUT_BYTES then Inl (inline_too_long data)
      else Inr (InlineInput data (sha256_text sha data)))"

definition task_input_artifact :: "(string \<Rightarrow> string) \<Rightarrow> string \<Rightarrow> string \<Rightarrow> task_input res" where
  "task_input_artifact sha key digest =
     res_bind (task_input_validate sha (ArtifactInput key digest)) (\<lambda>_. Inr (ArtifactInput key digest))"

definition envelope_validate :: "(string \<Rightarrow> string) \<Rightarrow> envelope_snapshot \<Rightarrow> unit res" where
  "envelope_validate sha v =
     res_bind (validate_task_kind (ev_kind v)) (\<lambda>_.
     res_bind (agent_id_parse (ev_agent_id v)) (\<lambda>_.
     res_bind (map_err (\<lambda>e. with_context (with_context (err_invalid_argument ''task idempotency key is invalid'')
       ''idempotency_key'' (ev_idempotency_key v)) ''cause'' (err_message e))
       (request_id_parse (ev_idempotency_key v))) (\<lambda>_.
     res_bind (task_input_validate sha (ev_input v)) (\<lambda>_.
     attempt_policy_validate (ev_attempt_policy v)))))"

definition envelope_new ::
  "(string \<Rightarrow> string) \<Rightarrow> string \<Rightarrow> string \<Rightarrow> task_input \<Rightarrow> string \<Rightarrow> attempt_policy \<Rightarrow> envelope_snapshot res" where
  "envelope_new sha kind agent inp key policy =
     (let v = \<lparr>ev_kind = kind, ev_agent_id = agent, ev_input = inp, ev_idempotency_key = key,
               ev_attempt_policy = policy\<rparr>
      in res_bind (envelope_validate sha v) (\<lambda>_. Inr v))"

definition envelope_inline ::
  "(string \<Rightarrow> string) \<Rightarrow> string \<Rightarrow> string \<Rightarrow> string \<Rightarrow> string \<Rightarrow> attempt_policy \<Rightarrow> envelope_snapshot res" where
  "envelope_inline sha kind agent data key policy =
     res_bind (task_input_inline sha data) (\<lambda>inp. envelope_new sha kind agent inp key policy)"

definition envelope_artifact ::
  "(string \<Rightarrow> string) \<Rightarrow> string \<Rightarrow> string \<Rightarrow> string \<Rightarrow> string \<Rightarrow> string \<Rightarrow> attempt_policy \<Rightarrow>
     envelope_snapshot res" where
  "envelope_artifact sha kind agent ref digest key policy =
     res_bind (task_input_artifact sha ref digest) (\<lambda>inp. envelope_new sha kind agent inp key policy)"

definition replay_delivery_validate :: "replay_delivery \<Rightarrow> unit res" where
  "replay_delivery_validate d = res_bind (event_id_parse (rd_replay_event_id d)) (\<lambda>_. Inr ())"

definition replay_delivery_new :: "string \<Rightarrow> u64 \<Rightarrow> replay_delivery res" where
  "replay_delivery_new event index =
     (let d = \<lparr>rd_replay_event_id = event, rd_delivery_index = index\<rparr>
      in res_bind (replay_delivery_validate d) (\<lambda>_. Inr d))"

subsection \<open>Validation of a snapshot\<close>

definition execution_metadata_valid :: "task_state \<Rightarrow> bool" where
  "execution_metadata_valid s =
     (let clean = st_error_kind s = None \<and> st_error_message s = None \<and> st_error_retryable s = None \<and>
            st_retry_ready_at_ms s = None \<and> st_interrupted_reason s = None
      in if st_status s = ''running'' \<or> st_status s = ''cancelling'' then st_result_digest s = None \<and> clean
         else if st_status s = ''completed'' then st_result_digest s \<noteq> None \<and> clean
         else if st_status s = ''failed'' then
           st_result_digest s = None \<and> st_error_kind s \<noteq> None \<and> st_error_message s \<noteq> None \<and>
           st_interrupted_reason s = None
         else if st_status s = ''timed_out'' then
           st_result_digest s = None \<and> st_error_kind s = Some ''timeout'' \<and> st_error_message s \<noteq> None \<and>
           st_heartbeat_at_ms s \<noteq> None \<and> st_interrupted_reason s = None
         else if st_status s = ''cancelled'' then st_result_digest s = None \<and> clean
         else if st_status s = ''interrupted'' \<or> st_status s = ''recovering'' then st_result_digest s = None
         else True)"

definition validate_claim_fields :: "task_state \<Rightarrow> unit res" where
  "validate_claim_fields s =
     res_bind (case st_execution_owner s of
         None \<Rightarrow> Inr ()
       | Some owner \<Rightarrow>
           res_bind (validate_execution_owner owner) (\<lambda>_.
           reject_if (st_envelope s = None \<or> st_attempts s = 0 \<or> st_cancel_token s = None)
             (err_invalid_argument ''task execution owner requires an envelope, active attempt, and cancel token''))) (\<lambda>_.
     case st_cancel_token s of None \<Rightarrow> Inr () | Some token \<Rightarrow> validate_cancel_token token)"

definition validate_replay_fields :: "task_state \<Rightarrow> unit res" where
  "validate_replay_fields s = (case st_replay_delivery s of
     None \<Rightarrow> Inr ()
   | Some d \<Rightarrow>
       res_bind (replay_delivery_validate d) (\<lambda>_.
       if \<not> is_replay_delivery_task_id (st_task_id s)
       then Inl (with_context (err_invalid_argument ''replay delivery marker requires a reserved deterministic task id'')
              ''task_id'' (st_task_id s))
       else
         res_bind (ok_or (err_invalid_argument ''replay delivery marker requires a task envelope'') (st_envelope s)) (\<lambda>v.
         reject_if (ap_max_attempts (ev_attempt_policy v) \<noteq> - 1 \<or> ap_attempt_timeout_ms (ev_attempt_policy v) \<noteq> None)
           (with_context (err_invalid_argument ''replay delivery envelope does not match its internal retry contract'')
             ''task_id'' (st_task_id s)))))"

definition validate_outcome_fields :: "task_state \<Rightarrow> unit res" where
  "validate_outcome_fields s =
     res_bind (reject_if (st_error_retryable s \<noteq> None \<and>
         (st_status s \<notin> {''failed'', ''timed_out''} \<or> st_error_kind s = None \<or> st_error_message s = None))
       (err_invalid_argument ''task retry classification requires a failed or timed-out outcome'')) (\<lambda>_.
     res_bind (reject_if (st_retry_ready_at_ms s \<noteq> None \<and>
         (st_status s \<notin> {''failed'', ''timed_out''} \<or> st_retry_max_attempts s \<le> st_attempts s \<or>
          st_error_retryable s = Some False))
       (err_invalid_argument ''task retry readiness requires a retryable outcome with remaining attempts'')) (\<lambda>_.
     res_bind (case (st_result_digest s, st_result_size_bytes s) of
         (None, None) \<Rightarrow> Inr ()
       | (Some digest, Some _) \<Rightarrow>
           if st_status s = ''completed'' \<and> st_envelope s \<noteq> None
           then validate_canonical_sha256 digest ''task result digest''
           else Inl (err_invalid_argument ''task result metadata requires completed status'')
       | _ \<Rightarrow> Inl (err_invalid_argument ''task result digest and size must appear together'')) (\<lambda>_.
     reject_if (st_execution_owner s \<noteq> None \<and> \<not> execution_metadata_valid s)
       (with_context (err_invalid_argument ''task execution metadata does not match lifecycle status'')
         ''status'' (st_status s)))))"

definition validate_policy_mirror :: "(string \<Rightarrow> string) \<Rightarrow> task_state \<Rightarrow> unit res" where
  "validate_policy_mirror sha s = (case st_envelope s of
     None \<Rightarrow> Inr ()
   | Some v \<Rightarrow>
       res_bind (envelope_validate sha v) (\<lambda>_.
       reject_if (st_retry_max_attempts s \<noteq> ucast (ap_max_attempts (ev_attempt_policy v)))
         (with_context (with_context (err_invalid_argument ''task retry policy mirror does not match immutable envelope'')
           ''retry_max_attempts'' (nat_str (unat (st_retry_max_attempts s))))
           ''envelope_max_attempts'' (nat_str (unat (ap_max_attempts (ev_attempt_policy v)))))))"

definition task_validate :: "(string \<Rightarrow> string) \<Rightarrow> task_state \<Rightarrow> unit res" where
  "task_validate sha s =
     res_bind (request_id_parse (st_task_id s)) (\<lambda>_.
     res_bind (reject_if (st_status s = []) (err_invalid_argument ''task state status cannot be empty'')) (\<lambda>_.
     res_bind (reject_if (st_retry_max_attempts s = 0)
       (err_invalid_argument ''task retry_max_attempts must be at least one'')) (\<lambda>_.
     res_bind (reject_if (st_retry_max_attempts s < st_attempts s)
       (with_context (with_context (err_invalid_argument ''task attempts cannot exceed retry_max_attempts'')
         ''attempts'' (nat_str (unat (st_attempts s))))
         ''retry_max_attempts'' (nat_str (unat (st_retry_max_attempts s))))) (\<lambda>_.
     res_bind (validate_claim_fields s) (\<lambda>_.
     res_bind (validate_replay_fields s) (\<lambda>_.
     res_bind (validate_outcome_fields s) (\<lambda>_.
     validate_policy_mirror sha s)))))))"

subsection \<open>New snapshots\<close>

definition empty_task_state :: "string \<Rightarrow> string \<Rightarrow> task_state" where
  "empty_task_state task status =
     \<lparr>st_record_version = 0, st_owner_generation = 0, st_task_id = task, st_envelope = None,
      st_replay_delivery = None, st_status = status, st_attempts = 0, st_execution_owner = None,
      st_retry_max_attempts = 1, st_cancel_requested = False, st_cancel_accepted = False,
      st_cancel_reason = None, st_heartbeat_at_ms = None, st_deadline_at_ms = None, st_cancel_token = None,
      st_result_digest = None, st_result_size_bytes = None, st_interrupted_reason = None,
      st_error_kind = None, st_error_message = None, st_error_retryable = None, st_retry_ready_at_ms = None,
      st_logs = [], st_dead_letters = [], st_replayed_events = []\<rparr>"

definition task_queued :: "string \<Rightarrow> task_state res" where
  "task_queued task = res_bind (request_id_parse task) (\<lambda>_. Inr (empty_task_state task ''queued''))"

definition queued_with_envelope :: "(string \<Rightarrow> string) \<Rightarrow> string \<Rightarrow> envelope_snapshot \<Rightarrow> task_state res" where
  "queued_with_envelope sha task v =
     res_bind (envelope_validate sha v) (\<lambda>_.
     res_bind (task_queued task) (\<lambda>s.
     let s' = s\<lparr>st_retry_max_attempts := ucast (ap_max_attempts (ev_attempt_policy v)), st_envelope := Some v\<rparr>
     in res_bind (task_validate sha s') (\<lambda>_. Inr s')))"

definition queued_with_replay_delivery ::
  "(string \<Rightarrow> string) \<Rightarrow> string \<Rightarrow> envelope_snapshot \<Rightarrow> string \<Rightarrow> u64 \<Rightarrow> task_state res" where
  "queued_with_replay_delivery sha task v event index =
     res_bind (envelope_validate sha v) (\<lambda>_.
     res_bind (task_queued task) (\<lambda>s.
     res_bind (replay_delivery_new event index) (\<lambda>d.
     let s' = s\<lparr>st_retry_max_attempts := ucast (ap_max_attempts (ev_attempt_policy v)), st_envelope := Some v,
                st_replay_delivery := Some d\<rparr>
     in res_bind (task_validate sha s') (\<lambda>_. Inr s'))))"

subsection \<open>Lifecycle operations\<close>

definition is_terminal :: "task_state \<Rightarrow> bool" where
  "is_terminal s \<longleftrightarrow> st_status s \<in> {''completed'', ''failed'', ''cancelled'', ''timed_out'', ''interrupted''}"

definition requires_operator_reconciliation :: "task_state \<Rightarrow> bool" where
  "requires_operator_reconciliation s \<longleftrightarrow> st_status s = ''interrupted'' \<and>
     (case st_interrupted_reason s of
        None \<Rightarrow> False
      | Some reason \<Rightarrow> strip_prefix UNKNOWN_EFFECT_RECOVERY_REASON_PREFIX reason \<noteq> None)"

definition push_task_log :: "string \<Rightarrow> string \<Rightarrow> task_state \<Rightarrow> task_state" where
  "push_task_log level message s = s\<lparr>st_logs := st_logs s @
     [\<lparr>tl_sequence = of_nat (length (st_logs s)) + 1, tl_level = level, tl_message = message\<rparr>]\<rparr>"

text \<open>The four assignments that clear an earlier error outcome, and the two that clear a result.\<close>

definition clear_error :: "task_state \<Rightarrow> task_state" where
  "clear_error s = s\<lparr>st_error_kind := None, st_error_message := None, st_error_retryable := None,
     st_retry_ready_at_ms := None\<rparr>"

definition clear_result :: "task_state \<Rightarrow> task_state" where
  "clear_result s = s\<lparr>st_result_digest := None, st_result_size_bytes := None\<rparr>"

definition about_task :: "task_state \<Rightarrow> eva_error \<Rightarrow> eva_error" where
  "about_task s e = with_context e ''task_id'' (st_task_id s)"

definition about_status :: "task_state \<Rightarrow> eva_error \<Rightarrow> eva_error" where
  "about_status s e = with_context (about_task s e) ''status'' (st_status s)"

definition checked_task :: "(string \<Rightarrow> string) \<Rightarrow> task_state \<Rightarrow> task_state res" where
  "checked_task sha s = res_bind (task_validate sha s) (\<lambda>_. Inr s)"

definition mark_running :: "u128 \<Rightarrow> u128 option \<Rightarrow> string \<Rightarrow> task_state \<Rightarrow> task_state" where
  "mark_running heartbeat deadline token s = push_task_log ''info'' ''task marked running''
     (s\<lparr>st_status := ''running'', st_heartbeat_at_ms := Some heartbeat, st_deadline_at_ms := deadline,
        st_cancel_token := Some token\<rparr>)"

definition checked_add :: "'a::len word \<Rightarrow> 'a word \<Rightarrow> 'a word option" where
  "checked_add a b = (if unat a + unat b < 2 ^ LENGTH('a) then Some (a + b) else None)"

definition claim_for_execution ::
  "(string \<Rightarrow> string) \<Rightarrow> string \<Rightarrow> u128 \<Rightarrow> u128 option \<Rightarrow> string \<Rightarrow> task_state \<Rightarrow> (u64 \<times> task_state) res" where
  "claim_for_execution sha owner heartbeat deadline token s =
     (if st_status s \<noteq> ''queued''
      then Inl (about_status s (err_conflict ''only a queued task can be claimed''))
      else if st_envelope s = None
      then Inl (about_task s (err_conflict ''task claim requires a recoverable task envelope''))
      else if st_cancel_requested s
      then Inl (about_task s (err_conflict ''cancelled queued task cannot be claimed''))
      else if st_dead_letters s \<noteq> []
      then Inl (about_task s (err_conflict ''task with dead letters requires the retry owner before execution''))
      else if st_execution_owner s \<noteq> None \<or> st_cancel_token s \<noteq> None
      then Inl (about_task s (err_conflict ''queued task already carries an execution claim''))
      else
        res_bind (validate_execution_owner owner) (\<lambda>_.
        res_bind (validate_cancel_token token) (\<lambda>_.
        res_bind (ok_or (err_conflict ''task attempt counter is exhausted'') (checked_add (st_attempts s) 1)) (\<lambda>attempt.
        if st_retry_max_attempts s < attempt
        then Inl (with_context (with_context (about_task s (err_conflict ''task retry policy has no remaining attempt''))
               ''attempt'' (nat_str (unat attempt))) ''max_attempts'' (nat_str (unat (st_retry_max_attempts s))))
        else
          (let s' = push_task_log ''info'' (''task attempt '' @ nat_str (unat attempt) @ '' claimed by worker'')
                 (mark_running heartbeat deadline token
                   (clear_error (clear_result (s\<lparr>st_attempts := attempt, st_execution_owner := Some owner,
                     st_interrupted_reason := None\<rparr>))))
           in res_bind (task_validate sha s') (\<lambda>_. Inr (attempt, s')))))))"

definition verify_execution_claim :: "string \<Rightarrow> u64 \<Rightarrow> string \<Rightarrow> task_state \<Rightarrow> unit res" where
  "verify_execution_claim owner attempt token s =
     (if st_execution_owner s = Some owner \<and> st_attempts s = attempt \<and> st_cancel_token s = Some token then Inr ()
      else Inl (with_context (about_task s (err_conflict ''task execution claim no longer matches the worker''))
             ''attempt'' (nat_str (unat attempt))))"

definition mark_failed :: "u64 \<Rightarrow> string \<Rightarrow> string \<Rightarrow> bool \<Rightarrow> task_state \<Rightarrow> task_state" where
  "mark_failed attempts kind message retryable s = push_task_log ''error'' ''task failed''
     (clear_result s\<lparr>st_status := ''failed'', st_attempts := attempts, st_error_kind := Some kind,
        st_error_message := Some message, st_error_retryable := Some retryable, st_retry_ready_at_ms := None\<rparr>)"

definition mark_timed_out :: "u128 \<Rightarrow> bool \<Rightarrow> task_state \<Rightarrow> task_state" where
  "mark_timed_out now retryable s = push_task_log ''error'' (''task timed out at '' @ nat_str (unat now))
     (clear_result s\<lparr>st_status := ''timed_out'', st_heartbeat_at_ms := Some now, st_error_kind := Some ''timeout'',
        st_error_message := Some ''task deadline exceeded'', st_error_retryable := Some retryable,
        st_retry_ready_at_ms := None\<rparr>)"

definition mark_cancelled :: "task_state \<Rightarrow> task_state" where
  "mark_cancelled s = push_task_log ''warning'' ''task marked cancelled''
     (clear_error (clear_result s\<lparr>st_status := ''cancelled'', st_cancel_requested := True, st_cancel_accepted := True\<rparr>))"

definition mark_completed :: "u64 \<Rightarrow> task_state \<Rightarrow> task_state" where
  "mark_completed attempts s = push_task_log ''info'' ''task completed''
     (clear_error (clear_result s\<lparr>st_status := ''completed'', st_attempts := attempts\<rparr>))"

definition mark_interrupted :: "string \<Rightarrow> task_state \<Rightarrow> task_state" where
  "mark_interrupted reason s = push_task_log ''warning'' (''task interrupted: '' @ reason)
     (clear_result s\<lparr>st_status := ''interrupted'', st_interrupted_reason := Some reason\<rparr>)"

definition mark_recovering :: "string \<Rightarrow> task_state \<Rightarrow> task_state" where
  "mark_recovering reason s = push_task_log ''warning'' (''task recovering: '' @ reason)
     (clear_result s\<lparr>st_status := ''recovering'', st_interrupted_reason := Some reason\<rparr>)"

definition not_running :: "task_state \<Rightarrow> eva_error" where
  "not_running s = about_status s (err_conflict ''task is no longer running'')"

definition complete_execution ::
  "(string \<Rightarrow> string) \<Rightarrow> string \<Rightarrow> u64 \<Rightarrow> string \<Rightarrow> string \<Rightarrow> u64 \<Rightarrow> task_state \<Rightarrow> task_state res" where
  "complete_execution sha owner attempt token digest bytes s =
     res_bind (verify_execution_claim owner attempt token s) (\<lambda>_.
     if st_status s \<noteq> ''running'' then Inl (not_running s)
     else
       res_bind (validate_canonical_sha256 digest ''task result digest'') (\<lambda>_.
       checked_task sha (push_task_log ''info'' ''task completed''
         (clear_error (s\<lparr>st_status := ''completed'', st_result_digest := Some digest,
            st_result_size_bytes := Some bytes\<rparr>)))))"

definition complete_committed_effect_execution ::
  "(string \<Rightarrow> string) \<Rightarrow> string \<Rightarrow> u64 \<Rightarrow> string \<Rightarrow> string \<Rightarrow> u64 \<Rightarrow> task_state \<Rightarrow> task_state res" where
  "complete_committed_effect_execution sha owner attempt token digest bytes s =
     res_bind (verify_execution_claim owner attempt token s) (\<lambda>_.
     if st_status s \<notin> {''running'', ''cancelling''}
     then Inl (about_status s (err_conflict ''committed effect task is no longer active''))
     else
       res_bind (validate_canonical_sha256 digest ''task result digest'') (\<lambda>_.
       let s' = (if st_status s = ''cancelling''
                 then push_task_log ''warning'' ''task cancellation was superseded by a committed effect''
                        (s\<lparr>st_cancel_accepted := False\<rparr>)
                 else s)
       in checked_task sha (push_task_log ''info'' ''task completed from committed effect''
            (clear_error (s'\<lparr>st_status := ''completed'', st_result_digest := Some digest,
               st_result_size_bytes := Some bytes\<rparr>)))))"

definition fail_execution ::
  "(string \<Rightarrow> string) \<Rightarrow> string \<Rightarrow> u64 \<Rightarrow> string \<Rightarrow> string \<Rightarrow> string \<Rightarrow> bool \<Rightarrow> task_state \<Rightarrow> task_state res" where
  "fail_execution sha owner attempt token kind message retryable s =
     res_bind (verify_execution_claim owner attempt token s) (\<lambda>_.
     if st_status s \<noteq> ''running'' then Inl (not_running s)
     else checked_task sha (mark_failed attempt kind message retryable (clear_result s)))"

definition time_out_execution ::
  "(string \<Rightarrow> string) \<Rightarrow> string \<Rightarrow> u64 \<Rightarrow> string \<Rightarrow> u128 \<Rightarrow> bool \<Rightarrow> task_state \<Rightarrow> task_state res" where
  "time_out_execution sha owner attempt token now retryable s =
     res_bind (verify_execution_claim owner attempt token s) (\<lambda>_.
     if st_status s \<noteq> ''running'' then Inl (not_running s)
     else checked_task sha (mark_timed_out now retryable (clear_result s)))"

definition cancel_execution :: "(string \<Rightarrow> string) \<Rightarrow> string \<Rightarrow> u64 \<Rightarrow> string \<Rightarrow> task_state \<Rightarrow> task_state res" where
  "cancel_execution sha owner attempt token s =
     res_bind (verify_execution_claim owner attempt token s) (\<lambda>_.
     if st_status s \<noteq> ''cancelling''
     then Inl (about_status s (err_conflict ''task is not awaiting cancellation''))
     else checked_task sha (mark_cancelled (clear_result s)))"

definition record_heartbeat :: "u128 \<Rightarrow> task_state \<Rightarrow> task_state" where
  "record_heartbeat at s = push_task_log ''info'' (''task heartbeat at '' @ nat_str (unat at))
     (s\<lparr>st_heartbeat_at_ms := Some at\<rparr>)"

definition touch_heartbeat :: "u128 \<Rightarrow> task_state \<Rightarrow> task_state" where
  "touch_heartbeat at s = s\<lparr>st_heartbeat_at_ms := Some (case st_heartbeat_at_ms s of
     None \<Rightarrow> at | Some previous \<Rightarrow> max previous at)\<rparr>"

definition request_cancel :: "string \<Rightarrow> task_state \<Rightarrow> task_state" where
  "request_cancel reason s =
     (let s' = s\<lparr>st_cancel_requested := True, st_cancel_reason := Some reason\<rparr>
      in if is_terminal s
         then push_task_log ''warning'' ''cancel requested after task reached a terminal state''
                (s'\<lparr>st_cancel_accepted := False\<rparr>)
         else push_task_log ''warning'' (''cancel requested: '' @ reason)
                (s'\<lparr>st_cancel_accepted := True, st_status := ''cancelling''\<rparr>))"

subsection \<open>Recovery operations\<close>

text \<open>The assignments by which a finished or abandoned attempt gives its task back to the queue.\<close>

definition release_attempt :: "task_state \<Rightarrow> task_state" where
  "release_attempt s = clear_error (clear_result (s\<lparr>st_status := ''queued'', st_execution_owner := None,
     st_cancel_token := None, st_heartbeat_at_ms := None, st_deadline_at_ms := None,
     st_interrupted_reason := None\<rparr>))"

definition abandoned :: "task_state \<Rightarrow> bool" where
  "abandoned s \<longleftrightarrow> st_status s \<in> {''running'', ''interrupted'', ''recovering''} \<and>
     \<not> st_cancel_requested s \<and> \<not> st_cancel_accepted s \<and> st_dead_letters s = [] \<and>
     st_attempts s < st_retry_max_attempts s \<and> \<not> requires_operator_reconciliation s"

definition mark_abandoned_replay_delivery_queued :: "(string \<Rightarrow> string) \<Rightarrow> task_state \<Rightarrow> task_state res" where
  "mark_abandoned_replay_delivery_queued sha s =
     (if st_replay_delivery s = None \<or> \<not> abandoned s
      then Inl (about_status s (err_conflict ''task is not an abandoned replay delivery eligible for recovery''))
      else checked_task sha (push_task_log ''warning''
        (''abandoned replay delivery recovered from '' @ st_status s @ '' after writer turnover'') (release_attempt s)))"

definition mark_abandoned_task_queued :: "(string \<Rightarrow> string) \<Rightarrow> task_state \<Rightarrow> task_state res" where
  "mark_abandoned_task_queued sha s =
     (if st_replay_delivery s \<noteq> None \<or> st_envelope s = None \<or> \<not> abandoned s
      then Inl (about_status s (err_conflict ''task is not an abandoned task eligible for safe recovery''))
      else checked_task sha (push_task_log ''warning''
        (''abandoned task recovered from '' @ st_status s @ '' for a safe retry'') (release_attempt s)))"

definition recoverable_status :: "string \<Rightarrow> bool" where
  "recoverable_status status \<longleftrightarrow> status \<in> {''queued'', ''running'', ''cancelling'', ''failed'', ''timed_out'',
     ''cancelled'', ''interrupted'', ''recovering''}"

definition about_operation :: "task_state \<Rightarrow> string \<Rightarrow> eva_error \<Rightarrow> eva_error" where
  "about_operation s operation e = with_context (about_task s e) ''operation_digest'' operation"

definition recover_committed_effect ::
  "(string \<Rightarrow> string) \<Rightarrow> string \<Rightarrow> string \<Rightarrow> u64 \<Rightarrow> task_state \<Rightarrow> task_state res" where
  "recover_committed_effect sha operation digest bytes s =
     res_bind (validate_canonical_sha256 operation ''effect operation digest'') (\<lambda>_.
     res_bind (validate_canonical_sha256 digest ''task result digest'') (\<lambda>_.
     if st_envelope s = None
     then Inl (about_task s (err_conflict ''committed effect recovery requires a task envelope''))
     else if st_status s = ''completed''
     then if st_result_digest s = Some digest \<and> st_result_size_bytes s = Some bytes then Inr s
          else Inl (about_operation s operation (err_conflict ''committed effect conflicts with the existing task result''))
     else if \<not> recoverable_status (st_status s)
     then Inl (about_status s (err_conflict ''task status cannot be reconciled from a committed effect''))
     else checked_task sha (push_task_log ''info'' (COMMITTED_EFFECT_RECOVERY_LOG_PREFIX @ operation)
       (clear_error (s\<lparr>st_status := ''completed'', st_cancel_accepted := False, st_result_digest := Some digest,
          st_result_size_bytes := Some bytes, st_interrupted_reason := None\<rparr>)))))"

definition block_unknown_effect :: "(string \<Rightarrow> string) \<Rightarrow> string \<Rightarrow> task_state \<Rightarrow> task_state res" where
  "block_unknown_effect sha operation s =
     res_bind (validate_canonical_sha256 operation ''effect operation digest'') (\<lambda>_.
     let reason = UNKNOWN_EFFECT_RECOVERY_REASON_PREFIX @ operation in
     if st_status s = ''interrupted'' \<and> st_interrupted_reason s = Some reason then Inr s
     else if st_status s = ''completed''
     then Inl (about_operation s operation (err_conflict ''completed task cannot be blocked by a prepared effect''))
     else if st_envelope s = None
     then Inl (about_task s (err_conflict ''prepared effect recovery requires a task envelope''))
     else if \<not> recoverable_status (st_status s)
     then Inl (about_status s (err_conflict ''task status cannot be blocked by a prepared effect''))
     else checked_task sha (push_task_log ''error'' reason
       (clear_error (clear_result (s\<lparr>st_status := ''interrupted'', st_cancel_accepted := False,
          st_interrupted_reason := Some reason\<rparr>)))))"

subsection \<open>Deadlines and freshness\<close>

definition task_deadline_expired :: "u128 \<Rightarrow> task_state \<Rightarrow> bool" where
  "task_deadline_expired now s = (case st_deadline_at_ms s of None \<Rightarrow> False | Some deadline \<Rightarrow> deadline \<le> now)"

definition heartbeat_age_ms :: "u128 \<Rightarrow> task_state \<Rightarrow> u128 option" where
  "heartbeat_age_ms now s = map_option (\<lambda>heartbeat. sat_sub now heartbeat) (st_heartbeat_at_ms s)"

definition freshness_at :: "u128 \<Rightarrow> u128 \<Rightarrow> u128 \<Rightarrow> task_state \<Rightarrow> task_freshness" where
  "freshness_at now degraded_after stale_after s =
     (if st_status s \<notin> {''running'', ''cancelling''} then FreshNotApplicable
      else if st_execution_owner s = None \<or> st_cancel_token s = None \<or> st_attempts s = 0 then FreshStale
      else (case heartbeat_age_ms now s of
          None \<Rightarrow> FreshStale
        | Some age \<Rightarrow>
            if stale_after < degraded_after then FreshStale
            else if age < degraded_after then FreshLive
            else if age < stale_after then FreshDegraded
            else FreshStale))"

definition default_freshness_at :: "u128 \<Rightarrow> task_state \<Rightarrow> task_freshness" where
  "default_freshness_at now s = freshness_at now 5000 15000 s"

end
