(* ===== verification/Storage_TaskCodec.thy ===== *)
theory Storage_TaskCodec
  imports Storage_Tasks
begin

section \<open>The text of a task snapshot (eva-storage, task\_state.rs)\<close>

text \<open>
  \<^verbatim>\<open>to_storage\<close> writes a snapshot as one line per scalar field and one line per log, dead letter and
  replay; \<^verbatim>\<open>from_storage\<close> reads it back, and also reads the four earlier forms of the format. Free
  text is percent-encoded, an absent value is the empty text. The reader of the source tries the
  prefixes \<^verbatim>\<open>name=\<close> of the known fields on each line; as no name holds an equals sign, that is a case
  distinction on the text before the first one (\<open>strip_field_prefix\<close>).
\<close>

subsection \<open>Escaping\<close>

definition replace_char :: "char \<Rightarrow> string \<Rightarrow> string \<Rightarrow> string" where
  "replace_char c t s = concat (map (\<lambda>x. if x = c then t else [x]) s)"

text \<open>\<^verbatim>\<open>str::replace\<close> with a non-empty pattern: occurrences from the left that do not overlap.\<close>

function replace_str :: "string \<Rightarrow> string \<Rightarrow> string \<Rightarrow> string" where
  "replace_str p t s =
     (if p \<noteq> [] \<and> s \<noteq> [] \<and> take (length p) s = p then t @ replace_str p t (drop (length p) s)
      else case s of [] \<Rightarrow> [] | c # r \<Rightarrow> c # replace_str p t r)"
  by pat_completeness auto
termination by (relation "measure (\<lambda>(p, t, s). length s)") auto

declare replace_str.simps [simp del]

definition encode_task_field :: "string \<Rightarrow> string" where
  "encode_task_field v =
     replace_char CHR ''='' ''%3D'' (replace_char CHR ''|'' ''%7C'' (replace_char CHR 0x09 ''%09''
       (replace_char CHR 0x0D ''%0D'' (replace_char CHR 0x0A ''%0A'' (replace_char CHR ''%'' ''%25'' v)))))"

definition decode_task_field :: "string \<Rightarrow> string" where
  "decode_task_field v =
     replace_str ''%25'' ''%'' (replace_str ''%3D'' ''='' (replace_str ''%7C'' ''|'' (replace_str ''%09'' [CHR 0x09]
       (replace_str ''%0D'' [CHR 0x0D] (replace_str ''%0A'' [CHR 0x0A] v)))))"

definition decode_optional_field :: "string \<Rightarrow> string option" where
  "decode_optional_field v = (if v = [] then None else Some (decode_task_field v))"

definition optional_text :: "(string \<Rightarrow> string) \<Rightarrow> string option \<Rightarrow> string" where
  "optional_text f v = (case v of None \<Rightarrow> [] | Some t \<Rightarrow> f t)"

definition encode_hex :: "string \<Rightarrow> string" where
  "encode_hex data = concat (map (\<lambda>c. [hex_digit (byte c div 16), hex_digit (byte c mod 16)]) data)"

definition nibble_value :: "char \<Rightarrow> nat" where
  "nibble_value c = (if 48 \<le> byte c \<and> byte c \<le> 57 then byte c - 48 else byte c - 97 + 10)"

fun hex_pairs :: "string \<Rightarrow> string" where
  "hex_pairs (a # b # r) = char_of (16 * nibble_value a + nibble_value b) # hex_pairs r"
| "hex_pairs _ = []"

definition decode_hex :: "string \<Rightarrow> string \<Rightarrow> string res" where
  "decode_hex v field =
     (if odd (length v) \<or> \<not> (\<forall>c \<in> set v. is_lower_hex c)
      then Inl (with_context (err_invalid_argument ''task state binary field is not canonical lowercase hex'')
             ''field'' field)
      else Inr (hex_pairs v))"

subsection \<open>Stored values\<close>

definition stored_number_error :: "string \<Rightarrow> string \<Rightarrow> string \<Rightarrow> eva_error" where
  "stored_number_error message name v =
     with_context (with_context (err_invalid_argument message) ''field'' name) ''value'' v"

definition parse_stored_word :: "string \<Rightarrow> string \<Rightarrow> string \<Rightarrow> ('a::len word) res" where
  "parse_stored_word message name v = (case parse_unsigned (2 ^ LENGTH('a)) v of
     None \<Rightarrow> Inl (stored_number_error message name v)
   | Some n \<Rightarrow> Inr (of_nat n))"

definition parse_stored_u64 :: "string \<Rightarrow> string \<Rightarrow> u64 res" where
  "parse_stored_u64 = parse_stored_word ''stored task field is not an unsigned integer''"

definition parse_stored_u32 :: "string \<Rightarrow> string \<Rightarrow> u32 res" where
  "parse_stored_u32 = parse_stored_word ''stored task field is not an unsigned 32-bit integer''"

definition parse_optional_stored :: "string \<Rightarrow> string \<Rightarrow> ('a::len word option) res" where
  "parse_optional_stored name v =
     (if v = [] then Inr None
      else map_sum id Some (parse_stored_word ''stored task field is not an unsigned integer'' name v))"

definition parse_optional_stored_bool :: "string \<Rightarrow> string \<Rightarrow> bool option res" where
  "parse_optional_stored_bool name v =
     (if v = [] then Inr None
      else if v = ''true'' then Inr (Some True)
      else if v = ''false'' then Inr (Some False)
      else Inl (stored_number_error ''task state contains an invalid optional boolean'' name v))"

definition split_stored_fields :: "string \<Rightarrow> nat \<Rightarrow> string \<Rightarrow> string list res" where
  "split_stored_fields v expected field =
     (let parts = split_on CHR ''|'' v
      in if length parts \<noteq> expected
         then Inl (with_context (with_context (with_context (err_invalid_argument ''task state field has invalid arity'')
                ''field'' field) ''expected'' (nat_str expected)) ''actual'' (nat_str (length parts)))
         else Inr parts)"

definition required_stored_field :: "'a option \<Rightarrow> string \<Rightarrow> 'a res" where
  "required_stored_field v field =
     ok_or (with_context (err_invalid_argument ''task state is missing an envelope scalar field'') ''field'' field) v"

definition flag_str :: "bool \<Rightarrow> string" where
  "flag_str b = (if b then ''true'' else ''false'')"

subsection \<open>Writing\<close>

definition envelope_fields :: "envelope_snapshot \<Rightarrow> (string \<times> string) list" where
  "envelope_fields v =
     (let p = ev_attempt_policy v in
     [(''envelope_kind'', encode_task_field (ev_kind v)),
      (''envelope_agent_id'', encode_task_field (ev_agent_id v)),
      (''envelope_input_kind'', case ev_input v of InlineInput _ _ \<Rightarrow> ''inline'' | ArtifactInput _ _ \<Rightarrow> ''artifact''),
      (''envelope_inline_input_hex'', case ev_input v of InlineInput data _ \<Rightarrow> encode_hex data | ArtifactInput _ _ \<Rightarrow> []),
      (''envelope_artifact_ref'', case ev_input v of InlineInput _ _ \<Rightarrow> [] | ArtifactInput ref _ \<Rightarrow> encode_task_field ref),
      (''envelope_input_digest'', input_digest (ev_input v)),
      (''envelope_idempotency_key'', encode_task_field (ev_idempotency_key v)),
      (''envelope_max_attempts'', nat_str (unat (ap_max_attempts p))),
      (''envelope_retry_backoff_ms'', nat_str (unat (ap_retry_backoff_ms p))),
      (''envelope_attempt_timeout_ms'', opt_str (ap_attempt_timeout_ms p))])"

definition execution_fields :: "task_state \<Rightarrow> (string \<times> string) list" where
  "execution_fields s =
     [(''execution_owner'', optional_text encode_task_field (st_execution_owner s)),
      (''result_digest'', optional_text id (st_result_digest s)),
      (''result_size_bytes'', opt_str (st_result_size_bytes s)),
      (''replay_event_id'', optional_text encode_task_field (map_option rd_replay_event_id (st_replay_delivery s))),
      (''replay_delivery_index'', opt_str (map_option rd_delivery_index (st_replay_delivery s))),
      (''error_retryable'', case st_error_retryable s of None \<Rightarrow> [] | Some b \<Rightarrow> flag_str b),
      (''retry_ready_at_ms'', opt_str (st_retry_ready_at_ms s))]"

definition log_value :: "task_log \<Rightarrow> string" where
  "log_value l = nat_str (unat (tl_sequence l)) @ ''|'' @ encode_task_field (tl_level l) @ ''|'' @ encode_task_field (tl_message l)"

definition dead_letter_value :: "task_dead_letter \<Rightarrow> string" where
  "dead_letter_value d = encode_task_field (td_event_id d) @ ''|'' @ encode_task_field (td_topic d) @ ''|'' @
     encode_task_field (td_reason_kind d) @ ''|'' @ encode_task_field (td_reason d) @ ''|'' @ nat_str (unat (td_replay_count d))"

definition replay_value :: "task_replay \<Rightarrow> string" where
  "replay_value r = encode_task_field (tr_event_id r) @ ''|'' @ nat_str (unat (tr_sequence r)) @ ''|'' @ encode_task_field (tr_topic r)"

definition task_fields :: "task_state \<Rightarrow> (string \<times> string) list" where
  "task_fields s =
     [(''format'', if st_envelope s \<noteq> None then ''eva.task-state.v5'' else ''eva.task-state.v2''),
      (''record_version'', nat_str (unat (st_record_version s))),
      (''owner_generation'', nat_str (unat (st_owner_generation s))),
      (''task_id'', encode_task_field (st_task_id s)),
      (''status'', encode_task_field (st_status s)),
      (''attempts'', nat_str (unat (st_attempts s))),
      (''retry_max_attempts'', nat_str (unat (st_retry_max_attempts s)))] @
     (case st_envelope s of None \<Rightarrow> [] | Some v \<Rightarrow> envelope_fields v @ execution_fields s) @
     [(''cancel_requested'', flag_str (st_cancel_requested s)),
      (''cancel_accepted'', flag_str (st_cancel_accepted s)),
      (''cancel_reason'', optional_text encode_task_field (st_cancel_reason s)),
      (''heartbeat_at_ms'', opt_str (st_heartbeat_at_ms s)),
      (''deadline_at_ms'', opt_str (st_deadline_at_ms s)),
      (''cancel_token'', optional_text encode_task_field (st_cancel_token s)),
      (''interrupted_reason'', optional_text encode_task_field (st_interrupted_reason s)),
      (''error_kind'', optional_text encode_task_field (st_error_kind s)),
      (''error_message'', optional_text encode_task_field (st_error_message s))] @
     map (\<lambda>l. (''log'', log_value l)) (st_logs s) @
     map (\<lambda>d. (''dead_letter'', dead_letter_value d)) (st_dead_letters s) @
     map (\<lambda>r. (''replay'', replay_value r)) (st_replayed_events s)"

definition task_to_storage :: "task_state \<Rightarrow> string" where
  "task_to_storage s = join [CHR 0x0A] (map (\<lambda>(k, v). k @ ''='' @ v) (task_fields s) @ [[]])"

subsection \<open>Reading\<close>

definition single_task_fields :: "string list" where
  "single_task_fields =
     [''format'', ''record_version'', ''owner_generation'', ''task_id'', ''status'', ''attempts'', ''execution_owner'',
      ''retry_max_attempts'', ''envelope_kind'', ''envelope_agent_id'', ''envelope_input_kind'',
      ''envelope_inline_input_hex'', ''envelope_artifact_ref'', ''envelope_input_digest'',
      ''envelope_idempotency_key'', ''envelope_max_attempts'', ''envelope_retry_backoff_ms'',
      ''envelope_attempt_timeout_ms'', ''replay_event_id'', ''replay_delivery_index'', ''error_retryable'',
      ''retry_ready_at_ms'', ''cancel_requested'', ''cancel_accepted'', ''cancel_reason'', ''heartbeat_at_ms'',
      ''deadline_at_ms'', ''cancel_token'', ''result_digest'', ''result_size_bytes'', ''interrupted_reason'',
      ''error_kind'', ''error_message'']"

record task_reader =
  tp_task :: task_state
  tp_format :: "string option"
  tp_kind :: "string option"
  tp_agent_id :: "string option"
  tp_input_kind :: "string option"
  tp_inline_hex :: "string option"
  tp_artifact_ref :: "string option"
  tp_input_digest :: "string option"
  tp_idempotency_key :: "string option"
  tp_max_attempts :: "u32 option"
  tp_retry_backoff_ms :: "u64 option"
  tp_attempt_timeout_ms :: "u64 option option"
  tp_replay_event_id :: "string option option"
  tp_replay_delivery_index :: "u64 option option"
  tp_seen :: "string list"

definition new_reader :: task_reader where
  "new_reader = \<lparr>tp_task = empty_task_state [] [], tp_format = None, tp_kind = None, tp_agent_id = None,
     tp_input_kind = None, tp_inline_hex = None, tp_artifact_ref = None, tp_input_digest = None,
     tp_idempotency_key = None, tp_max_attempts = None, tp_retry_backoff_ms = None,
     tp_attempt_timeout_ms = None, tp_replay_event_id = None, tp_replay_delivery_index = None, tp_seen = []\<rparr>"

abbreviation on_task :: "(task_state \<Rightarrow> task_state) \<Rightarrow> task_reader \<Rightarrow> task_reader" where
  "on_task f p \<equiv> p\<lparr>tp_task := f (tp_task p)\<rparr>"

definition read_log :: "string \<Rightarrow> task_log res" where
  "read_log v =
     res_bind (split_stored_fields v 3 ''log'') (\<lambda>parts.
     res_bind (parse_stored_u64 ''log.sequence'' (parts ! 0)) (\<lambda>sequence.
     Inr \<lparr>tl_sequence = sequence, tl_level = decode_task_field (parts ! 1), tl_message = decode_task_field (parts ! 2)\<rparr>))"

definition read_dead_letter :: "string \<Rightarrow> task_dead_letter res" where
  "read_dead_letter v =
     res_bind (split_stored_fields v 5 ''dead_letter'') (\<lambda>parts.
     res_bind (parse_stored_u64 ''dead_letter.replay_count'' (parts ! 4)) (\<lambda>count.
     Inr \<lparr>td_event_id = decode_task_field (parts ! 0), td_topic = decode_task_field (parts ! 1),
          td_reason_kind = decode_task_field (parts ! 2), td_reason = decode_task_field (parts ! 3), td_replay_count = count\<rparr>))"

definition read_replay :: "string \<Rightarrow> task_replay res" where
  "read_replay v =
     res_bind (split_stored_fields v 3 ''replay'') (\<lambda>parts.
     res_bind (parse_stored_u64 ''replay.sequence'' (parts ! 1)) (\<lambda>sequence.
     Inr \<lparr>tr_event_id = decode_task_field (parts ! 0), tr_sequence = sequence, tr_topic = decode_task_field (parts ! 2)\<rparr>))"

definition read_task_field :: "string \<Rightarrow> string \<Rightarrow> task_reader \<Rightarrow> task_reader res" where
  "read_task_field k v p =
     (if k = ''format'' then Inr (p\<lparr>tp_format := Some v\<rparr>)
      else if k = ''record_version'' then
        map_sum id (\<lambda>n. on_task (st_record_version_update (\<lambda>_. n)) p) (parse_stored_u64 ''record_version'' v)
      else if k = ''owner_generation'' then
        map_sum id (\<lambda>n. on_task (st_owner_generation_update (\<lambda>_. n)) p) (parse_stored_u64 ''owner_generation'' v)
      else if k = ''task_id'' then Inr (on_task (st_task_id_update (\<lambda>_. decode_task_field v)) p)
      else if k = ''status'' then Inr (on_task (st_status_update (\<lambda>_. decode_task_field v)) p)
      else if k = ''attempts'' then
        map_sum id (\<lambda>n. on_task (st_attempts_update (\<lambda>_. n)) p) (parse_stored_u64 ''attempts'' v)
      else if k = ''execution_owner'' then
        Inr (on_task (st_execution_owner_update (\<lambda>_. decode_optional_field v)) p)
      else if k = ''retry_max_attempts'' then
        map_sum id (\<lambda>n. on_task (st_retry_max_attempts_update (\<lambda>_. n)) p) (parse_stored_u64 ''retry_max_attempts'' v)
      else if k = ''envelope_kind'' then Inr (p\<lparr>tp_kind := Some (decode_task_field v)\<rparr>)
      else if k = ''envelope_agent_id'' then Inr (p\<lparr>tp_agent_id := Some (decode_task_field v)\<rparr>)
      else if k = ''envelope_input_kind'' then Inr (p\<lparr>tp_input_kind := Some v\<rparr>)
      else if k = ''envelope_inline_input_hex'' then Inr (p\<lparr>tp_inline_hex := Some v\<rparr>)
      else if k = ''envelope_artifact_ref'' then Inr (p\<lparr>tp_artifact_ref := Some (decode_task_field v)\<rparr>)
      else if k = ''envelope_input_digest'' then Inr (p\<lparr>tp_input_digest := Some v\<rparr>)
      else if k = ''envelope_idempotency_key'' then Inr (p\<lparr>tp_idempotency_key := Some (decode_task_field v)\<rparr>)
      else if k = ''envelope_max_attempts'' then
        map_sum id (\<lambda>n. p\<lparr>tp_max_attempts := Some n\<rparr>) (parse_stored_u32 ''envelope_max_attempts'' v)
      else if k = ''envelope_retry_backoff_ms'' then
        map_sum id (\<lambda>n. p\<lparr>tp_retry_backoff_ms := Some n\<rparr>) (parse_stored_u64 ''envelope_retry_backoff_ms'' v)
      else if k = ''envelope_attempt_timeout_ms'' then
        map_sum id (\<lambda>n. p\<lparr>tp_attempt_timeout_ms := Some n\<rparr>) (parse_optional_stored ''envelope_attempt_timeout_ms'' v)
      else if k = ''replay_event_id'' then Inr (p\<lparr>tp_replay_event_id := Some (decode_optional_field v)\<rparr>)
      else if k = ''replay_delivery_index'' then
        map_sum id (\<lambda>n. p\<lparr>tp_replay_delivery_index := Some n\<rparr>) (parse_optional_stored ''replay_delivery_index'' v)
      else if k = ''error_retryable'' then
        map_sum id (\<lambda>b. on_task (st_error_retryable_update (\<lambda>_. b)) p) (parse_optional_stored_bool ''error_retryable'' v)
      else if k = ''retry_ready_at_ms'' then
        map_sum id (\<lambda>n. on_task (st_retry_ready_at_ms_update (\<lambda>_. n)) p) (parse_optional_stored ''retry_ready_at_ms'' v)
      else if k = ''cancel_requested'' then Inr (on_task (st_cancel_requested_update (\<lambda>_. v = ''true'')) p)
      else if k = ''cancel_accepted'' then Inr (on_task (st_cancel_accepted_update (\<lambda>_. v = ''true'')) p)
      else if k = ''cancel_reason'' then Inr (on_task (st_cancel_reason_update (\<lambda>_. decode_optional_field v)) p)
      else if k = ''heartbeat_at_ms'' then
        map_sum id (\<lambda>n. on_task (st_heartbeat_at_ms_update (\<lambda>_. n)) p) (parse_optional_stored ''heartbeat_at_ms'' v)
      else if k = ''deadline_at_ms'' then
        map_sum id (\<lambda>n. on_task (st_deadline_at_ms_update (\<lambda>_. n)) p) (parse_optional_stored ''deadline_at_ms'' v)
      else if k = ''cancel_token'' then Inr (on_task (st_cancel_token_update (\<lambda>_. decode_optional_field v)) p)
      else if k = ''result_digest'' then Inr (on_task (st_result_digest_update (\<lambda>_. decode_optional_field v)) p)
      else if k = ''result_size_bytes'' then
        map_sum id (\<lambda>n. on_task (st_result_size_bytes_update (\<lambda>_. n)) p) (parse_optional_stored ''result_size_bytes'' v)
      else if k = ''interrupted_reason'' then
        Inr (on_task (st_interrupted_reason_update (\<lambda>_. decode_optional_field v)) p)
      else if k = ''error_kind'' then Inr (on_task (st_error_kind_update (\<lambda>_. decode_optional_field v)) p)
      else if k = ''error_message'' then Inr (on_task (st_error_message_update (\<lambda>_. decode_optional_field v)) p)
      else if k = ''log'' then
        map_sum id (\<lambda>l. on_task (st_logs_update (\<lambda>ls. ls @ [l])) p) (read_log v)
      else if k = ''dead_letter'' then
        map_sum id (\<lambda>d. on_task (st_dead_letters_update (\<lambda>ds. ds @ [d])) p) (read_dead_letter v)
      else if k = ''replay'' then
        map_sum id (\<lambda>r. on_task (st_replayed_events_update (\<lambda>rs. rs @ [r])) p) (read_replay v)
      else Inr p)"

definition mark_seen :: "string \<Rightarrow> task_reader \<Rightarrow> task_reader res" where
  "mark_seen k p =
     (if k \<notin> set single_task_fields then Inr p
      else if k \<in> set (tp_seen p)
      then Inl (with_context (err_invalid_argument ''task state contains a duplicate scalar field'') ''field'' k)
      else Inr (p\<lparr>tp_seen := k # tp_seen p\<rparr>))"

fun read_task_lines :: "string list \<Rightarrow> task_reader \<Rightarrow> task_reader res" where
  "read_task_lines [] p = Inr p"
| "read_task_lines (line # rest) p =
     (if trim line = [] then read_task_lines rest p
      else case split_once CHR ''='' line of
          None \<Rightarrow> read_task_lines rest p
        | Some (k, v) \<Rightarrow>
            res_bind (res_bind (mark_seen k p) (read_task_field k v)) (read_task_lines rest))"

definition has_envelope_fields :: "task_reader \<Rightarrow> bool" where
  "has_envelope_fields p \<longleftrightarrow> tp_kind p \<noteq> None \<or> tp_agent_id p \<noteq> None \<or> tp_input_kind p \<noteq> None \<or>
     tp_inline_hex p \<noteq> None \<or> tp_artifact_ref p \<noteq> None \<or> tp_input_digest p \<noteq> None \<or>
     tp_idempotency_key p \<noteq> None \<or> tp_max_attempts p \<noteq> None \<or> tp_retry_backoff_ms p \<noteq> None \<or>
     tp_attempt_timeout_ms p \<noteq> None"

definition execution_field_names :: "string list" where
  "execution_field_names = [''execution_owner'', ''result_digest'', ''result_size_bytes'']"

definition v5_field_names :: "string list" where
  "v5_field_names = [''replay_event_id'', ''replay_delivery_index'', ''error_retryable'', ''retry_ready_at_ms'']"

definition require_seen :: "string \<Rightarrow> string list \<Rightarrow> task_reader \<Rightarrow> unit res" where
  "require_seen message names p = res_all (\<lambda>k. reject_if (k \<notin> set (tp_seen p))
     (with_context (err_invalid_argument message) ''field'' k)) names"

definition read_input :: "string \<Rightarrow> string \<Rightarrow> string \<Rightarrow> string \<Rightarrow> task_input res" where
  "read_input kind inline_hex ref digest =
     (if kind = ''inline'' \<and> ref = []
      then res_bind (decode_hex inline_hex ''envelope_inline_input_hex'') (\<lambda>data. Inr (InlineInput data digest))
      else if kind = ''artifact'' \<and> inline_hex = [] then Inr (ArtifactInput ref digest)
      else if kind = ''inline'' \<or> kind = ''artifact''
      then Inl (with_context (err_invalid_argument ''task envelope input discriminator has conflicting fields'')
             ''input_kind'' kind)
      else Inl (with_context (err_invalid_argument ''task envelope input discriminator is unsupported'')
             ''input_kind'' kind))"

definition read_envelope :: "(string \<Rightarrow> string) \<Rightarrow> task_reader \<Rightarrow> envelope_snapshot res" where
  "read_envelope sha p =
     res_bind (required_stored_field (tp_kind p) ''envelope_kind'') (\<lambda>kind.
     res_bind (required_stored_field (tp_agent_id p) ''envelope_agent_id'') (\<lambda>agent.
     res_bind (required_stored_field (tp_input_kind p) ''envelope_input_kind'') (\<lambda>input_kind.
     res_bind (required_stored_field (tp_inline_hex p) ''envelope_inline_input_hex'') (\<lambda>inline_hex.
     res_bind (required_stored_field (tp_artifact_ref p) ''envelope_artifact_ref'') (\<lambda>ref.
     res_bind (required_stored_field (tp_input_digest p) ''envelope_input_digest'') (\<lambda>digest.
     res_bind (required_stored_field (tp_idempotency_key p) ''envelope_idempotency_key'') (\<lambda>key.
     res_bind (required_stored_field (tp_max_attempts p) ''envelope_max_attempts'') (\<lambda>most.
     res_bind (required_stored_field (tp_retry_backoff_ms p) ''envelope_retry_backoff_ms'') (\<lambda>backoff.
     res_bind (required_stored_field (tp_attempt_timeout_ms p) ''envelope_attempt_timeout_ms'') (\<lambda>timeout.
     res_bind (read_input input_kind inline_hex ref digest) (\<lambda>inp.
     res_bind (attempt_policy_new most backoff timeout) (\<lambda>policy.
     envelope_new sha kind agent inp key policy))))))))))))"

definition read_replay_delivery :: "task_reader \<Rightarrow> replay_delivery option res" where
  "read_replay_delivery p =
     res_bind (ok_or (err_invalid_argument ''v5 task state is missing replay_event_id'') (tp_replay_event_id p)) (\<lambda>event.
     res_bind (ok_or (err_invalid_argument ''v5 task state is missing replay_delivery_index'')
       (tp_replay_delivery_index p)) (\<lambda>index.
     case (event, index) of
       (None, None) \<Rightarrow> Inr None
     | (Some e, Some i) \<Rightarrow> map_sum id Some (replay_delivery_new e i)
     | _ \<Rightarrow> Inl (err_invalid_argument ''replay delivery identity fields must appear together'')))"

definition read_enveloped :: "(string \<Rightarrow> string) \<Rightarrow> string \<Rightarrow> bool \<Rightarrow> bool \<Rightarrow> task_reader \<Rightarrow> task_state res" where
  "read_enveloped sha version has_execution has_v5 p =
     res_bind (reject_if (version = ''eva.task-state.v3'' \<and> (has_execution \<or> has_v5))
       (err_invalid_argument ''v3 task state cannot contain later execution fields'')) (\<lambda>_.
     res_bind (reject_if (version = ''eva.task-state.v4'' \<and> has_v5)
       (err_invalid_argument ''v4 task state cannot contain v5 replay or retry fields'')) (\<lambda>_.
     res_bind (if version = ''eva.task-state.v3'' then Inr ()
       else require_seen ''task state is missing an execution scalar field'' execution_field_names p) (\<lambda>_.
     res_bind (if version \<noteq> ''eva.task-state.v5'' then Inr ()
       else require_seen ''v5 task state is missing a replay or retry scalar field'' v5_field_names p) (\<lambda>_.
     res_bind (read_envelope sha p) (\<lambda>v.
     res_bind (if version \<noteq> ''eva.task-state.v5'' then Inr None else read_replay_delivery p) (\<lambda>d.
     Inr (tp_task p\<lparr>st_envelope := Some v, st_replay_delivery := d\<rparr>)))))))"

definition read_format :: "(string \<Rightarrow> string) \<Rightarrow> task_reader \<Rightarrow> task_state res" where
  "read_format sha p =
     (let s = tp_task p;
          has_envelope = has_envelope_fields p;
          has_execution = (\<exists>k \<in> set execution_field_names. k \<in> set (tp_seen p));
          has_v5 = (\<exists>k \<in> set v5_field_names. k \<in> set (tp_seen p));
          committed = (st_record_version s \<noteq> 0 \<or> st_owner_generation s = 0)
      in case tp_format p of
          None \<Rightarrow>
            if st_record_version s = 0 \<and> st_owner_generation s = 0 \<and> \<not> has_envelope \<and> \<not> has_execution \<and> \<not> has_v5
            then Inr s
            else Inl (err_invalid_argument ''legacy task state cannot contain version metadata'')
        | Some version \<Rightarrow>
            if version = ''eva.task-state.v2'' \<and> committed
            then if has_envelope \<or> has_execution \<or> has_v5
                 then Inl (err_invalid_argument ''v2 task state cannot contain envelope or execution fields'')
                 else Inr s
            else if version \<in> {''eva.task-state.v3'', ''eva.task-state.v4'', ''eva.task-state.v5''} \<and> committed
            then read_enveloped sha version has_execution has_v5 p
            else if version \<in> {''eva.task-state.v2'', ''eva.task-state.v3'', ''eva.task-state.v4'', ''eva.task-state.v5''}
            then Inl (err_invalid_argument ''uncommitted task state cannot have a durable owner generation'')
            else Inl (with_context (err_invalid_argument ''task state format is unsupported'') ''format'' version))"

definition task_from_storage :: "(string \<Rightarrow> string) \<Rightarrow> string \<Rightarrow> task_state res" where
  "task_from_storage sha data =
     res_bind (read_task_lines (lines data) new_reader) (\<lambda>p.
     if st_task_id (tp_task p) = [] \<or> st_status (tp_task p) = []
     then Inl (err_invalid_argument ''task state file is incomplete'')
     else res_bind (read_format sha p) (checked_task sha))"

end
