(* ===== verification/Storage_TaskRoundtrip.thy ===== *)
theory Storage_TaskRoundtrip
  imports Storage_TaskCodec
begin

section \<open>Reading back a task snapshot\<close>

text \<open>
  What \<^verbatim>\<open>from_storage\<close> makes of the text of a valid snapshot: every field comes back, except that an
  optional text that is present and empty comes back absent, and that a snapshot without an envelope
  loses its retry classification. The snapshots without these two defects are \<open>storable\<close>.
\<close>

subsection \<open>Escaping\<close>

definition escaped :: "char \<Rightarrow> string" where
  "escaped c = (if c = CHR ''%'' then ''%25'' else if c = CHR 0x0A then ''%0A'' else if c = CHR 0x0D then ''%0D''
     else if c = CHR 0x09 then ''%09'' else if c = CHR ''|'' then ''%7C'' else if c = CHR ''='' then ''%3D'' else [c])"

lemma replace_char_simps [simp]:
  "replace_char c t [] = []"
  "replace_char c t (x # s) = (if x = c then t else [x]) @ replace_char c t s"
  "replace_char c t (s @ s') = replace_char c t s @ replace_char c t s'"
  by (simp_all add: replace_char_def)

lemma encode_field_simps [simp]:
  "encode_task_field [] = []"
  "encode_task_field (c # s) = escaped c @ encode_task_field s"
  by (simp_all add: encode_task_field_def escaped_def)

lemma encode_field_concat: "encode_task_field s = concat (map escaped s)"
  by (induction s) simp_all

lemma encode_field_Nil [simp]: "encode_task_field s = [] \<longleftrightarrow> s = []"
  by (cases s) (simp_all add: escaped_def)

text \<open>A piece of escaped text: one character that is not a percent sign, or an escape of three.\<close>

definition piece :: "string \<Rightarrow> bool" where
  "piece w \<longleftrightarrow> (\<exists>c. w = [c] \<and> c \<noteq> CHR ''%'') \<or>
     (\<exists>a b. w = [CHR ''%'', a, b] \<and> a \<noteq> CHR ''%'' \<and> b \<noteq> CHR ''%'')"

lemma piece_escaped: "piece (escaped c)"
  by (simp add: piece_def escaped_def)

lemma replace_str_Nil [simp]: "replace_str p t [] = []"
  by (simp add: replace_str.simps)

lemma replace_str_other: "c \<noteq> CHR ''%'' \<Longrightarrow> replace_str (CHR ''%'' # p) t (c # s) = c # replace_str (CHR ''%'' # p) t s"
  by (simp add: replace_str.simps [of _ _ "c # s"])

lemma replace_str_escape:
  "replace_str [CHR ''%'', x, y] t (CHR ''%'' # x # y # s) = t @ replace_str [CHR ''%'', x, y] t s"
  by (simp add: replace_str.simps [of _ _ "CHR ''%'' # x # y # s"])

lemma replace_str_piece:
  assumes "piece w"
  shows "replace_str [CHR ''%'', x, y] t (w @ s) =
    (if w = [CHR ''%'', x, y] then t else w) @ replace_str [CHR ''%'', x, y] t s"
  using assms unfolding piece_def
proof (elim disjE exE conjE)
  fix a b assume w: "w = [CHR ''%'', a, b]" "a \<noteq> CHR ''%''" "b \<noteq> CHR ''%''"
  show ?thesis
  proof (cases "a = x \<and> b = y")
    case True
    then show ?thesis using w by (simp add: replace_str_escape)
  next
    case False
    then have "replace_str [CHR ''%'', x, y] t (CHR ''%'' # a # b # s) = CHR ''%'' # replace_str [CHR ''%'', x, y] t (a # b # s)"
      by (auto simp: replace_str.simps [of _ _ "CHR ''%'' # a # b # s"])
    then show ?thesis using False w by (auto simp: replace_str_other)
  qed
qed (simp add: replace_str_other)

lemma replace_str_pieces:
  "\<forall>w \<in> set ws. piece w \<Longrightarrow> replace_str [CHR ''%'', x, y] t (concat ws) =
    concat (map (\<lambda>w. if w = [CHR ''%'', x, y] then t else w) ws)"
  by (induction ws) (simp_all add: replace_str_piece)

lemma decode_step:
  assumes "\<forall>c. piece (f c)"
  shows "replace_str [CHR ''%'', x, y] t (concat (map f s)) =
    concat (map (\<lambda>c. if f c = [CHR ''%'', x, y] then t else f c) s)"
  using replace_str_pieces [of "map f s" x y t] assms by (simp add: comp_def)

lemma piece_char [simp]: "piece [c] \<longleftrightarrow> c \<noteq> CHR ''%''"
  by (simp add: piece_def)

lemma decode_encode_task_field [simp]: "decode_task_field (encode_task_field s) = s"
proof -
  let ?f = "\<lambda>(x, y, t) f (c :: char). if f c = [CHR ''%'', x, y] then t else f c"
  let ?f1 = "?f (CHR ''0'', CHR ''A'', [CHR 0x0A]) escaped"
  let ?f2 = "?f (CHR ''0'', CHR ''D'', [CHR 0x0D]) ?f1"
  let ?f3 = "?f (CHR ''0'', CHR ''9'', [CHR 0x09]) ?f2"
  let ?f4 = "?f (CHR ''7'', CHR ''C'', ''|'') ?f3"
  let ?f5 = "?f (CHR ''3'', CHR ''D'', ''='') ?f4"
  let ?f6 = "?f (CHR ''2'', CHR ''5'', ''%'') ?f5"
  have p: "\<forall>c. piece (?f1 c)" "\<forall>c. piece (?f2 c)" "\<forall>c. piece (?f3 c)" "\<forall>c. piece (?f4 c)" "\<forall>c. piece (?f5 c)"
    by (simp_all add: piece_escaped)
  have "?f6 = (\<lambda>c. [c])" by (rule ext) (simp add: escaped_def)
  moreover have "decode_task_field (encode_task_field s) = concat (map ?f6 s)"
    unfolding decode_task_field_def encode_field_concat
    using p piece_escaped by (simp add: decode_step)
  ultimately show ?thesis by simp
qed

lemma decode_plain:
  assumes "CHR ''%'' \<notin> set s" shows "decode_task_field s = s"
proof -
  have "replace_str (CHR ''%'' # p) t s = s" for p t
    using assms by (induction s) (auto simp: replace_str_other)
  then show ?thesis by (simp add: decode_task_field_def)
qed

lemma set_escaped: "set (escaped c) \<inter> {CHR 0x0A, CHR 0x0D, CHR ''|'', CHR ''=''} = {}"
  by (simp add: escaped_def)

lemma encode_field_no_sep:
  "CHR 0x0A \<notin> set (encode_task_field s)" "CHR 0x0D \<notin> set (encode_task_field s)"
  "CHR ''|'' \<notin> set (encode_task_field s)" "CHR ''='' \<notin> set (encode_task_field s)"
  using set_escaped by (auto simp: encode_field_concat)

subsection \<open>Stored values\<close>

definition non_empty :: "string option \<Rightarrow> string option" where
  "non_empty v = (if v = Some [] then None else v)"

lemma non_empty_simps [simp]: "non_empty None = None" "v \<noteq> Some [] \<Longrightarrow> non_empty v = v" "non_empty (Some []) = None"
  by (simp_all add: non_empty_def)

lemma decode_optional_encode [simp]: "decode_optional_field (optional_text encode_task_field v) = non_empty v"
  by (cases v) (simp_all add: decode_optional_field_def optional_text_def non_empty_def)

lemma decode_optional_plain:
  "(\<And>t. v = Some t \<Longrightarrow> CHR ''%'' \<notin> set t) \<Longrightarrow> decode_optional_field (optional_text id v) = non_empty v"
  by (cases v) (simp_all add: decode_optional_field_def optional_text_def non_empty_def decode_plain)

lemma parse_stored_str [simp]:
  "parse_stored_word m name (nat_str (unat w)) = Inr w"
  "parse_stored_u64 name (nat_str (unat x)) = Inr x" "parse_stored_u32 name (nat_str (unat y)) = Inr y"
  using parse_word_str [of w] parse_word_str [of x] parse_word_str [of y]
  by (simp_all add: parse_stored_word_def parse_stored_u64_def parse_stored_u32_def)

lemma parse_optional_str [simp]: "parse_optional_stored name (opt_str w) = Inr w"
  by (cases w) (simp_all add: parse_optional_stored_def opt_str_def)

lemma parse_bool_str [simp]:
  "parse_optional_stored_bool name (case b of None \<Rightarrow> [] | Some x \<Rightarrow> flag_str x) = Inr b"
  "flag_str x = ''true'' \<longleftrightarrow> x"
  by (cases b; simp add: parse_optional_stored_bool_def flag_str_def) (simp add: flag_str_def)

lemma nibble_value_digit: "d < 16 \<Longrightarrow> nibble_value (hex_digit d) = d"
  by (auto simp: nibble_value_def byte_hex_digit)

lemma byte_less: "byte c < 256"
  using of_char_mod_256 [of c] by (metis mod_less_divisor zero_less_numeral)

lemma hex_pairs_encode [simp]: "hex_pairs (encode_hex s) = s"
proof (induction s)
  case (Cons c s)
  have "byte c < 256" by (rule byte_less)
  then have "byte c div 16 < 16" by linarith
  then have "16 * nibble_value (hex_digit (byte c div 16)) + nibble_value (hex_digit (byte c mod 16)) = byte c"
    by (simp add: nibble_value_digit)
  then show ?case using Cons by (simp add: encode_hex_def)
qed (simp add: encode_hex_def)

lemma decode_encode_hex [simp]: "decode_hex (encode_hex s) field = Inr s"
proof -
  have "even (length (encode_hex s))" by (induction s) (simp_all add: encode_hex_def)
  moreover have "\<forall>c \<in> set (encode_hex s). is_lower_hex c"
  proof (induction s)
    case (Cons c s)
    have "byte c < 256" by (rule byte_less)
    then have "byte c div 16 < 16" by linarith
    then show ?case using Cons is_lower_hex_digit by (simp add: encode_hex_def)
  qed (simp add: encode_hex_def)
  ultimately show ?thesis by (simp add: decode_hex_def)
qed

lemma no_bar_nat_str: "CHR ''|'' \<notin> set (nat_str n)"
  using nat_str_digits [of "CHR ''|''" n] by (auto simp: is_ascii_digit_def)

lemma read_log_value [simp]: "read_log (log_value l) = Inr l"
  using no_bar_nat_str [of "unat (tl_sequence l)"] encode_field_no_sep(3)
  by (simp add: read_log_def log_value_def split_stored_fields_def split_on_append split_on_no_sep)

lemma read_dead_letter_value [simp]: "read_dead_letter (dead_letter_value d) = Inr d"
  using no_bar_nat_str [of "unat (td_replay_count d)"] encode_field_no_sep(3)
  by (simp add: read_dead_letter_def dead_letter_value_def split_stored_fields_def split_on_append split_on_no_sep)

lemma read_replay_value [simp]: "read_replay (replay_value r) = Inr r"
  using no_bar_nat_str [of "unat (tr_sequence r)"] encode_field_no_sep(3)
  by (simp add: read_replay_def replay_value_def split_stored_fields_def split_on_append split_on_no_sep)

subsection \<open>One field\<close>

lemma read_field_simps:
  "read_task_field ''format'' v p = Inr (p\<lparr>tp_format := Some v\<rparr>)"
  "read_task_field ''record_version'' v p = map_sum id (\<lambda>n. on_task (st_record_version_update (\<lambda>_. n)) p) (parse_stored_u64 ''record_version'' v)"
  "read_task_field ''owner_generation'' v p = map_sum id (\<lambda>n. on_task (st_owner_generation_update (\<lambda>_. n)) p) (parse_stored_u64 ''owner_generation'' v)"
  "read_task_field ''task_id'' v p = Inr (on_task (st_task_id_update (\<lambda>_. decode_task_field v)) p)"
  "read_task_field ''status'' v p = Inr (on_task (st_status_update (\<lambda>_. decode_task_field v)) p)"
  "read_task_field ''attempts'' v p = map_sum id (\<lambda>n. on_task (st_attempts_update (\<lambda>_. n)) p) (parse_stored_u64 ''attempts'' v)"
  "read_task_field ''execution_owner'' v p = Inr (on_task (st_execution_owner_update (\<lambda>_. decode_optional_field v)) p)"
  "read_task_field ''retry_max_attempts'' v p = map_sum id (\<lambda>n. on_task (st_retry_max_attempts_update (\<lambda>_. n)) p) (parse_stored_u64 ''retry_max_attempts'' v)"
  "read_task_field ''envelope_kind'' v p = Inr (p\<lparr>tp_kind := Some (decode_task_field v)\<rparr>)"
  "read_task_field ''envelope_agent_id'' v p = Inr (p\<lparr>tp_agent_id := Some (decode_task_field v)\<rparr>)"
  "read_task_field ''envelope_input_kind'' v p = Inr (p\<lparr>tp_input_kind := Some v\<rparr>)"
  "read_task_field ''envelope_inline_input_hex'' v p = Inr (p\<lparr>tp_inline_hex := Some v\<rparr>)"
  "read_task_field ''envelope_artifact_ref'' v p = Inr (p\<lparr>tp_artifact_ref := Some (decode_task_field v)\<rparr>)"
  "read_task_field ''envelope_input_digest'' v p = Inr (p\<lparr>tp_input_digest := Some v\<rparr>)"
  "read_task_field ''envelope_idempotency_key'' v p = Inr (p\<lparr>tp_idempotency_key := Some (decode_task_field v)\<rparr>)"
  "read_task_field ''envelope_max_attempts'' v p = map_sum id (\<lambda>n. p\<lparr>tp_max_attempts := Some n\<rparr>) (parse_stored_u32 ''envelope_max_attempts'' v)"
  "read_task_field ''envelope_retry_backoff_ms'' v p = map_sum id (\<lambda>n. p\<lparr>tp_retry_backoff_ms := Some n\<rparr>) (parse_stored_u64 ''envelope_retry_backoff_ms'' v)"
  "read_task_field ''envelope_attempt_timeout_ms'' v p = map_sum id (\<lambda>n. p\<lparr>tp_attempt_timeout_ms := Some n\<rparr>) (parse_optional_stored ''envelope_attempt_timeout_ms'' v)"
  "read_task_field ''replay_event_id'' v p = Inr (p\<lparr>tp_replay_event_id := Some (decode_optional_field v)\<rparr>)"
  "read_task_field ''replay_delivery_index'' v p = map_sum id (\<lambda>n. p\<lparr>tp_replay_delivery_index := Some n\<rparr>) (parse_optional_stored ''replay_delivery_index'' v)"
  "read_task_field ''error_retryable'' v p = map_sum id (\<lambda>b. on_task (st_error_retryable_update (\<lambda>_. b)) p) (parse_optional_stored_bool ''error_retryable'' v)"
  "read_task_field ''retry_ready_at_ms'' v p = map_sum id (\<lambda>n. on_task (st_retry_ready_at_ms_update (\<lambda>_. n)) p) (parse_optional_stored ''retry_ready_at_ms'' v)"
  "read_task_field ''cancel_requested'' v p = Inr (on_task (st_cancel_requested_update (\<lambda>_. v = ''true'')) p)"
  "read_task_field ''cancel_accepted'' v p = Inr (on_task (st_cancel_accepted_update (\<lambda>_. v = ''true'')) p)"
  "read_task_field ''cancel_reason'' v p = Inr (on_task (st_cancel_reason_update (\<lambda>_. decode_optional_field v)) p)"
  "read_task_field ''heartbeat_at_ms'' v p = map_sum id (\<lambda>n. on_task (st_heartbeat_at_ms_update (\<lambda>_. n)) p) (parse_optional_stored ''heartbeat_at_ms'' v)"
  "read_task_field ''deadline_at_ms'' v p = map_sum id (\<lambda>n. on_task (st_deadline_at_ms_update (\<lambda>_. n)) p) (parse_optional_stored ''deadline_at_ms'' v)"
  "read_task_field ''cancel_token'' v p = Inr (on_task (st_cancel_token_update (\<lambda>_. decode_optional_field v)) p)"
  "read_task_field ''result_digest'' v p = Inr (on_task (st_result_digest_update (\<lambda>_. decode_optional_field v)) p)"
  "read_task_field ''result_size_bytes'' v p = map_sum id (\<lambda>n. on_task (st_result_size_bytes_update (\<lambda>_. n)) p) (parse_optional_stored ''result_size_bytes'' v)"
  "read_task_field ''interrupted_reason'' v p = Inr (on_task (st_interrupted_reason_update (\<lambda>_. decode_optional_field v)) p)"
  "read_task_field ''error_kind'' v p = Inr (on_task (st_error_kind_update (\<lambda>_. decode_optional_field v)) p)"
  "read_task_field ''error_message'' v p = Inr (on_task (st_error_message_update (\<lambda>_. decode_optional_field v)) p)"
  "read_task_field ''log'' v p = map_sum id (\<lambda>l. on_task (st_logs_update (\<lambda>ls. ls @ [l])) p) (read_log v)"
  "read_task_field ''dead_letter'' v p = map_sum id (\<lambda>d. on_task (st_dead_letters_update (\<lambda>ds. ds @ [d])) p) (read_dead_letter v)"
  "read_task_field ''replay'' v p = map_sum id (\<lambda>r. on_task (st_replayed_events_update (\<lambda>rs. rs @ [r])) p) (read_replay v)"
  by (simp_all add: read_task_field_def)

subsection \<open>Lines\<close>

definition line_ok :: "string \<times> string \<Rightarrow> bool" where
  "line_ok f \<longleftrightarrow> (\<exists>c \<in> set (fst f). is_graphic c) \<and> CHR ''='' \<notin> set (fst f) \<and>
     CHR 0x0A \<notin> set (fst f) \<union> set (snd f) \<and> CHR 0x0D \<notin> set (fst f) \<union> set (snd f)"

lemma lines_of_fields:
  "\<forall>f \<in> set kvs. line_ok f \<Longrightarrow>
    lines (join [CHR 0x0A] (map (\<lambda>(k, v). k @ ''='' @ v) kvs @ [[]])) = map (\<lambda>(k, v). k @ ''='' @ v) kvs"
proof (induction kvs)
  case (Cons f kvs)
  obtain k v where f: "f = (k, v)" by (cases f)
  let ?l = "k @ ''='' @ v" and ?r = "join [CHR 0x0A] (map (\<lambda>(k, v). k @ ''='' @ v) kvs @ [[]])"
  have "CHR 0x0A \<notin> set ?l" and "CHR 0x0D \<notin> set ?l" using Cons.prems f by (auto simp: line_ok_def)
  then have "lines (?l @ CHR 0x0A # ?r) = ?l # lines ?r"
    using lines_append_line [of ?l] strip_cr_id [of ?l] by simp
  moreover have "join [CHR 0x0A] (map (\<lambda>(k, v). k @ ''='' @ v) (f # kvs) @ [[]]) = ?l @ CHR 0x0A # ?r"
    using f by (cases kvs) simp_all
  ultimately show ?case using Cons f by simp
qed simp

fun read_pairs :: "(string \<times> string) list \<Rightarrow> task_reader \<Rightarrow> task_reader res" where
  "read_pairs [] p = Inr p"
| "read_pairs ((k, v) # kvs) p = res_bind (res_bind (mark_seen k p) (read_task_field k v)) (read_pairs kvs)"

lemma read_task_lines_pairs:
  "\<forall>f \<in> set kvs. line_ok f \<Longrightarrow> read_task_lines (map (\<lambda>(k, v). k @ ''='' @ v) kvs) p = read_pairs kvs p"
proof (induction kvs arbitrary: p)
  case (Cons f kvs)
  obtain k v where f: "f = (k, v)" by (cases f)
  have "split_once CHR ''='' (k @ ''='' @ v) = Some (k, v)"
    using split_once_append [of "CHR ''=''" k v] Cons.prems f by (simp add: line_ok_def)
  moreover have "trim (k @ ''='' @ v) \<noteq> []"
    using trim_keeps_graphic [of "CHR ''=''" "k @ ''='' @ v"] by (auto simp: is_graphic_def)
  moreover have "read_task_lines (map (\<lambda>(k, v). k @ ''='' @ v) kvs) = read_pairs kvs"
    using Cons.IH Cons.prems by (simp add: fun_eq_iff)
  ultimately show ?case using f by simp
qed simp

text \<open>The chain of prefixes of the source is a case distinction on the text before the first equals sign.\<close>

lemma strip_field_prefix:
  assumes "CHR ''='' \<notin> set k"
  shows "strip_prefix (k @ ''='') line = Some v \<longleftrightarrow> split_once CHR ''='' line = Some (k, v)"
proof
  assume "strip_prefix (k @ ''='') line = Some v"
  then have "take (length (k @ ''='')) line = k @ ''=''" "v = drop (length (k @ ''='')) line"
    by (simp_all add: strip_prefix_def split: if_splits)
  then have "line = (k @ ''='') @ v" by (metis append_take_drop_id)
  then show "split_once CHR ''='' line = Some (k, v)" using split_once_append [OF assms, of v] by simp
next
  assume "split_once CHR ''='' line = Some (k, v)"
  then have "line = k @ ''='' @ v"
    by (induction line arbitrary: k) (auto split: if_splits option.splits)
  then show "strip_prefix (k @ ''='') line = Some v"
    using strip_prefix_append [of "k @ ''=''" v] by simp
qed

lemma read_pairs_append: "read_pairs (xs @ ys) p = res_bind (read_pairs xs p) (read_pairs ys)"
proof (induction xs arbitrary: p)
  case (Cons f xs)
  obtain k v where f: "f = (k, v)" by (cases f)
  show ?case
    by (cases "res_bind (mark_seen k p) (read_task_field k v)") (simp_all add: f Cons.IH)
qed simp

lemma read_repeated:
  "read_pairs (map (\<lambda>l. (''log'', log_value l)) ls) p = Inr (on_task (st_logs_update (\<lambda>xs. xs @ ls)) p)"
  "read_pairs (map (\<lambda>d. (''dead_letter'', dead_letter_value d)) ds) p =
     Inr (on_task (st_dead_letters_update (\<lambda>xs. xs @ ds)) p)"
  "read_pairs (map (\<lambda>r. (''replay'', replay_value r)) rs) p =
     Inr (on_task (st_replayed_events_update (\<lambda>xs. xs @ rs)) p)"
proof -
  have seen: "mark_seen ''log'' p = Inr p" "mark_seen ''dead_letter'' p = Inr p" "mark_seen ''replay'' p = Inr p" for p
    by (simp_all add: mark_seen_def single_task_fields_def)
  show "read_pairs (map (\<lambda>l. (''log'', log_value l)) ls) p = Inr (on_task (st_logs_update (\<lambda>xs. xs @ ls)) p)"
    by (induction ls arbitrary: p) (simp_all add: seen read_field_simps)
  show "read_pairs (map (\<lambda>d. (''dead_letter'', dead_letter_value d)) ds) p =
      Inr (on_task (st_dead_letters_update (\<lambda>xs. xs @ ds)) p)"
    by (induction ds arbitrary: p) (simp_all add: seen read_field_simps)
  show "read_pairs (map (\<lambda>r. (''replay'', replay_value r)) rs) p =
      Inr (on_task (st_replayed_events_update (\<lambda>xs. xs @ rs)) p)"
    by (induction rs arbitrary: p) (simp_all add: seen read_field_simps)
qed

subsection \<open>The scalar fields\<close>

definition head_fields :: "task_state \<Rightarrow> (string \<times> string) list" where
  "head_fields s =
     [(''format'', if st_envelope s \<noteq> None then ''eva.task-state.v5'' else ''eva.task-state.v2''),
      (''record_version'', nat_str (unat (st_record_version s))),
      (''owner_generation'', nat_str (unat (st_owner_generation s))),
      (''task_id'', encode_task_field (st_task_id s)),
      (''status'', encode_task_field (st_status s)),
      (''attempts'', nat_str (unat (st_attempts s))),
      (''retry_max_attempts'', nat_str (unat (st_retry_max_attempts s)))]"

definition tail_fields :: "task_state \<Rightarrow> (string \<times> string) list" where
  "tail_fields s =
     [(''cancel_requested'', flag_str (st_cancel_requested s)),
      (''cancel_accepted'', flag_str (st_cancel_accepted s)),
      (''cancel_reason'', optional_text encode_task_field (st_cancel_reason s)),
      (''heartbeat_at_ms'', opt_str (st_heartbeat_at_ms s)),
      (''deadline_at_ms'', opt_str (st_deadline_at_ms s)),
      (''cancel_token'', optional_text encode_task_field (st_cancel_token s)),
      (''interrupted_reason'', optional_text encode_task_field (st_interrupted_reason s)),
      (''error_kind'', optional_text encode_task_field (st_error_kind s)),
      (''error_message'', optional_text encode_task_field (st_error_message s))]"

lemma task_fields_eq:
  "task_fields s = head_fields s @
     (case st_envelope s of None \<Rightarrow> [] | Some v \<Rightarrow> envelope_fields v @ execution_fields s) @ tail_fields s @
     map (\<lambda>l. (''log'', log_value l)) (st_logs s) @
     map (\<lambda>d. (''dead_letter'', dead_letter_value d)) (st_dead_letters s) @
     map (\<lambda>r. (''replay'', replay_value r)) (st_replayed_events s)"
  by (simp add: task_fields_def head_fields_def tail_fields_def)

definition fresh_for :: "(string \<times> string) list \<Rightarrow> task_reader \<Rightarrow> bool" where
  "fresh_for kvs p \<longleftrightarrow> list_all (\<lambda>(k, v). k \<notin> set (tp_seen p)) kvs"

definition seen_with :: "(string \<times> string) list \<Rightarrow> task_reader \<Rightarrow> string list" where
  "seen_with kvs p = rev (map fst kvs) @ tp_seen p"

lemma mark_seen_fresh:
  "k \<in> set single_task_fields \<Longrightarrow> k \<notin> set (tp_seen p) \<Longrightarrow> mark_seen k p = Inr (p\<lparr>tp_seen := k # tp_seen p\<rparr>)"
  by (simp add: mark_seen_def)

lemma single_names:
  "''format'' \<in> set single_task_fields" "''record_version'' \<in> set single_task_fields"
  "''owner_generation'' \<in> set single_task_fields" "''task_id'' \<in> set single_task_fields"
  "''status'' \<in> set single_task_fields" "''attempts'' \<in> set single_task_fields"
  "''execution_owner'' \<in> set single_task_fields" "''retry_max_attempts'' \<in> set single_task_fields"
  "''envelope_kind'' \<in> set single_task_fields" "''envelope_agent_id'' \<in> set single_task_fields"
  "''envelope_input_kind'' \<in> set single_task_fields" "''envelope_inline_input_hex'' \<in> set single_task_fields"
  "''envelope_artifact_ref'' \<in> set single_task_fields" "''envelope_input_digest'' \<in> set single_task_fields"
  "''envelope_idempotency_key'' \<in> set single_task_fields" "''envelope_max_attempts'' \<in> set single_task_fields"
  "''envelope_retry_backoff_ms'' \<in> set single_task_fields" "''envelope_attempt_timeout_ms'' \<in> set single_task_fields"
  "''replay_event_id'' \<in> set single_task_fields" "''replay_delivery_index'' \<in> set single_task_fields"
  "''error_retryable'' \<in> set single_task_fields" "''retry_ready_at_ms'' \<in> set single_task_fields"
  "''cancel_requested'' \<in> set single_task_fields" "''cancel_accepted'' \<in> set single_task_fields"
  "''cancel_reason'' \<in> set single_task_fields" "''heartbeat_at_ms'' \<in> set single_task_fields"
  "''deadline_at_ms'' \<in> set single_task_fields" "''cancel_token'' \<in> set single_task_fields"
  "''result_digest'' \<in> set single_task_fields" "''result_size_bytes'' \<in> set single_task_fields"
  "''interrupted_reason'' \<in> set single_task_fields" "''error_kind'' \<in> set single_task_fields"
  "''error_message'' \<in> set single_task_fields"
  by (simp_all add: single_task_fields_def)

lemma read_head_fields:
  "fresh_for (head_fields s) p \<Longrightarrow> read_pairs (head_fields s) p =
     Inr (p\<lparr>tp_format := Some (if st_envelope s \<noteq> None then ''eva.task-state.v5'' else ''eva.task-state.v2''),
        tp_task := (tp_task p)\<lparr>st_record_version := st_record_version s, st_owner_generation := st_owner_generation s,
          st_task_id := st_task_id s, st_status := st_status s, st_attempts := st_attempts s,
          st_retry_max_attempts := st_retry_max_attempts s\<rparr>,
        tp_seen := seen_with (head_fields s) p\<rparr>)"
  by (simp add: head_fields_def fresh_for_def seen_with_def mark_seen_fresh single_names read_field_simps)

lemma read_tail_fields:
  "fresh_for (tail_fields s) p \<Longrightarrow> read_pairs (tail_fields s) p =
     Inr (p\<lparr>tp_task := (tp_task p)\<lparr>st_cancel_requested := st_cancel_requested s,
          st_cancel_accepted := st_cancel_accepted s, st_cancel_reason := non_empty (st_cancel_reason s),
          st_heartbeat_at_ms := st_heartbeat_at_ms s, st_deadline_at_ms := st_deadline_at_ms s,
          st_cancel_token := non_empty (st_cancel_token s),
          st_interrupted_reason := non_empty (st_interrupted_reason s),
          st_error_kind := non_empty (st_error_kind s), st_error_message := non_empty (st_error_message s)\<rparr>,
        tp_seen := seen_with (tail_fields s) p\<rparr>)"
  by (simp add: tail_fields_def fresh_for_def seen_with_def mark_seen_fresh single_names read_field_simps)

lemma read_execution_fields:
  assumes "fresh_for (execution_fields s) p" and "\<And>d. st_result_digest s = Some d \<Longrightarrow> CHR ''%'' \<notin> set d"
  shows "read_pairs (execution_fields s) p =
     Inr (p\<lparr>tp_task := (tp_task p)\<lparr>st_execution_owner := non_empty (st_execution_owner s),
          st_result_digest := non_empty (st_result_digest s), st_result_size_bytes := st_result_size_bytes s,
          st_error_retryable := st_error_retryable s, st_retry_ready_at_ms := st_retry_ready_at_ms s\<rparr>,
        tp_replay_event_id := Some (non_empty (map_option rd_replay_event_id (st_replay_delivery s))),
        tp_replay_delivery_index := Some (map_option rd_delivery_index (st_replay_delivery s)),
        tp_seen := seen_with (execution_fields s) p\<rparr>)"
  using assms(1) decode_optional_plain [OF assms(2)]
  by (simp add: execution_fields_def fresh_for_def seen_with_def mark_seen_fresh single_names read_field_simps)

lemma decode_field_Nil [simp]: "decode_task_field [] = []"
  by (simp add: decode_plain)

lemma read_envelope_fields:
  assumes "fresh_for (envelope_fields v) p"
  shows "read_pairs (envelope_fields v) p =
     Inr (p\<lparr>tp_kind := Some (ev_kind v), tp_agent_id := Some (ev_agent_id v),
        tp_input_kind := Some (case ev_input v of InlineInput _ _ \<Rightarrow> ''inline'' | ArtifactInput _ _ \<Rightarrow> ''artifact''),
        tp_inline_hex := Some (case ev_input v of InlineInput data _ \<Rightarrow> encode_hex data | ArtifactInput _ _ \<Rightarrow> []),
        tp_artifact_ref := Some (case ev_input v of InlineInput _ _ \<Rightarrow> [] | ArtifactInput ref _ \<Rightarrow> ref),
        tp_input_digest := Some (input_digest (ev_input v)),
        tp_idempotency_key := Some (ev_idempotency_key v),
        tp_max_attempts := Some (ap_max_attempts (ev_attempt_policy v)),
        tp_retry_backoff_ms := Some (ap_retry_backoff_ms (ev_attempt_policy v)),
        tp_attempt_timeout_ms := Some (ap_attempt_timeout_ms (ev_attempt_policy v)),
        tp_seen := seen_with (envelope_fields v) p\<rparr>)"
  using assms
  by (cases "ev_input v")
    (simp_all add: envelope_fields_def Let_def fresh_for_def seen_with_def mark_seen_fresh single_names read_field_simps)

subsection \<open>What validation says of the fields\<close>

lemma validate_canonical_sha256_iff:
  "validate_canonical_sha256 v field = Inr () \<longleftrightarrow> validate_sha256_digest field v = Inr ()"
  by (auto simp: validate_canonical_sha256_def validate_sha256_digest_def Let_def split: option.splits if_splits)

lemma canonical_sha256_plain:
  assumes "validate_canonical_sha256 v field = Inr ()"
  shows "v \<noteq> []" "CHR ''%'' \<notin> set v" "\<forall>c \<in> set v. is_graphic c"
proof -
  obtain h where h: "v = ''sha256:'' @ h" "\<forall>c \<in> set h. is_lower_hex c"
    using assms by (auto simp: validate_canonical_sha256_iff validate_sha256_digest_iff)
  then have "CHR ''%'' \<notin> set h" by (fastforce simp: is_lower_hex_def)
  then show "v \<noteq> []" "CHR ''%'' \<notin> set v" using h(1) by simp_all
  show "\<forall>c \<in> set v. is_graphic c"
    using assms digest_graphic [of field v] by (simp add: validate_canonical_sha256_iff)
qed

lemma validate_identity_not_empty:
  "validate_execution_owner v = Inr () \<Longrightarrow> v \<noteq> []" "validate_cancel_token v = Inr () \<Longrightarrow> v \<noteq> []"
  by (simp_all add: validate_execution_owner_def validate_cancel_token_def validate_bounded_identity_def res_simps)

lemma task_validate_parts:
  assumes "task_validate sha s = Inr ()"
  shows "stable_id (st_task_id s)" "st_status s \<noteq> []" "st_retry_max_attempts s \<noteq> 0"
    "st_attempts s \<le> st_retry_max_attempts s" "validate_claim_fields s = Inr ()" "validate_replay_fields s = Inr ()"
    "validate_outcome_fields s = Inr ()" "validate_policy_mirror sha s = Inr ()"
  using assms by (auto simp: task_validate_def res_simps request_id_parse_def validate_id_iff)

lemma validate_claim_parts:
  assumes "validate_claim_fields s = Inr ()"
  shows "st_execution_owner s \<noteq> Some []" "st_cancel_token s \<noteq> Some []"
    "st_execution_owner s \<noteq> None \<Longrightarrow> st_envelope s \<noteq> None \<and> st_attempts s \<noteq> 0 \<and> st_cancel_token s \<noteq> None"
  using assms validate_identity_not_empty
  by (auto simp: validate_claim_fields_def res_simps split: option.splits)

lemma validate_replay_parts:
  assumes "validate_replay_fields s = Inr ()" and "st_replay_delivery s = Some d"
  shows "replay_delivery_validate d = Inr ()" "rd_replay_event_id d \<noteq> []" "st_envelope s \<noteq> None"
    "is_replay_delivery_task_id (st_task_id s)"
  using assms
  by (auto simp: validate_replay_fields_def res_simps replay_delivery_validate_def event_id_parse_def validate_id_iff
      stable_id_def split: if_splits)

lemma validate_outcome_parts:
  assumes "validate_outcome_fields s = Inr ()"
  shows "\<And>d. st_result_digest s = Some d \<Longrightarrow> validate_canonical_sha256 d ''task result digest'' = Inr () \<and>
      st_status s = ''completed'' \<and> st_envelope s \<noteq> None \<and> st_result_size_bytes s \<noteq> None"
    "st_result_digest s = None \<Longrightarrow> st_result_size_bytes s = None"
    "st_error_retryable s \<noteq> None \<Longrightarrow> st_status s \<in> {''failed'', ''timed_out''} \<and> st_error_kind s \<noteq> None \<and>
      st_error_message s \<noteq> None"
    "st_execution_owner s \<noteq> None \<Longrightarrow> execution_metadata_valid s"
  using assms
  by (auto simp: validate_outcome_fields_def res_simps split: option.splits if_splits)

lemma envelope_validate_parts:
  assumes "envelope_validate sha v = Inr ()"
  shows "\<forall>c \<in> set (input_digest (ev_input v)). is_graphic c" "attempt_policy_validate (ev_attempt_policy v) = Inr ()"
proof -
  have v: "task_input_validate sha (ev_input v) = Inr ()" "attempt_policy_validate (ev_attempt_policy v) = Inr ()"
    using assms by (auto simp: envelope_validate_def res_simps)
  show "attempt_policy_validate (ev_attempt_policy v) = Inr ()" by (rule v(2))
  show "\<forall>c \<in> set (input_digest (ev_input v)). is_graphic c"
    using v(1) canonical_sha256_plain(3) by (cases "ev_input v") (auto simp: res_simps split: if_splits)
qed

subsection \<open>Every field is one line\<close>

definition unbroken :: "string \<Rightarrow> bool" where
  "unbroken v \<longleftrightarrow> CHR 0x0A \<notin> set v \<and> CHR 0x0D \<notin> set v"

lemma unbroken_graphic: "\<forall>c \<in> set v. is_graphic c \<Longrightarrow> unbroken v"
  by (auto simp: unbroken_def is_graphic_def)

lemma unbroken_append:
  "unbroken (v @ w) \<longleftrightarrow> unbroken v \<and> unbroken w"
  "unbroken (c # v) \<longleftrightarrow> c \<noteq> CHR 0x0A \<and> c \<noteq> CHR 0x0D \<and> unbroken v"
  by (auto simp: unbroken_def)

lemma unbroken_values [simp]:
  "unbroken []" "unbroken (nat_str n)" "unbroken (opt_str w)" "unbroken (encode_task_field t)" "unbroken (flag_str b)"
  "unbroken (optional_text encode_task_field u)" "unbroken (encode_hex t)"
proof -
  show "unbroken (nat_str n)" by (rule unbroken_graphic [OF nat_str_graphic])
  show "unbroken (opt_str w)"
    using unbroken_graphic [OF nat_str_graphic] by (cases w) (simp_all add: opt_str_def unbroken_def)
  show "unbroken (encode_task_field t)" by (simp add: unbroken_def encode_field_no_sep)
  then show "unbroken (optional_text encode_task_field u)"
    by (cases u) (simp_all add: optional_text_def unbroken_def encode_field_no_sep)
  have "\<forall>c \<in> set (encode_hex t). is_graphic c"
    using decode_encode_hex [of t "[]"] lower_hex_graphic by (simp add: decode_hex_def split: if_splits)
  then show "unbroken (encode_hex t)" by (rule unbroken_graphic)
qed (simp_all add: unbroken_def flag_str_def)

lemma line_okI:
  "k \<noteq> [] \<Longrightarrow> \<forall>c \<in> set k. is_graphic c \<and> c \<noteq> CHR ''='' \<Longrightarrow> unbroken v \<Longrightarrow> line_ok (k, v)"
  using unbroken_graphic [of k] by (cases k) (auto simp: line_ok_def unbroken_def)

lemma field_lines_ok:
  "list_all line_ok (head_fields s)" "list_all line_ok (tail_fields s)"
  "\<forall>c \<in> set (input_digest (ev_input v)). is_graphic c \<Longrightarrow> list_all line_ok (envelope_fields v)"
  "(\<And>d. st_result_digest s = Some d \<Longrightarrow> \<forall>c \<in> set d. is_graphic c) \<Longrightarrow> list_all line_ok (execution_fields s)"
proof -
  show "list_all line_ok (head_fields s)"
    by (simp add: head_fields_def line_okI is_graphic_def) (simp add: line_okI is_graphic_def unbroken_def)
  show "list_all line_ok (tail_fields s)"
    by (simp add: tail_fields_def line_okI is_graphic_def)
  show "list_all line_ok (envelope_fields v)" if "\<forall>c \<in> set (input_digest (ev_input v)). is_graphic c"
    using unbroken_graphic [OF that]
    by (cases "ev_input v") (simp_all add: envelope_fields_def Let_def line_okI is_graphic_def unbroken_append)
  show "list_all line_ok (execution_fields s)" if "\<And>d. st_result_digest s = Some d \<Longrightarrow> \<forall>c \<in> set d. is_graphic c"
  proof -
    have "unbroken (optional_text id (st_result_digest s))"
      using that unbroken_graphic by (cases "st_result_digest s") (simp_all add: optional_text_def)
    moreover have "unbroken (case st_error_retryable s of None \<Rightarrow> [] | Some b \<Rightarrow> flag_str b)"
      by (simp split: option.splits)
    ultimately show ?thesis by (simp add: execution_fields_def line_okI is_graphic_def)
  qed
qed

lemma repeated_lines_ok:
  "line_ok (''log'', log_value l)" "line_ok (''dead_letter'', dead_letter_value d)" "line_ok (''replay'', replay_value r)"
proof -
  have "unbroken (log_value l)" "unbroken (dead_letter_value d)" "unbroken (replay_value r)"
    by (simp_all add: log_value_def dead_letter_value_def replay_value_def unbroken_append)
  then show "line_ok (''log'', log_value l)" "line_ok (''dead_letter'', dead_letter_value d)" "line_ok (''replay'', replay_value r)"
    by (simp_all add: line_okI is_graphic_def)
qed

lemma task_lines_ok:
  assumes "task_validate sha s = Inr ()"
  shows "\<forall>f \<in> set (task_fields s). line_ok f"
proof -
  note parts = task_validate_parts [OF assms]
  have digest: "\<And>d. st_result_digest s = Some d \<Longrightarrow> \<forall>c \<in> set d. is_graphic c"
    using validate_outcome_parts(1) [OF parts(7)] canonical_sha256_plain(3) by blast
  have "list_all line_ok (envelope_fields v)" if "st_envelope s = Some v" for v
    using parts(8) that envelope_validate_parts(1) [of sha v] field_lines_ok(3)
    by (auto simp: validate_policy_mirror_def res_simps)
  then have "list_all line_ok (case st_envelope s of None \<Rightarrow> [] | Some v \<Rightarrow> envelope_fields v @ execution_fields s)"
    using field_lines_ok(4) [OF digest] by (simp split: option.splits)
  moreover have "list_all line_ok (map (\<lambda>l. (''log'', log_value l)) (st_logs s))"
    "list_all line_ok (map (\<lambda>d. (''dead_letter'', dead_letter_value d)) (st_dead_letters s))"
    "list_all line_ok (map (\<lambda>r. (''replay'', replay_value r)) (st_replayed_events s))"
    using repeated_lines_ok by (simp_all add: list_all_iff)
  ultimately have "list_all line_ok (task_fields s)"
    unfolding task_fields_eq list_all_append using field_lines_ok(1,2) by blast
  then show ?thesis by (simp add: list_all_iff)
qed

subsection \<open>The snapshot that comes back\<close>

definition stored_view :: "task_state \<Rightarrow> task_state" where
  "stored_view s = s\<lparr>st_cancel_reason := non_empty (st_cancel_reason s),
     st_interrupted_reason := non_empty (st_interrupted_reason s), st_error_kind := non_empty (st_error_kind s),
     st_error_message := non_empty (st_error_message s),
     st_error_retryable := (if st_envelope s = None then None else st_error_retryable s),
     st_retry_ready_at_ms := (if st_envelope s = None then None else st_retry_ready_at_ms s)\<rparr>"

definition storable :: "task_state \<Rightarrow> bool" where
  "storable s \<longleftrightarrow> st_cancel_reason s \<noteq> Some [] \<and> st_interrupted_reason s \<noteq> Some [] \<and> st_error_kind s \<noteq> Some [] \<and>
     st_error_message s \<noteq> Some [] \<and>
     (st_envelope s \<noteq> None \<or> st_error_retryable s = None \<and> st_retry_ready_at_ms s = None)"

lemma stored_view_id: "stored_view s = s \<longleftrightarrow> storable s"
proof
  assume v: "stored_view s = s"
  have "non_empty (st_cancel_reason s) = st_cancel_reason s" "non_empty (st_interrupted_reason s) = st_interrupted_reason s"
    "non_empty (st_error_kind s) = st_error_kind s" "non_empty (st_error_message s) = st_error_message s"
    "(if st_envelope s = None then None else st_error_retryable s) = st_error_retryable s"
    "(if st_envelope s = None then None else st_retry_ready_at_ms s) = st_retry_ready_at_ms s"
    using arg_cong [OF v, of st_cancel_reason] arg_cong [OF v, of st_interrupted_reason]
      arg_cong [OF v, of st_error_kind] arg_cong [OF v, of st_error_message]
      arg_cong [OF v, of st_error_retryable] arg_cong [OF v, of st_retry_ready_at_ms]
    by (simp_all add: stored_view_def)
  then show "storable s" by (auto simp: storable_def non_empty_def split: if_splits)
next
  assume "storable s"
  then show "stored_view s = s" by (cases "st_envelope s") (simp_all add: storable_def stored_view_def)
qed

lemma fresh_for_names: "fresh_for kvs p \<longleftrightarrow> list_all (\<lambda>k. k \<notin> set (tp_seen p)) (map fst kvs)"
  by (simp add: fresh_for_def list_all_iff case_prod_beta)

lemma field_names:
  "map fst (head_fields s) = [''format'', ''record_version'', ''owner_generation'', ''task_id'', ''status'', ''attempts'',
     ''retry_max_attempts'']"
  "map fst (envelope_fields v) = [''envelope_kind'', ''envelope_agent_id'', ''envelope_input_kind'',
     ''envelope_inline_input_hex'', ''envelope_artifact_ref'', ''envelope_input_digest'', ''envelope_idempotency_key'',
     ''envelope_max_attempts'', ''envelope_retry_backoff_ms'', ''envelope_attempt_timeout_ms'']"
  "map fst (execution_fields s) = [''execution_owner'', ''result_digest'', ''result_size_bytes'', ''replay_event_id'',
     ''replay_delivery_index'', ''error_retryable'', ''retry_ready_at_ms'']"
  "map fst (tail_fields s) = [''cancel_requested'', ''cancel_accepted'', ''cancel_reason'', ''heartbeat_at_ms'',
     ''deadline_at_ms'', ''cancel_token'', ''interrupted_reason'', ''error_kind'', ''error_message'']"
  by (simp_all add: head_fields_def envelope_fields_def execution_fields_def tail_fields_def Let_def)

lemmas read_fields = read_pairs_append read_head_fields read_envelope_fields read_execution_fields read_tail_fields
  read_repeated fresh_for_names seen_with_def field_names

lemma read_all_fields_plain:
  assumes "task_validate sha s = Inr ()" and none: "st_envelope s = None"
  shows "\<exists>p. read_pairs (task_fields s) new_reader = Inr p \<and> tp_task p = stored_view s \<and>
    tp_format p = Some ''eva.task-state.v2'' \<and> \<not> has_envelope_fields p \<and>
    (\<forall>k \<in> set execution_field_names \<union> set v5_field_names. k \<notin> set (tp_seen p))"
proof -
  note parts = task_validate_parts [OF assms(1)]
  have lost: "st_execution_owner s = None" "st_replay_delivery s = None" "st_result_digest s = None"
    "st_result_size_bytes s = None" "st_cancel_token s \<noteq> Some []"
    using validate_claim_parts(2,3) [OF parts(5)] validate_replay_parts(3) [OF parts(6)]
      validate_outcome_parts(1,2) [OF parts(7)] none by fastforce+
  show ?thesis
    unfolding task_fields_eq
    using none lost
    by (simp add: read_fields new_reader_def empty_task_state_def has_envelope_fields_def stored_view_def
        execution_field_names_def v5_field_names_def)
qed

lemma read_all_fields_enveloped:
  assumes "task_validate sha s = Inr ()" and some: "st_envelope s = Some v"
  shows "\<exists>p. read_pairs (task_fields s) new_reader = Inr p \<and>
    tp_task p = stored_view s\<lparr>st_envelope := None, st_replay_delivery := None\<rparr> \<and>
    tp_format p = Some ''eva.task-state.v5'' \<and> tp_kind p = Some (ev_kind v) \<and> tp_agent_id p = Some (ev_agent_id v) \<and>
    tp_input_kind p = Some (case ev_input v of InlineInput _ _ \<Rightarrow> ''inline'' | ArtifactInput _ _ \<Rightarrow> ''artifact'') \<and>
    tp_inline_hex p = Some (case ev_input v of InlineInput data _ \<Rightarrow> encode_hex data | ArtifactInput _ _ \<Rightarrow> []) \<and>
    tp_artifact_ref p = Some (case ev_input v of InlineInput _ _ \<Rightarrow> [] | ArtifactInput ref _ \<Rightarrow> ref) \<and>
    tp_input_digest p = Some (input_digest (ev_input v)) \<and> tp_idempotency_key p = Some (ev_idempotency_key v) \<and>
    tp_max_attempts p = Some (ap_max_attempts (ev_attempt_policy v)) \<and>
    tp_retry_backoff_ms p = Some (ap_retry_backoff_ms (ev_attempt_policy v)) \<and>
    tp_attempt_timeout_ms p = Some (ap_attempt_timeout_ms (ev_attempt_policy v)) \<and>
    tp_replay_event_id p = Some (map_option rd_replay_event_id (st_replay_delivery s)) \<and>
    tp_replay_delivery_index p = Some (map_option rd_delivery_index (st_replay_delivery s)) \<and>
    (\<forall>k \<in> set execution_field_names \<union> set v5_field_names. k \<in> set (tp_seen p))"
proof -
  note parts = task_validate_parts [OF assms(1)]
  have digest: "\<And>d. st_result_digest s = Some d \<Longrightarrow> CHR ''%'' \<notin> set d" "st_result_digest s \<noteq> Some []"
    using validate_outcome_parts(1) [OF parts(7)] canonical_sha256_plain(1,2) by blast+
  have kept: "st_execution_owner s \<noteq> Some []" "st_cancel_token s \<noteq> Some []"
    using validate_claim_parts(1,2) [OF parts(5)] by simp_all
  have event: "map_option rd_replay_event_id (st_replay_delivery s) \<noteq> Some []"
    using validate_replay_parts(2) [OF parts(6)] by auto
  show ?thesis
    unfolding task_fields_eq
    using some digest kept event
    by (simp add: read_fields new_reader_def empty_task_state_def stored_view_def execution_field_names_def
        v5_field_names_def)
qed

lemma read_input_stored:
  "read_input (case i of InlineInput _ _ \<Rightarrow> ''inline'' | ArtifactInput _ _ \<Rightarrow> ''artifact'')
     (case i of InlineInput data _ \<Rightarrow> encode_hex data | ArtifactInput _ _ \<Rightarrow> [])
     (case i of InlineInput _ _ \<Rightarrow> [] | ArtifactInput ref _ \<Rightarrow> ref) (input_digest i) = Inr i"
  by (cases i) (simp_all add: read_input_def)

lemma envelope_new_same:
  assumes "envelope_validate sha v = Inr ()"
  shows "res_bind (attempt_policy_new (ap_max_attempts (ev_attempt_policy v)) (ap_retry_backoff_ms (ev_attempt_policy v))
      (ap_attempt_timeout_ms (ev_attempt_policy v)))
      (envelope_new sha (ev_kind v) (ev_agent_id v) (ev_input v) (ev_idempotency_key v)) = Inr v"
proof -
  have eta: "\<lparr>ap_max_attempts = ap_max_attempts q, ap_retry_backoff_ms = ap_retry_backoff_ms q,
      ap_attempt_timeout_ms = ap_attempt_timeout_ms q\<rparr> = q"
    "\<lparr>ev_kind = ev_kind v, ev_agent_id = ev_agent_id v, ev_input = ev_input v,
      ev_idempotency_key = ev_idempotency_key v, ev_attempt_policy = ev_attempt_policy v\<rparr> = v" for q
    by simp_all
  show ?thesis
    using assms envelope_validate_parts(2) [OF assms]
    by (simp add: attempt_policy_new_def envelope_new_def Let_def eta)
qed

lemma read_format_stored:
  assumes v: "task_validate sha s = Inr ()" and committed: "st_record_version s \<noteq> 0 \<or> st_owner_generation s = 0"
  shows "\<exists>p. read_pairs (task_fields s) new_reader = Inr p \<and> st_task_id (tp_task p) = st_task_id s \<and>
    st_status (tp_task p) = st_status s \<and> read_format sha p = Inr (stored_view s)"
proof (cases "st_envelope s")
  case None
  obtain p where p: "read_pairs (task_fields s) new_reader = Inr p" "tp_task p = stored_view s"
    "tp_format p = Some ''eva.task-state.v2''" "\<not> has_envelope_fields p"
    "\<forall>k \<in> set execution_field_names \<union> set v5_field_names. k \<notin> set (tp_seen p)"
    using read_all_fields_plain [OF v None] by blast
  have "st_task_id (tp_task p) = st_task_id s \<and> st_status (tp_task p) = st_status s"
    by (simp add: p(2) stored_view_def)
  moreover have "read_format sha p = Inr (stored_view s)"
    using p(2-5) committed by (auto simp: read_format_def Let_def stored_view_def)
  ultimately show ?thesis using p(1) by blast
next
  case (Some v')
  obtain p where p: "read_pairs (task_fields s) new_reader = Inr p"
    "tp_task p = stored_view s\<lparr>st_envelope := None, st_replay_delivery := None\<rparr>"
    "tp_format p = Some ''eva.task-state.v5''"
    "\<forall>k \<in> set execution_field_names \<union> set v5_field_names. k \<in> set (tp_seen p)"
    "tp_replay_event_id p = Some (map_option rd_replay_event_id (st_replay_delivery s))"
    "tp_replay_delivery_index p = Some (map_option rd_delivery_index (st_replay_delivery s))"
    and fields: "tp_kind p = Some (ev_kind v')" "tp_agent_id p = Some (ev_agent_id v')"
    "tp_input_kind p = Some (case ev_input v' of InlineInput _ _ \<Rightarrow> ''inline'' | ArtifactInput _ _ \<Rightarrow> ''artifact'')"
    "tp_inline_hex p = Some (case ev_input v' of InlineInput data _ \<Rightarrow> encode_hex data | ArtifactInput _ _ \<Rightarrow> [])"
    "tp_artifact_ref p = Some (case ev_input v' of InlineInput _ _ \<Rightarrow> [] | ArtifactInput ref _ \<Rightarrow> ref)"
    "tp_input_digest p = Some (input_digest (ev_input v'))" "tp_idempotency_key p = Some (ev_idempotency_key v')"
    "tp_max_attempts p = Some (ap_max_attempts (ev_attempt_policy v'))"
    "tp_retry_backoff_ms p = Some (ap_retry_backoff_ms (ev_attempt_policy v'))"
    "tp_attempt_timeout_ms p = Some (ap_attempt_timeout_ms (ev_attempt_policy v'))"
    using read_all_fields_enveloped [OF v Some] by blast
  note parts = task_validate_parts [OF v]
  have "envelope_validate sha v' = Inr ()"
    using parts(8) Some by (auto simp: validate_policy_mirror_def res_simps)
  then have envelope: "read_envelope sha p = Inr v'"
    by (simp add: read_envelope_def required_stored_field_def fields read_input_stored envelope_new_same)
  have eta: "\<lparr>rd_replay_event_id = rd_replay_event_id d, rd_delivery_index = rd_delivery_index d\<rparr> = d" for d
    by simp
  have delivery: "read_replay_delivery p = Inr (st_replay_delivery s)"
    using p(5,6) validate_replay_parts(1) [OF parts(6)]
    by (cases "st_replay_delivery s") (simp_all add: read_replay_delivery_def replay_delivery_new_def Let_def eta)
  have seen: "require_seen m execution_field_names p = Inr ()" "require_seen m v5_field_names p = Inr ()" for m
    using p(4) by (simp_all add: require_seen_def res_all_ok)
  have "read_format sha p = Inr (stored_view s)"
    using p(2,3) committed Some
    by (auto simp: read_format_def Let_def read_enveloped_def envelope delivery seen stored_view_def)
  moreover have "st_task_id (tp_task p) = st_task_id s \<and> st_status (tp_task p) = st_status s"
    by (simp add: p(2) stored_view_def)
  ultimately show ?thesis using p(1) by blast
qed

lemma task_from_to_storage:
  assumes v: "task_validate sha s = Inr ()" and committed: "st_record_version s \<noteq> 0 \<or> st_owner_generation s = 0"
  shows "task_from_storage sha (task_to_storage s) = checked_task sha (stored_view s)"
proof -
  obtain p where p: "read_pairs (task_fields s) new_reader = Inr p" "st_task_id (tp_task p) = st_task_id s"
    "st_status (tp_task p) = st_status s" "read_format sha p = Inr (stored_view s)"
    using read_format_stored [OF assms] by blast
  have "st_task_id s \<noteq> []" "st_status s \<noteq> []"
    using task_validate_parts(1,2) [OF v] by (auto simp: stable_id_def)
  moreover have "read_task_lines (lines (task_to_storage s)) new_reader = Inr p"
    unfolding task_to_storage_def lines_of_fields [OF task_lines_ok [OF v]] read_task_lines_pairs [OF task_lines_ok [OF v]]
    by (rule p(1))
  ultimately show ?thesis using p(2-4) by (simp add: task_from_storage_def)
qed

end
