(* ===== verification/Storage_TaskStore.thy ===== *)
theory Storage_TaskStore
  imports Storage_TaskRoundtrip
begin

section \<open>The task store (eva-storage, task\_state.rs)\<close>

text \<open>
  The files of the task directory, one per task and an alias of the last commit, with the commit that
  compares record versions and checks the transition, and the operations built on it. A commit runs
  under the locks of the writer and of the record, so it is one step on the directory; between two
  accesses of an operation other processes may change the directory. The accesses of a call are
  numbered, and the argument \<open>ios\<close> gives for each of them what the other processes did before it and
  the outcomes of its locks and file operations.
\<close>

subsection \<open>Attempts\<close>

record attempt_fence =
  fe_task_id :: string
  fe_owner_generation :: u64
  fe_execution_owner :: string
  fe_attempt :: u64
  fe_cancel_token :: string

record execution_claim =
  ec_snapshot :: task_state
  ec_fence :: attempt_fence

datatype attempt_outcome =
    AttemptCompleted string u64
  | AttemptFailed string string bool
  | AttemptTimedOut u128 bool

datatype commit_mode = Create | CompareAndSet | AttemptOutcome | Heartbeat | RetryRequeue | RestartRecovery

definition create_only :: "commit_mode \<Rightarrow> bool" where
  "create_only m \<longleftrightarrow> m = Create"

definition allow_attempt_outcome :: "commit_mode \<Rightarrow> bool" where
  "allow_attempt_outcome m \<longleftrightarrow> m = AttemptOutcome"

definition allow_heartbeat :: "commit_mode \<Rightarrow> bool" where
  "allow_heartbeat m \<longleftrightarrow> m = AttemptOutcome \<or> m = Heartbeat"

definition allow_retry_requeue :: "commit_mode \<Rightarrow> bool" where
  "allow_retry_requeue m \<longleftrightarrow> m = RetryRequeue"

definition allow_restart_recovery :: "commit_mode \<Rightarrow> bool" where
  "allow_restart_recovery m \<longleftrightarrow> m = RestartRecovery"

definition task_execution_claim :: "task_state \<Rightarrow> execution_claim res" where
  "task_execution_claim s =
     res_bind (ok_or (about_task s (err_internal ''committed task claim is missing execution owner''))
       (st_execution_owner s)) (\<lambda>owner.
     res_bind (ok_or (about_task s (err_internal ''committed task claim is missing cancel token''))
       (st_cancel_token s)) (\<lambda>token.
     if st_status s \<noteq> ''running'' \<or> st_attempts s = 0
     then Inl (about_status s (err_internal ''committed task claim is not a running attempt''))
     else Inr \<lparr>ec_snapshot = s,
            ec_fence = \<lparr>fe_task_id = st_task_id s, fe_owner_generation = st_owner_generation s,
              fe_execution_owner = owner, fe_attempt = st_attempts s, fe_cancel_token = token\<rparr>\<rparr>))"

definition verify_task_attempt_fence :: "task_state \<Rightarrow> attempt_fence \<Rightarrow> unit res" where
  "verify_task_attempt_fence s f =
     (if st_task_id s \<noteq> fe_task_id f then Inl (err_conflict ''task attempt fence belongs to another task'')
      else if st_owner_generation s \<noteq> fe_owner_generation f
      then Inl (with_context (err_conflict ''task attempt fence belongs to another writer generation'')
             ''task_id'' (fe_task_id f))
      else verify_execution_claim (fe_execution_owner f) (fe_attempt f) (fe_cancel_token f) s)"

fun apply_task_attempt_outcome ::
  "(string \<Rightarrow> string) \<Rightarrow> attempt_fence \<Rightarrow> attempt_outcome \<Rightarrow> task_state \<Rightarrow> task_state res" where
  "apply_task_attempt_outcome sha f (AttemptCompleted digest bytes) s =
     complete_execution sha (fe_execution_owner f) (fe_attempt f) (fe_cancel_token f) digest bytes s"
| "apply_task_attempt_outcome sha f (AttemptFailed kind message retryable) s =
     fail_execution sha (fe_execution_owner f) (fe_attempt f) (fe_cancel_token f) kind message retryable s"
| "apply_task_attempt_outcome sha f (AttemptTimedOut at retryable) s =
     time_out_execution sha (fe_execution_owner f) (fe_attempt f) (fe_cancel_token f) at retryable s"

fun task_attempt_outcome_is_committed :: "task_state \<Rightarrow> attempt_outcome \<Rightarrow> bool" where
  "task_attempt_outcome_is_committed s (AttemptCompleted digest bytes) \<longleftrightarrow>
     st_status s = ''completed'' \<and> st_result_digest s = Some digest \<and> st_result_size_bytes s = Some bytes"
| "task_attempt_outcome_is_committed s (AttemptFailed kind message retryable) \<longleftrightarrow>
     st_status s = ''failed'' \<and> st_error_kind s = Some kind \<and> st_error_message s = Some message \<and>
     st_error_retryable s = Some retryable"
| "task_attempt_outcome_is_committed s (AttemptTimedOut at retryable) \<longleftrightarrow>
     st_status s = ''timed_out'' \<and> st_heartbeat_at_ms s = Some at \<and> st_error_retryable s = Some retryable"

subsection \<open>Retry and recovery candidates\<close>

definition stored_task_error_is_retryable :: "task_state \<Rightarrow> bool" where
  "stored_task_error_is_retryable s = (case st_error_retryable s of
     Some retryable \<Rightarrow> retryable
   | None \<Rightarrow> st_error_kind s = Some ''timeout'' \<or> st_error_kind s = Some ''unavailable'')"

definition task_retry_is_eligible :: "task_state \<Rightarrow> bool" where
  "task_retry_is_eligible s \<longleftrightarrow> st_status s \<in> {''failed'', ''timed_out''} \<and> st_attempts s < st_retry_max_attempts s \<and>
     st_envelope s \<noteq> None \<and> \<not> st_cancel_requested s \<and> \<not> st_cancel_accepted s \<and> stored_task_error_is_retryable s"

definition task_retry_schedule_candidate :: "task_state \<Rightarrow> u128 \<Rightarrow> task_state option" where
  "task_retry_schedule_candidate s ready_at =
     (if \<not> task_retry_is_eligible s \<or> st_retry_ready_at_ms s \<noteq> None then None
      else Some (push_task_log ''warning''
        (''task attempt '' @ nat_str (unat (st_attempts s)) @ '' retry scheduled for '' @ nat_str (unat ready_at))
        (s\<lparr>st_retry_ready_at_ms := Some ready_at\<rparr>)))"

definition task_retry_requeue_candidate :: "task_state \<Rightarrow> task_state option" where
  "task_retry_requeue_candidate s =
     (if \<not> task_retry_is_eligible s then None
      else Some (push_task_log ''warning''
        (''task attempt '' @ nat_str (unat (st_attempts s)) @ '' queued for retry after '' @ st_status s @
         '': kind='' @ (case st_error_kind s of None \<Rightarrow> ''unknown'' | Some k \<Rightarrow> k) @
         ''; message='' @ (case st_error_message s of None \<Rightarrow> ''failure details unavailable'' | Some m \<Rightarrow> m))
        (release_attempt s)))"

definition task_retry_transition_candidate :: "task_state \<Rightarrow> u128 \<Rightarrow> task_state option" where
  "task_retry_transition_candidate s now =
     (if \<not> task_retry_is_eligible s then None
      else case st_retry_ready_at_ms s of
          Some ready_at \<Rightarrow> if ready_at \<le> now then task_retry_requeue_candidate s else None
        | None \<Rightarrow>
            (case st_envelope s of
               None \<Rightarrow> None
             | Some v \<Rightarrow>
                 let backoff = ap_retry_backoff_ms (ev_attempt_policy v)
                 in if backoff = 0 then task_retry_requeue_candidate s
                    else task_retry_schedule_candidate s (sat_add now (ucast backoff))))"

definition res_ok :: "'a res \<Rightarrow> 'a option" where
  "res_ok r = (case r of Inl _ \<Rightarrow> None | Inr x \<Rightarrow> Some x)"

definition task_replay_recovery_candidate :: "(string \<Rightarrow> string) \<Rightarrow> task_state \<Rightarrow> task_state option" where
  "task_replay_recovery_candidate sha s = res_ok (mark_abandoned_replay_delivery_queued sha s)"

definition task_abandoned_recovery_candidate :: "(string \<Rightarrow> string) \<Rightarrow> task_state \<Rightarrow> task_state option" where
  "task_abandoned_recovery_candidate sha s = res_ok (mark_abandoned_task_queued sha s)"

definition reject_current_generation_recovery :: "task_state \<Rightarrow> u64 \<Rightarrow> unit res" where
  "reject_current_generation_recovery s generation =
     reject_if (st_owner_generation s = generation)
       (with_context (about_status s
          (err_conflict ''task restart recovery cannot reclaim the current writer generation''))
          ''writer_generation'' (nat_str (unat generation)))"

subsection \<open>Transitions\<close>

definition task_restart_recovery_transition_matches ::
  "(string \<Rightarrow> string) \<Rightarrow> task_state \<Rightarrow> task_state \<Rightarrow> bool" where
  "task_restart_recovery_transition_matches sha current proposed =
     (if length (st_logs proposed) \<noteq> length (st_logs current) + 1 \<or>
         take (length (st_logs current)) (st_logs proposed) \<noteq> st_logs current
      then False
      else
        (let log = last (st_logs proposed)
         in if tl_level log = ''info''
            then (case strip_prefix COMMITTED_EFFECT_RECOVERY_LOG_PREFIX (tl_message log) of
                    None \<Rightarrow> False
                  | Some operation \<Rightarrow>
                      (case (st_result_digest proposed, st_result_size_bytes proposed) of
                         (Some digest, Some bytes) \<Rightarrow> recover_committed_effect sha operation digest bytes current = Inr proposed
                       | _ \<Rightarrow> False))
            else if tl_level log = ''error''
            then (case strip_prefix UNKNOWN_EFFECT_RECOVERY_REASON_PREFIX (tl_message log) of
                    None \<Rightarrow> False
                  | Some operation \<Rightarrow> block_unknown_effect sha operation current = Inr proposed)
            else False))"

definition task_retry_special_transition_matches ::
  "(string \<Rightarrow> string) \<Rightarrow> task_state \<Rightarrow> task_state \<Rightarrow> bool" where
  "task_retry_special_transition_matches sha current proposed \<longleftrightarrow>
     task_retry_requeue_candidate current = Some proposed \<or>
     (case st_retry_ready_at_ms proposed of
        None \<Rightarrow> False
      | Some ready_at \<Rightarrow> task_retry_schedule_candidate current ready_at = Some proposed) \<or>
     task_replay_recovery_candidate sha current = Some proposed \<or>
     task_abandoned_recovery_candidate sha current = Some proposed"

definition claim_deadline_valid :: "task_state \<Rightarrow> task_state \<Rightarrow> bool" where
  "claim_deadline_valid current proposed =
     (case (Option.bind (st_envelope current) (\<lambda>v. ap_attempt_timeout_ms (ev_attempt_policy v)),
            st_heartbeat_at_ms proposed, st_deadline_at_ms proposed) of
        (None, Some _, None) \<Rightarrow> True
      | (Some timeout, Some heartbeat, Some deadline) \<Rightarrow> checked_add heartbeat (ucast timeout) = Some deadline
      | _ \<Rightarrow> False)"

definition is_claim :: "task_state \<Rightarrow> task_state \<Rightarrow> bool" where
  "is_claim current proposed \<longleftrightarrow>
     st_status current = ''queued'' \<and> st_status proposed = ''running'' \<and>
     checked_add (st_attempts current) 1 = Some (st_attempts proposed) \<and> st_envelope current \<noteq> None \<and>
     \<not> st_cancel_requested current \<and> \<not> st_cancel_requested proposed \<and> st_dead_letters current = [] \<and>
     st_attempts current < st_retry_max_attempts current \<and> st_execution_owner current = None \<and>
     st_cancel_token current = None \<and> st_execution_owner proposed \<noteq> None \<and> st_cancel_token proposed \<noteq> None \<and>
     st_result_digest proposed = None \<and> st_result_size_bytes proposed = None \<and>
     st_interrupted_reason proposed = None \<and> st_error_kind proposed = None \<and> st_error_message proposed = None \<and>
     claim_deadline_valid current proposed"

definition lifecycle_allowed :: "string \<Rightarrow> string \<Rightarrow> bool" where
  "lifecycle_allowed current proposed =
     (if current = ''queued'' then
        proposed \<in> {''queued'', ''running'', ''cancelling'', ''cancelled'', ''interrupted'', ''recovering''}
      else if current = ''running'' then
        proposed \<in> {''running'', ''cancelling'', ''completed'', ''failed'', ''cancelled'', ''timed_out'', ''interrupted'', ''recovering''}
      else if current = ''cancelling'' then
        proposed \<in> {''cancelling'', ''completed'', ''cancelled'', ''interrupted'', ''recovering''}
      else if current = ''recovering'' then proposed \<in> {''recovering'', ''cancelling'', ''cancelled'', ''interrupted''}
      else proposed = current)"

definition about_transition :: "task_state \<Rightarrow> task_state \<Rightarrow> eva_error \<Rightarrow> eva_error" where
  "about_transition current proposed e = with_context (with_context (about_task current e)
     ''current_status'' (st_status current)) ''proposed_status'' (st_status proposed)"

definition validate_task_state_transition ::
  "(string \<Rightarrow> string) \<Rightarrow> task_state \<Rightarrow> task_state \<Rightarrow> bool \<Rightarrow> bool \<Rightarrow> bool \<Rightarrow> bool \<Rightarrow> unit res" where
  "validate_task_state_transition sha current proposed outcome heartbeat requeue restart =
     (let claim = is_claim current proposed;
          retry = requeue \<and> task_retry_special_transition_matches sha current proposed;
          recovery = restart \<and> task_restart_recovery_transition_matches sha current proposed;
          active = st_execution_owner current \<noteq> None \<and> st_status current \<in> {''running'', ''cancelling''}
      in if (st_attempts current \<noteq> st_attempts proposed \<or> st_execution_owner current \<noteq> st_execution_owner proposed \<or>
             st_cancel_token current \<noteq> st_cancel_token proposed) \<and> \<not> claim \<and> \<not> retry \<and> \<not> recovery
         then Inl (about_transition current proposed
                (err_conflict ''task execution fence can change only during queued claim''))
         else if st_execution_owner current \<noteq> None \<and> st_deadline_at_ms current \<noteq> st_deadline_at_ms proposed \<and>
             \<not> retry \<and> \<not> recovery
         then Inl (about_task current (err_conflict ''task attempt deadline is immutable after claim''))
         else if active \<and> st_heartbeat_at_ms current \<noteq> st_heartbeat_at_ms proposed \<and> \<not> heartbeat \<and>
             \<not> retry \<and> \<not> recovery
         then Inl (about_status current (err_conflict ''claimed task heartbeat requires the fenced heartbeat API''))
         else if active \<and> st_status proposed \<in> {''completed'', ''failed'', ''timed_out'', ''cancelled''} \<and>
             \<not> outcome \<and> \<not> recovery
         then Inl (with_context (about_task current (err_conflict ''claimed task outcome requires the fenced finish API''))
                ''proposed_status'' (st_status proposed))
         else if is_terminal current \<and> \<not> retry \<and> \<not> recovery \<and>
             (st_result_digest current \<noteq> st_result_digest proposed \<or>
              st_result_size_bytes current \<noteq> st_result_size_bytes proposed \<or>
              st_error_kind current \<noteq> st_error_kind proposed \<or>
              st_error_message current \<noteq> st_error_message proposed \<or>
              st_error_retryable current \<noteq> st_error_retryable proposed \<or>
              st_retry_ready_at_ms current \<noteq> st_retry_ready_at_ms proposed \<or>
              st_interrupted_reason current \<noteq> st_interrupted_reason proposed \<or>
              st_heartbeat_at_ms current \<noteq> st_heartbeat_at_ms proposed)
         then Inl (about_status current (err_conflict ''task terminal outcome metadata is immutable''))
         else reject_if ((\<not> lifecycle_allowed (st_status current) (st_status proposed) \<and> \<not> retry \<and> \<not> recovery) \<or>
             (st_status proposed = ''running'' \<and> \<not> claim \<and> st_status current \<noteq> ''running''))
           (about_transition current proposed (err_conflict ''task lifecycle transition is not allowed'')))"

subsection \<open>The store\<close>

record task_fs_store =
  fs_project_root :: string
  fs_task_dir :: string
  fs_writer_required :: bool
  fs_task_writer :: "ledger_writer option"

record task_io =
  ti_others :: "directory \<Rightarrow> directory"
  ti_create_dir :: "string + unit"
  ti_writer_lock :: "unit res"
  ti_record_lock :: "unit res"
  ti_verify :: "unit res"
  ti_read_error :: "string \<Rightarrow> string option"
  ti_write :: write_outcome
  ti_write_latest :: write_outcome

definition task_store_new :: "string \<Rightarrow> task_fs_store" where
  "task_store_new root = \<lparr>fs_project_root = root, fs_task_dir = root @ ''/.eva/tasks'', fs_writer_required = False,
     fs_task_writer = None\<rparr>"

definition from_durable_layout :: "string \<Rightarrow> string \<Rightarrow> task_fs_store" where
  "from_durable_layout root task_dir = \<lparr>fs_project_root = root, fs_task_dir = task_dir, fs_writer_required = True,
     fs_task_writer = None\<rparr>"

definition from_runtime_writer :: "string \<Rightarrow> string \<Rightarrow> ledger_writer \<Rightarrow> unit res \<Rightarrow> task_fs_store res" where
  "from_runtime_writer root task_dir w verified =
     (if lw_root w \<noteq> root
      then Inl (with_context (with_context (err_conflict ''durable task writer belongs to a different backend root'')
             ''layout_root'' root) ''writer_root'' (lw_root w))
      else res_bind verified (\<lambda>_. Inr \<lparr>fs_project_root = root, fs_task_dir = task_dir, fs_writer_required = True,
             fs_task_writer = Some w\<rparr>))"

definition runtime_writer_generation :: "task_fs_store \<Rightarrow> u64 option" where
  "runtime_writer_generation st = map_option lw_generation (fs_task_writer st)"

definition latest_task_file :: string where
  "latest_task_file = ''latest-basic.task''"

definition task_file :: "string \<Rightarrow> string res" where
  "task_file task = res_bind (request_id_parse task) (\<lambda>_. Inr (task @ ''.task''))"

definition unreadable_task :: "string \<Rightarrow> string \<Rightarrow> eva_error" where
  "unreadable_task path m =
     with_context (with_context (err_internal ''failed to read task state'') ''path'' path) ''io_error'' m"

definition read_task_data :: "(string \<Rightarrow> string) \<Rightarrow> string \<Rightarrow> string \<Rightarrow> task_state res" where
  "read_task_data sha path data =
     (if \<not> utf8_valid (str_bytes data) then Inl (unreadable_task path ''stream did not contain valid UTF-8'')
      else map_err (\<lambda>e. with_context e ''path'' path) (task_from_storage sha data))"

definition read_optional_task_snapshot ::
  "(string \<Rightarrow> string) \<Rightarrow> task_fs_store \<Rightarrow> task_io \<Rightarrow> directory \<Rightarrow> string \<Rightarrow> task_state option res" where
  "read_optional_task_snapshot sha st io dir name =
     (let path = path_display (fs_task_dir st) name
      in case ti_read_error io name of
           Some m \<Rightarrow> Inl (unreadable_task path m)
         | None \<Rightarrow> (case map_of dir name of
             None \<Rightarrow> Inr None
           | Some data \<Rightarrow> map_sum id Some (read_task_data sha path data)))"

definition read_task_snapshot ::
  "(string \<Rightarrow> string) \<Rightarrow> task_fs_store \<Rightarrow> task_io \<Rightarrow> directory \<Rightarrow> string \<Rightarrow> task_state res" where
  "read_task_snapshot sha st io dir name =
     res_bind (read_optional_task_snapshot sha st io dir name) (\<lambda>found.
     ok_or (with_context (with_context (err_not_found ''task state does not exist'')
       ''path'' (path_display (fs_task_dir st) name)) ''suggestion'' ''run `eva run --example basic` first'') found)"

definition key_mismatch :: "task_fs_store \<Rightarrow> string \<Rightarrow> string \<Rightarrow> string \<Rightarrow> eva_error" where
  "key_mismatch st name expected actual = with_context (with_context (with_context
     (err_conflict ''task state file key does not match record'') ''path'' (path_display (fs_task_dir st) name))
     ''expected_task_id'' expected) ''actual_task_id'' actual"

definition task_read ::
  "(string \<Rightarrow> string) \<Rightarrow> task_fs_store \<Rightarrow> task_io \<Rightarrow> directory \<Rightarrow> string option \<Rightarrow> task_state res" where
  "task_read sha st io dir task = (case task of
     None \<Rightarrow> read_task_snapshot sha st io dir latest_task_file
   | Some t \<Rightarrow>
       res_bind (task_file t) (\<lambda>name.
       res_bind (read_task_snapshot sha st io dir name) (\<lambda>s.
       if st_task_id s \<noteq> t then Inl (key_mismatch st name t (st_task_id s)) else Inr s)))"

definition with_writer_transaction ::
  "task_fs_store \<Rightarrow> task_io \<Rightarrow> directory \<Rightarrow> (u64 \<Rightarrow> 'a res \<times> directory) \<Rightarrow> 'a res \<times> directory" where
  "with_writer_transaction st io dir operation = (case fs_task_writer st of
     Some w \<Rightarrow> (case ti_writer_lock io of Inl e \<Rightarrow> (Inl e, dir) | Inr _ \<Rightarrow> operation (lw_generation w))
   | None \<Rightarrow>
       if fs_writer_required st
       then (Inl (with_context (err_conflict ''durable task mutation requires runtime writer ownership'')
              ''root'' (fs_project_root st)), dir)
       else operation 0)"

text \<open>Both transactions take the lock of the record and then check that the writer is still current.\<close>

definition record_locked ::
  "task_fs_store \<Rightarrow> task_io \<Rightarrow> directory \<Rightarrow> ('a res \<times> directory) \<Rightarrow> 'a res \<times> directory" where
  "record_locked st io dir rest =
     (case res_bind (ti_record_lock io) (\<lambda>_. if fs_task_writer st = None then Inr () else ti_verify io) of
        Inl e \<Rightarrow> (Inl e, dir)
      | Inr _ \<Rightarrow> rest)"

definition refresh_latest ::
  "(string \<Rightarrow> string) \<Rightarrow> task_fs_store \<Rightarrow> task_io \<Rightarrow> string \<Rightarrow> directory \<Rightarrow> task_state res \<times> directory" where
  "refresh_latest sha st io task dir =
     (case request_id_parse task of
        Inl e \<Rightarrow> (Inl e, dir)
      | Inr _ \<Rightarrow>
          with_writer_transaction st io dir (\<lambda>_. record_locked st io dir
            (case task_read sha st io dir (Some task) of
               Inl e \<Rightarrow> (Inl e, dir)
             | Inr s \<Rightarrow>
                 (case atomic_write (ti_write_latest io) dir latest_task_file (task_to_storage s) of
                    (Inl m, dir') \<Rightarrow>
                      (Inl (with_context (with_context (err_internal ''failed to atomically refresh latest task state'')
                         ''task_id'' task) ''io_error'' m), dir')
                  | (Inr _, dir') \<Rightarrow> (Inr s, dir')))))"

definition checked_next :: "u64 \<Rightarrow> u64 res" where
  "checked_next v = ok_or (err_conflict ''state record version exhausted'') (checked_add v 1)"

definition check_against_current ::
  "(string \<Rightarrow> string) \<Rightarrow> task_fs_store \<Rightarrow> string \<Rightarrow> task_state \<Rightarrow> commit_mode \<Rightarrow> task_state \<Rightarrow> unit res" where
  "check_against_current sha st name s mode current =
     (if st_task_id current \<noteq> st_task_id s then Inl (key_mismatch st name (st_task_id s) (st_task_id current))
      else if st_owner_generation current \<noteq> st_owner_generation s
      then Inl (with_context (with_context (about_task s
             (err_conflict ''task state owner generation does not match current record''))
             ''expected'' (nat_str (unat (st_owner_generation current))))
             ''actual'' (nat_str (unat (st_owner_generation s))))
      else if st_envelope current \<noteq> st_envelope s \<or> st_replay_delivery current \<noteq> st_replay_delivery s
      then Inl (about_task s (err_conflict ''task lifecycle update cannot modify immutable task identity''))
      else validate_task_state_transition sha current s (allow_attempt_outcome mode) (allow_heartbeat mode)
             (allow_retry_requeue mode) (allow_restart_recovery mode))"

text \<open>What a commit writes, from what the file of the task holds.\<close>

definition commit_checks ::
  "(string \<Rightarrow> string) \<Rightarrow> task_fs_store \<Rightarrow> string \<Rightarrow> u64 \<Rightarrow> task_state \<Rightarrow> u64 \<Rightarrow> commit_mode \<Rightarrow> task_state option \<Rightarrow>
     task_state res" where
  "commit_checks sha st name generation s expected mode found =
     res_bind (case found of None \<Rightarrow> Inr () | Some current \<Rightarrow> check_against_current sha st name s mode current) (\<lambda>_.
     res_bind (reject_if (create_only mode \<and> found \<noteq> None)
       (about_task s (err_conflict ''task state already exists''))) (\<lambda>_.
     let actual = (case found of None \<Rightarrow> 0 | Some current \<Rightarrow> st_record_version current) in
     res_bind (reject_if (actual \<noteq> expected)
       (with_context (with_context (about_task s (err_conflict ''task state version conflict''))
         ''expected'' (nat_str (unat expected))) ''actual'' (nat_str (unat actual)))) (\<lambda>_.
     res_bind (checked_next actual) (\<lambda>version.
     checked_task sha (s\<lparr>st_record_version := version, st_owner_generation := generation\<rparr>)))))"

definition write_committed ::
  "task_fs_store \<Rightarrow> task_io \<Rightarrow> string \<Rightarrow> task_state \<Rightarrow> directory \<Rightarrow> task_state res \<times> directory" where
  "write_committed st io name committed dir =
     (case atomic_write (ti_write io) dir name (task_to_storage committed) of
        (Inl m, dir') \<Rightarrow>
          (Inl (with_context (with_context (about_task committed (err_internal ''failed to atomically write task state''))
             ''path'' (path_display (fs_task_dir st) name)) ''io_error'' m), dir')
      | (Inr _, dir') \<Rightarrow>
          (case atomic_write (ti_write_latest io) dir' latest_task_file (task_to_storage committed) of
             (Inl m, dir'') \<Rightarrow>
               (Inl (with_context (with_context (with_context (about_task committed
                  (err_internal ''failed to atomically write latest task state'')) ''canonical_committed'' ''true'')
                  ''current_version'' (nat_str (unat (st_record_version committed)))) ''io_error'' m), dir'')
           | (Inr _, dir'') \<Rightarrow> (Inr committed, dir'')))"

definition commit_snapshot ::
  "(string \<Rightarrow> string) \<Rightarrow> task_fs_store \<Rightarrow> task_io \<Rightarrow> task_state \<Rightarrow> u64 \<Rightarrow> commit_mode \<Rightarrow> directory \<Rightarrow>
     task_state res \<times> directory" where
  "commit_snapshot sha st io s expected mode dir =
     (case res_bind (task_validate sha s) (\<lambda>_. case ti_create_dir io of
           Inl m \<Rightarrow> Inl (with_context (with_context (err_internal ''failed to create task state directory'')
             ''path'' (fs_task_dir st)) ''io_error'' m)
         | Inr _ \<Rightarrow> Inr ()) of
        Inl e \<Rightarrow> (Inl e, dir)
      | Inr _ \<Rightarrow>
          with_writer_transaction st io dir (\<lambda>generation. record_locked st io dir
            (case res_bind (task_file (st_task_id s)) (\<lambda>name.
                  res_bind (read_optional_task_snapshot sha st io dir name) (\<lambda>found.
                  res_bind (commit_checks sha st name generation s expected mode found) (\<lambda>committed.
                  Inr (name, committed)))) of
               Inl e \<Rightarrow> (Inl e, dir)
             | Inr (name, committed) \<Rightarrow> write_committed st io name committed dir)))"

definition task_create ::
  "(string \<Rightarrow> string) \<Rightarrow> task_fs_store \<Rightarrow> task_io \<Rightarrow> task_state \<Rightarrow> directory \<Rightarrow> task_state res \<times> directory" where
  "task_create sha st io s dir =
     (if st_record_version s \<noteq> 0
      then (Inl (with_context (about_task s (err_invalid_argument ''new task state must start at record version zero''))
              ''actual'' (nat_str (unat (st_record_version s)))), dir)
      else commit_snapshot sha st io s 0 Create dir)"

text \<open>\<^verbatim>\<open>compare_and_set\<close> and its private variants differ in the mode only.\<close>

definition compare_and_set ::
  "(string \<Rightarrow> string) \<Rightarrow> task_fs_store \<Rightarrow> task_io \<Rightarrow> commit_mode \<Rightarrow> task_state \<Rightarrow> directory \<Rightarrow>
     task_state res \<times> directory" where
  "compare_and_set sha st io mode s dir = commit_snapshot sha st io s (st_record_version s) mode dir"

definition recovery_writer_generation :: "task_fs_store \<Rightarrow> u64 res" where
  "recovery_writer_generation st =
     ok_or (err_conflict ''task restart recovery requires runtime writer ownership'') (runtime_writer_generation st)"

end
