(* ===== verification/Storage_TaskOps.thy ===== *)
theory Storage_TaskOps
  imports Storage_TaskStore
begin

section \<open>The operations of the task store (eva-storage, task\_state.rs)\<close>

text \<open>
  The public operations on a task. Most of them are a loop of at most 32 rounds: read the record,
  decide, commit the candidate with the version that was read, and after a failed commit read again:
  an unchanged version means the error is final, a changed one means another process won the race.
  \<open>cas_rounds\<close> is that loop; an operation gives it the decision on the record that was read and the
  decision on the record that beat it. Round \<open>n\<close> uses the accesses \<open>4 n\<close> to \<open>4 n + 3\<close>: the read, the
  commit or the refresh, the second read, and the refresh after it.
\<close>

definition TASK_STATE_CAS_RETRY_LIMIT :: nat where
  "TASK_STATE_CAS_RETRY_LIMIT = 32"

subsection \<open>The loop\<close>

datatype cas_stop = Answer "task_state res" | Refresh

type_synonym cas_plan = "cas_stop + task_state"

abbreviation attempt_res :: "'a res \<Rightarrow> cas_stop + 'a" where
  "attempt_res r \<equiv> map_sum (\<lambda>e. Answer (Inl e)) id r"

definition cas_stopped ::
  "(string \<Rightarrow> string) \<Rightarrow> task_fs_store \<Rightarrow> task_io \<Rightarrow> string \<Rightarrow> cas_stop \<Rightarrow> directory \<Rightarrow> task_state res \<times> directory" where
  "cas_stopped sha st io task stop dir = (case stop of
     Answer r \<Rightarrow> (r, dir)
   | Refresh \<Rightarrow> refresh_latest sha st io task (ti_others io dir))"

fun cas_rounds ::
  "(string \<Rightarrow> string) \<Rightarrow> task_fs_store \<Rightarrow> (nat \<Rightarrow> task_io) \<Rightarrow> string \<Rightarrow> commit_mode \<Rightarrow> (task_state \<Rightarrow> cas_plan) \<Rightarrow>
     (task_state \<Rightarrow> task_state \<Rightarrow> cas_stop option) \<Rightarrow> eva_error \<Rightarrow> nat \<Rightarrow> nat \<Rightarrow> directory \<Rightarrow> task_state res \<times> directory" where
  "cas_rounds sha st ios task mode plan settle limit 0 k dir = (Inl limit, dir)"
| "cas_rounds sha st ios task mode plan settle limit (Suc n) k dir =
     (let d1 = ti_others (ios k) dir
      in case task_read sha st (ios k) d1 (Some task) of
           Inl e \<Rightarrow> (Inl e, d1)
         | Inr current \<Rightarrow>
             (case plan current of
                Inl stop \<Rightarrow> cas_stopped sha st (ios (k + 1)) task stop d1
              | Inr candidate \<Rightarrow>
                  (case compare_and_set sha st (ios (k + 1)) mode candidate (ti_others (ios (k + 1)) d1) of
                     (Inr committed, d2) \<Rightarrow> (Inr committed, d2)
                   | (Inl e, d2) \<Rightarrow>
                       (let d3 = ti_others (ios (k + 2)) d2
                        in case task_read sha st (ios (k + 2)) d3 (Some task) of
                             Inl e' \<Rightarrow> (Inl e', d3)
                           | Inr winner \<Rightarrow>
                               if st_record_version winner = st_record_version current then (Inl e, d3)
                               else (case settle candidate winner of
                                   Some stop \<Rightarrow> cas_stopped sha st (ios (k + 3)) task stop d3
                                 | None \<Rightarrow> cas_rounds sha st ios task mode plan settle limit n (k + 4) d3)))))"

definition cas_operation ::
  "(string \<Rightarrow> string) \<Rightarrow> task_fs_store \<Rightarrow> (nat \<Rightarrow> task_io) \<Rightarrow> string \<Rightarrow> commit_mode \<Rightarrow> (task_state \<Rightarrow> cas_plan) \<Rightarrow>
     (task_state \<Rightarrow> task_state \<Rightarrow> cas_stop option) \<Rightarrow> eva_error \<Rightarrow> directory \<Rightarrow> task_state res \<times> directory" where
  "cas_operation sha st ios task mode plan settle limit dir =
     cas_rounds sha st ios task mode plan settle limit TASK_STATE_CAS_RETRY_LIMIT 0 dir"

text \<open>The checks an operation makes before its loop.\<close>

definition after_checks ::
  "'a res \<Rightarrow> directory \<Rightarrow> ('a \<Rightarrow> task_state res \<times> directory) \<Rightarrow> task_state res \<times> directory" where
  "after_checks r dir k = (case r of Inl e \<Rightarrow> (Inl e, dir) | Inr x \<Rightarrow> k x)"

definition retry_limit :: "string \<Rightarrow> string \<Rightarrow> eva_error" where
  "retry_limit message task = with_context (err_conflict message) ''task_id'' task"

subsection \<open>Claims\<close>

definition claimable :: "task_state \<Rightarrow> bool" where
  "claimable s \<longleftrightarrow> \<not> (st_status s \<noteq> ''queued'' \<or> st_envelope s = None \<or> st_cancel_requested s \<or> st_dead_letters s \<noteq> [] \<or>
     st_retry_max_attempts s \<le> st_attempts s \<or> st_execution_owner s \<noteq> None \<or> st_cancel_token s \<noteq> None)"

definition claim_candidate ::
  "(string \<Rightarrow> string) \<Rightarrow> string \<Rightarrow> string \<Rightarrow> string \<Rightarrow> u128 \<Rightarrow> task_state \<Rightarrow> (u64 \<times> task_state) res" where
  "claim_candidate sha task owner token now s =
     res_bind (case Option.bind (st_envelope s) (\<lambda>v. ap_attempt_timeout_ms (ev_attempt_policy v)) of
         None \<Rightarrow> Inr None
       | Some timeout \<Rightarrow> map_sum id Some (ok_or (with_context
           (err_conflict ''task attempt deadline is out of range'') ''task_id'' task)
           (checked_add now (ucast timeout)))) (\<lambda>deadline.
     claim_for_execution sha owner now deadline token s)"

definition claim_lost ::
  "(string \<Rightarrow> string) \<Rightarrow> task_fs_store \<Rightarrow> (nat \<Rightarrow> task_io) \<Rightarrow> string \<Rightarrow> string \<Rightarrow> string \<Rightarrow> u64 \<Rightarrow> task_state \<Rightarrow> eva_error \<Rightarrow>
     directory \<Rightarrow> execution_claim option res \<times> directory" where
  "claim_lost sha st ios task owner token attempt s e dir =
     (let d3 = ti_others (ios 2) dir
      in case task_read sha st (ios 2) d3 (Some task) of
           Inl e' \<Rightarrow> (Inl e', d3)
         | Inr current \<Rightarrow>
             if st_record_version current = st_record_version s then (Inl e, d3)
             else if st_status current = ''running'' \<and> st_execution_owner current = Some owner \<and>
                     st_attempts current = attempt \<and> st_cancel_token current = Some token
             then (case refresh_latest sha st (ios 3) task (ti_others (ios 3) d3) of
                     (Inl e', d4) \<Rightarrow> (Inl e', d4)
                   | (Inr refreshed, d4) \<Rightarrow> (map_sum id Some (task_execution_claim refreshed), d4))
             else (Inr None, d3))"

definition try_claim_queued ::
  "(string \<Rightarrow> string) \<Rightarrow> task_fs_store \<Rightarrow> (nat \<Rightarrow> task_io) \<Rightarrow> string \<Rightarrow> string \<Rightarrow> string \<Rightarrow> u128 \<Rightarrow> directory \<Rightarrow>
     execution_claim option res \<times> directory" where
  "try_claim_queued sha st ios task owner token now dir =
     (case res_bind (validate_execution_owner owner) (\<lambda>_. validate_cancel_token token) of
        Inl e \<Rightarrow> (Inl e, dir)
      | Inr _ \<Rightarrow>
          (let d1 = ti_others (ios 0) dir
           in case task_read sha st (ios 0) d1 (Some task) of
                Inl e \<Rightarrow> (Inl e, d1)
              | Inr s \<Rightarrow>
                  if \<not> claimable s then (Inr None, d1)
                  else
                    (case claim_candidate sha task owner token now s of
                       Inl e \<Rightarrow> (Inl e, d1)
                     | Inr (attempt, candidate) \<Rightarrow>
                         (case compare_and_set sha st (ios 1) CompareAndSet candidate (ti_others (ios 1) d1) of
                            (Inr committed, d2) \<Rightarrow> (map_sum id Some (task_execution_claim committed), d2)
                          | (Inl e, d2) \<Rightarrow> claim_lost sha st ios task owner token attempt s e d2))))"

subsection \<open>Retries and recovery\<close>

definition requeue_retryable ::
  "(string \<Rightarrow> string) \<Rightarrow> task_fs_store \<Rightarrow> (nat \<Rightarrow> task_io) \<Rightarrow> string \<Rightarrow> u128 \<Rightarrow> directory \<Rightarrow> task_state res \<times> directory" where
  "requeue_retryable sha st ios task now dir =
     after_checks (request_id_parse task) dir (\<lambda>_.
       cas_operation sha st ios task RetryRequeue
         (\<lambda>current. case task_retry_transition_candidate current now of
            None \<Rightarrow> Inl (Answer (Inr current))
          | Some candidate \<Rightarrow> Inr candidate)
         (\<lambda>_ winner. if task_retry_transition_candidate winner now = None then Some (Answer (Inr winner)) else None)
         (retry_limit ''task retry requeue exceeded the CAS retry limit'' task) dir)"

definition recover_abandoned_replay_delivery ::
  "(string \<Rightarrow> string) \<Rightarrow> task_fs_store \<Rightarrow> (nat \<Rightarrow> task_io) \<Rightarrow> string \<Rightarrow> directory \<Rightarrow> task_state res \<times> directory" where
  "recover_abandoned_replay_delivery sha st ios task dir =
     after_checks (res_bind (request_id_parse task) (\<lambda>_.
       ok_or (err_conflict ''replay delivery recovery requires runtime writer ownership'')
         (runtime_writer_generation st))) dir (\<lambda>generation.
       cas_operation sha st ios task RetryRequeue
         (\<lambda>current.
            if st_replay_delivery current = None
            then Inl (Answer (Inl (with_context (err_conflict ''task is not a persisted replay delivery'') ''task_id'' task)))
            else if st_status current = ''running'' \<and> st_owner_generation current = generation
            then Inl (Answer (Inl (with_context
                   (err_conflict ''current writer cannot reclaim its own running replay delivery'') ''task_id'' task)))
            else case task_replay_recovery_candidate sha current of
                None \<Rightarrow> Inl (Answer (Inr current))
              | Some candidate \<Rightarrow> Inr candidate)
         (\<lambda>_ winner. if task_replay_recovery_candidate sha winner = None then Some (Answer (Inr winner)) else None)
         (retry_limit ''replay delivery recovery exceeded the CAS retry limit'' task) dir)"

definition recover_abandoned_task_for_retry ::
  "(string \<Rightarrow> string) \<Rightarrow> task_fs_store \<Rightarrow> (nat \<Rightarrow> task_io) \<Rightarrow> string \<Rightarrow> directory \<Rightarrow> task_state res \<times> directory" where
  "recover_abandoned_task_for_retry sha st ios task dir =
     after_checks (res_bind (request_id_parse task) (\<lambda>_. recovery_writer_generation st)) dir (\<lambda>generation.
       cas_operation sha st ios task RetryRequeue
         (\<lambda>current.
            if st_replay_delivery current \<noteq> None
            then Inl (Answer (Inl (with_context
                   (err_conflict ''operator task recovery cannot mutate a replay delivery'') ''task_id'' task)))
            else if st_status current = ''queued'' then Inl (Answer (Inr current))
            else case task_abandoned_recovery_candidate sha current of
                None \<Rightarrow> Inl (Answer (Inr current))
              | Some candidate \<Rightarrow>
                  res_bind (attempt_res (reject_current_generation_recovery current generation)) (\<lambda>_. Inr candidate))
         (\<lambda>_ winner. if st_status winner = ''queued'' \<or> task_abandoned_recovery_candidate sha winner = None
            then Some (Answer (Inr winner)) else None)
         (retry_limit ''abandoned task recovery exceeded the CAS retry limit'' task) dir)"

text \<open>The two recoveries from the effect ledger commit only when the record changes.\<close>

definition recovery_plan ::
  "(task_state \<Rightarrow> task_state res) \<Rightarrow> u64 \<Rightarrow> task_state \<Rightarrow> cas_plan" where
  "recovery_plan change generation current =
     res_bind (attempt_res (change current)) (\<lambda>candidate.
     if candidate = current then Inl (Answer (Inr current))
     else res_bind (attempt_res (reject_current_generation_recovery current generation)) (\<lambda>_. Inr candidate))"

definition recover_task_from_committed_effect ::
  "(string \<Rightarrow> string) \<Rightarrow> task_fs_store \<Rightarrow> (nat \<Rightarrow> task_io) \<Rightarrow> string \<Rightarrow> string \<Rightarrow> string \<Rightarrow> u64 \<Rightarrow> directory \<Rightarrow>
     task_state res \<times> directory" where
  "recover_task_from_committed_effect sha st ios task operation digest bytes dir =
     after_checks (res_bind (request_id_parse task) (\<lambda>_.
       res_bind (validate_canonical_sha256 operation ''effect operation digest'') (\<lambda>_.
       res_bind (validate_canonical_sha256 digest ''task result digest'') (\<lambda>_. recovery_writer_generation st)))) dir
       (\<lambda>generation.
       cas_operation sha st ios task RestartRecovery
         (recovery_plan (recover_committed_effect sha operation digest bytes) generation) (\<lambda>_ _. None)
         (with_context (retry_limit ''committed effect task recovery exceeded the CAS retry limit'' task)
           ''operation_digest'' operation) dir)"

definition block_task_for_unknown_effect ::
  "(string \<Rightarrow> string) \<Rightarrow> task_fs_store \<Rightarrow> (nat \<Rightarrow> task_io) \<Rightarrow> string \<Rightarrow> string \<Rightarrow> directory \<Rightarrow> task_state res \<times> directory" where
  "block_task_for_unknown_effect sha st ios task operation dir =
     after_checks (res_bind (request_id_parse task) (\<lambda>_.
       res_bind (validate_canonical_sha256 operation ''effect operation digest'') (\<lambda>_. recovery_writer_generation st))) dir
       (\<lambda>generation.
       cas_operation sha st ios task RestartRecovery
         (recovery_plan (block_unknown_effect sha operation) generation) (\<lambda>_ _. None)
         (with_context (retry_limit ''unknown effect task block exceeded the CAS retry limit'' task)
           ''operation_digest'' operation) dir)"

subsection \<open>The end of an attempt\<close>

definition superseded :: "attempt_fence \<Rightarrow> string \<Rightarrow> task_state \<Rightarrow> cas_plan" where
  "superseded f message current = Inl (Answer (Inl (with_context (with_context (err_conflict message)
     ''task_id'' (fe_task_id f)) ''status'' (st_status current))))"

definition finish_plan :: "(string \<Rightarrow> string) \<Rightarrow> attempt_fence \<Rightarrow> attempt_outcome \<Rightarrow> task_state \<Rightarrow> cas_plan" where
  "finish_plan sha f outcome current =
     res_bind (attempt_res (verify_task_attempt_fence current f)) (\<lambda>_.
     if task_attempt_outcome_is_committed current outcome \<or> st_status current = ''cancelled'' then Inl Refresh
     else if st_status current = ''running'' then attempt_res (apply_task_attempt_outcome sha f outcome current)
     else if st_status current = ''cancelling''
     then attempt_res (cancel_execution sha (fe_execution_owner f) (fe_attempt f) (fe_cancel_token f) current)
     else superseded f ''task attempt terminal result was superseded'' current)"

definition finish_execution ::
  "(string \<Rightarrow> string) \<Rightarrow> task_fs_store \<Rightarrow> (nat \<Rightarrow> task_io) \<Rightarrow> attempt_fence \<Rightarrow> attempt_outcome \<Rightarrow> directory \<Rightarrow>
     task_state res \<times> directory" where
  "finish_execution sha st ios f outcome dir =
     cas_operation sha st ios (fe_task_id f) AttemptOutcome (finish_plan sha f outcome) (\<lambda>_ _. None)
       (retry_limit ''task attempt finish exceeded the CAS retry limit'' (fe_task_id f)) dir"

definition finish_committed_effect_execution ::
  "(string \<Rightarrow> string) \<Rightarrow> task_fs_store \<Rightarrow> (nat \<Rightarrow> task_io) \<Rightarrow> attempt_fence \<Rightarrow> string \<Rightarrow> u64 \<Rightarrow> directory \<Rightarrow>
     task_state res \<times> directory" where
  "finish_committed_effect_execution sha st ios f digest bytes dir =
     cas_operation sha st ios (fe_task_id f) AttemptOutcome
       (\<lambda>current.
          res_bind (attempt_res (verify_task_attempt_fence current f)) (\<lambda>_.
          if task_attempt_outcome_is_committed current (AttemptCompleted digest bytes) then Inl Refresh
          else if st_status current \<notin> {''running'', ''cancelling''}
          then superseded f ''committed effect task outcome was superseded'' current
          else attempt_res (complete_committed_effect_execution sha (fe_execution_owner f) (fe_attempt f)
                 (fe_cancel_token f) digest bytes current))) (\<lambda>_ _. None)
       (retry_limit ''committed effect task finish exceeded the CAS retry limit'' (fe_task_id f)) dir"

definition block_prepared_effect_execution ::
  "(string \<Rightarrow> string) \<Rightarrow> task_fs_store \<Rightarrow> (nat \<Rightarrow> task_io) \<Rightarrow> attempt_fence \<Rightarrow> string \<Rightarrow> directory \<Rightarrow>
     task_state res \<times> directory" where
  "block_prepared_effect_execution sha st ios f operation dir =
     after_checks (validate_canonical_sha256 operation ''effect operation digest'') dir (\<lambda>_.
       cas_operation sha st ios (fe_task_id f) AttemptOutcome
         (\<lambda>current.
            res_bind (attempt_res (verify_task_attempt_fence current f)) (\<lambda>_.
            res_bind (attempt_res (block_unknown_effect sha operation current)) (\<lambda>candidate.
            if candidate = current then Inl Refresh
            else if st_status current \<notin> {''running'', ''cancelling''}
            then superseded f ''prepared effect attempt is no longer active'' current
            else Inr candidate)))
         (\<lambda>candidate winner.
            if \<not> requires_operator_reconciliation winner then None
            else if st_interrupted_reason winner = st_interrupted_reason candidate then Some Refresh
            else Some (Answer (Inl (with_context (with_context
                   (err_conflict ''prepared effect shutdown block conflicts with another operation'')
                   ''task_id'' (fe_task_id f)) ''operation_digest'' operation))))
         (with_context (retry_limit ''prepared effect shutdown block exceeded the CAS retry limit'' (fe_task_id f))
           ''operation_digest'' operation) dir)"

subsection \<open>Cancellation and heartbeats\<close>

definition request_execution_cancellation ::
  "(string \<Rightarrow> string) \<Rightarrow> task_fs_store \<Rightarrow> (nat \<Rightarrow> task_io) \<Rightarrow> attempt_fence \<Rightarrow> string \<Rightarrow> directory \<Rightarrow>
     task_state res \<times> directory" where
  "request_execution_cancellation sha st ios f reason dir =
     cas_operation sha st ios (fe_task_id f) CompareAndSet
       (\<lambda>current.
          res_bind (attempt_res (verify_task_attempt_fence current f)) (\<lambda>_.
          if is_terminal current \<or> st_cancel_requested current then Inl Refresh
          else if st_status current \<notin> {''running'', ''cancelling''}
          then superseded f ''task attempt cannot enter shutdown cancellation'' current
          else Inr (request_cancel reason current)))
       (\<lambda>_ winner. if is_terminal winner \<or> st_cancel_requested winner then Some Refresh else None)
       (retry_limit ''task shutdown cancellation exceeded the CAS retry limit'' (fe_task_id f)) dir"

definition request_cancellation ::
  "(string \<Rightarrow> string) \<Rightarrow> task_fs_store \<Rightarrow> (nat \<Rightarrow> task_io) \<Rightarrow> string \<Rightarrow> string \<Rightarrow> directory \<Rightarrow> task_state res \<times> directory" where
  "request_cancellation sha st ios task reason dir =
     cas_operation sha st ios task CompareAndSet
       (\<lambda>current.
          if st_cancel_requested current \<and> st_cancel_reason current = Some reason then Inl Refresh
          else Inr (if st_status current = ''queued'' then mark_cancelled (request_cancel reason current)
                    else request_cancel reason current))
       (\<lambda>_ winner. if st_cancel_requested winner \<and> st_cancel_reason winner = Some reason then Some Refresh else None)
       (retry_limit ''task cancellation exceeded the CAS retry limit'' task) dir"

definition heartbeat_execution ::
  "(string \<Rightarrow> string) \<Rightarrow> task_fs_store \<Rightarrow> (nat \<Rightarrow> task_io) \<Rightarrow> attempt_fence \<Rightarrow> u128 \<Rightarrow> directory \<Rightarrow>
     task_state res \<times> directory" where
  "heartbeat_execution sha st ios f at dir =
     cas_operation sha st ios (fe_task_id f) Heartbeat
       (\<lambda>current.
          res_bind (attempt_res (verify_task_attempt_fence current f)) (\<lambda>_.
          if st_status current \<notin> {''running'', ''cancelling''}
          then superseded f ''task heartbeat cannot renew a terminal attempt'' current
          else if at \<le> (case st_heartbeat_at_ms current of None \<Rightarrow> 0 | Some previous \<Rightarrow> previous)
          then Inl (Answer (Inr current))
          else Inr (touch_heartbeat at current))) (\<lambda>_ _. None)
       (retry_limit ''task heartbeat exceeded the CAS retry limit'' (fe_task_id f)) dir"

subsection \<open>Updates by a caller, and the listing\<close>

definition update_snapshot ::
  "(string \<Rightarrow> string) \<Rightarrow> task_fs_store \<Rightarrow> (nat \<Rightarrow> task_io) \<Rightarrow> string \<Rightarrow> (task_state \<Rightarrow> task_state res) \<Rightarrow> directory \<Rightarrow>
     task_state res \<times> directory" where
  "update_snapshot sha st ios task update dir =
     (let d1 = ti_others (ios 0) dir
      in case res_bind (task_read sha st (ios 0) d1 (Some task)) (\<lambda>s.
              res_bind (update s) (\<lambda>s'.
              if st_record_version s' \<noteq> st_record_version s \<or> st_owner_generation s' \<noteq> st_owner_generation s
              then Inl (err_invalid_argument ''task update cannot modify record version or owner generation'')
              else Inr s')) of
           Inl e \<Rightarrow> (Inl e, d1)
         | Inr s' \<Rightarrow> compare_and_set sha st (ios 1) CompareAndSet s' (ti_others (ios 1) d1))"

definition load_task_file ::
  "(string \<Rightarrow> string) \<Rightarrow> task_fs_store \<Rightarrow> task_io \<Rightarrow> directory \<Rightarrow> string \<Rightarrow> task_state res" where
  "load_task_file sha st io dir name =
     (let path = path_display (fs_task_dir st) name in
      res_bind (case ti_read_error io name of
          Some m \<Rightarrow> Inl (unreadable_task path m)
        | None \<Rightarrow> ok_or (unreadable_task path ''No such file or directory (os error 2)'') (map_of dir name)) (\<lambda>data.
      res_bind (read_task_data sha path data) (\<lambda>s.
      if \<not> text_ok (file_stem name)
      then Inl (with_context (err_conflict ''task state file name is not valid UTF-8'') ''path'' path)
      else if st_task_id s \<noteq> file_stem name then Inl (key_mismatch st name (file_stem name) (st_task_id s)) else Inr s)))"

text \<open>
  The listing. The argument \<open>listing\<close> is the answer of \<^verbatim>\<open>read_dir\<close>: nothing when the directory does not
  exist, an error, or the entries, each of which may fail in turn; other processes may act between
  the listing and the reading of the files.
\<close>

definition list_records ::
  "(string \<Rightarrow> string) \<Rightarrow> task_fs_store \<Rightarrow> task_io \<Rightarrow> (string \<Rightarrow> string option) \<Rightarrow> (string + directory) option \<Rightarrow>
     task_state list res" where
  "list_records sha st io entry_error listing =
     (let failed = (\<lambda>message m. with_context (with_context (err_internal message) ''path'' (fs_task_dir st)) ''io_error'' m)
      in case listing of
           None \<Rightarrow> Inr []
         | Some (Inl m) \<Rightarrow> Inl (failed ''failed to read task state directory'' m)
         | Some (Inr dir) \<Rightarrow>
             res_bind (res_map (\<lambda>name. case entry_error name of
                 Some m \<Rightarrow> Inl (failed ''failed to read task state directory entry'' m)
               | None \<Rightarrow> Inr name) (map fst dir)) (\<lambda>names.
             res_map (load_task_file sha st io (ti_others io dir))
               (sort (filter (\<lambda>name. name \<noteq> latest_task_file \<and> file_extension name = Some ''task'') names))))"

end
