(* ===== verification/Storage_TaskHistory.thy ===== *)
theory Storage_TaskHistory
  imports Storage_TaskOps
begin

section \<open>What the history of a task can be\<close>

text \<open>
  A step of the task directory is one commit, or one rebuild of the alias of the last commit, by any
  process with any arguments. The lemmas follow one task through any sequence of such steps: which
  commits are accepted, how the record that a read returns changes, and what never changes again.
\<close>

subsection \<open>Transitions that are accepted\<close>

lemma push_task_log_fields [simp]:
  "st_record_version (push_task_log l m s) = st_record_version s" "st_owner_generation (push_task_log l m s) = st_owner_generation s"
  "st_task_id (push_task_log l m s) = st_task_id s" "st_envelope (push_task_log l m s) = st_envelope s"
  "st_replay_delivery (push_task_log l m s) = st_replay_delivery s" "st_status (push_task_log l m s) = st_status s"
  "st_attempts (push_task_log l m s) = st_attempts s" "st_execution_owner (push_task_log l m s) = st_execution_owner s"
  "st_retry_max_attempts (push_task_log l m s) = st_retry_max_attempts s"
  "st_cancel_requested (push_task_log l m s) = st_cancel_requested s" "st_cancel_accepted (push_task_log l m s) = st_cancel_accepted s"
  "st_cancel_reason (push_task_log l m s) = st_cancel_reason s" "st_heartbeat_at_ms (push_task_log l m s) = st_heartbeat_at_ms s"
  "st_deadline_at_ms (push_task_log l m s) = st_deadline_at_ms s" "st_cancel_token (push_task_log l m s) = st_cancel_token s"
  "st_result_digest (push_task_log l m s) = st_result_digest s" "st_result_size_bytes (push_task_log l m s) = st_result_size_bytes s"
  "st_interrupted_reason (push_task_log l m s) = st_interrupted_reason s" "st_error_kind (push_task_log l m s) = st_error_kind s"
  "st_error_message (push_task_log l m s) = st_error_message s" "st_error_retryable (push_task_log l m s) = st_error_retryable s"
  "st_retry_ready_at_ms (push_task_log l m s) = st_retry_ready_at_ms s" "st_dead_letters (push_task_log l m s) = st_dead_letters s"
  "length (st_logs (push_task_log l m s)) = length (st_logs s) + 1"
  by (simp_all add: push_task_log_def)

lemma checked_task_Inr [res_simps]: "checked_task sha s = Inr s' \<longleftrightarrow> task_validate sha s = Inr () \<and> s' = s"
  by (auto simp: checked_task_def res_simps)

lemma checked_add_Some: "checked_add a b = Some c \<longleftrightarrow> unat c = unat a + unat (b :: 'a::len word)"
proof
  assume "checked_add a b = Some c"
  then show "unat c = unat a + unat b" by (auto simp: checked_add_def unat_word_ariths split: if_splits)
next
  assume c: "unat c = unat a + unat b"
  then have "unat a + unat b < 2 ^ LENGTH('a)" using unat_bound [of c] by simp
  moreover from this c have "c = a + b" by (simp add: unat_word_ariths word_unat_eq_iff)
  ultimately show "checked_add a b = Some c" by (simp add: checked_add_def)
qed

lemmas released = release_attempt_def clear_error_def clear_result_def

lemma retry_transition_keeps:
  assumes "task_retry_special_transition_matches sha s p"
  shows "st_attempts p = st_attempts s \<and> st_attempts s < st_retry_max_attempts s \<and> st_status s \<noteq> ''completed'' \<and>
    st_status s \<noteq> ''cancelled''"
proof -
  have "st_attempts p = st_attempts s \<and> st_attempts s < st_retry_max_attempts s \<and> st_status s \<in> {''failed'', ''timed_out''}"
    if "task_retry_requeue_candidate s = Some p"
    using that by (auto simp: task_retry_requeue_candidate_def task_retry_is_eligible_def released split: if_splits)
  moreover have "st_attempts p = st_attempts s \<and> st_attempts s < st_retry_max_attempts s \<and> st_status s \<in> {''failed'', ''timed_out''}"
    if "task_retry_schedule_candidate s r = Some p" for r
    using that by (auto simp: task_retry_schedule_candidate_def task_retry_is_eligible_def split: if_splits)
  moreover have "st_attempts p = st_attempts s \<and> st_attempts s < st_retry_max_attempts s \<and>
      st_status s \<in> {''running'', ''interrupted'', ''recovering''}"
    if "task_replay_recovery_candidate sha s = Some p"
    using that
    by (auto simp: task_replay_recovery_candidate_def res_ok_def mark_abandoned_replay_delivery_queued_def abandoned_def
        released res_simps split: sum.splits if_splits)
  moreover have "st_attempts p = st_attempts s \<and> st_attempts s < st_retry_max_attempts s \<and>
      st_status s \<in> {''running'', ''interrupted'', ''recovering''}"
    if "task_abandoned_recovery_candidate sha s = Some p"
    using that
    by (auto simp: task_abandoned_recovery_candidate_def res_ok_def mark_abandoned_task_queued_def abandoned_def
        released res_simps split: sum.splits if_splits)
  ultimately show ?thesis using assms
    by (auto simp: task_retry_special_transition_matches_def split: option.splits)
qed

lemma recover_committed_effect_result:
  assumes "recover_committed_effect sha operation digest bytes s = Inr p"
  shows "st_status p = ''completed'' \<and> st_result_digest p = Some digest \<and> st_result_size_bytes p = Some bytes \<and>
    st_attempts p = st_attempts s \<and> st_execution_owner p = st_execution_owner s \<and> st_cancel_token p = st_cancel_token s \<and>
    (st_status s = ''completed'' \<longrightarrow> p = s)"
  using assms
  by (auto simp: recover_committed_effect_def res_simps clear_error_def split: if_splits)

lemma block_unknown_effect_result:
  assumes "block_unknown_effect sha operation s = Inr p"
  shows "st_status p = ''interrupted'' \<and> st_interrupted_reason p = Some (UNKNOWN_EFFECT_RECOVERY_REASON_PREFIX @ operation) \<and>
    st_attempts p = st_attempts s \<and> st_execution_owner p = st_execution_owner s \<and> st_cancel_token p = st_cancel_token s \<and>
    st_status s \<noteq> ''completed''"
  using assms
  by (auto simp: block_unknown_effect_def Let_def res_simps clear_error_def clear_result_def split: if_splits)

lemma recovery_transition_keeps:
  assumes "task_restart_recovery_transition_matches sha s p"
  shows "st_attempts p = st_attempts s \<and> st_execution_owner p = st_execution_owner s \<and> st_cancel_token p = st_cancel_token s \<and>
    st_status s \<noteq> ''completed'' \<and> st_status p \<in> {''completed'', ''interrupted''}"
proof -
  have len: "length (st_logs p) = length (st_logs s) + 1"
    using assms by (auto simp: task_restart_recovery_transition_matches_def split: if_splits)
  have "(\<exists>operation digest bytes. recover_committed_effect sha operation digest bytes s = Inr p) \<or>
      (\<exists>operation. block_unknown_effect sha operation s = Inr p)"
    using assms
    by (auto simp: task_restart_recovery_transition_matches_def Let_def split: if_splits option.splits)
  then show ?thesis
  proof (elim disjE exE)
    fix operation digest bytes assume r: "recover_committed_effect sha operation digest bytes s = Inr p"
    note facts = recover_committed_effect_result [OF r]
    have "st_status s \<noteq> ''completed''" using facts len by auto
    with facts show ?thesis by simp
  next
    fix operation assume "block_unknown_effect sha operation s = Inr p"
    then show ?thesis using block_unknown_effect_result by blast
  qed
qed

text \<open>The transitions that some commit mode accepts.\<close>

definition accepted_transition :: "(string \<Rightarrow> string) \<Rightarrow> commit_mode \<Rightarrow> task_state \<Rightarrow> task_state \<Rightarrow> bool" where
  "accepted_transition sha mode s p \<longleftrightarrow> validate_task_state_transition sha s p (allow_attempt_outcome mode)
     (allow_heartbeat mode) (allow_retry_requeue mode) (allow_restart_recovery mode) = Inr ()"

lemma accepted_attempts:
  assumes "accepted_transition sha mode s p"
  shows "is_claim s p \<and> unat (st_attempts p) = unat (st_attempts s) + 1 \<or> \<not> is_claim s p \<and> st_attempts p = st_attempts s"
proof (cases "is_claim s p")
  case True
  then show ?thesis by (auto simp: is_claim_def checked_add_Some)
next
  case False
  have "st_attempts p = st_attempts s"
  proof (rule ccontr)
    assume "st_attempts p \<noteq> st_attempts s"
    then have "task_retry_special_transition_matches sha s p \<or> task_restart_recovery_transition_matches sha s p"
      using assms False
      by (auto simp: accepted_transition_def validate_task_state_transition_def Let_def split: if_splits)
    then show False using \<open>st_attempts p \<noteq> st_attempts s\<close> retry_transition_keeps [of sha s p]
        recovery_transition_keeps [of sha s p] by auto
  qed
  then show ?thesis using False by simp
qed

lemma accepted_completed:
  assumes "accepted_transition sha mode s p" and fin: "st_status s = ''completed''"
  shows "st_status p = ''completed'' \<and> st_result_digest p = st_result_digest s \<and>
    st_result_size_bytes p = st_result_size_bytes s \<and> st_attempts p = st_attempts s \<and>
    st_execution_owner p = st_execution_owner s \<and> st_cancel_token p = st_cancel_token s"
proof -
  have "\<not> task_retry_special_transition_matches sha s p" "\<not> task_restart_recovery_transition_matches sha s p"
    "\<not> is_claim s p" "is_terminal s"
    using fin retry_transition_keeps [of sha s p] recovery_transition_keeps [of sha s p]
    by (auto simp: is_claim_def is_terminal_def)
  then show ?thesis
    using assms
    by (auto simp: accepted_transition_def validate_task_state_transition_def Let_def lifecycle_allowed_def res_simps
        split: if_splits)
qed

subsection \<open>One step of the directory\<close>

inductive task_step :: "(string \<Rightarrow> string) \<Rightarrow> directory \<Rightarrow> directory \<Rightarrow> bool" for sha where
  step_commit: "commit_snapshot sha st io s expected mode dir = (r, dir') \<Longrightarrow> task_step sha dir dir'"
| step_refresh: "refresh_latest sha st io t dir = (r, dir') \<Longrightarrow> task_step sha dir dir'"

abbreviation task_path :: "string \<Rightarrow> string" where
  "task_path t \<equiv> t @ ''.task''"

lemma task_path_inj: "task_path t = task_path u \<longleftrightarrow> t = u"
  by simp

lemma task_path_latest: "task_path t = latest_task_file \<longleftrightarrow> t = ''latest-basic''"
proof -
  have "latest_task_file = task_path ''latest-basic''" by (simp add: latest_task_file_def)
  then have "task_path t = latest_task_file \<longleftrightarrow> task_path t = task_path ''latest-basic''" by metis
  then show ?thesis unfolding task_path_inj .
qed

lemma task_file_Inr: "task_file t = Inr name \<longleftrightarrow> stable_id t \<and> name = task_path t"
  by (auto simp: task_file_def res_simps request_id_parse_def validate_id_iff)

lemma atomic_write_cases:
  assumes "atomic_write outcome dir name data = (r, dir')"
  shows "dir' = dir_put dir name data \<or> dir' = dir \<and> is_err r" "r = Inr u \<Longrightarrow> dir' = dir_put dir name data"
  using assms by (auto simp: atomic_write_def split: write_outcome.splits)

definition commit_generation :: "task_fs_store \<Rightarrow> u64" where
  "commit_generation st = (case fs_task_writer st of None \<Rightarrow> 0 | Some w \<Rightarrow> lw_generation w)"

lemma commit_snapshot_cases:
  assumes "commit_snapshot sha st io s expected mode dir = (r, dir')"
  shows "dir' = dir \<and> is_err r \<or>
    (\<exists>found c. stable_id (st_task_id s) \<and>
       read_optional_task_snapshot sha st io dir (task_path (st_task_id s)) = Inr found \<and>
       commit_checks sha st (task_path (st_task_id s)) (commit_generation st) s expected mode found = Inr c \<and>
       (dir' = dir \<and> is_err r \<or> dir' = dir_put dir (task_path (st_task_id s)) (task_to_storage c) \<and> is_err r \<or>
        dir' = dir_put (dir_put dir (task_path (st_task_id s)) (task_to_storage c)) latest_task_file (task_to_storage c) \<and>
        (r = Inr c \<or> is_err r)))"
proof -
  consider (same) "dir' = dir" "is_err r"
    | (stored) found c where "task_file (st_task_id s) = Inr (task_path (st_task_id s))"
        "read_optional_task_snapshot sha st io dir (task_path (st_task_id s)) = Inr found"
        "commit_checks sha st (task_path (st_task_id s)) (commit_generation st) s expected mode found = Inr c"
        "write_committed st io (task_path (st_task_id s)) c dir = (r, dir')"
    using assms
    by (auto simp: commit_snapshot_def with_writer_transaction_def record_locked_def commit_generation_def res_simps
        task_file_Inr split: sum.splits option.splits if_splits prod.splits)
  then show ?thesis
  proof cases
    case (stored found c)
    obtain r1 d1 where w1: "atomic_write (ti_write io) dir (task_path (st_task_id s)) (task_to_storage c) = (r1, d1)"
      by (rule prod.exhaust)
    obtain r2 d2 where w2: "atomic_write (ti_write_latest io) d1 latest_task_file (task_to_storage c) = (r2, d2)"
      by (rule prod.exhaust)
    have "dir' = dir \<and> is_err r \<or> dir' = dir_put dir (task_path (st_task_id s)) (task_to_storage c) \<and> is_err r \<or>
        dir' = dir_put (dir_put dir (task_path (st_task_id s)) (task_to_storage c)) latest_task_file (task_to_storage c) \<and>
        (r = Inr c \<or> is_err r)"
      using stored(4) w1 w2 atomic_write_cases [OF w1] atomic_write_cases [OF w2]
      by (cases r1; cases r2) (auto simp: write_committed_def)
    then show ?thesis using stored(1-3) by (auto simp: task_file_Inr)
  qed simp
qed

subsection \<open>The record of a task in a directory\<close>

definition task_at :: "(string \<Rightarrow> string) \<Rightarrow> directory \<Rightarrow> string \<Rightarrow> task_state option" where
  "task_at sha dir t = (case map_of dir (task_path t) of
     None \<Rightarrow> None
   | Some data \<Rightarrow>
       if \<not> text_ok data then None
       else (case task_from_storage sha data of Inl _ \<Rightarrow> None | Inr s \<Rightarrow> if st_task_id s = t then Some s else None))"

lemma task_read_at: "task_read sha st io dir (Some t) = Inr s \<Longrightarrow> task_at sha dir t = Some s \<and> stable_id t"
  by (auto simp: task_read_def read_task_snapshot_def read_optional_task_snapshot_def read_task_data_def task_at_def
      task_file_Inr res_simps Let_def map_err_def split: option.splits if_splits sum.splits)

lemma task_at_read:
  assumes "task_at sha dir t = Some s" and "ti_read_error io (task_path t) = None" and "stable_id t"
  shows "task_read sha st io dir (Some t) = Inr s"
  using assms task_file_Inr [of t "task_path t"]
  by (auto simp: task_read_def read_task_snapshot_def read_optional_task_snapshot_def read_task_data_def task_at_def
      map_err_def Let_def split: option.splits if_splits sum.splits)

lemma read_optional_at:
  assumes "read_optional_task_snapshot sha st io dir (task_path t) = Inr (Some s)" and "st_task_id s = t"
  shows "task_at sha dir t = Some s"
  using assms
  by (auto simp: read_optional_task_snapshot_def read_task_data_def task_at_def map_err_def Let_def
      split: option.splits if_splits sum.splits)

lemma read_optional_None:
  "read_optional_task_snapshot sha st io dir name = Inr None \<Longrightarrow> map_of dir name = None"
  by (auto simp: read_optional_task_snapshot_def read_task_data_def Let_def map_err_def
      split: option.splits if_splits sum.splits)

lemma commit_checks_Inr:
  "commit_checks sha st name generation s expected mode found = Inr c \<longleftrightarrow>
     (\<forall>r. found = Some r \<longrightarrow> check_against_current sha st name s mode r = Inr ()) \<and> \<not> (create_only mode \<and> found \<noteq> None) \<and>
     expected = (case found of None \<Rightarrow> 0 | Some r \<Rightarrow> st_record_version r) \<and>
     (\<exists>version. checked_next expected = Inr version \<and>
        checked_task sha (s\<lparr>st_record_version := version, st_owner_generation := generation\<rparr>) = Inr c)"
  by (cases found) (simp_all add: commit_checks_def Let_def res_bind_Inr reject_if_Inr eq_commute [of _ expected] cong: conj_cong)

lemma commit_checks_result:
  assumes "commit_checks sha st name generation s expected mode found = Inr c"
  shows "task_validate sha c = Inr ()" "c = s\<lparr>st_record_version := st_record_version c, st_owner_generation := generation\<rparr>"
    "unat (st_record_version c) = unat (case found of None \<Rightarrow> 0 | Some r \<Rightarrow> st_record_version r) + 1"
    "st_record_version c \<noteq> 0" "expected = (case found of None \<Rightarrow> 0 | Some r \<Rightarrow> st_record_version r)"
    "\<And>r. found = Some r \<Longrightarrow> st_task_id r = st_task_id s \<and> st_owner_generation r = st_owner_generation s \<and>
       st_envelope r = st_envelope s \<and> st_replay_delivery r = st_replay_delivery s \<and> accepted_transition sha mode r s"
proof -
  have current: "\<forall>r. found = Some r \<longrightarrow> check_against_current sha st name s mode r = Inr ()"
    and e: "expected = (case found of None \<Rightarrow> 0 | Some r \<Rightarrow> st_record_version r)"
    using assms unfolding commit_checks_Inr by blast+
  obtain version where "checked_next expected = Inr version"
    "checked_task sha (s\<lparr>st_record_version := version, st_owner_generation := generation\<rparr>) = Inr c"
    using assms unfolding commit_checks_Inr by blast
  then have v: "checked_next (case found of None \<Rightarrow> 0 | Some r \<Rightarrow> st_record_version r) = Inr version"
    "task_validate sha c = Inr ()" "c = s\<lparr>st_record_version := version, st_owner_generation := generation\<rparr>"
    using e by (auto simp: checked_task_Inr)
  show "task_validate sha c = Inr ()" by (rule v(2))
  show "c = s\<lparr>st_record_version := st_record_version c, st_owner_generation := generation\<rparr>" using v(3) by simp
  show "expected = (case found of None \<Rightarrow> 0 | Some r \<Rightarrow> st_record_version r)" by (rule e)
  have "unat version = unat (case found of None \<Rightarrow> 0 | Some r \<Rightarrow> st_record_version r) + 1"
    using v(1) by (simp add: checked_next_def res_simps checked_add_Some)
  then show "unat (st_record_version c) = unat (case found of None \<Rightarrow> 0 | Some r \<Rightarrow> st_record_version r) + 1"
    using v(3) by simp
  then show "st_record_version c \<noteq> 0" by auto
  show "st_task_id r = st_task_id s \<and> st_owner_generation r = st_owner_generation s \<and> st_envelope r = st_envelope s \<and>
      st_replay_delivery r = st_replay_delivery s \<and> accepted_transition sha mode r s" if "found = Some r" for r
    using current that by (auto simp: check_against_current_def accepted_transition_def split: if_splits)
qed

text \<open>What a file that was written by a commit reads as.\<close>

lemma task_at_written:
  assumes "map_of dir (task_path t) = Some (task_to_storage c)" and "task_validate sha c = Inr ()"
    and "st_record_version c \<noteq> 0" and "task_at sha dir t = Some s"
  shows "s = stored_view c"
  using assms task_from_to_storage [of sha c]
  by (auto simp: task_at_def checked_task_Inr split: if_splits sum.splits)

lemma stored_view_fields [simp]:
  "st_record_version (stored_view s) = st_record_version s" "st_owner_generation (stored_view s) = st_owner_generation s"
  "st_task_id (stored_view s) = st_task_id s" "st_envelope (stored_view s) = st_envelope s"
  "st_replay_delivery (stored_view s) = st_replay_delivery s" "st_status (stored_view s) = st_status s"
  "st_attempts (stored_view s) = st_attempts s" "st_execution_owner (stored_view s) = st_execution_owner s"
  "st_retry_max_attempts (stored_view s) = st_retry_max_attempts s"
  "st_cancel_token (stored_view s) = st_cancel_token s" "st_result_digest (stored_view s) = st_result_digest s"
  "st_result_size_bytes (stored_view s) = st_result_size_bytes s" "st_heartbeat_at_ms (stored_view s) = st_heartbeat_at_ms s"
  "st_deadline_at_ms (stored_view s) = st_deadline_at_ms s" "st_cancel_requested (stored_view s) = st_cancel_requested s"
  "st_cancel_accepted (stored_view s) = st_cancel_accepted s" "st_dead_letters (stored_view s) = st_dead_letters s"
  by (simp_all add: stored_view_def)

text \<open>
  How the record of one task may change in a step: an accepted transition with the next version. Here
  \<open>p\<close> is what the committing process proposed.
\<close>

definition advances :: "(string \<Rightarrow> string) \<Rightarrow> task_state \<Rightarrow> task_state \<Rightarrow> bool" where
  "advances sha s s' \<longleftrightarrow> (\<exists>mode p version generation. accepted_transition sha mode s p \<and>
     st_envelope p = st_envelope s \<and> st_replay_delivery p = st_replay_delivery s \<and>
     st_owner_generation p = st_owner_generation s \<and>
     unat version = unat (st_record_version s) + 1 \<and>
     s' = stored_view (p\<lparr>st_record_version := version, st_owner_generation := generation\<rparr>))"

lemma commit_step_at:
  assumes c: "commit_snapshot sha st io s expected mode dir = (r, dir')" and t: "t \<noteq> ''latest-basic''"
    and at: "task_at sha dir' t = Some s'"
  shows "task_at sha dir t = Some s' \<or> map_of dir (task_path t) = None \<and> st_record_version s' = 1 \<or>
    (\<exists>r. task_at sha dir t = Some r \<and> advances sha r s')"
proof (cases "map_of dir' (task_path t) = map_of dir (task_path t)")
  case True
  then show ?thesis using at by (simp add: task_at_def)
next
  case False
  let ?f = "task_path (st_task_id s)"
  obtain found c where fc: "read_optional_task_snapshot sha st io dir ?f = Inr found"
    "commit_checks sha st ?f (commit_generation st) s expected mode found = Inr c"
    "dir' = dir_put dir ?f (task_to_storage c) \<or>
     dir' = dir_put (dir_put dir ?f (task_to_storage c)) latest_task_file (task_to_storage c)"
    using commit_snapshot_cases [OF c] False by auto
  have "latest_task_file \<noteq> task_path t" using task_path_latest [of t] t by auto
  then have id: "t = st_task_id s" and data: "map_of dir' (task_path t) = Some (task_to_storage c)"
    using fc(3) False by (auto simp: map_of_dir_put split: if_splits)
  note checks = commit_checks_result [OF fc(2)]
  have s': "s' = stored_view c" by (rule task_at_written [OF data checks(1,4) at])
  show ?thesis
  proof (cases found)
    case None
    then have "map_of dir (task_path t) = None" using fc(1) id read_optional_None by simp
    moreover have "unat (st_record_version s') = 1" using checks(3) None s' by simp
    ultimately show ?thesis by (simp add: word_unat_eq_iff)
  next
    case (Some cur)
    then have "task_at sha dir t = Some cur" using fc(1) id checks(6) read_optional_at by auto
    moreover have "advances sha cur s'"
    proof -
      have "stored_view c = stored_view (s\<lparr>st_record_version := st_record_version c, st_owner_generation := commit_generation st\<rparr>)"
        using checks(2) by (rule arg_cong)
      moreover have "unat (st_record_version c) = unat (st_record_version cur) + 1" using checks(3) Some by simp
      ultimately show ?thesis unfolding advances_def s' using checks(6) [OF Some] by metis
    qed
    ultimately show ?thesis by blast
  qed
qed

text \<open>Files are replaced, never removed, and the alias of the last commit is not the file of a task with another name.\<close>

lemma task_step_files:
  assumes "task_step sha dir dir'" shows "map_of dir n \<noteq> None \<Longrightarrow> map_of dir' n \<noteq> None"
  using assms
proof cases
  case (step_commit st io s expected mode r)
  show "map_of dir n \<noteq> None \<Longrightarrow> map_of dir' n \<noteq> None"
    using commit_snapshot_cases [OF step_commit] by (auto simp: map_of_dir_put)
next
  case (step_refresh st io t r)
  show "map_of dir n \<noteq> None \<Longrightarrow> map_of dir' n \<noteq> None"
    using step_refresh
    by (auto simp: refresh_latest_def with_writer_transaction_def record_locked_def atomic_write_def map_of_dir_put
        split: sum.splits option.splits if_splits write_outcome.splits)
qed

lemma refresh_latest_files:
  assumes "refresh_latest sha st io u dir = (r, dir')"
  shows "n \<noteq> latest_task_file \<Longrightarrow> map_of dir' n = map_of dir n" and "r = Inr s \<Longrightarrow> task_at sha dir u = Some s"
  using assms task_read_at [of sha st io dir u s]
  by (auto simp: refresh_latest_def with_writer_transaction_def record_locked_def atomic_write_def map_of_dir_put
      split: sum.splits option.splits if_splits write_outcome.splits)

lemma task_step_at:
  assumes "task_step sha dir dir'" and t: "t \<noteq> ''latest-basic''" and at: "task_at sha dir' t = Some s'"
  shows "task_at sha dir t = Some s' \<or> map_of dir (task_path t) = None \<and> st_record_version s' = 1 \<or>
    (\<exists>s. task_at sha dir t = Some s \<and> advances sha s s')"
  using assms(1)
proof cases
  case (step_commit st io s expected mode r)
  then show ?thesis using commit_step_at [OF _ t at] by blast
next
  case (step_refresh st io u r)
  have "map_of dir' (task_path t) = map_of dir (task_path t)"
    using refresh_latest_files(1) [OF step_refresh] task_path_latest [of t] t by blast
  then show ?thesis using at by (simp add: task_at_def)
qed

subsection \<open>What every step keeps\<close>

text \<open>
  The order in which the records of one task can follow each other: versions and attempts grow, the
  envelope never changes, and a completed task keeps its result.
\<close>

definition later_record :: "task_state \<Rightarrow> task_state \<Rightarrow> bool" where
  "later_record s s' \<longleftrightarrow> st_record_version s \<le> st_record_version s' \<and> st_attempts s \<le> st_attempts s' \<and>
     st_envelope s' = st_envelope s \<and> st_replay_delivery s' = st_replay_delivery s \<and>
     (st_status s = ''completed'' \<longrightarrow> st_status s' = ''completed'' \<and> st_result_digest s' = st_result_digest s \<and>
        st_result_size_bytes s' = st_result_size_bytes s)"

lemma later_record_refl [simp]: "later_record s s"
  by (simp add: later_record_def)

lemma later_record_trans: "later_record a b \<Longrightarrow> later_record b c \<Longrightarrow> later_record a c"
  by (auto simp: later_record_def)

lemma advances_follows:
  assumes "advances sha s s'" shows "later_record s s'" and "st_record_version s < st_record_version s'"
proof -
  obtain mode p version generation where p: "accepted_transition sha mode s p" "st_envelope p = st_envelope s"
    "st_replay_delivery p = st_replay_delivery s" "unat version = unat (st_record_version s) + 1"
    "s' = stored_view (p\<lparr>st_record_version := version, st_owner_generation := generation\<rparr>)"
    using assms unfolding advances_def by blast
  have "st_attempts s \<le> st_attempts p"
    using accepted_attempts [OF p(1)] by (auto simp: word_le_nat_alt)
  moreover have "st_record_version s < version" using p(4) by (simp add: word_less_nat_alt)
  ultimately show "later_record s s'" "st_record_version s < st_record_version s'"
    using p(2,3,5) accepted_completed [OF p(1)] by (auto simp: later_record_def)
qed

lemma task_steps_follow:
  assumes "(task_step sha)\<^sup>*\<^sup>* dir dir'" and t: "t \<noteq> ''latest-basic''" and "map_of dir (task_path t) \<noteq> None"
    and "task_at sha dir' t = Some s'"
  shows "\<exists>s. task_at sha dir t = Some s \<and> later_record s s'"
proof -
  have "map_of dir' (task_path t) \<noteq> None \<and>
      (\<forall>s'. task_at sha dir' t = Some s' \<longrightarrow> (\<exists>s. task_at sha dir t = Some s \<and> later_record s s'))"
    using assms(1)
  proof (induction rule: rtranclp_induct)
    case base
    show ?case using assms(3) by simp
  next
    case (step d d')
    have "\<exists>s. task_at sha dir t = Some s \<and> later_record s s''" if at: "task_at sha d' t = Some s''" for s''
    proof -
      from task_step_at [OF step.hyps(2) t at] step.IH
      consider "task_at sha d t = Some s''" | s' where "task_at sha d t = Some s'" "advances sha s' s''" by blast
      then show ?thesis using step.IH advances_follows(1) later_record_trans by cases blast+
    qed
    then show ?case using task_step_files [OF step.hyps(2)] step.IH by blast
  qed
  then show ?thesis using assms(4) by blast
qed

subsection \<open>Every operation is a sequence of steps\<close>

text \<open>The other processes of a call also change the directory through the store only.\<close>

definition others_step :: "(string \<Rightarrow> string) \<Rightarrow> (nat \<Rightarrow> task_io) \<Rightarrow> bool" where
  "others_step sha ios \<longleftrightarrow> (\<forall>k d. (task_step sha)\<^sup>*\<^sup>* d (ti_others (ios k) d))"

lemma commit_steps: "task_step sha d (snd (commit_snapshot sha st io s expected mode d))"
  by (rule step_commit, rule surjective_pairing)

lemma compare_steps: "task_step sha d (snd (compare_and_set sha st io mode s d))"
  unfolding compare_and_set_def by (rule commit_steps)

lemma refresh_steps: "task_step sha d (snd (refresh_latest sha st io t d))"
  by (rule step_refresh, rule surjective_pairing)

lemma others_then:
  assumes "others_step sha ios" and "(task_step sha)\<^sup>*\<^sup>* (ti_others (ios k) d) d'"
  shows "(task_step sha)\<^sup>*\<^sup>* d d'"
  using assms unfolding others_step_def by (meson rtranclp_trans)

lemma others_then_step:
  "others_step sha ios \<Longrightarrow> task_step sha (ti_others (ios k) d) d' \<Longrightarrow> (task_step sha)\<^sup>*\<^sup>* d d'"
  using others_then r_into_rtranclp by metis

lemma cas_stopped_steps:
  assumes "others_step sha ios" shows "(task_step sha)\<^sup>*\<^sup>* d (snd (cas_stopped sha st (ios k) t stop d))"
  using others_then [OF assms, of k d] refresh_steps [of sha "ti_others (ios k) d" st "ios k" t]
  by (cases stop) (auto simp: cas_stopped_def)

lemma cas_rounds_steps:
  assumes others: "others_step sha ios"
  shows "(task_step sha)\<^sup>*\<^sup>* d (snd (cas_rounds sha st ios t mode plan settle limit n k d))"
proof (induction n arbitrary: k d)
  case (Suc n)
  let ?d1 = "ti_others (ios k) d"
  have "(task_step sha)\<^sup>*\<^sup>* ?d1 (snd (cas_rounds sha st ios t mode plan settle limit (Suc n) k d))"
  proof (cases "task_read sha st (ios k) ?d1 (Some t)")
    case (Inr current)
    show ?thesis
    proof (cases "plan current")
      case (Inl stop)
      then show ?thesis using Inr cas_stopped_steps [OF others, of ?d1 st "k + 1" t stop] by simp
    next
      case (Inr candidate)
      let ?d2 = "ti_others (ios (k + 1)) ?d1"
      obtain r d3 where c: "compare_and_set sha st (ios (k + 1)) mode candidate ?d2 = (r, d3)" by (rule prod.exhaust)
      have to3: "(task_step sha)\<^sup>*\<^sup>* ?d1 d3"
      proof -
        have "task_step sha ?d2 d3" using compare_steps [of sha ?d2 st "ios (k + 1)" mode candidate] c by simp
        then show ?thesis by (rule others_then_step [OF others])
      qed
      let ?d4 = "ti_others (ios (k + 2)) d3"
      have to4: "(task_step sha)\<^sup>*\<^sup>* ?d1 ?d4" using to3 others unfolding others_step_def by (meson rtranclp_trans)
      have later: "(task_step sha)\<^sup>*\<^sup>* ?d1 d'" if "(task_step sha)\<^sup>*\<^sup>* ?d4 d'" for d'
        using to4 that by (rule rtranclp_trans)
      show ?thesis
        using \<open>task_read sha st (ios k) ?d1 (Some t) = Inr current\<close> Inr c to3 to4
          later [OF cas_stopped_steps [OF others, of ?d4 st "k + 3" t]] later [OF Suc.IH [of ?d4 "k + 4"]]
        by (auto simp: Let_def split: sum.splits option.splits)
    qed
  qed simp
  then show ?case by (rule others_then [OF others])
qed simp

lemma cas_operation_steps:
  "others_step sha ios \<Longrightarrow> (task_step sha)\<^sup>*\<^sup>* d (snd (cas_operation sha st ios t mode plan settle limit d))"
  unfolding cas_operation_def by (rule cas_rounds_steps)

lemma after_checks_steps:
  "(\<And>x. (task_step sha)\<^sup>*\<^sup>* d (snd (k x))) \<Longrightarrow> (task_step sha)\<^sup>*\<^sup>* d (snd (after_checks r d k))"
  by (cases r) (simp_all add: after_checks_def)

lemma claim_lost_steps:
  assumes others: "others_step sha ios"
  shows "(task_step sha)\<^sup>*\<^sup>* d (snd (claim_lost sha st ios t owner token attempt s e d))"
proof -
  let ?d3 = "ti_others (ios 2) d"
  have "(task_step sha)\<^sup>*\<^sup>* ?d3 (snd (refresh_latest sha st (ios 3) t (ti_others (ios 3) ?d3)))"
    by (rule others_then_step [OF others refresh_steps])
  then have "(task_step sha)\<^sup>*\<^sup>* ?d3 (snd (claim_lost sha st ios t owner token attempt s e d))"
    by (auto simp: claim_lost_def Let_def split: sum.splits prod.splits)
  then show ?thesis by (rule others_then [OF others])
qed

lemma try_claim_steps:
  assumes others: "others_step sha ios"
  shows "(task_step sha)\<^sup>*\<^sup>* d (snd (try_claim_queued sha st ios t owner token now d))"
proof -
  let ?d1 = "ti_others (ios 0) d"
  have committed: "(task_step sha)\<^sup>*\<^sup>* ?d1 (snd (compare_and_set sha st (ios 1) CompareAndSet c (ti_others (ios 1) ?d1)))" for c
    by (rule others_then_step [OF others compare_steps])
  have "(task_step sha)\<^sup>*\<^sup>* ?d1 (snd (claim_lost sha st ios t owner token attempt s e d2))"
    if "compare_and_set sha st (ios 1) CompareAndSet c (ti_others (ios 1) ?d1) = (r, d2)" for c r d2 attempt s e
    using committed [of c] claim_lost_steps [OF others, of d2 st t owner token attempt s e] that by (auto intro: rtranclp_trans)
  then have "(task_step sha)\<^sup>*\<^sup>* ?d1 (snd (try_claim_queued sha st ios t owner token now d)) \<or>
      snd (try_claim_queued sha st ios t owner token now d) = d"
    using committed
    by (auto simp: try_claim_queued_def Let_def split: sum.splits prod.splits)
      (metis snd_conv)+
  then show ?thesis using others_then [OF others] by auto
qed

lemma update_snapshot_steps:
  assumes others: "others_step sha ios"
  shows "(task_step sha)\<^sup>*\<^sup>* d (snd (update_snapshot sha st ios t f d))"
proof -
  let ?d1 = "ti_others (ios 0) d"
  have to1: "(task_step sha)\<^sup>*\<^sup>* d ?d1" using others by (simp add: others_step_def)
  have "(task_step sha)\<^sup>*\<^sup>* d (snd (compare_and_set sha st (ios 1) CompareAndSet s (ti_others (ios 1) ?d1)))" for s
    using to1 others_then [OF others, of 1 ?d1] compare_steps [of sha "ti_others (ios 1) ?d1" st "ios 1" CompareAndSet s]
    by (meson r_into_rtranclp rtranclp_trans)
  then show ?thesis using to1 by (simp add: update_snapshot_def Let_def split: sum.splits)
qed

datatype task_call =
    CallCreate task_state
  | CallCompareAndSet task_state
  | CallUpdate string "task_state \<Rightarrow> task_state res"
  | CallRefresh string
  | CallClaim string string string u128
  | CallRequeue string u128
  | CallRecoverReplay string
  | CallRecoverTask string
  | CallRecoverCommitted string string string u64
  | CallBlockUnknown string string
  | CallFinish attempt_fence attempt_outcome
  | CallFinishCommitted attempt_fence string u64
  | CallBlockPrepared attempt_fence string
  | CallCancelExecution attempt_fence string
  | CallCancel string string
  | CallHeartbeat attempt_fence u128

fun task_call_dir ::
  "(string \<Rightarrow> string) \<Rightarrow> task_fs_store \<Rightarrow> (nat \<Rightarrow> task_io) \<Rightarrow> task_call \<Rightarrow> directory \<Rightarrow> directory" where
  "task_call_dir sha st ios (CallCreate s) d = snd (task_create sha st (ios 0) s (ti_others (ios 0) d))"
| "task_call_dir sha st ios (CallCompareAndSet s) d =
     snd (compare_and_set sha st (ios 0) CompareAndSet s (ti_others (ios 0) d))"
| "task_call_dir sha st ios (CallUpdate t f) d = snd (update_snapshot sha st ios t f d)"
| "task_call_dir sha st ios (CallRefresh t) d = snd (refresh_latest sha st (ios 0) t (ti_others (ios 0) d))"
| "task_call_dir sha st ios (CallClaim t owner token now) d = snd (try_claim_queued sha st ios t owner token now d)"
| "task_call_dir sha st ios (CallRequeue t now) d = snd (requeue_retryable sha st ios t now d)"
| "task_call_dir sha st ios (CallRecoverReplay t) d = snd (recover_abandoned_replay_delivery sha st ios t d)"
| "task_call_dir sha st ios (CallRecoverTask t) d = snd (recover_abandoned_task_for_retry sha st ios t d)"
| "task_call_dir sha st ios (CallRecoverCommitted t operation digest bytes) d =
     snd (recover_task_from_committed_effect sha st ios t operation digest bytes d)"
| "task_call_dir sha st ios (CallBlockUnknown t operation) d = snd (block_task_for_unknown_effect sha st ios t operation d)"
| "task_call_dir sha st ios (CallFinish f outcome) d = snd (finish_execution sha st ios f outcome d)"
| "task_call_dir sha st ios (CallFinishCommitted f digest bytes) d =
     snd (finish_committed_effect_execution sha st ios f digest bytes d)"
| "task_call_dir sha st ios (CallBlockPrepared f operation) d = snd (block_prepared_effect_execution sha st ios f operation d)"
| "task_call_dir sha st ios (CallCancelExecution f reason) d = snd (request_execution_cancellation sha st ios f reason d)"
| "task_call_dir sha st ios (CallCancel t reason) d = snd (request_cancellation sha st ios t reason d)"
| "task_call_dir sha st ios (CallHeartbeat f at) d = snd (heartbeat_execution sha st ios f at d)"

text \<open>
  Every operation of the task store, with any interference of other processes that also use the
  store, is a sequence of commits and alias rebuilds.
\<close>

lemma task_operations_are_steps:
  assumes "others_step sha ios"
  shows "(task_step sha)\<^sup>*\<^sup>* d (task_call_dir sha st ios call d)"
proof (cases call)
  case (CallCreate s)
  have "(task_step sha)\<^sup>*\<^sup>* (ti_others (ios 0) d) (snd (task_create sha st (ios 0) s (ti_others (ios 0) d)))"
    using commit_steps by (simp add: task_create_def r_into_rtranclp)
  then show ?thesis using CallCreate others_then [OF assms] by simp
next
  case (CallCompareAndSet s)
  then show ?thesis using others_then_step [OF assms compare_steps] by simp
next
  case (CallRefresh t)
  then show ?thesis using others_then_step [OF assms refresh_steps] by simp
qed (use assms in \<open>simp_all add: cas_operation_steps after_checks_steps try_claim_steps update_snapshot_steps
      requeue_retryable_def recover_abandoned_replay_delivery_def recover_abandoned_task_for_retry_def
      recover_task_from_committed_effect_def block_task_for_unknown_effect_def finish_execution_def
      finish_committed_effect_execution_def block_prepared_effect_execution_def request_execution_cancellation_def
      request_cancellation_def heartbeat_execution_def\<close>)

end
