(* ===== verification/Storage_TaskText.thy ===== *)
theory Storage_TaskText
  imports Storage_TaskOps
begin

section \<open>The text of a snapshot is valid UTF-8\<close>

text \<open>
  The texts of a snapshot are Rust strings, which hold valid UTF-8 (\<open>rust_task\<close>). Escaping rewrites
  ASCII bytes only, so the file of a valid snapshot can be read as a string again.
\<close>

lemma utf8_ascii_append: "\<forall>x \<in> set xs. x < 128 \<Longrightarrow> utf8_valid (xs @ ys) = utf8_valid ys"
  by (induction xs) simp_all

lemma utf8_append: "utf8_valid xs \<Longrightarrow> utf8_valid ys \<Longrightarrow> utf8_valid (xs @ ys)"
proof (induction xs rule: utf8_valid.induct)
  case (2 a rest)
  show ?case
    using 2 by (auto split: if_splits list.splits)
qed simp

lemma utf8_ascii_map:
  assumes "\<And>b. b < 128 \<Longrightarrow> \<forall>x \<in> set (f b). x < 128" and "\<And>b. 128 \<le> b \<Longrightarrow> f b = [b]"
  shows "utf8_valid bs \<Longrightarrow> utf8_valid (concat (map f bs))"
proof (induction bs rule: utf8_valid.induct)
  case (2 a rest)
  show ?case
  proof (cases "a < 128")
    case True
    then show ?thesis using 2 assms(1) by (simp add: utf8_ascii_append)
  next
    case False
    then show ?thesis using 2 assms(2) by (auto split: if_splits list.splits)
  qed
qed simp

lemma text_ok_append: "text_ok s \<Longrightarrow> text_ok t \<Longrightarrow> text_ok (s @ t)"
  using utf8_append by (simp add: str_bytes_def)

lemma text_ok_simps [simp]:
  "text_ok []" "byte c < 128 \<Longrightarrow> text_ok (c # s) = text_ok s" "text_ok (nat_str n)" "text_ok (opt_str w)"
  "text_ok (flag_str b)" "text_ok (encode_hex s)"
proof -
  show "text_ok (nat_str n)" by (rule ascii_text_ok [OF nat_str_graphic])
  show "text_ok (opt_str w)"
    using ascii_text_ok [OF nat_str_graphic] by (cases w) (simp_all add: opt_str_def str_bytes_def)
  have "\<forall>c \<in> set (encode_hex s). is_graphic c"
    using decode_encode_hex [of s "[]"] lower_hex_graphic by (simp add: decode_hex_def split: if_splits)
  then show "text_ok (encode_hex s)" by (rule ascii_text_ok)
qed (simp_all add: str_bytes_def flag_str_def)

lemma text_ok_encode_field [simp]:
  assumes "text_ok s" shows "text_ok (encode_task_field s)"
proof -
  let ?f = "\<lambda>b. if b < 256 then str_bytes (escaped (char_of b)) else [b]"
  have ascii: "byte c < 128 \<Longrightarrow> \<forall>x \<in> set (str_bytes (escaped c)). x < 128" for c
    by (simp add: escaped_def str_bytes_def)
  have low: "\<forall>x \<in> set (?f b). x < 128" if "b < 128" for b
    using that ascii [of "char_of b"] by simp
  have "128 \<le> byte c \<Longrightarrow> escaped c = [c]" for c
    by (auto simp: escaped_def)
  then have high: "128 \<le> b \<Longrightarrow> ?f b = [b]" for b by (simp add: str_bytes_def)
  have "str_bytes (encode_task_field s) = concat (map ?f (str_bytes s))"
    by (induction s) (simp_all add: str_bytes_def byte_less)
  then show ?thesis using utf8_ascii_map [of ?f, OF low high assms] by simp
qed

lemma text_ok_optional [simp]:
  "(\<And>t. v = Some t \<Longrightarrow> text_ok t) \<Longrightarrow> text_ok (optional_text encode_task_field v)"
  "(\<And>t. v = Some t \<Longrightarrow> text_ok t) \<Longrightarrow> text_ok (optional_text id v)"
  by (cases v; simp add: optional_text_def)+

lemma text_ok_join: "\<forall>x \<in> set xs. text_ok x \<Longrightarrow> text_ok (join [CHR 0x0A] xs)"
  by (induction "[CHR 0x0A]" xs rule: join.induct) (simp_all add: text_ok_append)

subsection \<open>Snapshots of Rust strings\<close>

definition option_texts :: "string option \<Rightarrow> string list" where
  "option_texts v = (case v of None \<Rightarrow> [] | Some t \<Rightarrow> [t])"

definition task_texts :: "task_state \<Rightarrow> string list" where
  "task_texts s = [st_status s] @ option_texts (st_execution_owner s) @ option_texts (st_cancel_reason s) @
     option_texts (st_cancel_token s) @ option_texts (st_interrupted_reason s) @ option_texts (st_error_kind s) @
     option_texts (st_error_message s) @ concat (map (\<lambda>l. [tl_level l, tl_message l]) (st_logs s)) @
     concat (map (\<lambda>d. [td_event_id d, td_topic d, td_reason_kind d, td_reason d]) (st_dead_letters s)) @
     concat (map (\<lambda>r. [tr_event_id r, tr_topic r]) (st_replayed_events s))"

definition rust_task :: "task_state \<Rightarrow> bool" where
  "rust_task s \<longleftrightarrow> (\<forall>t \<in> set (task_texts s). text_ok t)"

lemma option_texts_mem [simp]: "t \<in> set (option_texts v) \<longleftrightarrow> v = Some t"
  by (cases v) (auto simp: option_texts_def)

lemma rust_task_parts:
  assumes "rust_task s"
  shows "text_ok (st_status s)" "\<And>t. st_execution_owner s = Some t \<Longrightarrow> text_ok t" "\<And>t. st_cancel_reason s = Some t \<Longrightarrow> text_ok t"
    "\<And>t. st_cancel_token s = Some t \<Longrightarrow> text_ok t" "\<And>t. st_interrupted_reason s = Some t \<Longrightarrow> text_ok t"
    "\<And>t. st_error_kind s = Some t \<Longrightarrow> text_ok t" "\<And>t. st_error_message s = Some t \<Longrightarrow> text_ok t"
    "\<And>l. l \<in> set (st_logs s) \<Longrightarrow> text_ok (tl_level l) \<and> text_ok (tl_message l)"
    "\<And>d. d \<in> set (st_dead_letters s) \<Longrightarrow> text_ok (td_event_id d) \<and> text_ok (td_topic d) \<and> text_ok (td_reason_kind d) \<and>
       text_ok (td_reason d)"
    "\<And>r. r \<in> set (st_replayed_events s) \<Longrightarrow> text_ok (tr_event_id r) \<and> text_ok (tr_topic r)"
  using assms by (auto simp: rust_task_def task_texts_def)

definition field_text_ok :: "string \<times> string \<Rightarrow> bool" where
  "field_text_ok f \<longleftrightarrow> text_ok (fst f) \<and> text_ok (snd f)"

lemma artifact_key_graphic:
  assumes "validate_artifact_key key = Inr ()" shows "\<forall>c \<in> set key. is_graphic c"
proof
  fix c assume c: "c \<in> set key"
  have "\<forall>x \<in> set (split_on CHR ''/'' key). \<forall>c \<in> set x. is_ascii_alphanumeric c \<or> c = CHR ''-'' \<or> c = CHR ''_'' \<or> c = CHR ''.''"
    using assms by (auto simp: validate_artifact_key_def Let_def res_all_ok res_simps split: if_splits)
  moreover have "c = CHR ''/'' \<or> (\<exists>x \<in> set (split_on CHR ''/'' key). c \<in> set x)"
    using set_split_on [of key "CHR ''/''"] c by auto
  ultimately have "c = CHR ''/'' \<or> is_ascii_alphanumeric c \<or> c = CHR ''-'' \<or> c = CHR ''_'' \<or> c = CHR ''.''" by blast
  then show "is_graphic c" using alphanumeric_graphic [of c] by (elim disjE) (simp_all add: is_graphic_def)
qed

lemma envelope_texts:
  assumes "envelope_validate sha v = Inr ()"
  shows "text_ok (ev_kind v)" "text_ok (ev_agent_id v)" "text_ok (ev_idempotency_key v)" "text_ok (input_digest (ev_input v))"
    "\<And>key digest. ev_input v = ArtifactInput key digest \<Longrightarrow> text_ok key"
proof -
  have "validate_task_kind (ev_kind v) = Inr ()" "stable_id (ev_agent_id v)" "stable_id (ev_idempotency_key v)"
    and i: "task_input_validate sha (ev_input v) = Inr ()"
    using assms by (auto simp: envelope_validate_def res_simps agent_id_parse_def request_id_parse_def validate_id_iff)
  then show "text_ok (ev_kind v)" "text_ok (ev_agent_id v)" "text_ok (ev_idempotency_key v)"
    using task_kind_graphic ascii_text_ok stable_id_text_ok by blast+
  show "text_ok (input_digest (ev_input v))" by (rule ascii_text_ok [OF envelope_validate_parts(1) [OF assms]])
  show "text_ok key" if "ev_input v = ArtifactInput key digest" for key digest
    using i that artifact_key_graphic ascii_text_ok by (auto simp: res_simps)
qed

lemma envelope_fields_text:
  assumes "envelope_validate sha v = Inr ()" shows "list_all field_text_ok (envelope_fields v)"
  using envelope_texts [OF assms] by (cases "ev_input v") (simp_all add: envelope_fields_def Let_def field_text_ok_def)

lemma replay_event_text:
  "validate_replay_fields s = Inr () \<Longrightarrow> map_option rd_replay_event_id (st_replay_delivery s) = Some t \<Longrightarrow> text_ok t"
  using validate_replay_parts(1)
  by (auto simp: replay_delivery_validate_def event_id_parse_def res_simps validate_id_iff stable_id_text_ok)

lemma task_text_ok:
  assumes v: "task_validate sha s = Inr ()" and rust: "rust_task s"
  shows "text_ok (task_to_storage s)"
proof -
  note parts = task_validate_parts [OF v] and texts = rust_task_parts [OF rust]
  have "text_ok (st_task_id s)" by (rule stable_id_text_ok [OF parts(1)])
  then have "list_all field_text_ok (head_fields s)"
    using texts(1) by (simp add: head_fields_def field_text_ok_def)
  moreover have "list_all field_text_ok (tail_fields s)"
    using texts(3-7) by (simp add: tail_fields_def field_text_ok_def)
  moreover have "list_all field_text_ok (execution_fields s)"
  proof -
    have "text_ok (optional_text id (st_result_digest s))"
      using validate_outcome_parts(1) [OF parts(7)] canonical_sha256_plain(3) ascii_text_ok by (intro text_ok_optional(2)) blast
    moreover have "text_ok (optional_text encode_task_field (map_option rd_replay_event_id (st_replay_delivery s)))"
      using replay_event_text [OF parts(6)] by (intro text_ok_optional(1)) blast
    moreover have "text_ok (case st_error_retryable s of None \<Rightarrow> [] | Some b \<Rightarrow> flag_str b)" by (simp split: option.splits)
    ultimately show ?thesis using texts(2) by (simp add: execution_fields_def field_text_ok_def)
  qed
  moreover have "list_all field_text_ok (envelope_fields e)" if "st_envelope s = Some e" for e
    using parts(8) that envelope_fields_text by (auto simp: validate_policy_mirror_def res_simps)
  moreover have "list_all field_text_ok (map (\<lambda>l. (''log'', log_value l)) (st_logs s))"
    "list_all field_text_ok (map (\<lambda>d. (''dead_letter'', dead_letter_value d)) (st_dead_letters s))"
    "list_all field_text_ok (map (\<lambda>r. (''replay'', replay_value r)) (st_replayed_events s))"
    using texts(8-10)
    by (simp_all add: list_all_iff field_text_ok_def log_value_def dead_letter_value_def replay_value_def text_ok_append)
  ultimately have "list_all field_text_ok (task_fields s)"
    unfolding task_fields_eq by (cases "st_envelope s") (simp_all only: list_all_append option.case list.pred_inject simp_thms)
  then have "\<forall>f \<in> set (task_fields s). text_ok (fst f @ ''='' @ snd f)"
    by (simp add: list_all_iff field_text_ok_def text_ok_append)
  then show ?thesis unfolding task_to_storage_def by (intro text_ok_join) (auto simp: case_prod_beta)
qed

end
