(* ===== verification/Storage_TaskLaws.thy ===== *)
theory Storage_TaskLaws
  imports Storage_TaskHistory Storage_TaskText
begin

section \<open>What the task store promises\<close>

text \<open>
  The properties of the task store: what a worker can rely on when nothing fails, what a stale worker
  cannot do, how often a task can be claimed, when a failed attempt is queued again, and where the
  text format and the alias of the last commit lose a record.
\<close>

subsection \<open>Reading and writing without failures\<close>

definition quiet_io :: "task_io \<Rightarrow> bool" where
  "quiet_io io \<longleftrightarrow> ti_create_dir io = Inr () \<and> ti_writer_lock io = Inr () \<and> ti_record_lock io = Inr () \<and>
     ti_verify io = Inr () \<and> ti_read_error io = (\<lambda>_. None) \<and> ti_write io = WriteOk \<and> ti_write_latest io = WriteOk"

definition calm :: "(nat \<Rightarrow> task_io) \<Rightarrow> bool" where
  "calm ios \<longleftrightarrow> (\<forall>k. quiet_io (ios k) \<and> ti_others (ios k) = id)"

definition may_write :: "task_fs_store \<Rightarrow> bool" where
  "may_write st \<longleftrightarrow> fs_task_writer st \<noteq> None \<or> \<not> fs_writer_required st"

definition stored_commit :: "task_state \<Rightarrow> directory \<Rightarrow> directory" where
  "stored_commit c dir = dir_put (dir_put dir (task_path (st_task_id c)) (task_to_storage c)) latest_task_file (task_to_storage c)"

lemma task_validate_version [simp]:
  "task_validate sha (s\<lparr>st_record_version := v, st_owner_generation := g\<rparr>) = task_validate sha s"
  "storable (s\<lparr>st_record_version := v, st_owner_generation := g\<rparr>) = storable s"
  "rust_task (s\<lparr>st_record_version := v, st_owner_generation := g\<rparr>) = rust_task s"
  by (cases s, simp only: task_validate_def validate_claim_fields_def validate_replay_fields_def validate_outcome_fields_def
      validate_policy_mirror_def execution_metadata_valid_def storable_def rust_task_def task_texts_def task_state.simps)+

lemma commit_succeeds:
  assumes "quiet_io io" "may_write st" "task_validate sha s = Inr ()"
    and "read_optional_task_snapshot sha st io dir (task_path (st_task_id s)) = Inr found"
    and "commit_checks sha st (task_path (st_task_id s)) (commit_generation st) s expected mode found = Inr c"
  shows "commit_snapshot sha st io s expected mode dir = (Inr c, stored_commit c dir)"
proof -
  have id: "st_task_id c = st_task_id s"
    using arg_cong [OF commit_checks_result(2) [OF assms(5)], of st_task_id] by simp
  have "task_file (st_task_id s) = Inr (task_path (st_task_id s))"
    using task_validate_parts(1) [OF assms(3)] by (simp add: task_file_Inr)
  then show ?thesis
    using assms id
    by (cases "fs_task_writer st")
      (simp_all add: commit_snapshot_def quiet_io_def may_write_def with_writer_transaction_def record_locked_def
        commit_generation_def write_committed_def atomic_write_def stored_commit_def)
qed

lemma task_at_validate: "task_at sha dir t = Some s \<Longrightarrow> task_validate sha s = Inr () \<and> st_task_id s = t"
  by (auto simp: task_at_def task_from_storage_def res_simps split: option.splits if_splits sum.splits)

lemma read_optional_quiet:
  assumes "task_at sha dir t = Some s" and "quiet_io io"
  shows "read_optional_task_snapshot sha st io dir (task_path t) = Inr (Some s)"
  using assms
  by (auto simp: task_at_def read_optional_task_snapshot_def read_task_data_def quiet_io_def map_err_def Let_def
      split: option.splits if_splits sum.splits)

lemma task_at_stored:
  assumes "task_validate sha c = Inr ()" and "st_record_version c \<noteq> 0" and "storable c" and "rust_task c"
    and "st_task_id c \<noteq> ''latest-basic''"
  shows "task_at sha (stored_commit c dir) (st_task_id c) = Some c"
proof -
  have "latest_task_file \<noteq> task_path (st_task_id c)" using task_path_latest assms(5) by metis
  moreover have "stored_view c = c" using assms(3) by (simp add: stored_view_id)
  ultimately show ?thesis
    using assms(1,2) task_from_to_storage [OF assms(1)] task_text_ok [OF assms(1,4)]
    by (simp add: task_at_def stored_commit_def map_of_dir_put checked_task_def)
qed

text \<open>What an accepted change of the record of a task commits.\<close>

definition next_record :: "task_fs_store \<Rightarrow> task_state \<Rightarrow> task_state" where
  "next_record st p = p\<lparr>st_record_version := st_record_version p + 1, st_owner_generation := commit_generation st\<rparr>"

lemma calm_commit:
  assumes calm: "calm ios" and st: "may_write st" and at: "task_at sha dir t = Some s"
    and p: "task_validate sha p = Inr ()" "st_task_id p = t" "st_record_version p = st_record_version s"
      "st_owner_generation p = st_owner_generation s" "st_envelope p = st_envelope s"
      "st_replay_delivery p = st_replay_delivery s" "accepted_transition sha mode s p"
    and more: "st_record_version s \<noteq> - 1" "mode \<noteq> Create"
  shows "compare_and_set sha st (ios k) mode p dir = (Inr (next_record st p), stored_commit (next_record st p) dir)"
proof -
  have "unat (st_record_version s) \<noteq> 2 ^ 64 - 1"
    using more(1) unat_minus_one_word [where 'a = 64] by (auto simp: word_unat_eq_iff)
  then have "unat (st_record_version s) + unat (1 :: u64) < 2 ^ 64" using unat_bound [of "st_record_version s"] by simp
  then have "checked_next (st_record_version s) = Inr (st_record_version s + 1)"
    by (simp add: checked_next_def checked_add_def)
  moreover have "st_task_id s = t" using task_at_validate [OF at] by simp
  ultimately have "commit_checks sha st (task_path (st_task_id p)) (commit_generation st) p (st_record_version p) mode (Some s) =
      Inr (next_record st p)"
    unfolding commit_checks_Inr using p more
    by (simp add: check_against_current_def accepted_transition_def create_only_def next_record_def checked_task_def)
  then show ?thesis
    using commit_succeeds [OF _ st p(1) read_optional_quiet [OF at [folded p(2)]]] calm
    by (simp add: compare_and_set_def calm_def)
qed

lemma calm_cas_operation:
  assumes "calm ios" and "task_at sha dir t = Some s" and "plan s = Inr p"
    and "compare_and_set sha st (ios 1) mode p dir = (Inr c, dir')"
  shows "cas_operation sha st ios t mode plan settle limit dir = (Inr c, dir')"
proof -
  have "stable_id t" using task_at_validate [OF assms(2)] task_validate_parts(1) by metis
  then have "task_read sha st (ios 0) dir (Some t) = Inr s"
    using task_at_read [OF assms(2)] assms(1) by (simp add: calm_def quiet_io_def)
  then show ?thesis
    using assms(1,3,4) by (simp add: cas_operation_def TASK_STATE_CAS_RETRY_LIMIT_def numeral_eq_Suc calm_def Let_def)
qed

subsection \<open>The end of an attempt is valid\<close>

lemma task_validate_fromI:
  assumes "task_validate sha s = Inr ()" and "st_task_id p = st_task_id s" "st_status p \<noteq> []"
    "st_retry_max_attempts p = st_retry_max_attempts s" "st_attempts p \<le> st_retry_max_attempts s" "st_envelope p = st_envelope s"
    "st_replay_delivery p = st_replay_delivery s" and claim: "validate_claim_fields p = Inr ()"
    and outcome: "validate_outcome_fields p = Inr ()"
  shows "task_validate sha p = Inr ()"
proof -
  note parts = task_validate_parts [OF assms(1)]
  have "validate_replay_fields p = Inr ()" "validate_policy_mirror sha p = Inr ()"
    using parts(6,8) unfolding validate_replay_fields_def validate_policy_mirror_def assms(2,4-7) .
  then show ?thesis
    using parts(1-4) assms(2-7) claim outcome
    by (simp add: task_validate_def request_id_parse_def iffD2 [OF validate_id_iff] reject_if_def not_less)
qed

lemma task_validateI:
  assumes "task_validate sha s = Inr ()" and "st_task_id p = st_task_id s" "st_status p \<noteq> []"
    "st_retry_max_attempts p = st_retry_max_attempts s" "st_attempts p = st_attempts s" "st_envelope p = st_envelope s"
    "st_replay_delivery p = st_replay_delivery s" and claim: "st_execution_owner p = st_execution_owner s"
    "st_cancel_token p = st_cancel_token s" and outcome: "validate_outcome_fields p = Inr ()"
  shows "task_validate sha p = Inr ()"
proof -
  have "validate_claim_fields p = Inr ()"
    using task_validate_parts(5) [OF assms(1)] unfolding validate_claim_fields_def assms(5,6) claim .
  then show ?thesis
    using task_validate_fromI [OF assms(1-4) _ assms(6,7) _ outcome] task_validate_parts(4) [OF assms(1)] assms(5) by simp
qed

text \<open>The record of an attempt that has an owner and is not finished yet.\<close>

definition live_attempt :: "task_state \<Rightarrow> attempt_fence \<Rightarrow> bool" where
  "live_attempt s f \<longleftrightarrow> st_task_id s = fe_task_id f \<and> st_owner_generation s = fe_owner_generation f \<and>
     st_execution_owner s = Some (fe_execution_owner f) \<and> st_attempts s = fe_attempt f \<and>
     st_cancel_token s = Some (fe_cancel_token f) \<and> st_status s \<in> {''running'', ''cancelling''}"

lemma live_attempt_fence: "live_attempt s f \<Longrightarrow> verify_task_attempt_fence s f = Inr ()"
  by (simp add: live_attempt_def verify_task_attempt_fence_def verify_execution_claim_def)

lemma live_attempt_clean:
  assumes "task_validate sha s = Inr ()" and "live_attempt s f"
  shows "st_envelope s \<noteq> None" "st_result_digest s = None" "st_result_size_bytes s = None" "st_error_kind s = None"
    "st_error_message s = None" "st_error_retryable s = None" "st_retry_ready_at_ms s = None" "st_interrupted_reason s = None"
proof -
  note parts = task_validate_parts [OF assms(1)]
  have "st_execution_owner s \<noteq> None" using assms(2) by (simp add: live_attempt_def)
  then have m: "execution_metadata_valid s" and e: "st_envelope s \<noteq> None"
    using validate_outcome_parts(4) [OF parts(7)] validate_claim_parts(3) [OF parts(5)] by simp_all
  show "st_envelope s \<noteq> None" by (rule e)
  show d: "st_result_digest s = None" "st_error_kind s = None"
    "st_error_message s = None" "st_error_retryable s = None" "st_retry_ready_at_ms s = None" "st_interrupted_reason s = None"
    using m assms(2) by (auto simp: execution_metadata_valid_def live_attempt_def Let_def)
  show "st_result_size_bytes s = None" by (rule validate_outcome_parts(2) [OF parts(7) d(1)])
qed

text \<open>What a worker may report: a canonical digest, or an error with a kind and a message.\<close>

definition reportable :: "attempt_outcome \<Rightarrow> bool" where
  "reportable outcome = (case outcome of
     AttemptCompleted digest _ \<Rightarrow> validate_canonical_sha256 digest ''task result digest'' = Inr ()
   | AttemptFailed kind message _ \<Rightarrow> kind \<noteq> [] \<and> message \<noteq> [] \<and> text_ok kind \<and> text_ok message
   | AttemptTimedOut _ _ \<Rightarrow> True)"

lemma rust_task_log:
  "rust_task (push_task_log level message s) \<longleftrightarrow> rust_task s \<and> text_ok level \<and> text_ok message"
  by (auto simp: rust_task_def task_texts_def push_task_log_def)

lemma storable_log: "storable (push_task_log level message s) = storable s"
  by (simp add: storable_def)

lemma text_ok_timed_out: "text_ok (''task timed out at '' @ nat_str n)"
  by (intro text_ok_append text_ok_simps) simp

lemmas outcome_defs = complete_execution_def fail_execution_def time_out_execution_def verify_execution_claim_def
  mark_failed_def mark_timed_out_def clear_error_def clear_result_def

lemma outcome_applies:
  assumes v: "task_validate sha s = Inr ()" and live: "live_attempt s f" and run: "st_status s = ''running''"
    and digest: "case outcome of AttemptCompleted digest _ \<Rightarrow> validate_canonical_sha256 digest ''task result digest'' = Inr () | _ \<Rightarrow> True"
  shows "\<exists>p. apply_task_attempt_outcome sha f outcome s = Inr p \<and> task_validate sha p = Inr () \<and>
    task_attempt_outcome_is_committed p outcome \<and> accepted_transition sha AttemptOutcome s p \<and> st_task_id p = st_task_id s \<and>
    st_record_version p = st_record_version s \<and> st_owner_generation p = st_owner_generation s \<and>
    st_envelope p = st_envelope s \<and> st_replay_delivery p = st_replay_delivery s \<and> st_attempts p = st_attempts s \<and>
    st_error_kind p = (case outcome of AttemptFailed kind _ _ \<Rightarrow> Some kind | AttemptTimedOut _ _ \<Rightarrow> Some ''timeout'' | _ \<Rightarrow> None) \<and>
    st_error_message p = (case outcome of AttemptFailed _ message _ \<Rightarrow> Some message
      | AttemptTimedOut _ _ \<Rightarrow> Some ''task deadline exceeded'' | _ \<Rightarrow> None) \<and>
    st_error_retryable p = (case outcome of AttemptFailed _ _ r \<Rightarrow> Some r | AttemptTimedOut _ r \<Rightarrow> Some r | _ \<Rightarrow> None) \<and>
    (storable s \<longrightarrow> rust_task s \<longrightarrow> reportable outcome \<longrightarrow> storable p \<and> rust_task p)"
proof -
  note clean = live_attempt_clean [OF v live]
  have claim: "st_execution_owner s = Some (fe_execution_owner f)" "st_attempts s = fe_attempt f"
    "st_cancel_token s = Some (fe_cancel_token f)"
    using live by (auto simp: live_attempt_def)
  have accepted: "accepted_transition sha AttemptOutcome s p"
    if "st_attempts p = st_attempts s" "st_execution_owner p = st_execution_owner s" "st_cancel_token p = st_cancel_token s"
      "st_deadline_at_ms p = st_deadline_at_ms s" "st_status p \<in> {''completed'', ''failed'', ''timed_out''}" for p
    using that run
    by (auto simp: accepted_transition_def validate_task_state_transition_def Let_def allow_attempt_outcome_def
        allow_heartbeat_def allow_retry_requeue_def allow_restart_recovery_def is_terminal_def lifecycle_allowed_def)
  show ?thesis
  proof (cases outcome)
    case (AttemptCompleted digest bytes)
    let ?p = "push_task_log ''info'' ''task completed''
         (clear_error (s\<lparr>st_status := ''completed'', st_result_digest := Some digest, st_result_size_bytes := Some bytes\<rparr>))"
    have "validate_outcome_fields ?p = Inr ()"
      using AttemptCompleted digest clean claim
      by (simp add: validate_outcome_fields_def execution_metadata_valid_def clear_error_def)
    then have valid: "task_validate sha ?p = Inr ()" by (intro task_validateI [OF v]) (simp_all add: clear_error_def)
    show ?thesis
      using AttemptCompleted digest valid claim run clean accepted [of ?p]
      by (auto simp: outcome_defs checked_task_def rust_task_log storable_log)
        (auto simp: storable_def rust_task_def task_texts_def option_texts_def)
  next
    case (AttemptFailed kind message retryable)
    let ?p = "mark_failed (fe_attempt f) kind message retryable (clear_result s)"
    have "validate_outcome_fields ?p = Inr ()"
      using AttemptFailed clean claim
      by (simp add: validate_outcome_fields_def execution_metadata_valid_def clear_result_def mark_failed_def)
    then have valid: "task_validate sha ?p = Inr ()"
      using claim by (intro task_validateI [OF v]) (simp_all add: clear_result_def mark_failed_def)
    show ?thesis
      using AttemptFailed valid claim run clean accepted [of ?p]
      by (auto simp: outcome_defs checked_task_def rust_task_log storable_log)
        (auto simp: storable_def rust_task_def task_texts_def option_texts_def reportable_def)
  next
    case (AttemptTimedOut at retryable)
    let ?p = "mark_timed_out at retryable (clear_result s)"
    have "validate_outcome_fields ?p = Inr ()"
      using AttemptTimedOut clean claim
      by (simp add: validate_outcome_fields_def execution_metadata_valid_def clear_result_def mark_timed_out_def)
    then have valid: "task_validate sha ?p = Inr ()"
      by (intro task_validateI [OF v]) (simp_all add: clear_result_def mark_timed_out_def)
    show ?thesis
      using AttemptTimedOut valid claim run clean accepted [of ?p] text_ok_timed_out
      by (auto simp: outcome_defs checked_task_def rust_task_log storable_log)
        (auto simp: storable_def rust_task_def task_texts_def option_texts_def)
  qed
qed

subsection \<open>Finishing an attempt\<close>

lemma next_record_fields [simp]:
  "st_task_id (next_record st p) = st_task_id p" "st_status (next_record st p) = st_status p"
  "st_attempts (next_record st p) = st_attempts p" "st_record_version (next_record st p) = st_record_version p + 1"
  "st_error_kind (next_record st p) = st_error_kind p" "st_error_message (next_record st p) = st_error_message p"
  "st_error_retryable (next_record st p) = st_error_retryable p" "st_result_digest (next_record st p) = st_result_digest p"
  "st_result_size_bytes (next_record st p) = st_result_size_bytes p" "st_cancel_accepted (next_record st p) = st_cancel_accepted p"
  "st_cancel_requested (next_record st p) = st_cancel_requested p" "st_envelope (next_record st p) = st_envelope p"
  "st_execution_owner (next_record st p) = st_execution_owner p" "st_retry_ready_at_ms (next_record st p) = st_retry_ready_at_ms p"
  "task_attempt_outcome_is_committed (next_record st p) outcome = task_attempt_outcome_is_committed p outcome"
  "task_validate sha (next_record st p) = task_validate sha p" "storable (next_record st p) = storable p"
  "rust_task (next_record st p) = rust_task p"
  by (simp_all add: next_record_def) (cases outcome; simp)

lemma next_version: "v \<noteq> (- 1 :: u64) \<Longrightarrow> v + 1 \<noteq> 0"
  by (metis add.left_inverse add_right_cancel)

lemma finish_running:
  assumes "calm ios" "may_write st" and at: "task_at sha dir (fe_task_id f) = Some s"
    and live: "live_attempt s f" and run: "st_status s = ''running''" and version: "st_record_version s \<noteq> - 1"
    and p: "apply_task_attempt_outcome sha f outcome s = Inr p" "task_validate sha p = Inr ()"
      "accepted_transition sha AttemptOutcome s p" "st_task_id p = st_task_id s" "st_record_version p = st_record_version s"
      "st_owner_generation p = st_owner_generation s" "st_envelope p = st_envelope s" "st_replay_delivery p = st_replay_delivery s"
  shows "finish_execution sha st ios f outcome dir = (Inr (next_record st p), stored_commit (next_record st p) dir)"
proof -
  have "finish_plan sha f outcome s = Inr p"
    using live_attempt_fence [OF live] run p(1) by (cases outcome) (simp_all add: finish_plan_def)
  moreover have "st_task_id p = fe_task_id f" using p(4) live by (simp add: live_attempt_def)
  ultimately show ?thesis
    unfolding finish_execution_def
    using calm_cas_operation [OF assms(1) at] calm_commit [OF assms(1,2) at p(2) _ p(5-8,3) version] by blast
qed

text \<open>
  C8. A worker that holds the fence of a running attempt always gets its outcome through: without
  failures and interference, \<^verbatim>\<open>finish_execution\<close> commits the reported outcome as the next version of the
  record, and a read returns exactly that record. The outcome is a canonical SHA-256 digest, a timeout,
  or an error whose kind and message are not empty; the record on disk has no empty optional text, its
  version number is not exhausted, and the task is not called latest-basic.
\<close>

theorem finish_commits_outcome:
  assumes "calm ios" and "may_write st" and "task_at sha dir (fe_task_id f) = Some s" and "live_attempt s f"
    and "st_status s = ''running''" and "reportable outcome" and "storable s" and "rust_task s"
    and "st_record_version s \<noteq> - 1" and "fe_task_id f \<noteq> ''latest-basic''"
  shows "\<exists>c dir'. finish_execution sha st ios f outcome dir = (Inr c, dir') \<and> task_at sha dir' (fe_task_id f) = Some c \<and>
    task_attempt_outcome_is_committed c outcome \<and> st_attempts c = fe_attempt f \<and>
    st_record_version c = st_record_version s + 1"
proof -
  have valid: "task_validate sha s = Inr ()" using task_at_validate [OF assms(3)] by simp
  have digest: "case outcome of AttemptCompleted digest _ \<Rightarrow> validate_canonical_sha256 digest ''task result digest'' = Inr () | _ \<Rightarrow> True"
    using assms(6) by (simp add: reportable_def split: attempt_outcome.splits)
  obtain p where p: "apply_task_attempt_outcome sha f outcome s = Inr p" "task_validate sha p = Inr ()"
    "task_attempt_outcome_is_committed p outcome" "accepted_transition sha AttemptOutcome s p" "st_task_id p = st_task_id s"
    "st_record_version p = st_record_version s" "st_owner_generation p = st_owner_generation s"
    "st_envelope p = st_envelope s" "st_replay_delivery p = st_replay_delivery s" "st_attempts p = st_attempts s"
    "storable p" "rust_task p"
    using outcome_applies [OF valid assms(4,5) digest] assms(6-8) by blast
  have id: "st_task_id p = fe_task_id f" "st_attempts p = fe_attempt f"
    using p(5,10) assms(4) by (simp_all add: live_attempt_def)
  have "finish_execution sha st ios f outcome dir = (Inr (next_record st p), stored_commit (next_record st p) dir)"
    by (rule finish_running [OF assms(1-5,9) p(1,2,4-9)])
  moreover have "task_at sha (stored_commit (next_record st p) dir) (fe_task_id f) = Some (next_record st p)"
    using task_at_stored [of sha "next_record st p" dir] p(2,6,11,12) id(1) assms(9,10) next_version by simp
  ultimately show ?thesis using p(3,6) id(2) by auto
qed

text \<open>
  C9. A stale worker changes nothing: when the record that is read belongs to another owner, attempt,
  token, or writer generation, then finishing, finishing from a committed effect, renewing the heartbeat
  and cancelling the attempt all fail and write nothing.
\<close>

theorem stale_worker_changes_nothing:
  assumes "task_read sha st (ios 0) (ti_others (ios 0) dir) (Some (fe_task_id f)) = Inr s"
    and "st_execution_owner s \<noteq> Some (fe_execution_owner f) \<or> st_attempts s \<noteq> fe_attempt f \<or>
      st_cancel_token s \<noteq> Some (fe_cancel_token f) \<or> st_owner_generation s \<noteq> fe_owner_generation f"
    and "op \<in> {\<lambda>d. finish_execution sha st ios f outcome d, \<lambda>d. finish_committed_effect_execution sha st ios f digest bytes d,
      \<lambda>d. heartbeat_execution sha st ios f at d, \<lambda>d. request_execution_cancellation sha st ios f reason d}"
  shows "is_err (fst (op dir)) \<and> snd (op dir) = ti_others (ios 0) dir"
proof -
  have "verify_task_attempt_fence s f \<noteq> Inr ()"
    using assms(2) by (auto simp: verify_task_attempt_fence_def verify_execution_claim_def)
  then obtain e where e: "verify_task_attempt_fence s f = Inl e" by (cases "verify_task_attempt_fence s f") simp_all
  have rounds: "cas_operation sha st ios (fe_task_id f) mode plan settle limit dir = (Inl e, ti_others (ios 0) dir)"
    if "plan s = Inl (Answer (Inl e))" for mode plan settle limit
    using that assms(1)
    by (simp add: cas_operation_def TASK_STATE_CAS_RETRY_LIMIT_def numeral_eq_Suc Let_def cas_stopped_def)
  show ?thesis
    using assms(3) e
    by (auto simp: finish_execution_def finish_plan_def finish_committed_effect_execution_def heartbeat_execution_def
        request_execution_cancellation_def rounds)
qed

subsection \<open>How often a task can be claimed\<close>

text \<open>A run of the directory, with the number of its steps that claim the task.\<close>

definition claimed :: "(string \<Rightarrow> string) \<Rightarrow> string \<Rightarrow> directory \<Rightarrow> directory \<Rightarrow> bool" where
  "claimed sha t d d' \<longleftrightarrow> (\<exists>s s'. task_at sha d t = Some s \<and> task_at sha d' t = Some s' \<and> st_status s = ''queued'' \<and>
     st_status s' = ''running'')"

inductive claim_run :: "(string \<Rightarrow> string) \<Rightarrow> string \<Rightarrow> directory \<Rightarrow> nat \<Rightarrow> directory \<Rightarrow> bool" for sha t d0 where
  claim_start: "claim_run sha t d0 0 d0"
| claim_step: "claim_run sha t d0 n d \<Longrightarrow> task_step sha d d' \<Longrightarrow>
     claim_run sha t d0 (if claimed sha t d d' then Suc n else n) d'"

lemma advances_attempts:
  assumes "advances sha s s'"
  shows "unat (st_attempts s') = (if st_status s = ''queued'' \<and> st_status s' = ''running'' then unat (st_attempts s) + 1
    else unat (st_attempts s))" and "st_envelope s' = st_envelope s"
proof -
  obtain mode p version generation where p: "accepted_transition sha mode s p" "st_envelope p = st_envelope s"
    "s' = stored_view (p\<lparr>st_record_version := version, st_owner_generation := generation\<rparr>)"
    using assms unfolding advances_def by blast
  show "st_envelope s' = st_envelope s" using p(2,3) by simp
  have "is_claim s p \<longleftrightarrow> st_status s = ''queued'' \<and> st_status p = ''running''"
  proof
    assume "st_status s = ''queued'' \<and> st_status p = ''running''"
    then show "is_claim s p"
      using p(1) by (auto simp: accepted_transition_def validate_task_state_transition_def Let_def res_simps split: if_splits)
  qed (simp add: is_claim_def)
  then show "unat (st_attempts s') = (if st_status s = ''queued'' \<and> st_status s' = ''running'' then unat (st_attempts s) + 1
      else unat (st_attempts s))"
    using accepted_attempts [OF p(1)] p(3) by auto
qed

lemma attempts_within_policy:
  assumes "task_at sha d t = Some s" and "st_envelope s = Some v"
  shows "unat (st_attempts s) \<le> unat (ap_max_attempts (ev_attempt_policy v))"
proof -
  note parts = task_validate_parts [OF conjunct1 [OF task_at_validate [OF assms(1)]]]
  have "st_retry_max_attempts s = ucast (ap_max_attempts (ev_attempt_policy v))"
    using parts(8) assms(2) by (auto simp: validate_policy_mirror_def res_simps)
  moreover have "unat (ucast (ap_max_attempts (ev_attempt_policy v)) :: u64) = unat (ap_max_attempts (ev_attempt_policy v))"
    using unat_bound [of "ap_max_attempts (ev_attempt_policy v)"] by (simp add: unsigned_ucast_eq take_bit_nat_eq_self)
  ultimately show ?thesis using parts(4) by (simp add: word_le_nat_alt)
qed

text \<open>
  C5. A task is claimed at most as often as its policy allows. Along any sequence of commits by any
  processes, the number of claims of a task, on top of the attempts it started with, never exceeds the
  maximum of its immutable attempt policy, and the attempts of the record count the claims exactly.
\<close>

theorem claims_are_bounded:
  assumes "claim_run sha t d0 n d" and "t \<noteq> ''latest-basic''" and "task_at sha d0 t = Some s0"
    and "st_envelope s0 = Some v"
  shows "unat (st_attempts s0) + n \<le> unat (ap_max_attempts (ev_attempt_policy v)) \<and>
    (\<forall>s. task_at sha d t = Some s \<longrightarrow> unat (st_attempts s) = unat (st_attempts s0) + n)"
proof -
  have exists0: "map_of d0 (task_path t) \<noteq> None" using assms(3) by (auto simp: task_at_def split: option.splits)
  have "unat (st_attempts s0) + n \<le> unat (ap_max_attempts (ev_attempt_policy v)) \<and> map_of d (task_path t) \<noteq> None \<and>
      (\<forall>s. task_at sha d t = Some s \<longrightarrow> unat (st_attempts s) = unat (st_attempts s0) + n \<and> st_envelope s = Some v)"
    using assms(1)
  proof induction
    case claim_start
    show ?case using exists0 assms(3,4) attempts_within_policy by auto
  next
    case (claim_step n d d')
    have kept: "map_of d' (task_path t) \<noteq> None" using task_step_files [OF claim_step.hyps(2)] claim_step.IH by blast
    have after: "unat (st_attempts s') = unat (st_attempts s0) + (if claimed sha t d d' then Suc n else n) \<and> st_envelope s' = Some v"
      if at: "task_at sha d' t = Some s'" for s'
    proof -
      from task_step_at [OF claim_step.hyps(2) assms(2) at] claim_step.IH
      consider "task_at sha d t = Some s'" | s where "task_at sha d t = Some s" "advances sha s s'" by blast
      then show ?thesis
      proof cases
        case 1
        then have "\<not> claimed sha t d d'" using at by (auto simp: claimed_def)
        then show ?thesis using 1 claim_step.IH by simp
      next
        case 2
        then have "claimed sha t d d' \<longleftrightarrow> st_status s = ''queued'' \<and> st_status s' = ''running''" using at by (auto simp: claimed_def)
        then show ?thesis using 2 claim_step.IH advances_attempts [OF 2(2)] by auto
      qed
    qed
    have "unat (st_attempts s0) + (if claimed sha t d d' then Suc n else n) \<le> unat (ap_max_attempts (ev_attempt_policy v))"
    proof (cases "claimed sha t d d'")
      case True
      then obtain s' where s': "task_at sha d' t = Some s'" by (auto simp: claimed_def)
      then show ?thesis using after [OF s'] attempts_within_policy by metis
    qed (use claim_step.IH in simp)
    then show ?case using kept after by blast
  qed
  then show ?thesis by blast
qed

subsection \<open>What never changes again\<close>

text \<open>A sequence of operations, each by a process of its own and with interference of its own.\<close>

definition task_calls_dir ::
  "(string \<Rightarrow> string) \<Rightarrow> (task_fs_store \<times> (nat \<Rightarrow> task_io) \<times> task_call) list \<Rightarrow> directory \<Rightarrow> directory" where
  "task_calls_dir sha calls d = fold (\<lambda>(st, ios, call) d. task_call_dir sha st ios call d) calls d"

lemma task_calls_steps:
  assumes "list_all (\<lambda>(st, ios, call). others_step sha ios) calls"
  shows "(task_step sha)\<^sup>*\<^sup>* d (task_calls_dir sha calls d)"
  using assms
proof (induction calls arbitrary: d)
  case (Cons c calls)
  obtain st ios call where c: "c = (st, ios, call)" by (rule prod_cases3)
  have "(task_step sha)\<^sup>*\<^sup>* d (task_call_dir sha st ios call d)" using Cons.prems c task_operations_are_steps by simp
  then show ?case
    using Cons.IH [of "task_call_dir sha st ios call d"] Cons.prems c
    by (auto simp: task_calls_dir_def intro: rtranclp_trans)
qed (simp add: task_calls_dir_def)

text \<open>
  C7. A completed task keeps its result. Whatever operations of the store follow, by any processes and
  with any interference of processes that use the store, as long as the record can be read it is
  completed with the same result digest and size, under the same envelope.
\<close>

theorem completed_is_final:
  assumes "list_all (\<lambda>(st, ios, call). others_step sha ios) calls" and "t \<noteq> ''latest-basic''"
    and "task_at sha d t = Some s" and "st_status s = ''completed''" and "task_at sha (task_calls_dir sha calls d) t = Some s'"
  shows "st_status s' = ''completed'' \<and> st_result_digest s' = st_result_digest s \<and>
    st_result_size_bytes s' = st_result_size_bytes s \<and> st_envelope s' = st_envelope s"
proof -
  have "map_of d (task_path t) \<noteq> None" using assms(3) by (auto simp: task_at_def split: option.splits)
  from task_steps_follow [OF task_calls_steps [OF assms(1)] assms(2) this assms(5)]
  show ?thesis using assms(3,4) by (auto simp: later_record_def)
qed

subsection \<open>Claims of the same task\<close>

lemma claim_for_execution_result:
  assumes "claim_for_execution sha owner now deadline token s = Inr (attempt, p)"
  shows "unat attempt = unat (st_attempts s) + 1" "st_attempts p = attempt" "st_task_id p = st_task_id s"
  using assms
  by (auto simp: claim_for_execution_def res_simps checked_add_Some Let_def mark_running_def clear_error_def clear_result_def
      split: if_splits)

lemma task_execution_claim_attempt:
  "task_execution_claim s = Inr c \<Longrightarrow> fe_attempt (ec_fence c) = st_attempts s \<and> fe_task_id (ec_fence c) = st_task_id s"
  by (auto simp: task_execution_claim_def res_simps split: if_splits)

lemma commit_written:
  assumes "compare_and_set sha st io mode p d = (Inr c, d')"
  shows "st_attempts c = st_attempts p" "st_task_id c = st_task_id p" "task_validate sha c = Inr ()" "st_record_version c \<noteq> 0"
    "st_task_id p \<noteq> ''latest-basic'' \<Longrightarrow> map_of d' (task_path (st_task_id p)) = Some (task_to_storage c)"
proof -
  obtain found where f: "commit_checks sha st (task_path (st_task_id p)) (commit_generation st) p (st_record_version p) mode found = Inr c"
    "d' = dir_put (dir_put d (task_path (st_task_id p)) (task_to_storage c)) latest_task_file (task_to_storage c)"
    using commit_snapshot_cases [OF assms [unfolded compare_and_set_def]] by auto
  note checks = commit_checks_result [OF f(1)]
  show "st_attempts c = st_attempts p" "st_task_id c = st_task_id p"
    using arg_cong [OF checks(2), of st_attempts] arg_cong [OF checks(2), of st_task_id] by simp_all
  show "task_validate sha c = Inr ()" "st_record_version c \<noteq> 0" by (fact checks(1), fact checks(4))
  show "map_of d' (task_path (st_task_id p)) = Some (task_to_storage c)" if "st_task_id p \<noteq> ''latest-basic''"
    using f(2) that task_path_latest [of "st_task_id p"] by (auto simp: map_of_dir_put)
qed

lemma task_at_file: "task_at sha d t = Some s \<Longrightarrow> map_of d (task_path t) \<noteq> None"
  by (auto simp: task_at_def split: option.splits)

lemma claim_candidate_attempt:
  "claim_candidate sha t owner token now s = Inr (attempt, p) \<Longrightarrow>
     unat attempt = unat (st_attempts s) + 1 \<and> st_attempts p = attempt \<and> st_task_id p = st_task_id s"
  using claim_for_execution_result [of sha owner now _ token s attempt p]
  by (auto simp: claim_candidate_def res_simps)

lemma map_sum_Some: "map_sum id Some x = Inr (Some c) \<longleftrightarrow> x = Inr c"
  by (cases x) auto

lemma claim_lost_result:
  assumes others: "others_step sha ios" and t: "t \<noteq> ''latest-basic''"
    and claim: "claim_lost sha st ios t owner token attempt s e d = (Inr (Some c), d')"
  shows "attempt \<le> fe_attempt (ec_fence c) \<and> (\<exists>s'. task_at sha d' t = Some s' \<and> st_attempts s' = fe_attempt (ec_fence c))"
proof -
  let ?d3 = "ti_others (ios 2) d"
  obtain current refreshed where c: "task_read sha st (ios 2) ?d3 (Some t) = Inr current" "st_attempts current = attempt"
    "refresh_latest sha st (ios 3) t (ti_others (ios 3) ?d3) = (Inr refreshed, d')" "task_execution_claim refreshed = Inr c"
    using claim by (auto simp: claim_lost_def Let_def map_sum_Some split: sum.splits if_splits prod.splits)
  note files = refresh_latest_files [OF c(3)]
  have current: "task_at sha ?d3 t = Some current" using task_read_at [OF c(1)] by simp
  have at: "task_at sha (ti_others (ios 3) ?d3) t = Some refreshed" using files(2) by simp
  have "map_of d' (task_path t) = map_of (ti_others (ios 3) ?d3) (task_path t)"
    using files(1) task_path_latest [of t] t by blast
  then have after: "task_at sha d' t = Some refreshed" using at by (simp add: task_at_def)
  have "(task_step sha)\<^sup>*\<^sup>* ?d3 (ti_others (ios 3) ?d3)" using others by (simp add: others_step_def)
  then have "attempt \<le> st_attempts refreshed"
    using task_steps_follow [OF _ t task_at_file [OF current] at] current c(2) by (auto simp: later_record_def)
  then show ?thesis using after task_execution_claim_attempt [OF c(4)] by simp
qed

lemma try_claim_result:
  assumes others: "others_step sha ios" and t: "t \<noteq> ''latest-basic''"
    and claim: "try_claim_queued sha st ios t owner token now d = (Inr (Some c), d')"
  shows "\<exists>s. task_at sha (ti_others (ios 0) d) t = Some s \<and> st_attempts s < fe_attempt (ec_fence c)"
    and "map_of d' (task_path t) \<noteq> None" and "\<And>s'. task_at sha d' t = Some s' \<Longrightarrow> st_attempts s' = fe_attempt (ec_fence c)"
proof -
  let ?d1 = "ti_others (ios 0) d"
  obtain s attempt p r d2 where s: "task_read sha st (ios 0) ?d1 (Some t) = Inr s"
    "claim_candidate sha t owner token now s = Inr (attempt, p)"
    "compare_and_set sha st (ios 1) CompareAndSet p (ti_others (ios 1) ?d1) = (r, d2)"
    and r: "(\<exists>committed. r = Inr committed \<and> task_execution_claim committed = Inr c \<and> d' = d2) \<or>
      (\<exists>e. r = Inl e \<and> claim_lost sha st ios t owner token attempt s e d2 = (Inr (Some c), d'))"
    using claim
    by (auto simp: try_claim_queued_def Let_def map_sum_Some split: sum.splits if_splits prod.splits)
  have at: "task_at sha ?d1 t = Some s" using task_read_at [OF s(1)] by simp
  note attempt = claim_candidate_attempt [OF s(2)]
  have id: "st_task_id p = t" using attempt task_at_validate [OF at] by simp
  have "attempt \<le> fe_attempt (ec_fence c) \<and> map_of d' (task_path t) \<noteq> None \<and>
      (\<forall>s'. task_at sha d' t = Some s' \<longrightarrow> st_attempts s' = fe_attempt (ec_fence c))"
    using r
  proof (elim disjE exE conjE)
    fix committed assume c: "r = Inr committed" "task_execution_claim committed = Inr c" "d' = d2"
    note w = commit_written [OF s(3) [unfolded c(1)]]
    have data: "map_of d' (task_path t) = Some (task_to_storage committed)" using w(5) id t c(3) by simp
    then have "st_attempts s' = st_attempts committed" if "task_at sha d' t = Some s'" for s'
      using task_at_written [OF data w(3,4) that] by simp
    then show ?thesis using data w(1) attempt task_execution_claim_attempt [OF c(2)] by simp
  next
    fix e assume "claim_lost sha st ios t owner token attempt s e d2 = (Inr (Some c), d')"
    from claim_lost_result [OF others t this] show ?thesis using task_at_file by fastforce
  qed
  moreover have "st_attempts s < attempt" using attempt by (simp add: word_less_nat_alt)
  ultimately show "\<exists>s. task_at sha (ti_others (ios 0) d) t = Some s \<and> st_attempts s < fe_attempt (ec_fence c)"
    "map_of d' (task_path t) \<noteq> None" "\<And>s'. task_at sha d' t = Some s' \<Longrightarrow> st_attempts s' = fe_attempt (ec_fence c)"
    using at by (auto intro: order_less_le_trans)
qed

text \<open>
  C6. No two claims of a task share an attempt. When a claim is granted and, after any commits by any
  processes, another claim of the same task is granted, the attempt number of the second fence is
  greater; so the fence of the first worker is stale.
\<close>

theorem claims_are_ordered:
  assumes "others_step sha ios" and "others_step sha ios'" and "t \<noteq> ''latest-basic''"
    and "try_claim_queued sha st ios t owner token now d = (Inr (Some c), d1)"
    and "(task_step sha)\<^sup>*\<^sup>* d1 d2"
    and "try_claim_queued sha st' ios' t owner' token' now' d2 = (Inr (Some c'), d3)"
  shows "fe_attempt (ec_fence c) < fe_attempt (ec_fence c')"
proof -
  obtain s where s: "task_at sha (ti_others (ios' 0) d2) t = Some s" "st_attempts s < fe_attempt (ec_fence c')"
    using try_claim_result(1) [OF assms(2,3,6)] by blast
  have "(task_step sha)\<^sup>*\<^sup>* d1 (ti_others (ios' 0) d2)"
    using assms(2,5) unfolding others_step_def by (meson rtranclp_trans)
  from task_steps_follow [OF this assms(3) try_claim_result(2) [OF assms(1,3,4)] s(1)]
  obtain s1 where "task_at sha d1 t = Some s1" "st_attempts s1 \<le> st_attempts s" by (auto simp: later_record_def)
  then show ?thesis using try_claim_result(3) [OF assms(1,3,4)] s(2) by auto
qed

end
