(* ===== verification/Storage_TaskRecovery.thy ===== *)
theory Storage_TaskRecovery
  imports Storage_TaskLaws
begin

text \<open>
  The laws of the paths by which a task leaves a finished or an abandoned attempt
  (src/crates/eva-storage/src/task_state.rs): retries with their backoff, cancellation, and the
  recovery after a restart; and what the stored text of a snapshot can and cannot hold.
\<close>

subsection \<open>When a failed attempt is queued again\<close>

lemma eligible_facts:
  assumes "task_validate sha s = Inr ()" and "task_retry_is_eligible s"
  shows "is_terminal s" "st_status s \<in> {''failed'', ''timed_out''}" "st_result_digest s = None" "st_result_size_bytes s = None"
    "st_error_retryable s \<noteq> Some False"
proof -
  note parts = task_validate_parts [OF assms(1)]
  show st: "st_status s \<in> {''failed'', ''timed_out''}" "st_error_retryable s \<noteq> Some False"
    using assms(2) by (auto simp: task_retry_is_eligible_def stored_task_error_is_retryable_def)
  then show "is_terminal s" by (auto simp: is_terminal_def)
  have "st_result_digest s = None" using validate_outcome_parts(1) [OF parts(7)] st(1) by (cases "st_result_digest s") auto
  then show "st_result_digest s = None" "st_result_size_bytes s = None" using validate_outcome_parts(2) [OF parts(7)] by simp_all
qed

lemma schedule_valid:
  assumes v: "task_validate sha s = Inr ()" and p: "task_retry_schedule_candidate s at = Some p"
  shows "task_validate sha p = Inr ()" "accepted_transition sha RetryRequeue s p"
proof -
  have e: "task_retry_is_eligible s" and q: "p = push_task_log ''warning'' (''task attempt '' @ nat_str (unat (st_attempts s)) @
      '' retry scheduled for '' @ nat_str (unat at)) (s\<lparr>st_retry_ready_at_ms := Some at\<rparr>)"
    using p by (auto simp: task_retry_schedule_candidate_def split: if_splits)
  note facts = eligible_facts [OF v e] and parts = task_validate_parts [OF v]
  have "\<not> st_retry_max_attempts s \<le> st_attempts s" using e by (simp add: task_retry_is_eligible_def not_le)
  moreover have "st_error_retryable s = None \<or> st_error_kind s \<noteq> None \<and> st_error_message s \<noteq> None"
    using validate_outcome_parts(3) [OF parts(7)] by blast
  moreover have "st_execution_owner s = None \<or> execution_metadata_valid p"
    using validate_outcome_parts(4) [OF parts(7)] facts(2)
    unfolding execution_metadata_valid_def by (elim insertE emptyE) (auto simp: q)
  ultimately have "validate_outcome_fields p = Inr ()"
    using facts(2-5) by (elim insertE emptyE) (auto simp: q validate_outcome_fields_def reject_if_def)
  then show "task_validate sha p = Inr ()" using q parts(2) by (intro task_validateI [OF v]) simp_all
  have "task_retry_special_transition_matches sha s p"
    using p q by (simp add: task_retry_special_transition_matches_def)
  then show "accepted_transition sha RetryRequeue s p"
    using facts(2) q
    by (auto simp: accepted_transition_def validate_task_state_transition_def Let_def allow_retry_requeue_def
        allow_restart_recovery_def)
qed

lemma requeue_valid:
  assumes v: "task_validate sha s = Inr ()" and p: "task_retry_requeue_candidate s = Some p"
  shows "task_validate sha p = Inr ()" "accepted_transition sha RetryRequeue s p"
proof -
  obtain m where e: "task_retry_is_eligible s" and q: "p = push_task_log ''warning'' m (release_attempt s)"
    using p by (auto simp: task_retry_requeue_candidate_def split: if_splits)
  note facts = eligible_facts [OF v e] and parts = task_validate_parts [OF v]
  have "validate_outcome_fields p = Inr ()" "validate_claim_fields p = Inr ()"
    by (simp_all add: q validate_outcome_fields_def validate_claim_fields_def released)
  then show "task_validate sha p = Inr ()"
    using parts(4) by (intro task_validate_fromI [OF v]) (simp_all add: q released)
  have "task_retry_special_transition_matches sha s p"
    using p by (simp add: task_retry_special_transition_matches_def)
  then show "accepted_transition sha RetryRequeue s p"
    using facts(2) q
    by (auto simp: accepted_transition_def validate_task_state_transition_def Let_def allow_retry_requeue_def
        allow_restart_recovery_def released)
qed

lemma retry_keeps:
  assumes "task_retry_requeue_candidate s = Some p \<or> (\<exists>at. task_retry_schedule_candidate s at = Some p)"
  shows "st_task_id p = st_task_id s" "st_record_version p = st_record_version s"
    "st_owner_generation p = st_owner_generation s" "st_envelope p = st_envelope s" "st_replay_delivery p = st_replay_delivery s"
  using assms
  by (auto simp: task_retry_requeue_candidate_def task_retry_schedule_candidate_def released split: if_splits)

lemma calm_requeue:
  assumes calm: "calm ios" and st: "may_write st" and at: "task_at sha dir t = Some s"
    and p: "task_retry_transition_candidate s now = Some p" and version: "st_record_version s \<noteq> - 1"
  shows "requeue_retryable sha st ios t now dir = (Inr (next_record st p), stored_commit (next_record st p) dir)"
proof -
  have v: "task_validate sha s = Inr ()" and id: "st_task_id s = t" using task_at_validate [OF at] by simp_all
  have which: "task_retry_requeue_candidate s = Some p \<or> (\<exists>at. task_retry_schedule_candidate s at = Some p)"
    using p by (auto simp: task_retry_transition_candidate_def Let_def split: if_splits option.splits)
  then have valid: "task_validate sha p = Inr ()" "accepted_transition sha RetryRequeue s p"
    using requeue_valid [OF v] schedule_valid [OF v] by blast+
  have same: "st_task_id p = st_task_id s" "st_record_version p = st_record_version s"
    "st_owner_generation p = st_owner_generation s" "st_envelope p = st_envelope s" "st_replay_delivery p = st_replay_delivery s"
    using which retry_keeps by blast+
  have "request_id_parse t = Inr (RequestId t)"
    using task_validate_parts(1) [OF v] id by (simp add: request_id_parse_def iffD2 [OF validate_id_iff])
  then show ?thesis
    using calm_cas_operation [OF calm at, of _ p] calm_commit [OF calm st at valid(1) _ same(2-5) valid(2) version] same(1) id p
    by (simp add: requeue_retryable_def after_checks_def)
qed


subsection \<open>What the stored text keeps\<close>

text \<open>
  C10. The stored text of a task reads back as the same snapshot exactly when no optional text of it is
  empty and a record without an envelope has no retry fields: writing and reading loses nothing else of
  a valid snapshot, whatever its texts contain.
\<close>

theorem task_storage_roundtrip:
  assumes "task_validate sha s = Inr ()" and "st_record_version s \<noteq> 0 \<or> st_owner_generation s = 0"
  shows "task_from_storage sha (task_to_storage s) = Inr s \<longleftrightarrow> storable s"
  using assms task_from_to_storage [OF assms] stored_view_id [of s] by (auto simp: checked_task_Inr)

text \<open>
  C37. A failed attempt whose error message is empty makes its task unreadable. The commit of the
  outcome is accepted and reported as a success; the message is then stored as an absent one, which the
  validation of a record with a retry classification refuses, so every later read of the task is an error.
\<close>

theorem empty_error_loses_task:
  assumes "calm ios" and "may_write st" and "task_at sha dir (fe_task_id f) = Some s" and "live_attempt s f"
    and "st_status s = ''running''" and "st_record_version s \<noteq> - 1" and "fe_task_id f \<noteq> ''latest-basic''"
  shows "\<exists>c dir'. finish_execution sha st ios f (AttemptFailed kind [] retryable) dir = (Inr c, dir') \<and>
    st_status c = ''failed'' \<and> (\<forall>io. is_err (task_read sha st io dir' (Some (fe_task_id f))))"
proof -
  let ?outcome = "AttemptFailed kind [] retryable"
  have valid: "task_validate sha s = Inr ()" using task_at_validate [OF assms(3)] by simp
  obtain p where p: "apply_task_attempt_outcome sha f ?outcome s = Inr p" "task_validate sha p = Inr ()"
    "task_attempt_outcome_is_committed p ?outcome" "accepted_transition sha AttemptOutcome s p" "st_task_id p = st_task_id s"
    "st_record_version p = st_record_version s" "st_owner_generation p = st_owner_generation s"
    "st_envelope p = st_envelope s" "st_replay_delivery p = st_replay_delivery s"
    "st_error_message p = Some []" "st_error_retryable p = Some retryable"
    using outcome_applies [OF valid assms(4,5), of ?outcome] by auto
  let ?c = "next_record st p" and ?dir = "stored_commit (next_record st p) dir"
  have finished: "finish_execution sha st ios f ?outcome dir = (Inr ?c, ?dir)"
    by (rule finish_running [OF assms(1-6) p(1,2,4-9)])
  have t: "st_task_id ?c = fe_task_id f" using p(5) assms(4) by (simp add: live_attempt_def)
  have envelope: "st_envelope ?c \<noteq> None" using live_attempt_clean(1) [OF valid assms(4)] p(8) by simp
  have "validate_outcome_fields (stored_view ?c) \<noteq> Inr ()"
    using p(10,11) envelope validate_outcome_parts(3) [of "stored_view ?c"]
    by (auto simp: stored_view_def non_empty_def)
  then have bad: "task_validate sha (stored_view ?c) \<noteq> Inr ()" using task_validate_parts(7) by blast
  have "st_record_version ?c \<noteq> 0" using next_version assms(6) p(6) by simp
  then have "task_from_storage sha (task_to_storage ?c) = checked_task sha (stored_view ?c)"
    by (intro task_from_to_storage) (simp_all add: p(2))
  moreover have "map_of ?dir (task_path (fe_task_id f)) = Some (task_to_storage ?c)"
    using t task_path_latest [of "fe_task_id f"] assms(7) by (auto simp: stored_commit_def map_of_dir_put)
  ultimately have "task_at sha ?dir (fe_task_id f) = None"
    using bad by (auto simp: task_at_def checked_task_Inr split: sum.splits)
  then have "is_err (task_read sha st io ?dir (Some (fe_task_id f)))" for io
    using task_read_at [of sha st io ?dir "fe_task_id f"] by (cases "task_read sha st io ?dir (Some (fe_task_id f))") auto
  then show ?thesis using finished p(3) by auto
qed

text \<open>
  C38. A task called latest-basic loses its record. Its canonical file is also the alias of the last
  commit, so after a successful commit of any other task every read of it is an error.
\<close>

theorem alias_overwrites_task:
  assumes "compare_and_set sha st io mode p dir = (Inr c, dir')" and "st_task_id p \<noteq> ''latest-basic''"
  shows "is_err (task_read sha st' io' dir' (Some ''latest-basic''))"
proof -
  have w: "st_task_id c = st_task_id p" "task_validate sha c = Inr ()" "st_record_version c \<noteq> 0"
    using commit_written [OF assms(1)] by simp_all
  have "map_of dir' latest_task_file = Some (task_to_storage c)"
    using commit_snapshot_cases [OF assms(1) [unfolded compare_and_set_def]]
      commit_checks_result(2) by (auto simp: map_of_dir_put)
  then have data: "map_of dir' (task_path ''latest-basic'') = Some (task_to_storage c)" by (simp add: latest_task_file_def)
  have "task_at sha dir' ''latest-basic'' = None"
  proof (rule ccontr)
    assume "task_at sha dir' ''latest-basic'' \<noteq> None"
    then obtain s where s: "task_at sha dir' ''latest-basic'' = Some s" by blast
    have "s = stored_view c" by (rule task_at_written [OF data w(2,3) s])
    then show False using task_at_validate [OF s] w(1) assms(2) by simp
  qed
  then show ?thesis
    using task_read_at [of sha st' io' dir' "''latest-basic''"]
    by (cases "task_read sha st' io' dir' (Some ''latest-basic'')") auto
qed

subsection \<open>Cancellation\<close>

lemma cancelling_accepts:
  assumes "st_status s = ''cancelling''" and "st_status p \<in> {''cancelled'', ''completed''}"
    and "st_attempts p = st_attempts s" "st_execution_owner p = st_execution_owner s" "st_cancel_token p = st_cancel_token s"
      "st_deadline_at_ms p = st_deadline_at_ms s"
    and "st_status p = ''completed'' \<Longrightarrow> lifecycle_allowed ''cancelling'' ''completed''"
  shows "accepted_transition sha AttemptOutcome s p"
  using assms
  by (auto simp: accepted_transition_def validate_task_state_transition_def Let_def allow_attempt_outcome_def
      allow_heartbeat_def allow_retry_requeue_def allow_restart_recovery_def is_terminal_def lifecycle_allowed_def)

text \<open>
  C14. Cancellation wins over everything but a committed effect. While a cancellation is pending, the
  worker that holds the fence can report any outcome, also a completed one, and the task becomes
  cancelled without a result; only the path for a committed effect completes it, and then the
  cancellation is marked as not accepted.
\<close>

theorem cancellation_precedence:
  assumes "calm ios" and "may_write st" and "task_at sha dir (fe_task_id f) = Some s" and "live_attempt s f"
    and "st_status s = ''cancelling''" and "st_record_version s \<noteq> - 1"
    and "validate_canonical_sha256 digest ''task result digest'' = Inr ()"
  shows "(\<exists>c dir'. finish_execution sha st ios f outcome dir = (Inr c, dir') \<and> st_status c = ''cancelled'' \<and>
      st_cancel_accepted c \<and> st_result_digest c = None) \<and>
    (\<exists>c dir'. finish_committed_effect_execution sha st ios f digest bytes dir = (Inr c, dir') \<and>
      st_status c = ''completed'' \<and> \<not> st_cancel_accepted c \<and> st_result_digest c = Some digest)"
proof -
  have valid: "task_validate sha s = Inr ()" using task_at_validate [OF assms(3)] by simp
  note clean = live_attempt_clean [OF valid assms(4)]
  have claim: "st_execution_owner s = Some (fe_execution_owner f)" "st_attempts s = fe_attempt f"
    "st_cancel_token s = Some (fe_cancel_token f)" "st_task_id s = fe_task_id f"
    using assms(4) by (auto simp: live_attempt_def)
  let ?p = "mark_cancelled (clear_result s)"
    and ?q = "push_task_log ''info'' ''task completed from committed effect''
      (clear_error ((push_task_log ''warning'' ''task cancellation was superseded by a committed effect''
        (s\<lparr>st_cancel_accepted := False\<rparr>))\<lparr>st_status := ''completed'', st_result_digest := Some digest,
          st_result_size_bytes := Some bytes\<rparr>))"
  note defs = mark_cancelled_def clear_error_def clear_result_def
  have "validate_outcome_fields ?p = Inr ()" "validate_outcome_fields ?q = Inr ()"
    using clean claim assms(7) by (simp_all add: defs validate_outcome_fields_def execution_metadata_valid_def)
  then have ok: "task_validate sha ?p = Inr ()" "task_validate sha ?q = Inr ()"
    by (intro task_validateI [OF valid]; simp add: defs)+
  have "accepted_transition sha AttemptOutcome s ?p" by (rule cancelling_accepts [OF assms(5)]) (simp_all add: defs)
  from calm_commit [OF assms(1-3) ok(1) _ _ _ _ _ this assms(6), of 1]
  have p: "compare_and_set sha st (ios 1) AttemptOutcome ?p dir = (Inr (next_record st ?p), stored_commit (next_record st ?p) dir)"
    using claim(4) by (simp add: defs)
  have plan: "finish_plan sha f outcome s = Inr ?p"
    using live_attempt_fence [OF assms(4)] assms(5) ok(1) claim
    by (cases outcome) (simp_all add: finish_plan_def cancel_execution_def verify_execution_claim_def checked_task_def)
  have cancelled: "finish_execution sha st ios f outcome dir = (Inr (next_record st ?p), stored_commit (next_record st ?p) dir)"
    unfolding finish_execution_def by (rule calm_cas_operation [OF assms(1,3), where plan = "finish_plan sha f outcome", OF plan p])
  have "accepted_transition sha AttemptOutcome s ?q"
    by (rule cancelling_accepts [OF assms(5)]) (simp_all add: defs lifecycle_allowed_def)
  from calm_commit [OF assms(1-3) ok(2) _ _ _ _ _ this assms(6), of 1]
  have q: "compare_and_set sha st (ios 1) AttemptOutcome ?q dir = (Inr (next_record st ?q), stored_commit (next_record st ?q) dir)"
    using claim(4) by (simp add: defs)
  have "finish_committed_effect_execution sha st ios f digest bytes dir = (Inr (next_record st ?q), stored_commit (next_record st ?q) dir)"
    unfolding finish_committed_effect_execution_def
    by (rule calm_cas_operation [OF assms(1,3) _ q])
      (use live_attempt_fence [OF assms(4)] assms(5,7) ok(2) claim in
        \<open>simp add: complete_committed_effect_execution_def verify_execution_claim_def checked_task_def\<close>)
  then show ?thesis using cancelled by (simp add: defs)
qed

subsection \<open>Recovery from a committed effect\<close>

lemma cas_rounds_result:
  assumes "cas_rounds sha st ios t mode plan (\<lambda>_ _. None) limit n k d = (Inr s, d')" and "\<And>x. plan x \<noteq> Inl Refresh"
  shows "\<exists>d0 current. task_at sha d0 t = Some current \<and> (plan current = Inl (Answer (Inr s)) \<and> d0 = d' \<or>
    (\<exists>p io d1. plan current = Inr p \<and> compare_and_set sha st io mode p d1 = (Inr s, d')))"
  using assms(1)
proof (induction n arbitrary: k d)
  case (Suc n)
  let ?d1 = "ti_others (ios k) d"
  obtain current where current: "task_read sha st (ios k) ?d1 (Some t) = Inr current"
    using Suc.prems by (auto simp: Let_def split: sum.splits)
  have at: "task_at sha ?d1 t = Some current" using task_read_at [OF current] by simp
  show ?case
  proof (cases "plan current")
    case (Inl stop)
    then obtain r where "stop = Answer r" using assms(2) by (cases stop) auto
    then show ?thesis using Suc.prems current Inl at by (auto simp: Let_def cas_stopped_def)
  next
    case (Inr p)
    then show ?thesis
      using Suc.prems current at Suc.IH by (fastforce simp: Let_def split: sum.splits if_splits prod.splits)
  qed
qed simp

lemma committed_fields:
  assumes "compare_and_set sha st io mode p d = (Inr c, d')"
  shows "st_status c = st_status p" "st_result_digest c = st_result_digest p" "st_result_size_bytes c = st_result_size_bytes p"
proof -
  obtain found where f: "commit_checks sha st (task_path (st_task_id p)) (commit_generation st) p (st_record_version p) mode found = Inr c"
    using commit_snapshot_cases [OF assms [unfolded compare_and_set_def]] by auto
  note eq = commit_checks_result(2) [OF f]
  show "st_status c = st_status p" "st_result_digest c = st_result_digest p" "st_result_size_bytes c = st_result_size_bytes p"
    using arg_cong [OF eq, of st_status] arg_cong [OF eq, of st_result_digest] arg_cong [OF eq, of st_result_size_bytes]
    by simp_all
qed

lemma recover_committed_effect_fields:
  assumes "recover_committed_effect sha operation digest bytes s = Inr p"
  shows "st_status p = ''completed''" "st_result_digest p = Some digest" "st_result_size_bytes p = Some bytes"
    "st_task_id p = st_task_id s"
  using assms
  by (auto simp: recover_committed_effect_def res_simps checked_task_Inr clear_error_def split: if_splits)

lemma recovered_result:
  assumes "recover_task_from_committed_effect sha st ios t operation digest bytes d = (Inr s, d')" and t: "t \<noteq> ''latest-basic''"
  shows "map_of d' (task_path t) \<noteq> None" "\<And>s'. task_at sha d' t = Some s' \<Longrightarrow> st_status s' = ''completed'' \<and>
    st_result_digest s' = Some digest \<and> st_result_size_bytes s' = Some bytes"
proof -
  let ?recover = "recover_committed_effect sha operation digest bytes"
  obtain generation limit where rounds: "cas_rounds sha st ios t RestartRecovery (recovery_plan ?recover generation) (\<lambda>_ _. None)
      limit TASK_STATE_CAS_RETRY_LIMIT 0 d = (Inr s, d')"
    using assms(1)
    by (auto simp: recover_task_from_committed_effect_def after_checks_def cas_operation_def split: sum.splits)
  have "recovery_plan ?recover generation x \<noteq> Inl Refresh" for x
    by (cases "?recover x"; cases "reject_current_generation_recovery x generation")
      (auto simp: recovery_plan_def split: if_splits)
  from cas_rounds_result [OF rounds this]
  obtain d0 current where current: "task_at sha d0 t = Some current"
    and plan: "recovery_plan ?recover generation current = Inl (Answer (Inr s)) \<and> d0 = d' \<or>
      (\<exists>p io d1. recovery_plan ?recover generation current = Inr p \<and> compare_and_set sha st io RestartRecovery p d1 = (Inr s, d'))"
    by blast
  have "map_of d' (task_path t) \<noteq> None \<and> (\<forall>s'. task_at sha d' t = Some s' \<longrightarrow> st_status s' = ''completed'' \<and>
      st_result_digest s' = Some digest \<and> st_result_size_bytes s' = Some bytes)"
    using plan
  proof (elim disjE exE conjE)
    assume "recovery_plan ?recover generation current = Inl (Answer (Inr s))" "d0 = d'"
    then have "?recover current = Inr current" "d0 = d'"
      by (cases "?recover current"; cases "reject_current_generation_recovery current generation",
        auto simp: recovery_plan_def split: if_splits)+
    then show ?thesis using recover_committed_effect_fields current task_at_file [OF current] by auto
  next
    fix p io d1
    assume "recovery_plan ?recover generation current = Inr p" and c: "compare_and_set sha st io RestartRecovery p d1 = (Inr s, d')"
    then have p: "?recover current = Inr p"
      by (cases "?recover current"; cases "reject_current_generation_recovery current generation")
        (auto simp: recovery_plan_def split: if_splits)
    note result = recover_committed_effect_fields [OF p] and w = commit_written [OF c] and fields = committed_fields [OF c]
    have data: "map_of d' (task_path t) = Some (task_to_storage s)"
      using w(5) result(4) task_at_validate [OF current] t by simp
    then show ?thesis using task_at_written [OF data w(3,4)] fields result by auto
  qed
  then show "map_of d' (task_path t) \<noteq> None" "\<And>s'. task_at sha d' t = Some s' \<Longrightarrow> st_status s' = ''completed'' \<and>
    st_result_digest s' = Some digest \<and> st_result_size_bytes s' = Some bytes" by blast+
qed

definition effect_completed :: "string \<Rightarrow> string \<Rightarrow> u64 \<Rightarrow> task_state \<Rightarrow> task_state" where
  "effect_completed operation digest bytes s = push_task_log ''info'' (COMMITTED_EFFECT_RECOVERY_LOG_PREFIX @ operation)
     (clear_error (s\<lparr>st_status := ''completed'', st_cancel_accepted := False, st_result_digest := Some digest,
        st_result_size_bytes := Some bytes, st_interrupted_reason := None\<rparr>))"

lemma effect_completed_ok:
  fixes bytes :: u64
  assumes v: "task_validate sha s = Inr ()" and e: "st_envelope s \<noteq> None" and status: "recoverable_status (st_status s)"
    and digests: "validate_canonical_sha256 operation ''effect operation digest'' = Inr ()"
      "validate_canonical_sha256 digest ''task result digest'' = Inr ()"
  defines "p \<equiv> effect_completed operation digest bytes s"
  shows "recover_committed_effect sha operation digest bytes s = Inr p" "task_validate sha p = Inr ()"
    "accepted_transition sha RestartRecovery s p"
proof -
  have fields: "st_status p = ''completed''" "st_result_digest p = Some digest" "st_result_size_bytes p = Some bytes"
    "st_error_kind p = None" "st_error_message p = None" "st_error_retryable p = None" "st_retry_ready_at_ms p = None"
    "st_interrupted_reason p = None" "st_envelope p = st_envelope s" "st_execution_owner p = st_execution_owner s"
    "st_cancel_token p = st_cancel_token s" "st_task_id p = st_task_id s" "st_attempts p = st_attempts s"
    "st_retry_max_attempts p = st_retry_max_attempts s" "st_replay_delivery p = st_replay_delivery s"
    by (simp_all add: p_def effect_completed_def clear_error_def)
  have "validate_outcome_fields p = Inr ()"
    using e digests(2) by (auto simp: fields validate_outcome_fields_def execution_metadata_valid_def)
  then show valid: "task_validate sha p = Inr ()" by (intro task_validateI [OF v]) (simp_all add: fields)
  have unfinished: "st_status s \<noteq> ''completed''" using status by (auto simp: recoverable_status_def)
  show recover: "recover_committed_effect sha operation digest bytes s = Inr p"
    using e status digests unfinished valid unfolding p_def
    by (simp add: recover_committed_effect_def checked_task_def effect_completed_def)
  have "st_logs p = st_logs s @ [\<lparr>tl_sequence = of_nat (length (st_logs s)) + 1, tl_level = ''info'',
      tl_message = COMMITTED_EFFECT_RECOVERY_LOG_PREFIX @ operation\<rparr>]"
    by (simp add: p_def effect_completed_def push_task_log_def clear_error_def)
  then have "task_restart_recovery_transition_matches sha s p"
    using recover fields(2,3) by (simp add: task_restart_recovery_transition_matches_def strip_prefix_append)
  then show "accepted_transition sha RestartRecovery s p"
    using fields(1) by (simp add: accepted_transition_def validate_task_state_transition_def Let_def allow_restart_recovery_def)
qed

lemma calm_recovery:
  fixes bytes :: u64
  assumes "calm ios" and "fs_task_writer st = Some w" and "task_at sha dir t = Some s" and "st_envelope s \<noteq> None"
    and "recoverable_status (st_status s)" and "st_owner_generation s \<noteq> lw_generation w"
    and "validate_canonical_sha256 operation ''effect operation digest'' = Inr ()"
    and "validate_canonical_sha256 digest ''task result digest'' = Inr ()"
    and "st_record_version s \<noteq> - 1" and "t \<noteq> ''latest-basic''" and "storable s" and "rust_task s" and "text_ok operation"
  defines "p \<equiv> next_record st (effect_completed operation digest bytes s)"
  shows "recover_task_from_committed_effect sha st ios t operation digest bytes dir = (Inr p, stored_commit p dir)"
    and "task_at sha (stored_commit p dir) t = Some p"
proof -
  have v: "task_validate sha s = Inr ()" and id: "st_task_id s = t" using task_at_validate [OF assms(3)] by simp_all
  let ?p = "effect_completed operation digest bytes s"
  note ok = effect_completed_ok [OF v assms(4,5,7,8)]
  have fields: "st_task_id ?p = t" "st_record_version ?p = st_record_version s" "st_owner_generation ?p = st_owner_generation s"
    "st_envelope ?p = st_envelope s" "st_replay_delivery ?p = st_replay_delivery s" "st_status ?p = ''completed''"
    "st_result_digest ?p = Some digest" "st_result_size_bytes ?p = Some bytes" "\<not> st_cancel_accepted ?p" "st_attempts ?p = st_attempts s"
    by (simp_all add: effect_completed_def clear_error_def id)
  have "may_write st" using assms(2) by (simp add: may_write_def)
  from calm_commit [OF assms(1) this assms(3) ok(2) fields(1-5) ok(3) assms(9)]
  have commit: "compare_and_set sha st (ios 1) RestartRecovery ?p dir = (Inr (next_record st ?p), stored_commit (next_record st ?p) dir)"
    by simp
  have "?p \<noteq> s" using fields(6) assms(5) by (auto simp: recoverable_status_def dest: arg_cong [of _ _ st_status])
  then have plan: "recovery_plan (recover_committed_effect sha operation digest bytes) (lw_generation w) s = Inr ?p"
    using ok(1) assms(6) by (simp add: recovery_plan_def reject_current_generation_recovery_def)
  have "request_id_parse t = Inr (RequestId t)"
    using task_validate_parts(1) [OF v] id by (simp add: request_id_parse_def iffD2 [OF validate_id_iff])
  then have run: "recover_task_from_committed_effect sha st ios t operation digest bytes dir =
      (Inr (next_record st ?p), stored_commit (next_record st ?p) dir)"
    using assms(2,7,8) calm_cas_operation [where plan = "recovery_plan (recover_committed_effect sha operation digest bytes) (lw_generation w)",
        OF assms(1,3) plan commit]
    by (simp add: recover_task_from_committed_effect_def after_checks_def recovery_writer_generation_def runtime_writer_generation_def)
  show "recover_task_from_committed_effect sha st ios t operation digest bytes dir = (Inr p, stored_commit p dir)"
    unfolding p_def by (rule run)
  have "storable ?p" using assms(4,11) by (simp add: storable_def effect_completed_def clear_error_def)
  moreover have "rust_task ?p"
    using assms(12,13) text_ok_append [of COMMITTED_EFFECT_RECOVERY_LOG_PREFIX operation]
    by (auto simp: effect_completed_def rust_task_log COMMITTED_EFFECT_RECOVERY_LOG_PREFIX_def)
      (auto simp: rust_task_def task_texts_def clear_error_def)
  ultimately have "task_at sha (stored_commit (next_record st ?p) dir) (st_task_id (next_record st ?p)) = Some (next_record st ?p)"
    by (intro task_at_stored) (use ok(2) fields next_version assms(9,10) in simp_all)
  then show "task_at sha (stored_commit p dir) t = Some p" using fields(1) by (simp add: p_def)
qed

text \<open>
  C13. A committed effect completes the task it belongs to after a restart. Without failures and
  interference, a store of a newer writer generation records the result of the effect as the result of
  the task, whatever the task was doing when its writer went away, and a read returns that record; a
  cancellation that was pending is marked as not accepted.
\<close>

theorem recovery_completes_task:
  assumes "calm ios" and "fs_task_writer st = Some w" and "task_at sha dir t = Some s" and "st_envelope s \<noteq> None"
    and "recoverable_status (st_status s)" and "st_owner_generation s \<noteq> lw_generation w"
    and "validate_canonical_sha256 operation ''effect operation digest'' = Inr ()"
    and "validate_canonical_sha256 digest ''task result digest'' = Inr ()"
    and "st_record_version s \<noteq> - 1" and "t \<noteq> ''latest-basic''" and "storable s" and "rust_task s" and "text_ok operation"
  shows "\<exists>c dir'. recover_task_from_committed_effect sha st ios t operation digest bytes dir = (Inr c, dir') \<and>
    task_at sha dir' t = Some c \<and> st_status c = ''completed'' \<and> st_result_digest c = Some digest \<and>
    st_result_size_bytes c = Some bytes \<and> \<not> st_cancel_accepted c \<and> st_attempts c = st_attempts s"
  using calm_recovery [OF assms, of bytes] by (simp add: effect_completed_def clear_error_def)

end
