(* ===== verification/Storage_TaskClaims.thy ===== *)
theory Storage_TaskClaims
  imports Storage_TaskRecovery
begin

section \<open>Claiming a queued task\<close>

text \<open>
  What a worker gets from a claim (src/crates/eva-storage/src/task_state.rs), and concrete records of a
  task in each of its states, on which the properties of the task store are instantiated.
\<close>

subsection \<open>A claim is granted\<close>

definition claimed_record :: "string \<Rightarrow> string \<Rightarrow> u128 \<Rightarrow> u128 option \<Rightarrow> task_state \<Rightarrow> task_state" where
  "claimed_record owner token now deadline s =
     push_task_log ''info'' (''task attempt '' @ nat_str (unat (st_attempts s + 1)) @ '' claimed by worker'')
       (mark_running now deadline token (clear_error (clear_result (s\<lparr>st_attempts := st_attempts s + 1,
         st_execution_owner := Some owner, st_interrupted_reason := None\<rparr>))))"

definition claim_deadline :: "u128 \<Rightarrow> task_state \<Rightarrow> u128 option" where
  "claim_deadline now s = map_option (\<lambda>timeout. now + ucast timeout)
     (Option.bind (st_envelope s) (\<lambda>v. ap_attempt_timeout_ms (ev_attempt_policy v)))"

definition deadline_in_range :: "u128 \<Rightarrow> task_state \<Rightarrow> bool" where
  "deadline_in_range now s \<longleftrightarrow> (\<forall>timeout. Option.bind (st_envelope s) (\<lambda>v. ap_attempt_timeout_ms (ev_attempt_policy v)) = Some timeout \<longrightarrow>
     unat now + unat timeout < 2 ^ 128)"

lemma claimed_record_fields [simp]:
  "st_status (claimed_record owner token now deadline s) = ''running''"
  "st_attempts (claimed_record owner token now deadline s) = st_attempts s + 1"
  "st_execution_owner (claimed_record owner token now deadline s) = Some owner"
  "st_cancel_token (claimed_record owner token now deadline s) = Some token"
  "st_deadline_at_ms (claimed_record owner token now deadline s) = deadline"
  "st_heartbeat_at_ms (claimed_record owner token now deadline s) = Some now"
  "st_task_id (claimed_record owner token now deadline s) = st_task_id s"
  "st_envelope (claimed_record owner token now deadline s) = st_envelope s"
  "st_replay_delivery (claimed_record owner token now deadline s) = st_replay_delivery s"
  "st_record_version (claimed_record owner token now deadline s) = st_record_version s"
  "st_owner_generation (claimed_record owner token now deadline s) = st_owner_generation s"
  "st_retry_max_attempts (claimed_record owner token now deadline s) = st_retry_max_attempts s"
  "st_cancel_requested (claimed_record owner token now deadline s) = st_cancel_requested s"
  "st_cancel_accepted (claimed_record owner token now deadline s) = st_cancel_accepted s"
  "st_cancel_reason (claimed_record owner token now deadline s) = st_cancel_reason s"
  "st_result_digest (claimed_record owner token now deadline s) = None"
  "st_result_size_bytes (claimed_record owner token now deadline s) = None"
  "st_interrupted_reason (claimed_record owner token now deadline s) = None"
  "st_error_kind (claimed_record owner token now deadline s) = None"
  "st_error_message (claimed_record owner token now deadline s) = None"
  "st_error_retryable (claimed_record owner token now deadline s) = None"
  "st_retry_ready_at_ms (claimed_record owner token now deadline s) = None"
  by (simp_all add: claimed_record_def mark_running_def clear_error_def clear_result_def)

lemma deadline_added:
  assumes "unat now + unat (timeout :: u64) < 2 ^ 128"
  shows "checked_add (now :: u128) (ucast timeout) = Some (now + ucast timeout)"
proof -
  have "unat (ucast timeout :: u128) = unat timeout"
    using unat_bound [of timeout] by (simp add: unsigned_ucast_eq take_bit_nat_eq_self)
  then show ?thesis using assms by (simp add: checked_add_def)
qed

lemma attempt_added:
  assumes "st_attempts s < st_retry_max_attempts s"
  shows "checked_add (st_attempts s) 1 = Some (st_attempts s + 1)" "st_attempts s + 1 \<le> st_retry_max_attempts s" "st_attempts s + 1 \<noteq> 0"
proof -
  have bound: "unat (st_attempts s) < unat (st_retry_max_attempts s)" using assms by (simp add: word_less_nat_alt)
  then have "unat (st_attempts s) + 1 < 2 ^ 64" using unat_bound [of "st_retry_max_attempts s"] by simp
  then have sum: "unat (st_attempts s + 1) = unat (st_attempts s) + 1" by (simp add: unat_word_ariths)
  then show "checked_add (st_attempts s) 1 = Some (st_attempts s + 1)"
    using \<open>unat (st_attempts s) + 1 < 2 ^ 64\<close> by (simp add: checked_add_def)
  show "st_attempts s + 1 \<le> st_retry_max_attempts s" using sum bound by (simp add: word_le_nat_alt)
  show "st_attempts s + 1 \<noteq> 0" using sum by auto
qed

lemma claim_valid:
  assumes v: "task_validate sha s = Inr ()" and c: "claimable s"
    and owner: "validate_execution_owner owner = Inr ()" and token: "validate_cancel_token token = Inr ()"
  shows "task_validate sha (claimed_record owner token now deadline s) = Inr ()"
proof -
  have less: "st_attempts s < st_retry_max_attempts s" and e: "st_envelope s \<noteq> None" using c by (simp_all add: claimable_def not_le)
  show ?thesis
  proof (rule task_validate_fromI [OF v])
    show "validate_claim_fields (claimed_record owner token now deadline s) = Inr ()"
      using owner token e attempt_added(3) [OF less] by (auto simp: validate_claim_fields_def)
    show "validate_outcome_fields (claimed_record owner token now deadline s) = Inr ()"
      by (simp add: validate_outcome_fields_def execution_metadata_valid_def)
  qed (simp_all add: attempt_added(2) [OF less])
qed

lemma claim_candidate_eq:
  assumes v: "task_validate sha s = Inr ()" and c: "claimable s" and "deadline_in_range now s"
    and ok: "validate_execution_owner owner = Inr ()" "validate_cancel_token token = Inr ()"
  shows "claim_candidate sha t owner token now s = Inr (st_attempts s + 1, claimed_record owner token now (claim_deadline now s) s)"
proof -
  let ?timeout = "Option.bind (st_envelope s) (\<lambda>v. ap_attempt_timeout_ms (ev_attempt_policy v))"
  have less: "st_attempts s < st_retry_max_attempts s" using c by (simp add: claimable_def not_le)
  have deadline: "(case ?timeout of None \<Rightarrow> Inr None | Some timeout \<Rightarrow> map_sum id Some (ok_or e (checked_add now (ucast timeout)))) =
      Inr (claim_deadline now s)" for e :: eva_error
    using assms(3) deadline_added by (cases ?timeout) (simp_all add: deadline_in_range_def claim_deadline_def)
  have "claim_for_execution sha owner now (claim_deadline now s) token s =
      Inr (st_attempts s + 1, claimed_record owner token now (claim_deadline now s) s)"
    using c ok attempt_added(1,2) [OF less] claim_valid [OF v c ok]
    by (simp add: claim_for_execution_def claimable_def claimed_record_def Let_def not_le [symmetric])
  then show ?thesis unfolding claim_candidate_def deadline by simp
qed

lemma claim_accepted:
  assumes c: "claimable s" and "deadline_in_range now s"
  shows "accepted_transition sha CompareAndSet s (claimed_record owner token now (claim_deadline now s) s)"
proof -
  let ?p = "claimed_record owner token now (claim_deadline now s) s"
  have less: "st_attempts s < st_retry_max_attempts s" using c by (simp add: claimable_def not_le)
  have "claim_deadline_valid s ?p"
    using assms(2) deadline_added
    by (auto simp: claim_deadline_valid_def claim_deadline_def deadline_in_range_def split: option.splits)
  then have "is_claim s ?p" using c less attempt_added(1) [OF less] by (simp add: is_claim_def claimable_def)
  then show ?thesis
    using c by (simp add: accepted_transition_def validate_task_state_transition_def Let_def claimable_def
        is_terminal_def lifecycle_allowed_def)
qed

lemma calm_claim:
  assumes calm: "calm ios" "may_write st" and at: "task_at sha dir t = Some s" and c: "claimable s"
    and ok: "validate_execution_owner owner = Inr ()" "validate_cancel_token token = Inr ()"
    and range: "deadline_in_range now s" and version: "st_record_version s \<noteq> - 1"
  defines "p \<equiv> next_record st (claimed_record owner token now (claim_deadline now s) s)"
  shows "try_claim_queued sha st ios t owner token now dir = (Inr (Some \<lparr>ec_snapshot = p,
      ec_fence = \<lparr>fe_task_id = t, fe_owner_generation = commit_generation st, fe_execution_owner = owner,
        fe_attempt = st_attempts s + 1, fe_cancel_token = token\<rparr>\<rparr>), stored_commit p dir)"
proof -
  let ?p = "claimed_record owner token now (claim_deadline now s) s"
  have v: "task_validate sha s = Inr ()" and id: "st_task_id s = t" using task_at_validate [OF at] by simp_all
  have less: "st_attempts s < st_retry_max_attempts s" using c by (simp add: claimable_def not_le)
  have read: "task_read sha st (ios 0) dir (Some t) = Inr s"
    using task_at_read [OF at] calm(1) task_validate_parts(1) [OF v] id by (simp add: calm_def quiet_io_def)
  have "compare_and_set sha st (ios 1) CompareAndSet ?p dir = (Inr p, stored_commit p dir)"
    unfolding p_def
    by (rule calm_commit [OF calm at claim_valid [OF v c ok] _ _ _ _ _ claim_accepted [OF c range] version])
      (simp_all add: id)
  moreover have "task_execution_claim p = Inr \<lparr>ec_snapshot = p,
      ec_fence = \<lparr>fe_task_id = t, fe_owner_generation = commit_generation st, fe_execution_owner = owner,
        fe_attempt = st_attempts s + 1, fe_cancel_token = token\<rparr>\<rparr>"
    using attempt_added(3) [OF less] by (simp add: task_execution_claim_def p_def next_record_def id)
  ultimately show ?thesis
    using read calm(1) c ok claim_candidate_eq [OF v c range ok] by (simp add: try_claim_queued_def calm_def Let_def)
qed

lemma claimed_record_kept:
  assumes "storable s" "rust_task s" "st_envelope s \<noteq> None" "text_ok owner" "text_ok token"
  shows "storable (claimed_record owner token now deadline s)" "rust_task (claimed_record owner token now deadline s)"
proof -
  show "storable (claimed_record owner token now deadline s)" using assms(1,3) by (simp add: storable_def)
  have "text_ok (''task attempt '' @ nat_str n @ '' claimed by worker'')" for n
    by (intro text_ok_append text_ok_simps) simp_all
  then show "rust_task (claimed_record owner token now deadline s)"
    using assms(2,4,5)
    by (auto simp: claimed_record_def mark_running_def rust_task_log)
      (auto simp: rust_task_def task_texts_def clear_error_def clear_result_def)
qed

lemma claimed_at:
  fixes now :: u128 and deadline :: "u128 option" and st :: task_fs_store
  assumes "task_at sha dir t = Some s" and "claimable s" and "validate_execution_owner owner = Inr ()" "validate_cancel_token token = Inr ()"
    and "st_record_version s \<noteq> - 1" and "t \<noteq> ''latest-basic''"
    and "storable s" and "rust_task s" and "text_ok owner" and "text_ok token"
  defines "p \<equiv> next_record st (claimed_record owner token now deadline s)"
  shows "task_at sha (stored_commit p dir) t = Some p"
proof -
  have v: "task_validate sha s = Inr ()" and id: "st_task_id s = t" using task_at_validate [OF assms(1)] by simp_all
  have e: "st_envelope s \<noteq> None" using assms(2) by (simp add: claimable_def)
  have "task_at sha (stored_commit p dir) (st_task_id p) = Some p"
    unfolding p_def
    by (rule task_at_stored)
      (use claim_valid [OF v assms(2-4)] claimed_record_kept [OF assms(7,8) e assms(9,10)] next_version assms(5,6) id in simp_all)
  then show ?thesis using id by (simp add: p_def)
qed

text \<open>
  C12. A queued task that may be claimed is granted to the worker that asks. Without failures and
  interference the claim commits the next attempt as running, hands the worker a fence that is live on
  exactly the record a read then returns, and sets the deadline to the time of the claim plus the
  timeout of the policy.
\<close>

theorem claim_is_granted:
  assumes "calm ios" and "may_write st" and "task_at sha dir t = Some s" and "claimable s"
    and "validate_execution_owner owner = Inr ()" and "validate_cancel_token token = Inr ()"
    and "deadline_in_range now s" and "st_record_version s \<noteq> - 1" and "t \<noteq> ''latest-basic''"
    and "storable s" and "rust_task s" and "text_ok owner" and "text_ok token"
  shows "\<exists>c dir'. try_claim_queued sha st ios t owner token now dir = (Inr (Some c), dir') \<and>
    task_at sha dir' t = Some (ec_snapshot c) \<and> live_attempt (ec_snapshot c) (ec_fence c) \<and>
    st_status (ec_snapshot c) = ''running'' \<and> fe_attempt (ec_fence c) = st_attempts s + 1 \<and>
    fe_execution_owner (ec_fence c) = owner \<and> fe_cancel_token (ec_fence c) = token \<and>
    st_deadline_at_ms (ec_snapshot c) = claim_deadline now s"
proof -
  have "st_task_id s = t" using task_at_validate [OF assms(3)] by simp
  then show ?thesis
    using calm_claim [OF assms(1-8)] claimed_at [OF assms(3-6,8-13)] by (auto simp: live_attempt_def next_record_def)
qed

subsection \<open>Concrete records\<close>

definition sample_envelope :: envelope_snapshot where
  "sample_envelope = \<lparr>ev_kind = ''invoice.pay'', ev_agent_id = ''agent-a'', ev_input = InlineInput [] (sha256_text sample_sha []),
     ev_idempotency_key = ''pay-1'',
     ev_attempt_policy = \<lparr>ap_max_attempts = 2, ap_retry_backoff_ms = 10, ap_attempt_timeout_ms = Some 100\<rparr>\<rparr>"

definition sample_queued :: task_state where
  "sample_queued = (empty_task_state ''task-1'' ''queued'')\<lparr>st_record_version := 1, st_owner_generation := 1,
     st_envelope := Some sample_envelope, st_retry_max_attempts := 2\<rparr>"

definition sample_running :: task_state where
  "sample_running = sample_queued\<lparr>st_status := ''running'', st_attempts := 1, st_execution_owner := Some ''worker'',
     st_cancel_token := Some ''token'', st_heartbeat_at_ms := Some 5, st_deadline_at_ms := Some 105\<rparr>"

definition sample_cancelling :: task_state where
  "sample_cancelling = sample_running\<lparr>st_status := ''cancelling'', st_cancel_requested := True, st_cancel_accepted := True,
     st_cancel_reason := Some ''stop''\<rparr>"

definition sample_failed :: task_state where
  "sample_failed = sample_running\<lparr>st_status := ''failed'', st_error_kind := Some ''io'', st_error_message := Some ''down'',
     st_error_retryable := Some True\<rparr>"

definition sample_completed :: task_state where
  "sample_completed = sample_running\<lparr>st_status := ''completed'', st_result_digest := Some (sha256_text sample_sha []),
     st_result_size_bytes := Some 0\<rparr>"

definition sample_fence :: attempt_fence where
  "sample_fence = \<lparr>fe_task_id = ''task-1'', fe_owner_generation = 1, fe_execution_owner = ''worker'', fe_attempt = 1,
     fe_cancel_token = ''token''\<rparr>"

definition sample_fs :: task_fs_store where
  "sample_fs = \<lparr>fs_project_root = ''/p'', fs_task_dir = ''/p/tasks'', fs_writer_required = True,
     fs_task_writer = Some \<lparr>lw_root = ''/p'', lw_generation = 1\<rparr>\<rparr>"

definition sample_ios :: "nat \<Rightarrow> task_io" where
  "sample_ios k = \<lparr>ti_others = id, ti_create_dir = Inr (), ti_writer_lock = Inr (), ti_record_lock = Inr (), ti_verify = Inr (),
     ti_read_error = (\<lambda>_. None), ti_write = WriteOk, ti_write_latest = WriteOk\<rparr>"

lemma sample_calm: "calm sample_ios" "may_write sample_fs" "others_step sha sample_ios" "commit_generation sample_fs = 1"
  by (simp_all add: calm_def quiet_io_def sample_ios_def may_write_def sample_fs_def others_step_def commit_generation_def)

lemma sample_result: "validate_canonical_sha256 (sha256_text sample_sha []) field = Inr ()"
  using canonical_digest_ok [OF sample_digest(2)] unfolding sample_digest(1) validate_canonical_sha256_iff sha256_text_def .

lemma sample_identities:
  "validate_execution_owner ''worker'' = Inr ()" "validate_cancel_token ''token'' = Inr ()"
  "text_ok ''worker''" "text_ok ''token''"
  using trim_graphic [of "''worker''"] trim_graphic [of "''token''"]
  by (simp_all add: validate_execution_owner_def validate_cancel_token_def validate_bounded_identity_def is_graphic_def)

lemma sample_envelope_valid: "envelope_validate sample_sha sample_envelope = Inr ()"
  using sample_effect_ids
  by (simp add: envelope_validate_def sample_envelope_def agent_id_parse_def request_id_parse_def iffD2 [OF validate_id_iff]
      sample_result inline_too_long_def MAX_INLINE_TASK_INPUT_BYTES_def attempt_policy_validate_def map_err_def)

lemmas sample_records = sample_queued_def sample_running_def sample_cancelling_def sample_failed_def sample_completed_def
  empty_task_state_def

definition sample_task :: "task_state \<Rightarrow> bool" where
  "sample_task s \<longleftrightarrow> s \<in> {sample_queued, sample_running, sample_cancelling, sample_failed, sample_completed}"

lemma sample_task_simps [simp]:
  "sample_task sample_queued" "sample_task sample_running" "sample_task sample_cancelling" "sample_task sample_failed"
  "sample_task sample_completed"
  unfolding sample_task_def by blast+

lemma sample_tasks:
  assumes "sample_task s"
  shows "task_validate sample_sha s = Inr ()" "storable s" "rust_task s" "st_task_id s = ''task-1''" "st_record_version s = 1"
    "st_owner_generation s = 1" "st_envelope s = Some sample_envelope"
proof -
  note which = assms [unfolded sample_task_def]
  have v: "task_validate sample_sha sample_queued = Inr ()"
    using sample_effect_ids(4) sample_envelope_valid
    by (simp add: task_validate_def sample_records request_id_parse_def iffD2 [OF validate_id_iff] validate_claim_fields_def
        validate_replay_fields_def validate_outcome_fields_def validate_policy_mirror_def reject_if_def sample_envelope_def)
  have "validate_claim_fields s = Inr ()" "validate_outcome_fields s = Inr ()"
    using which sample_identities sample_result
    by (auto simp: sample_records validate_claim_fields_def validate_outcome_fields_def execution_metadata_valid_def)
  then show "task_validate sample_sha s = Inr ()"
    using which by (intro task_validate_fromI [OF v]) (auto simp: sample_records)
  show "storable s" "st_task_id s = ''task-1''" "st_record_version s = 1" "st_owner_generation s = 1" "st_envelope s = Some sample_envelope"
    using which by (auto simp: storable_def sample_records)
  show "rust_task s" using which by (auto simp: rust_task_def task_texts_def option_texts_def sample_records)
qed

definition sample_dir :: "task_state \<Rightarrow> directory" where
  "sample_dir s = stored_commit s []"

lemma sample_task_at:
  assumes "sample_task s"
  shows "task_at sample_sha (sample_dir s) ''task-1'' = Some s"
  using task_at_stored [OF sample_tasks(1) [OF assms] _ sample_tasks(2,3) [OF assms], of "[]"] sample_tasks(4,5) [OF assms]
  by (simp add: sample_dir_def)

lemma sample_live:
  "live_attempt sample_running sample_fence" "st_status sample_running = ''running''" "fe_task_id sample_fence = ''task-1''"
  "live_attempt sample_cancelling sample_fence" "st_status sample_cancelling = ''cancelling''"
  "claimable sample_queued" "task_retry_is_eligible sample_failed"
  by (simp_all add: live_attempt_def sample_fence_def sample_records claimable_def task_retry_is_eligible_def
      stored_task_error_is_retryable_def)

lemma sample_fenced:
  "task_at sample_sha (sample_dir sample_running) (fe_task_id sample_fence) = Some sample_running"
  "task_at sample_sha (sample_dir sample_cancelling) (fe_task_id sample_fence) = Some sample_cancelling"
  "fe_task_id sample_fence \<noteq> ''latest-basic''"
  "st_record_version sample_queued \<noteq> - 1" "st_record_version sample_running \<noteq> - 1" "st_record_version sample_cancelling \<noteq> - 1"
  "st_record_version sample_failed \<noteq> - 1" "st_record_version sample_completed \<noteq> - 1"
  by (simp_all add: sample_task_at sample_live(3) sample_tasks(5))

lemma sample_kept: "storable sample_running" "rust_task sample_running"
  by (rule sample_tasks; simp)+

lemma sample_names: "''task-1'' \<noteq> ''latest-basic''"
  by simp

subsection \<open>The properties on concrete records\<close>

theorem finish_commits_outcome_witness:
  "\<exists>c dir'. finish_execution sample_sha sample_fs sample_ios sample_fence (AttemptCompleted (sha256_text sample_sha []) 0)
      (sample_dir sample_running) = (Inr c, dir') \<and> task_at sample_sha dir' ''task-1'' = Some c \<and> st_record_version c = 2"
proof -
  have "reportable (AttemptCompleted (sha256_text sample_sha []) 0)" by (simp add: reportable_def sample_result)
  from finish_commits_outcome [OF sample_calm(1,2) sample_fenced(1) sample_live(1,2) this sample_kept sample_fenced(5,3)]
  obtain c dir' where c: "finish_execution sample_sha sample_fs sample_ios sample_fence (AttemptCompleted (sha256_text sample_sha []) 0)
      (sample_dir sample_running) = (Inr c, dir')" "task_at sample_sha dir' ''task-1'' = Some c"
    "st_record_version c = st_record_version sample_running + 1"
    unfolding sample_live(3) by blast
  then show ?thesis using sample_tasks(5) [of sample_running] by simp
qed

theorem stale_worker_changes_nothing_witness:
  "let f = sample_fence\<lparr>fe_attempt := 2\<rparr>; d = sample_dir sample_running
   in is_err (fst (finish_execution sample_sha sample_fs sample_ios f (AttemptTimedOut 9 True) d)) \<and>
     snd (finish_execution sample_sha sample_fs sample_ios f (AttemptTimedOut 9 True) d) = d"
proof -
  have "task_read sample_sha sample_fs (sample_ios 0) (sample_dir sample_running) (Some ''task-1'') = Inr sample_running"
    by (rule task_at_read) (use sample_task_at sample_effect_ids(4) in \<open>simp_all add: sample_ios_def\<close>)
  then show ?thesis
    using stale_worker_changes_nothing [of sample_sha sample_fs sample_ios "sample_dir sample_running" "sample_fence\<lparr>fe_attempt := 2\<rparr>"
        sample_running "\<lambda>d. finish_execution sample_sha sample_fs sample_ios (sample_fence\<lparr>fe_attempt := 2\<rparr>) (AttemptTimedOut 9 True) d"
        "AttemptTimedOut 9 True" "[]" 0 0 "[]"]
    by (simp add: sample_fence_def sample_records sample_ios_def)
qed

theorem claim_is_granted_witness:
  "\<exists>c dir'. try_claim_queued sample_sha sample_fs sample_ios ''task-1'' ''worker'' ''token'' 7 (sample_dir sample_queued) =
      (Inr (Some c), dir') \<and> fe_attempt (ec_fence c) = 1 \<and> st_deadline_at_ms (ec_snapshot c) = Some 107"
proof -
  have "deadline_in_range 7 sample_queued" by (simp add: deadline_in_range_def sample_records sample_envelope_def)
  from claim_is_granted [OF sample_calm(1,2) sample_task_at sample_live(6) sample_identities(1,2) this sample_fenced(4) _
      sample_tasks(2,3) sample_identities(3,4)]
  have "\<exists>c dir'. try_claim_queued sample_sha sample_fs sample_ios ''task-1'' ''worker'' ''token'' 7 (sample_dir sample_queued) =
      (Inr (Some c), dir') \<and> fe_attempt (ec_fence c) = st_attempts sample_queued + 1 \<and>
      st_deadline_at_ms (ec_snapshot c) = claim_deadline 7 sample_queued"
    by (metis sample_task_simps(1) sample_names)
  moreover have "st_attempts sample_queued + 1 = 1" "claim_deadline 7 sample_queued = Some 107"
    by (simp_all add: claim_deadline_def sample_records sample_envelope_def)
  ultimately show ?thesis by simp
qed

theorem cancellation_precedence_witness:
  "let d = sample_dir sample_cancelling; digest = sha256_text sample_sha []
   in (\<exists>c dir'. finish_execution sample_sha sample_fs sample_ios sample_fence (AttemptCompleted digest 0) d = (Inr c, dir') \<and>
        st_status c = ''cancelled'') \<and>
     (\<exists>c dir'. finish_committed_effect_execution sample_sha sample_fs sample_ios sample_fence digest 0 d = (Inr c, dir') \<and>
        st_status c = ''completed'')"
  using cancellation_precedence [OF sample_calm(1,2) sample_fenced(2) sample_live(4,5) sample_fenced(6) sample_result,
      of "AttemptCompleted (sha256_text sample_sha []) 0" 0]
  unfolding Let_def by blast


theorem task_storage_roundtrip_witness:
  "task_from_storage sample_sha (task_to_storage sample_running) = Inr sample_running"
  using task_storage_roundtrip [of sample_sha sample_running] sample_tasks [of sample_running] by simp

theorem empty_error_loses_task_witness:
  "\<exists>c dir'. finish_execution sample_sha sample_fs sample_ios sample_fence (AttemptFailed ''io'' [] True) (sample_dir sample_running) =
      (Inr c, dir') \<and> is_err (task_read sample_sha sample_fs (sample_ios 0) dir' (Some ''task-1''))"
  using empty_error_loses_task [OF sample_calm(1,2) sample_fenced(1) sample_live(1,2) sample_fenced(5,3), of "''io''" True]
  unfolding sample_live(3) by blast

text \<open>A claim of the queued task, the recovery of the abandoned attempt, and the second claim.\<close>

definition sample_granted :: "string \<Rightarrow> task_state \<Rightarrow> task_state" where
  "sample_granted token s = next_record sample_fs (claimed_record ''worker'' token 7 (Some 107) s)"

definition sample_abandoned :: task_state where
  "sample_abandoned = push_task_log ''warning'' ''abandoned task recovered from running for a safe retry''
     (release_attempt (sample_granted ''token'' sample_queued))"

lemma sample_deadline:
  "st_envelope s = Some sample_envelope \<Longrightarrow> deadline_in_range 7 s" "st_envelope s = Some sample_envelope \<Longrightarrow> claim_deadline 7 s = Some 107"
  by (simp_all add: deadline_in_range_def claim_deadline_def sample_envelope_def)

lemma sample_granted_at:
  assumes "task_at sample_sha d ''task-1'' = Some s" and "claimable s" and "st_envelope s = Some sample_envelope"
    and "storable s" "rust_task s" "st_record_version s \<noteq> - 1"
  shows "try_claim_queued sample_sha sample_fs sample_ios ''task-1'' ''worker'' ''token'' 7 d =
      (Inr (Some \<lparr>ec_snapshot = sample_granted ''token'' s, ec_fence = sample_fence\<lparr>fe_attempt := st_attempts s + 1\<rparr>\<rparr>),
       stored_commit (sample_granted ''token'' s) d)"
    and "task_at sample_sha (stored_commit (sample_granted ''token'' s) d) ''task-1'' = Some (sample_granted ''token'' s)"
    and "compare_and_set sample_sha sample_fs (sample_ios 1) CompareAndSet (claimed_record ''worker'' ''token'' 7 (Some 107) s) d =
      (Inr (sample_granted ''token'' s), stored_commit (sample_granted ''token'' s) d)"
proof -
  have v: "task_validate sample_sha s = Inr ()" "st_task_id s = ''task-1''" using task_at_validate [OF assms(1)] by simp_all
  show "try_claim_queued sample_sha sample_fs sample_ios ''task-1'' ''worker'' ''token'' 7 d =
      (Inr (Some \<lparr>ec_snapshot = sample_granted ''token'' s, ec_fence = sample_fence\<lparr>fe_attempt := st_attempts s + 1\<rparr>\<rparr>),
       stored_commit (sample_granted ''token'' s) d)"
    using calm_claim [OF sample_calm(1,2) assms(1,2) sample_identities(1,2) sample_deadline(1) [OF assms(3)] assms(6)]
    unfolding sample_deadline(2) [OF assms(3)] sample_granted_def sample_calm(4) by (simp add: sample_fence_def)
  show "task_at sample_sha (stored_commit (sample_granted ''token'' s) d) ''task-1'' = Some (sample_granted ''token'' s)"
    unfolding sample_granted_def
    by (rule claimed_at [OF assms(1,2) sample_identities(1,2) assms(6) _ assms(4,5) sample_identities(3,4)]) simp
  show "compare_and_set sample_sha sample_fs (sample_ios 1) CompareAndSet (claimed_record ''worker'' ''token'' 7 (Some 107) s) d =
      (Inr (sample_granted ''token'' s), stored_commit (sample_granted ''token'' s) d)"
    unfolding sample_granted_def
    by (rule calm_commit [OF sample_calm(1,2) assms(1) claim_valid [OF v(1) assms(2) sample_identities(1,2)] _ _ _ _ _
          claim_accepted [OF assms(2) sample_deadline(1) [OF assms(3)], unfolded sample_deadline(2) [OF assms(3)]] assms(6)])
      (simp_all add: v(2))
qed

lemmas sample_first = sample_granted_at [OF sample_task_at [OF sample_task_simps(1)] sample_live(6)
  sample_tasks(7,2,3) [OF sample_task_simps(1)] sample_fenced(4)]

theorem claims_are_bounded_witness:
  "\<exists>d s. claim_run sample_sha ''task-1'' (sample_dir sample_queued) 1 d \<and> task_at sample_sha d ''task-1'' = Some s \<and>
     unat (st_attempts s) = 1 \<and> 1 \<le> unat (ap_max_attempts (ev_attempt_policy sample_envelope))"
proof -
  let ?d = "stored_commit (sample_granted ''token'' sample_queued) (sample_dir sample_queued)"
  have "claimed sample_sha ''task-1'' (sample_dir sample_queued) ?d"
    unfolding claimed_def using sample_first(2) sample_task_at [OF sample_task_simps(1)]
    by (auto simp: sample_granted_def sample_queued_def empty_task_state_def)
  moreover have "task_step sample_sha (sample_dir sample_queued) ?d"
    using sample_first(3) unfolding compare_and_set_def by (rule step_commit)
  ultimately have run: "claim_run sample_sha ''task-1'' (sample_dir sample_queued) 1 ?d"
    using claim_step [OF claim_start, of sample_sha "sample_dir sample_queued" ?d "''task-1''"] by simp
  from claims_are_bounded [OF run sample_names sample_task_at [OF sample_task_simps(1)] sample_tasks(7) [OF sample_task_simps(1)]]
  have "unat (st_attempts sample_queued) + 1 \<le> unat (ap_max_attempts (ev_attempt_policy sample_envelope))"
    "unat (st_attempts (sample_granted ''token'' sample_queued)) = unat (st_attempts sample_queued) + 1"
    using sample_first(2) by blast+
  moreover have "unat (st_attempts sample_queued) = 0" by (simp add: sample_queued_def empty_task_state_def)
  ultimately show ?thesis using run sample_first(2) by (intro exI [of _ ?d] exI) simp
qed

lemma sample_released:
  defines "d \<equiv> stored_commit (sample_granted ''token'' sample_queued) (sample_dir sample_queued)"
  shows "task_step sample_sha d (stored_commit (next_record sample_fs sample_abandoned) d)"
    "task_at sample_sha (stored_commit (next_record sample_fs sample_abandoned) d) ''task-1'' = Some (next_record sample_fs sample_abandoned)"
    "claimable (next_record sample_fs sample_abandoned)" "storable sample_abandoned" "rust_task sample_abandoned"
    "st_record_version sample_abandoned = 2" "st_envelope sample_abandoned = Some sample_envelope"
proof -
  let ?s = "sample_granted ''token'' sample_queued"
  have at: "task_at sample_sha d ''task-1'' = Some ?s" unfolding d_def by (rule sample_first(2))
  have v: "task_validate sample_sha ?s = Inr ()" using task_at_validate [OF at] by simp
  have fields: "st_task_id ?s = ''task-1''" "st_record_version ?s = 2" "st_envelope ?s = Some sample_envelope" "st_attempts ?s = 1"
    "st_retry_max_attempts ?s = 2" "st_replay_delivery ?s = None" "st_status ?s = ''running''" "st_cancel_requested ?s = False"
    "st_cancel_accepted ?s = False" "st_dead_letters ?s = []" "st_interrupted_reason ?s = None" "st_cancel_reason ?s = None"
    by (simp_all add: sample_granted_def sample_queued_def empty_task_state_def next_record_def)
      (simp add: claimed_record_def mark_running_def clear_error_def clear_result_def)
  note q = sample_abandoned_def released
  have "validate_outcome_fields sample_abandoned = Inr ()" "validate_claim_fields sample_abandoned = Inr ()"
    by (simp_all add: q validate_outcome_fields_def validate_claim_fields_def)
  then have valid: "task_validate sample_sha sample_abandoned = Inr ()"
    using task_validate_parts(4) [OF v] by (intro task_validate_fromI [OF v]) (simp_all add: q)
  have "mark_abandoned_task_queued sample_sha ?s = Inr sample_abandoned"
    using fields valid
    by (simp add: mark_abandoned_task_queued_def abandoned_def checked_task_def sample_abandoned_def requires_operator_reconciliation_def)
  then have "accepted_transition sample_sha RetryRequeue ?s sample_abandoned"
    using fields
    by (simp add: accepted_transition_def validate_task_state_transition_def Let_def allow_retry_requeue_def
        task_retry_special_transition_matches_def task_abandoned_recovery_candidate_def res_ok_def q is_terminal_def)
  then have "compare_and_set sample_sha sample_fs (sample_ios 1) RetryRequeue sample_abandoned d =
      (Inr (next_record sample_fs sample_abandoned), stored_commit (next_record sample_fs sample_abandoned) d)"
    by (intro calm_commit [OF sample_calm(1,2) at valid]) (simp_all add: q fields)
  then show "task_step sample_sha d (stored_commit (next_record sample_fs sample_abandoned) d)"
    unfolding compare_and_set_def by (rule step_commit)
  show kept: "storable sample_abandoned" "st_record_version sample_abandoned = 2" "st_envelope sample_abandoned = Some sample_envelope"
    by (simp_all add: storable_def q fields)
  have "rust_task ?s"
    unfolding sample_granted_def
    using claimed_record_kept [OF sample_tasks(2,3) _ sample_identities(3,4), of sample_queued] sample_tasks(7) [of sample_queued] by simp
  then show rust: "rust_task sample_abandoned" by (auto simp: q rust_task_log) (auto simp: rust_task_def task_texts_def)
  have id: "st_task_id sample_abandoned = ''task-1''" by (simp add: q fields)
  have "task_at sample_sha (stored_commit (next_record sample_fs sample_abandoned) d) (st_task_id (next_record sample_fs sample_abandoned)) =
      Some (next_record sample_fs sample_abandoned)"
    by (rule task_at_stored) (use valid kept rust id in simp_all)
  then show "task_at sample_sha (stored_commit (next_record sample_fs sample_abandoned) d) ''task-1'' = Some (next_record sample_fs sample_abandoned)"
    by (simp add: id)
  show "claimable (next_record sample_fs sample_abandoned)" using fields by (simp add: claimable_def q next_record_def word_le_nat_alt)
qed

theorem claims_are_ordered_witness:
  "\<exists>c c' d1 d2 d3. try_claim_queued sample_sha sample_fs sample_ios ''task-1'' ''worker'' ''token'' 7 (sample_dir sample_queued) =
      (Inr (Some c), d1) \<and> (task_step sample_sha)\<^sup>*\<^sup>* d1 d2 \<and>
     try_claim_queued sample_sha sample_fs sample_ios ''task-1'' ''worker'' ''token'' 7 d2 = (Inr (Some c'), d3) \<and>
     fe_attempt (ec_fence c) < fe_attempt (ec_fence c')"
proof -
  have "storable (next_record sample_fs sample_abandoned)" "rust_task (next_record sample_fs sample_abandoned)"
    "st_envelope (next_record sample_fs sample_abandoned) = Some sample_envelope"
    "st_record_version (next_record sample_fs sample_abandoned) \<noteq> - 1"
    using sample_released by simp_all
  note second = sample_granted_at(1) [OF sample_released(2,3) this(3,1,2,4)]
  have steps: "(task_step sample_sha)\<^sup>*\<^sup>* (stored_commit (sample_granted ''token'' sample_queued) (sample_dir sample_queued))
      (stored_commit (next_record sample_fs sample_abandoned) (stored_commit (sample_granted ''token'' sample_queued) (sample_dir sample_queued)))"
    using sample_released(1) by (rule r_into_rtranclp)
  from claims_are_ordered [OF sample_calm(3,3) sample_names sample_first(1) steps second] show ?thesis
    using sample_first(1) steps second by blast
qed

theorem alias_overwrites_task_witness:
  "is_err (task_read sample_sha sample_fs (sample_ios 0)
     (stored_commit (sample_granted ''token'' sample_queued) (sample_dir sample_queued)) (Some ''latest-basic''))"
  by (rule alias_overwrites_task [OF sample_first(3)]) (use sample_tasks(4) [of sample_queued] in simp)

theorem completed_is_final_witness:
  "\<exists>s. task_at sample_sha (task_calls_dir sample_sha [(sample_fs, sample_ios, CallRefresh ''task-1'')] (sample_dir sample_completed))
      ''task-1'' = Some s \<and> st_status s = ''completed''"
proof -
  let ?d = "sample_dir sample_completed" and ?calls = "[(sample_fs, sample_ios, CallRefresh ''task-1'')]"
  note at = sample_task_at [OF sample_task_simps(5)]
  have "map_of (task_calls_dir sample_sha ?calls ?d) (task_path ''task-1'') = map_of ?d (task_path ''task-1'')"
    using refresh_latest_files(1) [of sample_sha sample_fs "sample_ios 0" "''task-1''" ?d "fst (refresh_latest sample_sha sample_fs (sample_ios 0) ''task-1'' ?d)"
        "snd (refresh_latest sample_sha sample_fs (sample_ios 0) ''task-1'' ?d)"] task_path_latest [of "''task-1''"]
    by (simp add: task_calls_dir_def sample_ios_def)
  then have after: "task_at sample_sha (task_calls_dir sample_sha ?calls ?d) ''task-1'' = Some sample_completed"
    using at by (simp add: task_at_def)
  from completed_is_final [OF _ sample_names at _ after] show ?thesis
    using after sample_calm(3) by (simp add: sample_completed_def)
qed

text \<open>A store of the next writer generation, after a restart.\<close>

definition sample_restarted :: task_fs_store where
  "sample_restarted = sample_fs\<lparr>fs_task_writer := Some \<lparr>lw_root = ''/p'', lw_generation = 2\<rparr>\<rparr>"

lemma sample_restart:
  "fs_task_writer sample_restarted = Some \<lparr>lw_root = ''/p'', lw_generation = 2\<rparr>"
  "st_owner_generation sample_running \<noteq> lw_generation \<lparr>lw_root = ''/p'', lw_generation = 2\<rparr>"
  "recoverable_status (st_status sample_running)" "st_envelope sample_running \<noteq> None" "text_ok (sha256_text sample_sha [])"
proof -
  have "\<forall>c \<in> set (sha256_text sample_sha []). is_graphic c" using canonical_sha256_plain(3) [OF sample_result] .
  then show "text_ok (sha256_text sample_sha [])" using graphic_text_ok by blast
qed (simp_all add: sample_restarted_def sample_tasks(6,7) sample_live(2) recoverable_status_def)

theorem recovery_completes_task_witness:
  "\<exists>c dir'. recover_task_from_committed_effect sample_sha sample_restarted sample_ios ''task-1'' (sha256_text sample_sha [])
      (sha256_text sample_sha []) 0 (sample_dir sample_running) = (Inr c, dir') \<and> st_status c = ''completed''"
  using recovery_completes_task [OF sample_calm(1) sample_restart(1) sample_task_at [OF sample_task_simps(2)] sample_restart(4,3,2)
      sample_result sample_result sample_fenced(5) sample_names sample_kept sample_restart(5), of 0] by blast

end
