(* ===== verification/Storage_TaskEffects.thy ===== *)
theory Storage_TaskEffects
  imports Storage_TaskClaims Storage_Effects
begin

section \<open>The effect ledger over the task store (eva-storage)\<close>

text \<open>
  The ledger of effects reads the record of a task through the task store
  (src/crates/eva-storage/src/effect_ledger.rs). Here its view of a task is the snapshot that
  \<^verbatim>\<open>FileSystemTaskStateStore::read\<close> of src/crates/eva-storage/src/task_state.rs returns, so that what a
  ledger permits is stated on the record in the task directory. The digest of the ledger is that of the
  crate \<^verbatim>\<open>sha2\<close>, the digest of the task store that of eva-core; they are separate arguments.
\<close>

definition envelope_claim :: "envelope_snapshot \<Rightarrow> task_envelope" where
  "envelope_claim v = \<lparr>te_kind = ev_kind v, te_agent_id = ev_agent_id v, te_input_digest = input_digest (ev_input v),
     te_idempotency_key = ev_idempotency_key v\<rparr>"

definition snapshot_claim :: "task_state \<Rightarrow> task_claim" where
  "snapshot_claim s = \<lparr>tc_owner_generation = st_owner_generation s, tc_task_id = st_task_id s,
     tc_envelope = map_option envelope_claim (st_envelope s), tc_status = st_status s, tc_attempts = st_attempts s,
     tc_execution_owner = st_execution_owner s, tc_cancel_requested = st_cancel_requested s,
     tc_cancel_accepted = st_cancel_accepted s, tc_deadline_at_ms = st_deadline_at_ms s, tc_cancel_token = st_cancel_token s\<rparr>"

definition ledger_tasks :: "(string \<Rightarrow> string) \<Rightarrow> task_fs_store \<Rightarrow> task_io \<Rightarrow> directory \<Rightarrow> task_store" where
  "ledger_tasks sha st io dir = \<lparr>ts_project_root = fs_project_root st, ts_writer_generation = runtime_writer_generation st,
     ts_read = (\<lambda>t. map_sum id snapshot_claim (task_read sha st io dir (Some t)))\<rparr>"

lemma prepare_reads_claim:
  assumes "prepare_for_claim sha env clock store l dir i = (Inr outcome, l', dir')"
  obtains now t generation where "clock = Inr now" "ts_read store (in_task_id i) = Inr t"
    "verify_effect_task_claim sha store i generation now = Inr ()"
  using assms [unfolded prepare_for_claim_def]
proof (cases rule: with_claim_cases)
  case (ran w now records res')
  then obtain t where "ts_read store (in_task_id i) = Inr t"
    by (auto simp: verify_effect_task_claim_def Let_def res_simps split: if_splits)
  then show ?thesis using ran that by blast
qed simp

lemma ledger_reads_record:
  assumes "ts_read (ledger_tasks sha st io dir) task = Inr t"
  obtains s where "task_at sha dir task = Some s" "t = snapshot_claim s"
proof -
  obtain s where "task_read sha st io dir (Some task) = Inr s" "t = snapshot_claim s"
    using assms by (cases "task_read sha st io dir (Some task)") (auto simp: ledger_tasks_def)
  then show ?thesis using task_read_at that by blast
qed

lemma commit_effect_result:
  assumes "commit_effect sha env l dir i digest bytes at = (Inr r, l', dir')"
  shows "er_state r = EffectCommitted" "er_result_digest r = Some digest" "er_result_size_bytes r = Some bytes"
    "er_task_id r = in_task_id i" "er_operation r = in_operation i"
proof -
  from assms have "run_transaction sha env l dir (Inr ()) (\<lambda>_. commit_record sha env (el_root l) i digest bytes at) = (Inr r, l', dir')"
    by (auto simp: commit_effect_def with_write_transaction_def split: sum.splits option.splits if_splits)
  then have "er_state r = EffectCommitted \<and> er_result_digest r = Some digest \<and> er_result_size_bytes r = Some bytes \<and>
      er_task_id r = in_task_id i \<and> er_operation r = in_operation i"
  proof (cases rule: run_transaction_cases)
    case (ran u records res')
    then obtain rs where "commit_record sha env (el_root l) i digest bytes at records dir = (Inr (r, rs), dir')"
      by (cases res') auto
    then show ?thesis
      by (auto simp: commit_record_def Let_def ensure_operation_matches_iff
          split: option.splits sum.splits if_splits prod.splits)
  qed simp
  then show "er_state r = EffectCommitted" "er_result_digest r = Some digest" "er_result_size_bytes r = Some bytes"
    "er_task_id r = in_task_id i" "er_operation r = in_operation i" by blast+
qed

lemma permitted_record:
  assumes "prepare_for_claim sha2 env clock (ledger_tasks sha st io tasks) l dir i = (Inr outcome, l', dir')"
  obtains s v now owner token where "clock = Inr now" "task_at sha tasks (in_task_id i) = Some s" "st_envelope s = Some v"
    "live_claim (snapshot_claim s) i owner token now"
    "in_fence_digest i = fence_digest sha2 (in_task_id i) (in_owner_generation i) owner (in_attempt i) token"
proof -
  obtain now t generation where t: "clock = Inr now" "ts_read (ledger_tasks sha st io tasks) (in_task_id i) = Inr t"
    "verify_effect_task_claim sha2 (ledger_tasks sha st io tasks) i generation now = Inr ()"
    using prepare_reads_claim [OF assms] .
  obtain s where s: "task_at sha tasks (in_task_id i) = Some s" "t = snapshot_claim s" using ledger_reads_record [OF t(2)] .
  obtain owner token where live: "live_claim (t\<lparr>tc_task_id := in_task_id i\<rparr>) i owner token now"
    "fence_digest sha2 (tc_task_id t) (in_owner_generation i) owner (in_attempt i) token = in_fence_digest i"
    using verify_claim_ok [OF t(3,2)] by metis
  have id: "tc_task_id t = in_task_id i" using task_at_validate [OF s(1)] s(2) by (simp add: snapshot_claim_def)
  then have "live_claim (snapshot_claim s) i owner token now" using live(1) s(2) by (simp add: live_claim_def)
  moreover from this obtain v where "st_envelope s = Some v" by (auto simp: live_claim_def snapshot_claim_def)
  ultimately show ?thesis using that t(1) s(1) live(2) id by simp
qed

subsection \<open>A concrete permit and its commit\<close>

lemma sample_envelope_claim:
  "envelope_claim sample_envelope = \<lparr>te_kind = ''invoice.pay'', te_agent_id = ''agent-a'',
     te_input_digest = ''sha256:'' @ sample_sha [], te_idempotency_key = ''pay-1''\<rparr>"
  by (simp add: envelope_claim_def sample_envelope_def sha256_text_def)

lemma sample_permit:
  assumes "task_at sample_sha d ''task-1'' = Some s" and "st_status s = ''running''" "st_attempts s = 1" "st_owner_generation s = 1"
    "st_execution_owner s = Some ''worker''" "st_cancel_token s = Some ''token''" "st_envelope s = Some sample_envelope"
    "\<not> st_cancel_requested s" "\<not> st_cancel_accepted s" "st_deadline_at_ms s = Some 107"
  shows "fst (prepare_for_claim sample_sha sample_env (Inr 7)
     (ledger_tasks sample_sha sample_fs (sample_ios 0) d) sample_ledger [] sample_intent) =
   Inr (CreatedEffect (effect_prepared (sample_intent\<lparr>in_prepared_at_ms := 7\<rparr>)))"
proof (rule prepare_creates [where w = "\<lparr>lw_root = ''/p'', lw_generation = 1\<rparr>" and records = "[]", OF _ _ _ _ refl _ _ _ sample_valid])
  have "task_read sample_sha sample_fs (sample_ios 0) d (Some ''task-1'') = Inr s"
    by (rule task_at_read) (use assms(1) sample_effect_ids(4) in \<open>simp_all add: sample_ios_def\<close>)
  then have "ts_read (ledger_tasks sample_sha sample_fs (sample_ios 0) d) ''task-1'' = Inr (snapshot_claim s)"
    by (simp add: ledger_tasks_def)
  then show "verify_effect_task_claim sample_sha (ledger_tasks sample_sha sample_fs (sample_ios 0) d) sample_intent
      (lw_generation \<lparr>lw_root = ''/p'', lw_generation = 1\<rparr>) 7 = Inr ()"
    using assms(2-) task_at_validate [OF assms(1)]
    by (simp add: verify_effect_task_claim_def sample_intent_def sample_operation_def snapshot_claim_def sample_envelope_claim
        deadline_expired_def fence_digest_def sample_digest(1))
qed (simp_all add: sample_ledger_def ledger_tasks_def sample_fs_def runtime_writer_generation_def sample_env_def load_effect_records_def)

definition sample_effect_dir :: directory where
  "sample_effect_dir = [(effect_file sample_sha ''pay-1'', effect_record_to_storage (effect_prepared sample_intent))]"

lemma sample_committed:
  "\<exists>r l dir. commit_effect sample_sha sample_env sample_ledger sample_effect_dir sample_intent (sha256_text sample_sha []) 0 9 = (Inr r, l, dir)"
proof -
  let ?r = "effect_prepared sample_intent"
  let ?c = "?r\<lparr>er_state := EffectCommitted, er_committed_at_ms := Some 9, er_result_digest := Some (sha256_text sample_sha []),
    er_result_size_bytes := Some 0\<rparr>"
  have valid: "effect_validate sample_sha ?r = Inr ()"
    using sample_valid [of 5] by (simp add: sample_intent_def)
  have key: "record_key ?r = ''pay-1''" by (simp add: effect_prepared_def sample_intent_def sample_operation_def)
  have digest: "validate_sha256_digest field (sha256_text sample_sha []) = Inr ()" for field
    using canonical_digest_ok [OF sample_digest(2)] unfolding sample_digest(1) sha256_text_def .
  have "load_effect_file sample_sha sample_env ''/p/effects'' (effect_file sample_sha (record_key ?r), effect_record_to_storage ?r) = Inr ?r"
  proof -
    have "text_ok (effect_record_to_storage ?r)"
      unfolding effect_text using graphic_text_ok render_chars [OF effect_fields_ok [OF valid sample_digest(2)]] by blast
    then show ?thesis
      using effect_record_roundtrip [OF valid sample_digest(2)] effect_file_parts(2) [OF sample_digest(2)]
      by (simp add: load_effect_file_def map_err_def Let_def sample_env_def)
  qed
  then have load: "load_effect_records sample_sha sample_env ''/p/effects'' sample_effect_dir = Inr (bt_insert ''pay-1'' ?r [])"
    using effect_file_parts(1) [OF sample_digest(2)] unfolding key
    by (simp add: load_effect_records_def sample_effect_dir_def sample_env_def key)
  have fence: "validate_sha256_digest field (''sha256:'' @ sample_sha []) = Inr ()" for field
    using digest unfolding sha256_text_def .
  have "effect_operation_new sample_sha ''pay-1'' ''invoice.pay'' ''agent-a'' ''pay'' (''sha256:'' @ sample_sha []) =
      Inr sample_operation"
    unfolding effect_operation_new_iff using fence sample_effect_ids by (simp only: sample_digest(1) sample_operation_def simp_thms)
  then have "effect_validate sample_sha ?c = Inr ()" using digest fence sample_effect_ids(4)
    by (simp only: effect_validate_def effect_prepared_def sample_intent_def) (simp add: sample_operation_def
       request_id_parse_def iffD2 [OF validate_id_iff] word_less_nat_alt)
  moreover have "bt_get (bt_insert ''pay-1'' ?r []) (intent_key sample_intent) = Some ?r"
    by (simp add: bt_get_def sample_intent_def sample_operation_def)
  moreover have "er_operation ?r = in_operation sample_intent" "er_task_id ?r = in_task_id sample_intent"
    "er_owner_generation ?r = in_owner_generation sample_intent" "er_attempt ?r = in_attempt sample_intent"
    "er_fence_digest ?r = in_fence_digest sample_intent" "er_state ?r \<noteq> EffectCommitted"
    by (simp_all add: effect_prepared_def)
  ultimately have "commit_record sample_sha sample_env ''/p/effects'' sample_intent (sha256_text sample_sha []) 0 9
      (bt_insert ''pay-1'' ?r []) sample_effect_dir = (Inr (?c, bt_insert (intent_key sample_intent) ?c (bt_insert ''pay-1'' ?r [])),
        dir_put sample_effect_dir (effect_file sample_sha (record_key ?c)) (effect_record_to_storage ?c))"
    by (simp add: commit_record_def ensure_operation_matches_def persist_effect_record_def atomic_write_def Let_def sample_env_def
        del: bt_insert.simps)
  moreover have "map_option lw_generation (el_writer sample_ledger) = Some (in_owner_generation sample_intent)"
    "el_root sample_ledger = ''/p/effects''" "el_writer sample_ledger = Some \<lparr>lw_root = ''/p'', lw_generation = 1\<rparr>"
    by (simp_all add: sample_ledger_def sample_intent_def)
  moreover have "ee_verify sample_env = Inr ()" by (simp add: sample_env_def)
  ultimately show ?thesis
    using load digest by (simp add: commit_effect_def with_write_transaction_def run_transaction_def del: bt_insert.simps)
qed

end
