(* ===== verification/Spec2Isabelle.thy ===== *)
theory Spec2Isabelle
  imports Core_Capability Core_Digest Core_Invoke Sched_Generation Sched_Routing
    Storage_EventFiles Event_Bus Agent_Runtime Policy_Documents Capability_Host Lifecycle_Handoff
    Hardware_Drivers Hardware_Hotplug Adapter_Restart Storage_AdmissionLock Storage_TaskEffects
begin

text \<open>
  Eva-CLI is a local runtime for agents: events on topics are logged, routed to the mailboxes of
  agents and handled; agents call capabilities, which a router maps to adapters; policies decide what
  a call may do; a supervisor replaces one runtime generation by the next; hardware devices come and
  go under leases. This development models the parts of it that decide and that keep state, crate by
  crate, and proves what makes them correct. Paths below are relative to \<^verbatim>\<open>src/crates\<close>.

  \<^bold>\<open>How the code is represented.\<close> A Rust string is its UTF-8 byte list; a \<^verbatim>\<open>Result\<close> is a sum with the
  complete error value on the left; \<^verbatim>\<open>?\<close> is \<open>res_bind\<close>; a panic is a value of its own where one can
  happen. A method on \<^verbatim>\<open>&mut self\<close> returns its result together with the new state, so what an error
  path leaves behind is part of every statement. \<^verbatim>\<open>usize\<close> counters are natural numbers; \<^verbatim>\<open>u32\<close>, \<^verbatim>\<open>u64\<close> and
  \<^verbatim>\<open>u128\<close> values on which the code computes are words, and so are the \<^verbatim>\<open>usize\<close> fields of a task, for a
  64-bit target. A \<^verbatim>\<open>BTreeMap\<close> is a strictly sorted association
  list. Clocks, outcomes of file operations, handlers, audit sinks, permission providers, the YAML
  library and the digest of the crate \<^verbatim>\<open>sha2\<close> are arguments of the definitions that use them.

  \<^bold>\<open>The library.\<close> Eva\_Prelude, Eva\_Text, Eva\_Hex and Eva\_Map hold the fragment of the Rust standard
  library the crates use, with the splitting, joining, printing and lookup laws all codecs rest on.
  Eva\_Interfaces has the contracts that several crates implement: \<open>bounded_fifo\<close> (interpreted on
  mailboxes and agent queues) and \<open>unique_registry\<close> (mailbox registry, capability registry, device
  registry, upgrade lock). Further interfaces stand with their first provider: \<open>event_log\<close>
  (in-memory and filesystem logs) and \<open>handoff_store\<close> (in-memory and file stores).

  \<^bold>\<open>eva-core.\<close> Core\_Error (error.rs), Core\_Ids (ids.rs), Core\_Topic (topic.rs), Core\_Capability
  (capability.rs), Core\_Event (event.rs), Core\_Invoke (invoke.rs), Core\_Digest (digest.rs). Shown:
  parsers accept exactly the well-formed names and return what they were given; the linear wildcard
  matcher decides the language of a pattern; chains of child events share one correlation id;
  responses have an output or an error exactly as their status says; the in-place message schedule is
  that of the standard and padding is injective below \<open>2 ^ 61\<close> bytes.

  \<^bold>\<open>eva-scheduler.\<close> Sched\_Mailbox (mailbox.rs, registry.rs), Sched\_Routing (routing.rs, matcher.rs,
  subscription.rs, retry.rs), Sched\_Generation (generation.rs). Shown: mailboxes are lossless bounded
  queues; a delivery leaves exactly a prefix of its plan behind; retries end; new work is stamped
  only with the active generation or with a candidate reported healthy.

  \<^bold>\<open>eva-storage.\<close> Storage\_EventLog, Storage\_EventCodec, Storage\_EventRoundtrip and Storage\_EventFiles
  (event\_log.rs, and the atomic write of durable\_backend.rs), Storage\_Admission
  and Storage\_AdmissionLock (provider\_admission.rs), Storage\_Effects (effect\_ledger.rs, over a record of the task fields and
  store operations it reads), and the task store (task\_state.rs) described next. Shown: logs are append-only, gapless and final in their acknowledgements;
  strict reading inverts writing; reopening a directory after writes that succeed or fail before the
  rename gives the log that was in memory. The admission table is modelled twice: each call in one piece,
  and one file operation at a time with the lock as a file of the directory. For any interleaving of the
  file operations of any processes, any failures but that of the existence test and processes that stop
  anywhere, the lock excludes and the table never grants more sessions than the limit; it becomes free
  again when reservations expire, but not when a lock file is left behind or a session name has a tab. An
  effect is permitted at most once per idempotency key, only to the attempt that holds the claim of
  its task, and a committed result is final.

  \<^bold>\<open>The task store of eva-storage.\<close> Storage\_Tasks has the snapshot of a durable task with its validation
  and lifecycle methods, Storage\_TaskCodec its text in the unversioned format and v2 to v5, Storage\_TaskStore the store
  with the rules of transitions and the commit under the locks, Storage\_TaskOps the public operations.
  The loops that repeat a read, a decision and a commit with an expected version are one definition,
  \<open>cas_rounds\<close>, which every operation instantiates with its decision. Other processes may change the
  directory before each access of an operation; what they do is an argument. Storage\_TaskRoundtrip and
  Storage\_TaskText show what the text keeps; Storage\_TaskHistory that every operation is a sequence of
  commits and alias rebuilds and what a later record of a task has in common with an earlier one.
  Storage\_TaskLaws, Storage\_TaskRecovery and Storage\_TaskClaims have the properties: claims are granted,
  bounded by the attempt policy and totally ordered; a worker with a live fence gets its outcome
  committed and a stale one changes nothing; a completed task keeps its result; retries wait for their
  backoff; cancellation gives way only to a committed effect, which a restart carries over to the task;
  and two ways in which a record is lost. Storage\_TaskEffects puts the effect ledger on this store; the
  properties at the end of this theory are about the two together.

  \<^bold>\<open>eva-eventbus, eva-agent.\<close> Event\_Bus (bus.rs, in\_memory.rs, dead\_letter.rs) and Agent\_Runtime
  (lifecycle.rs, queue.rs, runtime.rs). Shown: receipts are the log; when a batch of dead
  letters can be replayed; every branch of running the next event, with the number of attempts.

  \<^bold>\<open>eva-policy.\<close> Policy\_Permissions (permissions.rs, sandbox.rs, effective.rs), Policy\_Gate (domains.rs,
  mutation\_inventory.rs), Policy\_Documents (the readers of domains.rs). Shown: the effective policy is
  the intersection of its layers; the exact condition of the check of a request and of the gate for
  every high-risk action; what the documents determine.

  \<^bold>\<open>eva-capability.\<close> Capability\_Host (gate.rs, host\_api.rs, registry.rs, router.rs, selection.rs). Shown: an authorized plan exists exactly for what registry, policy and manifest allow.

  \<^bold>\<open>eva-lifecycle.\<close> Lifecycle\_Generation (generation.rs, drain.rs, rollback.rs, supervisor.rs) and
  Lifecycle\_Handoff (apply\_lock.rs, handoff.rs). Shown: the lineage of generations; at most one holder
  of an upgrade lock; the order of what a handoff writes, for every outcome of every file operation.

  \<^bold>\<open>eva-hardware, eva-observability.\<close> Hardware\_Devices (state.rs, registry.rs, hotplug.rs), Hardware\_Drivers
  and Hardware\_Hotplug (lifecycle.rs), over the audit values of Observe\_Audit (audit.rs, trace.rs).
  Shown: sessions and leases agree and every session was vetted; a scan publishes each change once
  and a second scan nothing; the state file is read back as written.

  \<^bold>\<open>eva-adapter.\<close> Adapter\_Restart (restart.rs, with the configuration record of eva-config). Shown: a
  failing provider is restarted exactly as often as its budget allows, with bounded delays.

  \<^bold>\<open>Bounds and termination.\<close> All definitions are total. The recursions that are not structural
  (\<open>strip_start\<close>, \<open>trim_start_matches\<close>, \<open>pad_zeros\<close>, \<open>chunks_exact\<close>, \<open>first_mentions\<close>, \<open>crash_loop\<close>) have measures; the loop that
  waits for an admission lock makes 200 attempts (a counter of the stage of a process) and the loop against concurrent commits 32 rounds
  because the code does. No definition has fuel. The
  bound \<open>2 ^ 61\<close> of the padding is where the bit length no longer fits its 64-bit field; the bounds
  \<open>2 ^ 64\<close> and \<open>2 ^ 128\<close> in the codecs are those of the parsed types; framed texts are shorter than
  \<open>2 ^ 64\<close> because their length is a 64-bit \<^verbatim>\<open>usize\<close>; the sequence numbers of a log wrap
  at \<open>2 ^ 64\<close>, which the statements about logs exclude by their length.

  \<^bold>\<open>Not modelled.\<close> The layouts, locks, leases and probes of durable\_backend.rs beyond the atomic write,
  and state\_store.rs, artifact\_store.rs (except what the task store uses), provider\_process.rs,
  audit\_store.rs and sqlite.rs of eva-storage: their decisions are interleaved with operating-system
  locks or a database. durable.rs and recoverable.rs of eva-eventbus, which combine the bus with those
  stores. eva-runtime, eva-cli and eva-release, which wire services, threads, sockets and files.
  eva-mcp and the transports and process control of eva-adapter, which are network and process code.
  eva-lua-host, which binds a virtual machine the sources only call. eva-backup, eva-discovery and the
  service managers of eva-lifecycle, which act on the machine. eva-config and eva-memory, except the
  records other parts take from them. The simulated driver and the discovery of project devices of
  eva-hardware; exporters, metrics and retention of eva-observability. One-field builder methods,
  accessors and \<^verbatim>\<open>Debug\<close> output are used as record operations and have no definitions of their own.
\<close>

section \<open>Effects and the tasks they belong to\<close>

text \<open>
  C15. An effect is permitted only to the newest claim of its task. Let a worker be granted a claim of a
  task that is not called latest-basic, and let any operations of any processes follow. When preparing an effect of that task then succeeds on a
  ledger that reads the task directory, the attempt of the intent is that of the claim or of a later one,
  never of an earlier one, and lies between one and the maximum of the immutable policy of the task. The
  record in the directory is running, not cancelled and before its deadline; its writer generation and
  attempt are those of the intent, its owner and token are those the fence of the intent was made from,
  and its envelope agrees with the intent in key, kind, agent and input.
\<close>

theorem permit_is_for_live_attempt:
  assumes "others_step sha ios" and "t \<noteq> ''latest-basic''"
    and "try_claim_queued sha st0 ios t worker secret at d0 = (Inr (Some c), d1)"
    and "list_all (\<lambda>(st, ios, call). others_step sha ios) calls"
    and "prepare_for_claim sha2 env clock (ledger_tasks sha st io (task_calls_dir sha calls d1)) l dir i = (Inr outcome, l', dir')"
    and "in_task_id i = t"
  shows "fe_attempt (ec_fence c) \<le> in_attempt i \<and>
    (\<exists>s v now owner token. clock = Inr now \<and> task_at sha (task_calls_dir sha calls d1) t = Some s \<and>
      st_status s = ''running'' \<and> \<not> st_cancel_requested s \<and> \<not> st_cancel_accepted s \<and>
      (\<forall>d. st_deadline_at_ms s = Some d \<longrightarrow> now < d) \<and>
      st_owner_generation s = in_owner_generation i \<and> st_attempts s = in_attempt i \<and>
      st_execution_owner s = Some owner \<and> st_cancel_token s = Some token \<and>
      in_fence_digest i = fence_digest sha2 t (in_owner_generation i) owner (in_attempt i) token \<and>
      st_envelope s = Some v \<and> ev_idempotency_key v = intent_key i \<and> ev_kind v = op_task_kind (in_operation i) \<and>
      ev_agent_id v = op_agent_id (in_operation i) \<and> input_digest (ev_input v) = op_input_digest (in_operation i) \<and>
      1 \<le> unat (in_attempt i) \<and> unat (in_attempt i) \<le> unat (ap_max_attempts (ev_attempt_policy v)))"
proof -
  obtain s v now owner token where s: "clock = Inr now" "task_at sha (task_calls_dir sha calls d1) t = Some s" "st_envelope s = Some v"
    "live_claim (snapshot_claim s) i owner token now"
    "in_fence_digest i = fence_digest sha2 t (in_owner_generation i) owner (in_attempt i) token"
    using permitted_record [OF assms(5)] unfolding assms(6) by metis
  note claim = try_claim_result [OF assms(1-3)]
  obtain s1 where "task_at sha d1 t = Some s1" "later_record s1 s"
    using task_steps_follow [OF task_calls_steps [OF assms(4)] assms(2) claim(2) s(2)] by blast
  then have newest: "fe_attempt (ec_fence c) \<le> st_attempts s"
    using claim(3) by (auto simp: later_record_def)
  have "st_execution_owner s \<noteq> None" using s(4) by (simp add: live_claim_def snapshot_claim_def)
  then have "st_attempts s \<noteq> 0"
    using validate_claim_parts(3) task_validate_parts(5) task_at_validate [OF s(2)] by blast
  then have "1 \<le> unat (st_attempts s)" by (simp add: unat_gt_0 Suc_le_eq)
  moreover have "unat (st_attempts s) \<le> unat (ap_max_attempts (ev_attempt_policy v))"
    using attempts_within_policy [OF s(2,3)] by simp
  ultimately show ?thesis
    using s newest by (auto simp: live_claim_def snapshot_claim_def envelope_claim_def)
qed

theorem permit_is_for_live_attempt_witness:
  "\<exists>c d1 s. try_claim_queued sample_sha sample_fs sample_ios ''task-1'' ''worker'' ''token'' 7 (sample_dir sample_queued) =
      (Inr (Some c), d1) \<and> fe_attempt (ec_fence c) \<le> in_attempt sample_intent \<and>
     task_at sample_sha d1 ''task-1'' = Some s \<and> st_status s = ''running'' \<and> st_attempts s = 1"
proof -
  let ?s = "sample_granted ''token'' sample_queued"
  let ?d = "stored_commit ?s (sample_dir sample_queued)"
  have "st_status ?s = ''running''" "st_attempts ?s = 1" "st_owner_generation ?s = 1" "st_execution_owner ?s = Some ''worker''"
    "st_cancel_token ?s = Some ''token''" "st_envelope ?s = Some sample_envelope" "\<not> st_cancel_requested ?s"
    "\<not> st_cancel_accepted ?s" "st_deadline_at_ms ?s = Some 107"
    by (simp_all add: sample_granted_def sample_queued_def empty_task_state_def next_record_def sample_calm(4))
  then obtain l' dir' where prepared: "prepare_for_claim sample_sha sample_env (Inr 7)
      (ledger_tasks sample_sha sample_fs (sample_ios 0) (task_calls_dir sample_sha [] ?d)) sample_ledger [] sample_intent =
      (Inr (CreatedEffect (effect_prepared (sample_intent\<lparr>in_prepared_at_ms := 7\<rparr>))), l', dir')"
    using sample_permit [OF sample_first(2)] by (simp add: task_calls_dir_def) (metis prod.collapse)
  have "list_all (\<lambda>(st, ios, call). others_step sample_sha ios) []" "in_task_id sample_intent = ''task-1''"
    by (simp_all add: sample_intent_def)
  from permit_is_for_live_attempt [OF sample_calm(3) sample_names sample_first(1) this(1) prepared this(2)]
  show ?thesis using sample_first(1,2) by (auto simp: task_calls_dir_def sample_intent_def)
qed

text \<open>
  C4. A committed effect settles its task. Once the ledger has committed the result of an effect and a
  recovery has carried it over to the task, the task is completed with exactly the result of the effect,
  whatever operations of whatever processes follow, as long as its record can be read; and the ledger
  permits no further effect to that task.
\<close>

theorem committed_effect_settles_task:
  assumes "commit_effect sha2 env l dir i digest bytes at = (Inr r, l', dir')"
    and "recover_task_from_committed_effect sha st ios (er_task_id r) (op_operation_digest (er_operation r)) digest bytes tasks =
      (Inr s, tasks1)"
    and "er_task_id r \<noteq> ''latest-basic''" and "list_all (\<lambda>(st, ios, call). others_step sha ios) calls"
    and "in_task_id j = er_task_id r"
  shows "(\<forall>s'. task_at sha (task_calls_dir sha calls tasks1) (er_task_id r) = Some s' \<longrightarrow> st_status s' = ''completed'' \<and>
      st_result_digest s' = er_result_digest r \<and> st_result_size_bytes s' = er_result_size_bytes r) \<and>
    is_err (fst (prepare_for_claim sha2 env' clock (ledger_tasks sha st' io (task_calls_dir sha calls tasks1)) l2 dir2 j))"
proof -
  let ?tasks = "task_calls_dir sha calls tasks1"
  note result = commit_effect_result(2,3) [OF assms(1)] and recovered = recovered_result [OF assms(2,3)]
  have final: "st_status s' = ''completed'' \<and> st_result_digest s' = er_result_digest r \<and> st_result_size_bytes s' = er_result_size_bytes r"
    if "task_at sha ?tasks (er_task_id r) = Some s'" for s'
  proof -
    from task_steps_follow [OF task_calls_steps [OF assms(4)] assms(3) recovered(1) that]
    obtain s1 where "task_at sha tasks1 (er_task_id r) = Some s1" "st_status s1 = ''completed'' \<longrightarrow> st_status s' = ''completed'' \<and>
        st_result_digest s' = st_result_digest s1 \<and> st_result_size_bytes s' = st_result_size_bytes s1"
      by (auto simp: later_record_def)
    then show ?thesis using recovered(2) result by auto
  qed
  have "is_err (fst (prepare_for_claim sha2 env' clock (ledger_tasks sha st' io ?tasks) l2 dir2 j))"
  proof (rule ccontr)
    obtain res l3 dir3 where run: "prepare_for_claim sha2 env' clock (ledger_tasks sha st' io ?tasks) l2 dir2 j = (res, l3, dir3)"
      by (rule prod_cases3)
    assume "\<not> is_err (fst (prepare_for_claim sha2 env' clock (ledger_tasks sha st' io ?tasks) l2 dir2 j))"
    then obtain outcome where "res = Inr outcome" using run by (cases res) auto
    then obtain s1 owner token now where "task_at sha ?tasks (in_task_id j) = Some s1" "live_claim (snapshot_claim s1) j owner token now"
      using permitted_record [OF run [unfolded \<open>res = Inr outcome\<close>]] by metis
    then show False using final assms(5) by (auto simp: live_claim_def snapshot_claim_def)
  qed
  then show ?thesis using final by blast
qed

theorem committed_effect_settles_task_witness:
  "\<exists>(r :: effect_record) s tasks1. er_task_id r = ''task-1'' \<and> er_result_digest r = Some (sha256_text sample_sha []) \<and>
     task_at sample_sha tasks1 ''task-1'' = Some s \<and> st_status s = ''completed'' \<and> st_result_digest s = er_result_digest r \<and>
     is_err (fst (prepare_for_claim sample_sha sample_env (Inr 7) (ledger_tasks sample_sha sample_fs (sample_ios 0) tasks1)
       sample_ledger [] sample_intent))"
proof -
  obtain r l dir where commit: "commit_effect sample_sha sample_env sample_ledger sample_effect_dir sample_intent (sha256_text sample_sha []) 0 9 =
      (Inr r, l, dir)"
    using sample_committed by blast
  have r: "er_task_id r = ''task-1''" "op_operation_digest (er_operation r) = sha256_text sample_sha []"
    "er_result_digest r = Some (sha256_text sample_sha [])"
    using commit_effect_result [OF commit] by (simp_all add: sample_intent_def sample_operation_def sha256_text_def)
  note recovery = calm_recovery [OF sample_calm(1) sample_restart(1) sample_task_at [OF sample_task_simps(2)] sample_restart(4,3,2)
    sample_result sample_result sample_fenced(5) sample_names sample_kept sample_restart(5), where bytes = 0]
  have "er_task_id r \<noteq> ''latest-basic''" "in_task_id sample_intent = er_task_id r"
    unfolding r(1) by (simp_all add: sample_intent_def)
  note task = this
  let ?p = "next_record sample_restarted (effect_completed (sha256_text sample_sha []) (sha256_text sample_sha []) 0 sample_running)"
  have run: "recover_task_from_committed_effect sample_sha sample_restarted sample_ios (er_task_id r) (op_operation_digest (er_operation r))
      (sha256_text sample_sha []) 0 (sample_dir sample_running) = (Inr ?p, stored_commit ?p (sample_dir sample_running))"
    unfolding r(1,2) by (rule recovery(1))
  have "list_all (\<lambda>(st, ios, call). others_step sample_sha ios) []" by simp
  from committed_effect_settles_task [OF commit run task(1) this task(2), of sample_env "Inr 7" sample_fs "sample_ios 0" sample_ledger "[]"]
  show ?thesis
    using r recovery(2)
    by (intro exI [of _ r] exI [of _ ?p] exI [of _ "stored_commit ?p (sample_dir sample_running)"]) (simp add: task_calls_dir_def)
qed

end
